(* ===== verification/Prelude.thy ===== *)
theory Prelude
  imports Complex_Main "HOL-Library.Word" "HOL-Library.AList" "HOL-Library.Char_ord"
    "HOL-Library.List_Lexorder"
begin

text \<open>
  What every component of the model shares: Python values that Isabelle has no type for
  (byte strings, exceptions, insertion-ordered dictionaries, bounded deques), the few
  operations of the language on them (slices, text encodings, decimal printing) and the
  lemmas the component theories use automatically.

  A Python \<open>str\<close> is a \<open>string\<close> whose characters are the code points below 256; text with
  code points beyond that range is outside the model. A Python \<open>bytes\<close> is a list of
  8-bit words. A dictionary is an association list in insertion order: \<open>AList.update\<close>
  overwrites in place or appends, as \<open>d[k] = v\<close> does, and \<open>AList.delete\<close> is \<open>d.pop(k, None)\<close>.
\<close>

named_theorems model_simps
  \<open>unfolding rules of the model's small definitions\<close>
named_theorems inv_intros
  \<open>one rule per operation: it keeps its component's invariant\<close>

section \<open>Exceptions and results\<close>

text \<open>The exception classes the source raises or catches, with the text \<open>str(exc)\<close> gives.\<close>

datatype exn_kind =
    ValueErr | IndexErr | KeyErr | TypeErr | AttributeErr | RuntimeErr | PermissionErr
  | StructErr | UnicodeErr | SecurityErr | CapabilityErr | PluginErr | ValidationErr
  | HttpErr nat | OsErr | JsonErr | AssertErr

datatype pyexn = PyExn (exn_kind: exn_kind) (exn_str: string)

type_synonym 'a result = "pyexn + 'a"

definition bindR :: "'a result \<Rightarrow> ('a \<Rightarrow> 'b result) \<Rightarrow> 'b result" where
  "bindR r f = (case r of Inl e \<Rightarrow> Inl e | Inr x \<Rightarrow> f x)"

lemma bindR_simps [simp]:
  "bindR (Inl e) f = Inl e"
  "bindR (Inr x) f = f x"
  by (simp_all add: bindR_def)

lemma bindR_Inr_iff: "bindR r f = Inr y \<longleftrightarrow> (\<exists>x. r = Inr x \<and> f x = Inr y)"
  by (cases r) auto

fun is_ok :: "'a result \<Rightarrow> bool" where
  "is_ok (Inl _) = False"
| "is_ok (Inr _) = True"

lemma is_ok_iff: "is_ok r \<longleftrightarrow> (\<exists>x. r = Inr x)"
  by (cases r) auto

section \<open>Byte strings and text\<close>

type_synonym byte = "8 word"
type_synonym bytes = "byte list"

text \<open>\<open>xs[i:j]\<close> for non-negative bounds: Python clamps both ends.\<close>

definition slice :: "nat \<Rightarrow> nat \<Rightarrow> 'a list \<Rightarrow> 'a list" where
  "slice i j xs = take (j - i) (drop i xs)"

lemma slice_append [simp]: "i = length as \<Longrightarrow> j = i + length bs \<Longrightarrow> slice i j (as @ bs @ cs) = bs"
  by (simp add: slice_def)

lemma length_slice: "length (slice i j xs) = min (j - i) (length xs - i)"
  by (simp add: slice_def min.commute)

text \<open>\<open>xs[-n:]\<close>: for \<open>n = 0\<close> this is the whole list, as \<open>-0\<close> is 0.\<close>

definition last_n :: "nat \<Rightarrow> 'a list \<Rightarrow> 'a list" where
  "last_n n xs = (if n = 0 then xs else drop (length xs - n) xs)"

lemma length_last_n_le: "0 < n \<Longrightarrow> length (last_n n xs) \<le> n"
  by (simp add: last_n_def)

lemma set_last_n: "set (last_n n xs) \<subseteq> set xs"
  by (auto simp: last_n_def dest: in_set_dropD)

definition byte_of :: "char \<Rightarrow> byte" where
  "byte_of c = word_of_nat (of_char c)"

definition char_of_byte :: "byte \<Rightarrow> char" where
  "char_of_byte b = char_of (unat b)"

lemma unat_byte_of [simp]: "unat (byte_of c) = of_char c"
  by (simp add: byte_of_def unat_of_nat)

lemma char_of_byte_of [simp]: "char_of_byte (byte_of c) = c"
  by (simp add: char_of_byte_def)

definition is_ascii :: "char \<Rightarrow> bool" where
  "is_ascii c \<longleftrightarrow> (of_char c :: nat) < 128"

text \<open>\<open>s.encode("ascii")\<close> and \<open>b.decode("ascii")\<close>; both raise outside 7 bits.\<close>

definition ascii_encode :: "string \<Rightarrow> bytes result" where
  "ascii_encode s =
     (if list_all is_ascii s then Inr (map byte_of s)
      else Inl (PyExn UnicodeErr ''ordinal not in range(128)''))"

definition ascii_decode :: "bytes \<Rightarrow> string result" where
  "ascii_decode bs =
     (if list_all (\<lambda>b. unat b < 128) bs then Inr (map char_of_byte bs)
      else Inl (PyExn UnicodeErr ''ordinal not in range(128)''))"

lemma ascii_encode_Inr:
  "ascii_encode s = Inr bs \<longleftrightarrow> list_all is_ascii s \<and> bs = map byte_of s"
  by (auto simp: ascii_encode_def)

lemma length_ascii_encode: "ascii_encode s = Inr bs \<Longrightarrow> length bs = length s"
  by (auto simp: ascii_encode_Inr)

lemma ascii_decode_encode: "ascii_encode s = Inr bs \<Longrightarrow> ascii_decode bs = Inr s"
  by (auto simp: ascii_encode_Inr ascii_decode_def list_all_iff is_ascii_def map_idI)

text \<open>UTF-8 of a code point below 256: one byte below 128, two bytes above.\<close>

definition utf8_char :: "char \<Rightarrow> bytes" where
  "utf8_char c =
     (let n = (of_char c :: nat) in
      if n < 128 then [word_of_nat n]
      else [word_of_nat (192 + n div 64), word_of_nat (128 + n mod 64)])"

definition utf8_encode :: "string \<Rightarrow> bytes" where
  "utf8_encode s = concat (map utf8_char s)"

fun utf8_decode :: "bytes \<Rightarrow> string result" where
  "utf8_decode [] = Inr []"
| "utf8_decode (b # bs) =
     (if unat b < 128 then bindR (utf8_decode bs) (\<lambda>s. Inr (char_of_byte b # s))
      else if unat b = 194 \<or> unat b = 195 then
        (case bs of
           [] \<Rightarrow> Inl (PyExn UnicodeErr ''unexpected end of data'')
         | b' # bs' \<Rightarrow>
             if 128 \<le> unat b' \<and> unat b' < 192
             then bindR (utf8_decode bs')
                    (\<lambda>s. Inr (char_of ((unat b - 192) * 64 + (unat b' - 128)) # s))
             else Inl (PyExn UnicodeErr ''invalid continuation byte''))
      else Inl (PyExn UnicodeErr ''invalid start byte''))"

lemma unat_byte_lit: "n < 256 \<Longrightarrow> unat (word_of_nat n :: byte) = n"
  by (simp add: unat_of_nat)

lemma utf8_decode_1:
  "unat b < 128 \<Longrightarrow> utf8_decode (b # bs) = bindR (utf8_decode bs) (\<lambda>s. Inr (char_of_byte b # s))"
  by (simp only: utf8_decode.simps if_True)

lemma utf8_decode_2:
  assumes "unat b = 192 + q" and "q = 2 \<or> q = 3" and "unat b' = 128 + r" and "r < 64"
  shows "utf8_decode (b # b' # bs) = bindR (utf8_decode bs) (\<lambda>s. Inr (char_of (q * 64 + r) # s))"
proof -
  have "\<not> unat b < 128" "unat b = 194 \<or> unat b = 195" "128 \<le> unat b' \<and> unat b' < 192"
    "unat b - 192 = q" "unat b' - 128 = r"
    using assms by auto
  then show ?thesis
    by (simp only: utf8_decode.simps(2) simp_thms if_True if_False list.case)
qed

lemma utf8_decode_char:
  "utf8_decode (utf8_char c @ bs) = bindR (utf8_decode bs) (\<lambda>s. Inr (c # s))"
proof -
  obtain n :: nat where oc: "of_char c = n" and n: "n < 256" and c: "char_of n = c"
    using nat_of_char_less_256 [of c] char_of_char [of c] by metis
  show ?thesis
  proof (cases "n < 128")
    case True
    obtain b :: byte where b: "b = word_of_nat n" by simp
    then have "unat b = n" using n by (simp only: unat_byte_lit)
    moreover have "utf8_char c = [b]"
      using True by (simp add: utf8_char_def oc b)
    ultimately show ?thesis
      using True c by (simp add: utf8_decode_1 char_of_byte_def)
  next
    case False
    define q r where "q = n div 64" and "r = n mod 64"
    have "q < 4"
      using n by (simp add: q_def less_mult_imp_div_less)
    moreover have "2 \<le> q"
      using False div_le_mono [of 128 n 64] by (simp add: q_def)
    ultimately have q: "q = 2 \<or> q = 3" by linarith
    have r: "r < 64" and nqr: "n = q * 64 + r"
      by (simp_all add: q_def r_def)
    obtain b b' :: byte where b: "b = word_of_nat (192 + q)" "b' = word_of_nat (128 + r)"
      by simp
    have "unat b = 192 + q" "unat b' = 128 + r"
      using q r by (auto simp only: b unat_byte_lit)
    moreover have "utf8_char c = [b, b']"
      using False by (simp add: utf8_char_def oc q_def r_def b del: of_nat_add)
    ultimately show ?thesis
      using q r c nqr by (simp add: utf8_decode_2)
  qed
qed

lemma utf8_decode_encode [simp]: "utf8_decode (utf8_encode s) = Inr s"
  by (induction s) (simp_all add: utf8_encode_def utf8_decode_char)

section \<open>Decimal text\<close>

definition digit :: "nat \<Rightarrow> char" where
  "digit n = char_of (48 + n)"

definition digit_val :: "char \<Rightarrow> nat" where
  "digit_val c = of_char c - 48"

definition is_digit :: "char \<Rightarrow> bool" where
  "is_digit c \<longleftrightarrow> 48 \<le> (of_char c :: nat) \<and> (of_char c :: nat) \<le> 57"

lemma digit_laws [simp]:
  "n < 10 \<Longrightarrow> digit_val (digit n) = n"
  "n < 10 \<Longrightarrow> is_digit (digit n)"
  by (simp_all add: digit_def digit_val_def is_digit_def)

text \<open>\<open>str(n)\<close> of a natural number and of an int.\<close>

fun show_nat :: "nat \<Rightarrow> string" where
  "show_nat n = (if n < 10 then [digit n] else show_nat (n div 10) @ [digit (n mod 10)])"

declare show_nat.simps [simp del]

definition show_int :: "int \<Rightarrow> string" where
  "show_int i = (if i < 0 then ''-'' @ show_nat (nat (- i)) else show_nat (nat i))"

definition nat_of_digits :: "string \<Rightarrow> nat" where
  "nat_of_digits s = foldl (\<lambda>a c. 10 * a + digit_val c) 0 s"

lemma show_nat_not_Nil [simp]: "show_nat n \<noteq> []"
  by (subst show_nat.simps) simp

lemma show_nat_digits: "list_all is_digit (show_nat n)"
proof (induction n rule: show_nat.induct)
  case (1 n)
  then show ?case by (subst show_nat.simps) simp
qed

lemma nat_of_digits_show [simp]: "nat_of_digits (show_nat n) = n"
proof (induction n rule: show_nat.induct)
  case (1 n)
  then show ?case by (subst show_nat.simps) (auto simp: nat_of_digits_def)
qed

lemma show_nat_inject [simp]: "show_nat m = show_nat n \<longleftrightarrow> m = n"
  by (metis nat_of_digits_show)

lemma show_nat_width: "n < 10 ^ k \<Longrightarrow> 0 < k \<Longrightarrow> length (show_nat n) \<le> k"
proof (induction n arbitrary: k rule: show_nat.induct)
  case (1 n)
  show ?case
  proof (cases "n < 10")
    case True
    then show ?thesis using 1(3) by (subst show_nat.simps) simp
  next
    case False
    then have "k \<noteq> 1" using 1(2) by auto
    then have k: "k = Suc (k - 1)" "0 < k - 1" using 1(3) by simp_all
    have "n div 10 < 10 ^ (k - 1)" using 1(2) k(1) by (metis less_mult_imp_div_less mult.commute power_Suc)
    then show ?thesis using 1(1) [OF False _ k(2)] False k by (subst show_nat.simps) simp
  qed
qed

section \<open>Dictionaries in insertion order\<close>

type_synonym ('k, 'v) dict = "('k \<times> 'v) list"

abbreviation dict_ok :: "('k, 'v) dict \<Rightarrow> bool" where
  "dict_ok d \<equiv> distinct (map fst d)"

definition dict_get :: "('k, 'v) dict \<Rightarrow> 'k \<Rightarrow> 'v \<Rightarrow> 'v" where
  "dict_get d k dflt = (case map_of d k of None \<Rightarrow> dflt | Some v \<Rightarrow> v)"

text \<open>\<open>{k: f(v) for k, v in d.items()}\<close> and \<open>d.update(e)\<close>.\<close>

definition dict_map :: "('v \<Rightarrow> 'w) \<Rightarrow> ('k, 'v) dict \<Rightarrow> ('k, 'w) dict" where
  "dict_map f d = map (\<lambda>(k, v). (k, f v)) d"

definition dict_update :: "('k, 'v) dict \<Rightarrow> ('k, 'v) dict \<Rightarrow> ('k, 'v) dict" where
  "dict_update d e = foldl (\<lambda>acc (k, v). AList.update k v acc) d e"

lemma map_of_dict_map [simp]: "map_of (dict_map f d) k = map_option f (map_of d k)"
  by (induction d) (auto simp: dict_map_def)

lemma keys_dict_map [simp]: "map fst (dict_map f d) = map fst d"
  by (induction d) (auto simp: dict_map_def)

lemma dict_map_comp [simp]: "dict_map f (dict_map g d) = dict_map (\<lambda>v. f (g v)) d"
  by (induction d) (auto simp: dict_map_def)

lemma dict_map_id: "(\<And>k v. (k, v) \<in> set d \<Longrightarrow> f v = v) \<Longrightarrow> dict_map f d = d"
  by (induction d) (auto simp: dict_map_def)

lemma map_of_update [simp]: "map_of (AList.update k v d) = (map_of d)(k \<mapsto> v)"
  by (rule AList.update_conv')

lemma map_of_AList_delete [simp]: "map_of (AList.delete k d) = (map_of d)(k := None)"
  by (rule AList.delete_conv')

lemma dict_ok_update [simp]: "dict_ok d \<Longrightarrow> dict_ok (AList.update k v d)"
  by (rule AList.distinct_update)

lemma dict_ok_delete [simp]: "dict_ok d \<Longrightarrow> dict_ok (AList.delete k d)"
  by (rule AList.distinct_delete)

lemma dict_ok_dict_update [simp]: "dict_ok d \<Longrightarrow> dict_ok (dict_update d e)"
  unfolding dict_update_def by (induction e arbitrary: d) auto

lemma map_of_dict_update:
  "dict_ok e \<Longrightarrow> map_of (dict_update d e) = map_of d ++ map_of e"
proof (induction e arbitrary: d)
  case Nil
  then show ?case by (simp add: dict_update_def)
next
  case (Cons p e)
  obtain k v where p: "p = (k, v)" by (cases p)
  have "dict_update d (p # e) = dict_update (AList.update k v d) e"
    by (simp add: dict_update_def p)
  moreover from Cons.prems have "k \<notin> dom (map_of e)"
    by (simp add: p dom_map_of_conv_image_fst)
  ultimately have "map_of (dict_update d (p # e)) = (map_of d ++ map_of e)(k \<mapsto> v)"
    using Cons by (auto simp: p map_add_upd_left simp del: fun_upd_apply)
  then show ?case
    by (simp only: p map_of.simps fst_conv snd_conv map_add_upd)
qed

lemma dict_get_update [simp]:
  "dict_get (AList.update k v d) k' x = (if k' = k then v else dict_get d k' x)"
  by (simp add: dict_get_def)

section \<open>Bounded deques\<close>

text \<open>\<open>deque(maxlen=n).append(x)\<close>: a full deque drops its oldest entry; one of length 0
  stays empty.\<close>

definition deque_append :: "nat \<Rightarrow> 'a \<Rightarrow> 'a list \<Rightarrow> 'a list" where
  "deque_append n x q =
     (if n = 0 then [] else if length q < n then q @ [x] else tl q @ [x])"

lemma length_deque_append: "length q \<le> n \<Longrightarrow> length (deque_append n x q) \<le> n"
  by (auto simp: deque_append_def)

lemma set_deque_append: "set (deque_append n x q) \<subseteq> insert x (set q)"
  by (cases q) (auto simp: deque_append_def)

lemma deque_append_last_n:
  assumes "0 < n"
  shows "deque_append n x (last_n n xs) = last_n n (xs @ [x])"
proof (cases "length xs < n")
  case True
  with assms show ?thesis by (simp add: deque_append_def last_n_def)
next
  case False
  with assms have "Suc (length xs) - n = Suc (length xs - n)"
    by (simp add: Suc_diff_le)
  with False assms show ?thesis
    by (simp add: deque_append_def last_n_def drop_Suc tl_drop)
qed

text \<open>
  The interface every bounded log of the program offers: it is filled by \<open>add\<close> only and
  holds the \<open>cap\<close> most recent entries. Clients reason with the history of additions.
\<close>

locale bounded_log =
  fixes add :: "'e \<Rightarrow> 's \<Rightarrow> 's"
    and entries :: "'s \<Rightarrow> 'e list"
    and cap :: "'s \<Rightarrow> nat"
  assumes entries_add: "entries (add e s) = deque_append (cap s) e (entries s)"
    and cap_add: "cap (add e s) = cap s"
begin

lemma cap_fold: "cap (fold add es s) = cap s"
  by (induction es arbitrary: s) (simp_all add: cap_add)

lemma bounded_step: "length (entries s) \<le> cap s \<Longrightarrow> length (entries (add e s)) \<le> cap (add e s)"
  by (simp add: entries_add cap_add length_deque_append)

lemma history:
  assumes "0 < cap s" and "entries s = last_n (cap s) hs"
  shows "entries (fold add es s) = last_n (cap s) (hs @ es)"
  using assms
proof (induction es arbitrary: s hs)
  case Nil
  then show ?case by simp
next
  case (Cons e es)
  from Cons.prems have "entries (add e s) = last_n (cap (add e s)) (hs @ [e])"
    by (simp add: entries_add cap_add deque_append_last_n)
  with Cons.prems Cons.IH[of "add e s" "hs @ [e]"] show ?case
    by (simp add: cap_add)
qed

lemma history_empty:
  "0 < cap s \<Longrightarrow> entries s = [] \<Longrightarrow> entries (fold add es s) = last_n (cap s) es"
  using history[of s "[]" es] by (simp add: last_n_def)

end

end
