(* ===== verification/PyText.thy ===== *)
theory PyText
  imports Prelude
begin

text \<open>
  The string methods of Python the program calls, for code points below 256: \<open>upper\<close>, \<open>lower\<close>,
  \<open>split\<close>, \<open>strip\<close> and \<open>rsplit\<close>. The two letters whose upper case lies beyond that range
  (micro sign, y with diaeresis) stay as they are, which no comparison of upper-cased texts can tell.
\<close>

section \<open>Case\<close>

definition upper_char :: "char \<Rightarrow> string" where
  "upper_char c =
     (let n = (of_char c :: nat) in
      if n = 223 then ''SS''
      else if (97 \<le> n \<and> n \<le> 122) \<or> (224 \<le> n \<and> n \<le> 254 \<and> n \<noteq> 247) then [char_of (n - 32)]
      else [c])"

definition py_upper :: "string \<Rightarrow> string" where
  "py_upper s = concat (map upper_char s)"

definition lower_char :: "char \<Rightarrow> char" where
  "lower_char c =
     (let n = (of_char c :: nat) in
      if (65 \<le> n \<and> n \<le> 90) \<or> (192 \<le> n \<and> n \<le> 222 \<and> n \<noteq> 215) then char_of (n + 32) else c)"

definition py_lower :: "string \<Rightarrow> string" where
  "py_lower s = map lower_char s"

section \<open>Splitting\<close>

definition py_space :: "char \<Rightarrow> bool" where
  "py_space c \<longleftrightarrow> (let n = (of_char c :: nat) in
     (9 \<le> n \<and> n \<le> 13) \<or> (28 \<le> n \<and> n \<le> 32) \<or> n = 133 \<or> n = 160)"

definition py_strip :: "string \<Rightarrow> string" where
  "py_strip s = rev (dropWhile py_space (rev (dropWhile py_space s)))"

text \<open>\<open>s.split()\<close>: the runs of non-space characters.\<close>

function split_ws :: "string \<Rightarrow> string list" where
  "split_ws s =
     (let t = dropWhile py_space s in
      if t = [] then []
      else takeWhile (\<lambda>c. \<not> py_space c) t # split_ws (dropWhile (\<lambda>c. \<not> py_space c) t))"
  by pat_completeness auto
termination
proof (relation "measure length")
  fix s t :: string
  assume t: "t = dropWhile py_space s" and ne: "t \<noteq> []"
  have "\<not> py_space (hd t)" using hd_dropWhile [of py_space s] t ne by simp
  then have "length (dropWhile (\<lambda>c. \<not> py_space c) t) < length t"
    using ne by (cases t) (auto intro: le_imp_less_Suc length_dropWhile_le)
  also have "length t \<le> length s" by (simp add: t length_dropWhile_le)
  finally show "(dropWhile (\<lambda>c. \<not> py_space c) t, s) \<in> measure length" by simp
qed simp

declare split_ws.simps [simp del]

text \<open>A word: not empty, no space in it. Words joined by a space split into themselves.\<close>

definition is_word :: "string \<Rightarrow> bool" where
  "is_word w \<longleftrightarrow> w \<noteq> [] \<and> list_all (\<lambda>c. \<not> py_space c) w"

lemma split_ws_Nil [simp]: "split_ws [] = []"
  by (simp add: split_ws.simps)

lemma split_ws_space [simp]: "py_space c \<Longrightarrow> split_ws (c # s) = split_ws s"
  by (subst split_ws.simps, subst (2) split_ws.simps) simp

lemma split_ws_word:
  assumes "is_word w" and "s = [] \<or> py_space (hd s)"
  shows "split_ws (w @ s) = w # split_ws s"
proof -
  have w: "\<forall>c \<in> set w. \<not> py_space c" "w \<noteq> []" using assms(1) by (auto simp: is_word_def list_all_iff)
  then have d: "dropWhile py_space (w @ s) = w @ s" by (cases w) auto
  have "takeWhile (\<lambda>c. \<not> py_space c) s = []" "dropWhile (\<lambda>c. \<not> py_space c) s = s"
    using assms(2) by (cases s; simp)+
  then have "takeWhile (\<lambda>c. \<not> py_space c) (w @ s) = w" "dropWhile (\<lambda>c. \<not> py_space c) (w @ s) = s"
    using w by simp_all
  then show ?thesis by (subst split_ws.simps) (simp add: d w)
qed

fun join_words :: "char \<Rightarrow> string list \<Rightarrow> string" where
  "join_words c [] = []"
| "join_words c [w] = w"
| "join_words c (w # v # ws) = w @ c # join_words c (v # ws)"

lemma split_join_words:
  "list_all is_word ws \<Longrightarrow> py_space c \<Longrightarrow> split_ws (join_words c ws) = ws"
proof (induction c ws rule: join_words.induct)
  case (2 c w)
  then show ?case using split_ws_word [of w "[]"] by simp
qed (simp_all add: split_ws_word)

text \<open>\<open>s.split(c)\<close> and \<open>s.split(c, 1)[0]\<close>.\<close>

fun split_on :: "char \<Rightarrow> string \<Rightarrow> string list" where
  "split_on c [] = [[]]"
| "split_on c (x # xs) =
     (if x = c then [] # split_on c xs
      else (case split_on c xs of [] \<Rightarrow> [[x]] | p # ps \<Rightarrow> (x # p) # ps))"

lemma split_on_not_Nil [simp]: "split_on c s \<noteq> []"
  by (induction s) (auto split: list.split)

definition before :: "char \<Rightarrow> string \<Rightarrow> string" where
  "before c s = takeWhile (\<lambda>x. x \<noteq> c) s"

lemma before_append [simp]: "c \<notin> set p \<Longrightarrow> before c (p @ c # s) = p"
proof -
  assume c: "c \<notin> set p"
  have "takeWhile (\<lambda>x. x \<noteq> c) (p @ c # s) = p @ takeWhile (\<lambda>x. x \<noteq> c) (c # s)"
    by (rule takeWhile_append2) (use c in blast)
  then show ?thesis by (simp add: before_def)
qed

text \<open>\<open>s.rsplit(c, 1)\<close> as the text before and after the last \<open>c\<close>, if there is one.\<close>

definition rsplit1 :: "char \<Rightarrow> string \<Rightarrow> (string \<times> string) option" where
  "rsplit1 c s =
     (let r = rev s; tl' = takeWhile (\<lambda>x. x \<noteq> c) r in
      if length tl' = length s then None
      else Some (rev (drop (Suc (length tl')) r), rev tl'))"

lemma rsplit1_append [simp]: "c \<notin> set q \<Longrightarrow> rsplit1 c (p @ c # q) = Some (p, q)"
proof -
  assume q: "c \<notin> set q"
  then have "takeWhile (\<lambda>x. x \<noteq> c) (rev q @ c # rev p) = rev q"
    by (subst takeWhile_append2) auto
  then show ?thesis by (simp add: rsplit1_def Let_def)
qed

lemma rsplit1_None: "c \<notin> set s \<Longrightarrow> rsplit1 c s = None"
proof -
  assume "c \<notin> set s"
  then have "takeWhile (\<lambda>x. x \<noteq> c) (rev s) = rev s"
    by (simp only: takeWhile_eq_all_conv set_rev) auto
  then show ?thesis by (simp only: rsplit1_def Let_def length_rev refl if_True)
qed

lemma rsplit1_Some: "rsplit1 c s = Some (p, q) \<Longrightarrow> s = p @ c # q \<and> c \<notin> set q"
proof -
  assume a: "rsplit1 c s = Some (p, q)"
  have "c \<in> set s" using a rsplit1_None by fastforce
  then obtain p' q' where s: "s = p' @ c # q'" "c \<notin> set q'"
    by (meson split_list_last)
  then show ?thesis using a by simp
qed

section \<open>Representation\<close>

text \<open>\<open>repr(s)\<close>: quoted with a single quote, or a double one when only that avoids escapes.\<close>

definition repr_char :: "char \<Rightarrow> char \<Rightarrow> string" where
  "repr_char q c =
     (let n = (of_char c :: nat) in
      if c = q \<or> n = 92 then [CHR 0x5C, c]
      else if n = 9 then [CHR 0x5C, CHR ''t'']
      else if n = 10 then [CHR 0x5C, CHR ''n'']
      else if n = 13 then [CHR 0x5C, CHR ''r'']
      else if n < 32 \<or> (127 \<le> n \<and> n \<le> 160) \<or> n = 173 then
        (let h = (\<lambda>k. if k < 10 then char_of (48 + k) else char_of (87 + k)) in
         [CHR 0x5C, CHR ''x'', h (n div 16), h (n mod 16)])
      else [c])"

definition py_repr :: "string \<Rightarrow> string" where
  "py_repr s =
     (let q = (if CHR 0x27 \<in> set s \<and> CHR 0x22 \<notin> set s then CHR 0x22 else CHR 0x27)
      in q # concat (map (repr_char q) s) @ [q])"

text \<open>\<open>s.ljust(n)\<close> and \<open>s.rjust(n)\<close>, the formats \<open><n\<close> and \<open>>n\<close> of strings: a longer text is left as it is.\<close>

definition ljust :: "nat \<Rightarrow> string \<Rightarrow> string" where
  "ljust n s = s @ replicate (n - length s) (CHR '' '')"

definition rjust :: "nat \<Rightarrow> string \<Rightarrow> string" where
  "rjust n s = replicate (n - length s) (CHR '' '') @ s"

lemma length_just [simp]: "length (ljust n s) = max n (length s)" "length (rjust n s) = max n (length s)"
  by (simp_all add: ljust_def rjust_def)

text \<open>\<open>s.replace(old, new)\<close>.\<close>

function replace_text :: "string \<Rightarrow> string \<Rightarrow> string \<Rightarrow> string" where
  "replace_text old new s =
     (case s of
        [] \<Rightarrow> if old = [] then new else []
      | x # xs \<Rightarrow>
          if old = [] then new @ x # replace_text old new xs
          else if take (length old) s = old then new @ replace_text old new (drop (length old) s)
          else x # replace_text old new xs)"
  by pat_completeness auto

termination
  by (relation "measure (\<lambda>(old, new, s). length s)") auto

declare replace_text.simps [simp del]

end
