(* ===== verification/Act.thy ===== *)
theory Act
  imports Prelude
begin

text \<open>
  Operations of a stateful object: a method maps the object's state to its outcome (a value or the
  exception it raises), the state it leaves behind, and the calls it made on its collaborators,
  in order. A statement that raises ends the method, but what it did before stays done.
\<close>

type_synonym ('s, 'e, 'a) act = "'s \<Rightarrow> 'a result \<times> 's \<times> 'e list"

definition retA :: "'a \<Rightarrow> ('s, 'e, 'a) act" where
  "retA x s = (Inr x, s, [])"

definition raiseA :: "pyexn \<Rightarrow> ('s, 'e, 'a) act" where
  "raiseA e s = (Inl e, s, [])"

definition bindA :: "('s, 'e, 'a) act \<Rightarrow> ('a \<Rightarrow> ('s, 'e, 'b) act) \<Rightarrow> ('s, 'e, 'b) act" where
  "bindA m f s =
     (case m s of (r, s', es) \<Rightarrow>
        (case r of
           Inl e \<Rightarrow> (Inl e, s', es)
         | Inr x \<Rightarrow> (case f x s' of (r', s'', es') \<Rightarrow> (r', s'', es @ es'))))"

definition thenA :: "('s, 'e, unit) act \<Rightarrow> ('s, 'e, 'b) act \<Rightarrow> ('s, 'e, 'b) act" where
  "thenA m n = bindA m (\<lambda>_. n)"

definition callA :: "'e \<Rightarrow> ('s, 'e, unit) act" where
  "callA e s = (Inr (), s, [e])"

definition getA :: "('s \<Rightarrow> 'a) \<Rightarrow> ('s, 'e, 'a) act" where
  "getA f s = (Inr (f s), s, [])"

definition modifyA :: "('s \<Rightarrow> 's) \<Rightarrow> ('s, 'e, unit) act" where
  "modifyA f s = (Inr (), f s, [])"

definition liftA :: "'a result \<Rightarrow> ('s, 'e, 'a) act" where
  "liftA r s = (r, s, [])"

fun forA :: "'x list \<Rightarrow> ('x \<Rightarrow> ('s, 'e, unit) act) \<Rightarrow> ('s, 'e, unit) act" where
  "forA [] f = retA ()"
| "forA (x # xs) f = thenA (f x) (forA xs f)"

text \<open>\<open>try: m except Exception: h\<close> keeps what \<open>m\<close> did before it raised.\<close>

definition catchA :: "('s, 'e, 'a) act \<Rightarrow> (pyexn \<Rightarrow> ('s, 'e, 'a) act) \<Rightarrow> ('s, 'e, 'a) act" where
  "catchA m h s =
     (case m s of (r, s', es) \<Rightarrow>
        (case r of
           Inl e \<Rightarrow> (case h e s' of (r', s'', es') \<Rightarrow> (r', s'', es @ es'))
         | Inr x \<Rightarrow> (Inr x, s', es)))"

definition value_of :: "'a result \<times> 's \<times> 'e list \<Rightarrow> 'a result" where
  "value_of o' = fst o'"

definition state_of :: "'a result \<times> 's \<times> 'e list \<Rightarrow> 's" where
  "state_of o' = fst (snd o')"

definition calls_of :: "'a result \<times> 's \<times> 'e list \<Rightarrow> 'e list" where
  "calls_of o' = snd (snd o')"

lemma outcome_simps [simp]:
  "value_of (r, s, es) = r"
  "state_of (r, s, es) = s"
  "calls_of (r, s, es) = es"
  by (simp_all add: value_of_def state_of_def calls_of_def)

named_theorems act_simps \<open>running an operation\<close>

lemmas act_defs [act_simps] = retA_def raiseA_def callA_def getA_def modifyA_def liftA_def

lemma bindA_Inr [act_simps]: "m s = (Inr x, s', es) \<Longrightarrow>
    bindA m f s = (value_of (f x s'), state_of (f x s'), es @ calls_of (f x s'))"
  by (simp add: bindA_def value_of_def state_of_def calls_of_def case_prod_unfold)

lemma bindA_Inl [act_simps]: "m s = (Inl e, s', es) \<Longrightarrow> bindA m f s = (Inl e, s', es)"
  by (simp add: bindA_def)

lemma thenA_Inr [act_simps]: "m s = (Inr (), s', es) \<Longrightarrow>
    thenA m n s = (value_of (n s'), state_of (n s'), es @ calls_of (n s'))"
  by (simp add: thenA_def bindA_Inr)

lemma thenA_Inl [act_simps]: "m s = (Inl e, s', es) \<Longrightarrow> thenA m n s = (Inl e, s', es)"
  by (simp add: thenA_def bindA_Inl)

lemma outcome_eq: "o' = (value_of o', state_of o', calls_of o')"
  by (simp add: value_of_def state_of_def calls_of_def)

text \<open>The parts of the outcome of a sequence, by the outcome of its first operation.\<close>

lemma bindA_parts:
  "value_of (bindA m f s) = (case value_of (m s) of Inl e \<Rightarrow> Inl e | Inr x \<Rightarrow> value_of (f x (state_of (m s))))"
  "state_of (bindA m f s) =
     (case value_of (m s) of Inl e \<Rightarrow> state_of (m s) | Inr x \<Rightarrow> state_of (f x (state_of (m s))))"
  "calls_of (bindA m f s) =
     calls_of (m s) @ (case value_of (m s) of Inl e \<Rightarrow> [] | Inr x \<Rightarrow> calls_of (f x (state_of (m s))))"
  by (cases "m s"; cases "fst (m s)";
      simp add: bindA_def value_of_def state_of_def calls_of_def case_prod_unfold)+

lemma catchA_parts:
  "state_of (catchA m h s) =
     (case value_of (m s) of Inl e \<Rightarrow> state_of (h e (state_of (m s))) | Inr x \<Rightarrow> state_of (m s))"
  "calls_of (catchA m h s) =
     calls_of (m s) @ (case value_of (m s) of Inl e \<Rightarrow> calls_of (h e (state_of (m s))) | Inr x \<Rightarrow> [])"
  "value_of (catchA m h s) =
     (case value_of (m s) of Inl e \<Rightarrow> value_of (h e (state_of (m s))) | Inr x \<Rightarrow> Inr x)"
  by (cases "m s"; cases "fst (m s)";
      simp add: catchA_def value_of_def state_of_def calls_of_def case_prod_unfold)+

text \<open>An invariant of the state kept by every step is kept by a sequence of steps.\<close>

definition keeps :: "('s \<Rightarrow> bool) \<Rightarrow> ('s, 'e, 'a) act \<Rightarrow> bool" where
  "keeps I m \<longleftrightarrow> (\<forall>s. I s \<longrightarrow> I (state_of (m s)))"

lemma keepsD: "keeps I m \<Longrightarrow> I s \<Longrightarrow> I (state_of (m s))"
  by (simp add: keeps_def)

lemma keeps_basic [inv_intros]:
  "keeps I (retA x)" "keeps I (raiseA e)" "keeps I (callA c)" "keeps I (getA f)" "keeps I (liftA r)"
  by (simp_all add: keeps_def act_simps)

lemma keeps_modify [inv_intros]: "(\<And>s. I s \<Longrightarrow> I (f s)) \<Longrightarrow> keeps I (modifyA f)"
  by (simp add: keeps_def modifyA_def)

lemma keeps_bind [inv_intros]: "keeps I m \<Longrightarrow> (\<And>x. keeps I (f x)) \<Longrightarrow> keeps I (bindA m f)"
  by (auto simp: keeps_def bindA_parts split: sum.split)

lemma keeps_then [inv_intros]: "keeps I m \<Longrightarrow> keeps I n \<Longrightarrow> keeps I (thenA m n)"
  unfolding thenA_def by (intro keeps_bind)

lemma keeps_catch [inv_intros]: "keeps I m \<Longrightarrow> (\<And>e. keeps I (h e)) \<Longrightarrow> keeps I (catchA m h)"
  by (auto simp: keeps_def catchA_parts split: sum.split)

lemma keeps_for [inv_intros]: "(\<And>x. keeps I (f x)) \<Longrightarrow> keeps I (forA xs f)"
  by (induction xs) (simp_all add: keeps_basic keeps_then)

text \<open>From a state with \<open>P\<close> an operation leaves one with \<open>Q\<close>, whether it returns or raises.\<close>

definition leads :: "('s \<Rightarrow> bool) \<Rightarrow> ('s, 'e, 'a) act \<Rightarrow> ('s \<Rightarrow> bool) \<Rightarrow> bool" where
  "leads P m Q \<longleftrightarrow> (\<forall>s. P s \<longrightarrow> Q (state_of (m s)))"

lemma leadsD: "leads P m Q \<Longrightarrow> P s \<Longrightarrow> Q (state_of (m s))"
  by (simp add: leads_def)

lemma leads_keeps: "keeps P m \<Longrightarrow> (\<And>s. P s \<Longrightarrow> Q s) \<Longrightarrow> leads P m Q"
  by (simp add: leads_def keeps_def)

lemma leads_bind_first:
  "keeps P m \<Longrightarrow> (\<And>s. P s \<Longrightarrow> Q s) \<Longrightarrow> (\<And>x. leads P (f x) Q) \<Longrightarrow> leads P (bindA m f) Q"
  by (auto simp: leads_def keeps_def bindA_parts split: sum.split)

lemma leads_bind_last: "leads P m Q \<Longrightarrow> (\<And>x. keeps Q (f x)) \<Longrightarrow> leads P (bindA m f) Q"
  by (auto simp: leads_def keeps_def bindA_parts split: sum.split)

lemma leads_then_first: "keeps P m \<Longrightarrow> (\<And>s. P s \<Longrightarrow> Q s) \<Longrightarrow> leads P n Q \<Longrightarrow> leads P (thenA m n) Q"
  unfolding thenA_def by (rule leads_bind_first)

lemma leads_then_last: "leads P m Q \<Longrightarrow> keeps Q n \<Longrightarrow> leads P (thenA m n) Q"
  unfolding thenA_def by (rule leads_bind_last)

text \<open>Every call an operation makes satisfies \<open>P\<close>.\<close>

definition calls_only :: "('e \<Rightarrow> bool) \<Rightarrow> ('s, 'e, 'a) act \<Rightarrow> bool" where
  "calls_only P m \<longleftrightarrow> (\<forall>s. list_all P (calls_of (m s)))"

lemma calls_basic:
  "calls_only P (retA x)" "calls_only P (raiseA e)" "calls_only P (getA f)" "calls_only P (liftA r)"
  "calls_only P (modifyA g)" "P c \<Longrightarrow> calls_only P (callA c)"
  by (simp_all add: calls_only_def act_simps)

lemma calls_bind: "calls_only P m \<Longrightarrow> (\<And>x. calls_only P (f x)) \<Longrightarrow> calls_only P (bindA m f)"
  by (auto simp: calls_only_def bindA_parts split: sum.split)

lemma calls_then: "calls_only P m \<Longrightarrow> calls_only P n \<Longrightarrow> calls_only P (thenA m n)"
  unfolding thenA_def by (intro calls_bind)

lemma calls_for: "(\<And>x. calls_only P (f x)) \<Longrightarrow> calls_only P (forA xs f)"
  by (induction xs) (simp_all add: calls_basic calls_then)

lemma calls_lift: "(\<And>x. r = Inr x \<Longrightarrow> calls_only P (f x)) \<Longrightarrow> calls_only P (bindA (liftA r) f)"
  by (cases r) (auto simp: calls_only_def bindA_parts act_defs)

text \<open>A loop over operations that always return is a fold over their states.\<close>

lemma forA_fold:
  assumes "\<And>x s. value_of (f x s) = Inr ()"
  shows "value_of (forA xs f s) = Inr ()" and "state_of (forA xs f s) = fold (\<lambda>x s. state_of (f x s)) xs s"
  using assms
  by (induction xs arbitrary: s) (simp_all add: thenA_def bindA_parts retA_def)

lemma thenA_parts:
  "value_of (thenA m n s) = (case value_of (m s) of Inl e \<Rightarrow> Inl e | Inr x \<Rightarrow> value_of (n (state_of (m s))))"
  "state_of (thenA m n s) =
     (case value_of (m s) of Inl e \<Rightarrow> state_of (m s) | Inr x \<Rightarrow> state_of (n (state_of (m s))))"
  "calls_of (thenA m n s) =
     calls_of (m s) @ (case value_of (m s) of Inl e \<Rightarrow> [] | Inr x \<Rightarrow> calls_of (n (state_of (m s))))"
  by (simp_all add: thenA_def bindA_parts)

text \<open>An operation that keeps \<open>I\<close> and makes only calls with \<open>P\<close> when started under \<open>I\<close>.\<close>

definition ensures :: "('s \<Rightarrow> bool) \<Rightarrow> ('e \<Rightarrow> bool) \<Rightarrow> ('s, 'e, 'a) act \<Rightarrow> bool" where
  "ensures I P m \<longleftrightarrow> (\<forall>s. I s \<longrightarrow> I (state_of (m s)) \<and> list_all P (calls_of (m s)))"

lemma ensures_basic:
  "ensures I P (retA x)" "ensures I P (raiseA e)" "ensures I P (getA g)" "ensures I P (liftA r)"
  "P c \<Longrightarrow> ensures I P (callA c)" "(\<And>s. I s \<Longrightarrow> I (h s)) \<Longrightarrow> ensures I P (modifyA h)"
  by (simp_all add: ensures_def act_defs)

lemma ensures_bind: "ensures I P m \<Longrightarrow> (\<And>x. ensures I P (f x)) \<Longrightarrow> ensures I P (bindA m f)"
  by (auto simp: ensures_def bindA_parts split: sum.split)

lemma ensures_then: "ensures I P m \<Longrightarrow> ensures I P n \<Longrightarrow> ensures I P (thenA m n)"
  unfolding thenA_def by (intro ensures_bind)

lemma ensures_for_in: "(\<And>x. x \<in> set xs \<Longrightarrow> ensures I P (f x)) \<Longrightarrow> ensures I P (forA xs f)"
  by (induction xs) (simp_all add: ensures_basic ensures_then)

lemma ensures_for: "(\<And>x. ensures I P (f x)) \<Longrightarrow> ensures I P (forA xs f)"
  by (induction xs) (simp_all add: ensures_basic ensures_then)

lemma ensures_get: "(\<And>s. I s \<Longrightarrow> ensures I P (f (g s))) \<Longrightarrow> ensures I P (bindA (getA g) f)"
  by (auto simp: ensures_def bindA_parts getA_def)

lemma ensuresD: "ensures I P m \<Longrightarrow> I s \<Longrightarrow> I (state_of (m s)) \<and> list_all P (calls_of (m s))"
  by (simp add: ensures_def)

text \<open>Every call an operation made is accounted for by the state it leaves.\<close>

definition marks :: "('e \<Rightarrow> 's \<Rightarrow> bool) \<Rightarrow> ('s, 'e, 'a) act \<Rightarrow> bool" where
  "marks R m \<longleftrightarrow> (\<forall>s. list_all (\<lambda>c. R c (state_of (m s))) (calls_of (m s)))"

lemma marks_basic:
  "marks R (retA x)" "marks R (raiseA e)" "marks R (getA g)" "marks R (liftA r)" "marks R (modifyA h)"
  "(\<And>s. R c s) \<Longrightarrow> marks R (callA c)"
  by (simp_all add: marks_def act_defs)

lemma marks_bind:
  assumes "marks R m" and "\<And>x. marks R (f x)" and "\<And>c x. keeps (R c) (f x)"
  shows "marks R (bindA m f)"
  using assms by (auto simp: marks_def keeps_def bindA_parts list_all_iff split: sum.split)

lemma marks_then: "marks R m \<Longrightarrow> marks R n \<Longrightarrow> (\<And>c. keeps (R c) n) \<Longrightarrow> marks R (thenA m n)"
  unfolding thenA_def by (intro marks_bind)

lemma marks_for: "(\<And>x. marks R (f x)) \<Longrightarrow> (\<And>c x. keeps (R c) (f x)) \<Longrightarrow> marks R (forA xs f)"
  by (induction xs) (auto simp: marks_basic intro!: marks_then keeps_for)

lemma marks_catch:
  assumes "marks R m" and "\<And>e. marks R (h e)" and "\<And>c e. keeps (R c) (h e)"
  shows "marks R (catchA m h)"
  using assms by (auto simp: marks_def keeps_def catchA_parts list_all_iff split: sum.split)

lemma marksD: "marks R m \<Longrightarrow> c \<in> set (calls_of (m s)) \<Longrightarrow> R c (state_of (m s))"
  by (simp add: marks_def list_all_iff)

text \<open>From a state with \<open>I\<close> an operation returns, and leaves one with \<open>J\<close>.\<close>

definition returns :: "('s \<Rightarrow> bool) \<Rightarrow> ('s, 'e, 'a) act \<Rightarrow> ('s \<Rightarrow> bool) \<Rightarrow> bool" where
  "returns I m J \<longleftrightarrow> (\<forall>s. I s \<longrightarrow> (\<exists>x s' cs. m s = (Inr x, s', cs) \<and> J s'))"

lemma returns_bind: "returns I m J \<Longrightarrow> (\<And>x. returns J (f x) K) \<Longrightarrow> returns I (bindA m f) K"
  unfolding returns_def
proof (intro allI impI)
  fix s
  assume m: "\<forall>s. I s \<longrightarrow> (\<exists>x s' cs. m s = (Inr x, s', cs) \<and> J s')"
    and f: "\<And>x. \<forall>s. J s \<longrightarrow> (\<exists>y s' cs. f x s = (Inr y, s', cs) \<and> K s')" and "I s"
  then obtain x s1 cs where m1: "m s = (Inr x, s1, cs)" "J s1" by blast
  then obtain y s2 ds where "f x s1 = (Inr y, s2, ds)" "K s2" using f by blast
  then show "\<exists>y s' cs. bindA m f s = (Inr y, s', cs) \<and> K s'" by (simp add: bindA_def m1)
qed

lemma returns_then: "returns I m J \<Longrightarrow> returns J n K \<Longrightarrow> returns I (thenA m n) K"
  unfolding thenA_def by (rule returns_bind)

lemma returns_get: "(\<And>s0. returns (\<lambda>s. I s \<and> s = s0) (f (g s0)) K) \<Longrightarrow> returns I (bindA (getA g) f) K"
  by (simp add: returns_def bindA_def getA_def)

lemma returns_lift: "(\<And>s. I s \<Longrightarrow> is_ok r) \<Longrightarrow> (\<And>x. r = Inr x \<Longrightarrow> returns I (f x) K) \<Longrightarrow> returns I (bindA (liftA r) f) K"
  unfolding returns_def bindA_def liftA_def by (cases r) fastforce+

lemma returns_modify: "(\<And>s. I s \<Longrightarrow> J (f s)) \<Longrightarrow> returns I (modifyA f) J"
  by (simp add: returns_def modifyA_def)

lemma returns_ret: "returns I (retA x) I"
  by (simp add: returns_def retA_def)

lemma returns_mono: "returns I m J \<Longrightarrow> (\<And>s. I' s \<Longrightarrow> I s) \<Longrightarrow> (\<And>s. J s \<Longrightarrow> J' s) \<Longrightarrow> returns I' m J'"
  unfolding returns_def by metis

end
