(* ===== verification/Symbology.thy ===== *)
theory Symbology
  imports Prelude
begin

text \<open>
  The APP-6(D) / MIL-STD-2525D symbology helpers of \<open>src/jdssarrow/datamodel/symbology.py\<close>:
  the enumerations, the entity catalogue, the builder \<open>sidc\<close>, the re-stamping
  \<open>with_identity\<close>, the padding \<open>normalize\<close>, the decoder \<open>parse_sidc\<close> and the conformance
  check \<open>validate_sidc\<close>. The checker can raise (\<open>int()\<close> of a digit that is not decimal), so
  it returns a \<open>result\<close>.
\<close>

section \<open>Enumerations and catalogue\<close>

datatype standard_identity =
  PENDING | UNKNOWN | ASSUMED_FRIEND | FRIEND | NEUTRAL | SUSPECT | HOSTILE

datatype sidc_status = PRESENT | ANTICIPATED | PRESENT_DAMAGED | PRESENT_DESTROYED

datatype symbol_set = LAND_UNIT | LAND_CIVILIAN | LAND_EQUIPMENT | CONTROL_MEASURE

text \<open>\<open>int(...)\<close> of the three \<open>IntEnum\<close>s.\<close>

fun identity_int :: "standard_identity \<Rightarrow> nat" where
  "identity_int PENDING = 0"
| "identity_int UNKNOWN = 1"
| "identity_int ASSUMED_FRIEND = 2"
| "identity_int FRIEND = 3"
| "identity_int NEUTRAL = 4"
| "identity_int SUSPECT = 5"
| "identity_int HOSTILE = 6"

fun status_int :: "sidc_status \<Rightarrow> nat" where
  "status_int PRESENT = 0"
| "status_int ANTICIPATED = 1"
| "status_int PRESENT_DAMAGED = 3"
| "status_int PRESENT_DESTROYED = 4"

fun symbol_set_int :: "symbol_set \<Rightarrow> nat" where
  "symbol_set_int LAND_UNIT = 10"
| "symbol_set_int LAND_CIVILIAN = 11"
| "symbol_set_int LAND_EQUIPMENT = 15"
| "symbol_set_int CONTROL_MEASURE = 25"

definition all_identities :: "standard_identity list" where
  "all_identities = [PENDING, UNKNOWN, ASSUMED_FRIEND, FRIEND, NEUTRAL, SUSPECT, HOSTILE]"

definition all_statuses :: "sidc_status list" where
  "all_statuses = [PRESENT, ANTICIPATED, PRESENT_DAMAGED, PRESENT_DESTROYED]"

text \<open>\<open>StandardIdentity(n)\<close> and \<open>Status(n)\<close>: \<open>ValueError\<close> on any other integer.\<close>

definition identity_of_int :: "int \<Rightarrow> standard_identity option" where
  "identity_of_int n = find (\<lambda>i. int (identity_int i) = n) all_identities"

definition status_of_int :: "int \<Rightarrow> sidc_status option" where
  "status_of_int n = find (\<lambda>s. int (status_int s) = n) all_statuses"

definition VERSION :: string where
  "VERSION = ''10''"

definition VALID_SYMBOL_SETS :: "string list" where
  "VALID_SYMBOL_SETS =
    [''00'', ''01'', ''02'', ''05'', ''06'', ''10'', ''11'', ''15'', ''20'', ''25'', ''27'',
     ''30'', ''35'', ''36'', ''40'', ''45'', ''46'', ''47'', ''50'', ''51'', ''52'', ''53'',
     ''54'', ''60'']"

definition ENTITIES :: "(string, symbol_set \<times> string) dict" where
  "ENTITIES =
    [(''dismounted_infantry'', (LAND_UNIT, ''121100'')),
     (''medic'', (LAND_UNIT, ''161200'')),
     (''casualty'', (LAND_UNIT, ''180100'')),
     (''hostile_contact'', (LAND_UNIT, ''110000'')),
     (''unknown_contact'', (LAND_UNIT, ''000000'')),
     (''control_point'', (CONTROL_MEASURE, ''210300''))]"

section \<open>Building and re-stamping a SIDC\<close>

definition normalize :: "string \<Rightarrow> string" where
  "normalize code = take 20 (code @ replicate 20 (CHR ''0''))"

text \<open>\<open>f"{n:02d}"\<close>.\<close>

definition fmt02 :: "nat \<Rightarrow> string" where
  "fmt02 n = (if n < 10 then CHR ''0'' # show_nat n else show_nat n)"

definition entity_entry :: "string \<Rightarrow> symbol_set \<times> string" where
  "entity_entry entity = dict_get ENTITIES entity (dict_get ENTITIES ''unknown_contact''
     (LAND_UNIT, ''000000''))"

definition sidc :: "string \<Rightarrow> standard_identity \<Rightarrow> symbol_set option \<Rightarrow> sidc_status \<Rightarrow> string" where
  "sidc entity identity symbol_set status =
     (let (entity_set, entity_code) = entity_entry entity;
          set_code = fmt02 (symbol_set_int (case symbol_set of None \<Rightarrow> entity_set | Some s \<Rightarrow> s));
          prefix = VERSION @ ''0'' @ show_nat (identity_int identity) @ set_code @
                   show_nat (status_int status) @ ''000''
      in normalize (prefix @ entity_code))"

definition with_identity :: "string \<Rightarrow> standard_identity \<Rightarrow> string" where
  "with_identity code identity =
     (let code = normalize code
      in take 3 code @ show_nat (identity_int identity) @ drop 4 code)"

section \<open>Decoding and checking\<close>

record sidc_fields =
  f_version :: string
  f_context :: string
  f_identity :: string
  f_symbol_set :: string
  f_status :: string
  f_hq_tf_dummy :: string
  f_amplifier :: string
  f_entity :: string
  f_modifier_1 :: string
  f_modifier_2 :: string

definition parse_sidc :: "string \<Rightarrow> sidc_fields" where
  "parse_sidc code =
     (let c = normalize code in
      \<lparr> f_version = slice 0 2 c, f_context = slice 2 3 c, f_identity = slice 3 4 c,
        f_symbol_set = slice 4 6 c, f_status = slice 6 7 c, f_hq_tf_dummy = slice 7 8 c,
        f_amplifier = slice 8 10 c, f_entity = slice 10 16 c, f_modifier_1 = slice 16 18 c,
        f_modifier_2 = slice 18 20 c \<rparr>)"

text \<open>
  \<open>str.isdigit\<close> below code point 256 holds for the decimal digits and for the superscripts
  one, two and three (U+00B9, U+00B2, U+00B3); \<open>int()\<close> accepts the decimal digits only.
\<close>

definition is_unicode_digit :: "char \<Rightarrow> bool" where
  "is_unicode_digit c \<longleftrightarrow> is_digit c \<or> of_char c \<in> {178, 179, 185 :: nat}"

definition str_isdigit :: "string \<Rightarrow> bool" where
  "str_isdigit s \<longleftrightarrow> s \<noteq> [] \<and> list_all is_unicode_digit s"

definition int_of_digits :: "string \<Rightarrow> nat result" where
  "int_of_digits s =
     (if s \<noteq> [] \<and> list_all is_digit s then Inr (nat_of_digits s)
      else Inl (PyExn ValueErr ''invalid literal for int() with base 10''))"

definition err_unless :: "bool \<Rightarrow> string \<Rightarrow> string list" where
  "err_unless ok msg = (if ok then [] else [msg])"

definition validate_sidc :: "string \<Rightarrow> string list result" where
  "validate_sidc code =
     (if length code \<noteq> 20 then Inr [''SIDC must be 20 digits, got '' @ show_nat (length code)]
      else if \<not> str_isdigit code then Inr [''SIDC must be all digits'']
      else
        let f = parse_sidc code;
            e1 = err_unless (f_version f = VERSION)
                   (''version must be '' @ VERSION @ '' (2525D/APP-6D), got '' @ f_version f);
            e2 = err_unless (f_context f \<in> {''0'', ''1'', ''2''})
                   (''context must be 0=reality/1=exercise/2=simulation, got '' @ f_context f)
        in bindR (int_of_digits (f_identity f)) (\<lambda>ident.
           Inr (e1 @ e2 @
             err_unless (ident \<in> set (map identity_int all_identities))
               (''standard identity '' @ f_identity f @ '' is not a valid affiliation (0-6)'') @
             err_unless (f_symbol_set f \<in> set VALID_SYMBOL_SETS)
               (''symbol set '' @ f_symbol_set f @ '' is not a valid 2525D domain'') @
             err_unless (f_status f \<in> {''0'', ''1'', ''2'', ''3'', ''4'', ''5''})
               (''status '' @ f_status f @ '' is not a valid operational status (0-5)''))))"

definition is_valid_sidc :: "string \<Rightarrow> bool result" where
  "is_valid_sidc code = bindR (validate_sidc code) (\<lambda>errors. Inr (errors = []))"

section \<open>Normal forms\<close>

lemma length_normalize [simp]: "length (normalize code) = 20"
  by (simp add: normalize_def)

lemma normalize_20 [simp]: "length code = 20 \<Longrightarrow> normalize code = code"
  by (simp add: normalize_def)

lemma normalize_idem [simp]: "normalize (normalize code) = normalize code"
  by simp

lemma show_nat_1 [simp]: "n < 10 \<Longrightarrow> show_nat n = [digit n]"
  by (subst show_nat.simps) simp

lemma identity_lt_7: "identity_int i < 7"
  by (cases i) simp_all

lemma identity_lt_10 [simp]: "identity_int i < 10"
  using identity_lt_7 [of i] by linarith

lemma status_lt_5: "status_int s < 5"
  by (cases s) simp_all

lemma status_lt_10 [simp]: "status_int s < 10"
  using status_lt_5 [of s] by linarith

lemma identity_mem_iff: "n \<in> set (map identity_int all_identities) \<longleftrightarrow> n < 7"
  by (auto simp: all_identities_def)

lemma all_identities_set [simp]: "set all_identities = UNIV"
proof -
  have "i \<in> set all_identities" for i
    by (cases i) (simp_all add: all_identities_def)
  then show ?thesis by auto
qed

lemma all_statuses_set [simp]: "set all_statuses = UNIV"
proof -
  have "s \<in> set all_statuses" for s
    by (cases s) (simp_all add: all_statuses_def)
  then show ?thesis by auto
qed

lemma identity_of_int_int [simp]: "identity_of_int (int (identity_int i)) = Some i"
  by (cases i) (simp_all add: identity_of_int_def all_identities_def)

lemma status_of_int_int [simp]: "status_of_int (int (status_int s)) = Some s"
  by (cases s) (simp_all add: status_of_int_def all_statuses_def)

lemma identity_of_int_None: "n < 0 \<or> 6 < n \<Longrightarrow> identity_of_int n = None"
  by (auto simp: identity_of_int_def all_identities_def)

text \<open>The two-digit symbol set codes the builder writes, and the shape of a catalogue entry.\<close>

lemma fmt02_values:
  "fmt02 (symbol_set_int s) =
     (case s of LAND_UNIT \<Rightarrow> ''10'' | LAND_CIVILIAN \<Rightarrow> ''11'' | LAND_EQUIPMENT \<Rightarrow> ''15''
      | CONTROL_MEASURE \<Rightarrow> ''25'')"
proof -
  have "fmt02 10 = ''10''" "fmt02 11 = ''11''" "fmt02 15 = ''15''" "fmt02 25 = ''25''"
    by code_simp+
  then show ?thesis by (cases s) simp_all
qed

lemma fmt02_symbol_set:
  "fmt02 (symbol_set_int s) \<in> set VALID_SYMBOL_SETS" "length (fmt02 (symbol_set_int s)) = 2"
  by (simp_all add: fmt02_values VALID_SYMBOL_SETS_def split: symbol_set.split)

lemma entity_entry_cases:
  "entity_entry e \<in> {(LAND_UNIT, ''121100''), (LAND_UNIT, ''161200''), (LAND_UNIT, ''180100''),
     (LAND_UNIT, ''110000''), (LAND_UNIT, ''000000''), (CONTROL_MEASURE, ''210300'')}"
  by (simp add: entity_entry_def ENTITIES_def dict_get_def)

lemma list_length_2: "length xs = 2 \<Longrightarrow> \<exists>a b. xs = [a, b]"
  by (auto simp: length_Suc_conv numeral_2_eq_2)

lemma is_digit_literals [simp]:
  "is_digit (CHR ''0'')" "is_digit (CHR ''1'')" "is_digit (CHR ''2'')" "is_digit (CHR ''3'')"
  "is_digit (CHR ''6'')" "is_digit (CHR ''8'')"
  by (simp_all add: is_digit_def)

lemma entity_code_shape:
  assumes "entity_entry e = (s, ec)"
  shows "length ec = 6 \<and> list_all is_digit ec"
  using entity_entry_cases [of e] by (auto simp: assms)

lemma normalize_16: "length code = 16 \<Longrightarrow> normalize code = code @ ''0000''"
  by (simp add: normalize_def take_replicate) (simp add: numeral_eq_Suc)

lemma sidc_eq:
  "\<exists>a b ec. [a, b] \<in> set VALID_SYMBOL_SETS \<and> length ec = 6 \<and> list_all is_digit ec \<and>
     sidc e i ss st = ''100'' @ [digit (identity_int i), a, b, digit (status_int st)] @ ''000'' @ ec @ ''0000''"
proof -
  obtain s ec where ent: "entity_entry e = (s, ec)" by (cases "entity_entry e")
  define t where "t = (case ss of None \<Rightarrow> s | Some s' \<Rightarrow> s')"
  obtain a b where ab: "fmt02 (symbol_set_int t) = [a, b]"
    using fmt02_symbol_set(2) list_length_2 by blast
  have ec: "length ec = 6" "list_all is_digit ec"
    using entity_code_shape [OF ent] by auto
  have "sidc e i ss st =
      ''100'' @ [digit (identity_int i), a, b, digit (status_int st)] @ ''000'' @ ec @ ''0000''"
    using ec(1) by (simp add: sidc_def ent VERSION_def ab normalize_16 flip: t_def)
  moreover have "[a, b] \<in> set VALID_SYMBOL_SETS"
    using fmt02_symbol_set(1) [of t] by (simp add: ab)
  ultimately show ?thesis using ec by blast
qed

section \<open>Conformance\<close>

lemma parse_sidc_20:
  assumes "length code = 20"
  shows "parse_sidc code =
    \<lparr> f_version = slice 0 2 code, f_context = [code ! 2], f_identity = [code ! 3],
      f_symbol_set = slice 4 6 code, f_status = [code ! 6], f_hq_tf_dummy = [code ! 7],
      f_amplifier = slice 8 10 code, f_entity = slice 10 16 code,
      f_modifier_1 = slice 16 18 code, f_modifier_2 = slice 18 20 code \<rparr>"
  using assms by (simp add: parse_sidc_def slice_def take_Suc_conv_app_nth hd_drop_conv_nth)

text \<open>The legal values of the constrained fields, as one predicate on a 20-character code.\<close>

definition conforms :: "string \<Rightarrow> bool" where
  "conforms code \<longleftrightarrow>
     length code = 20 \<and> list_all is_unicode_digit code \<and> slice 0 2 code = VERSION \<and>
     code ! 2 \<in> set ''012'' \<and> code ! 3 \<in> set ''0123456'' \<and>
     slice 4 6 code \<in> set VALID_SYMBOL_SETS \<and> code ! 6 \<in> set ''012345''"

lemma err_unless_Nil [simp]: "err_unless ok msg = [] \<longleftrightarrow> ok"
  by (simp add: err_unless_def)

lemma digit_lt_7_iff: "is_digit c \<and> nat_of_digits [c] < 7 \<longleftrightarrow> c \<in> set ''0123456''"
proof -
  have "is_digit c \<and> nat_of_digits [c] < 7 \<longleftrightarrow> (of_char c :: nat) \<in> {48, 49, 50, 51, 52, 53, 54}"
    by (auto simp: is_digit_def nat_of_digits_def digit_val_def)
  also have "\<dots> \<longleftrightarrow> c \<in> char_of ` {48, 49, 50, 51, 52, 53, 54 :: nat}"
    by (auto simp: char_of_eq_iff image_iff) (metis char_of_char)+
  also have "char_of ` {48, 49, 50, 51, 52, 53, 54 :: nat} = set ''0123456''"
    by (simp add: char_of_def bit_0)
  finally show ?thesis .
qed

lemma validate_20:
  assumes "length code = 20" and "list_all is_unicode_digit code"
  shows "validate_sidc code = Inr [] \<longleftrightarrow>
     slice 0 2 code = VERSION \<and> [code ! 2] \<in> {''0'', ''1'', ''2''} \<and>
     (is_digit (code ! 3) \<and> nat_of_digits [code ! 3] < 7) \<and>
     slice 4 6 code \<in> set VALID_SYMBOL_SETS \<and>
     [code ! 6] \<in> {''0'', ''1'', ''2'', ''3'', ''4'', ''5''}"
proof -
  have s: "str_isdigit code"
    using assms by (auto simp: str_isdigit_def)
  show ?thesis
  proof (cases "is_digit (code ! 3)")
    case True
    then have "int_of_digits [code ! 3] = Inr (nat_of_digits [code ! 3])"
      by (simp add: int_of_digits_def)
    then show ?thesis
      by (simp only: validate_sidc_def assms s parse_sidc_20 Let_def sidc_fields.simps bindR_simps
          append_is_Nil_conv err_unless_Nil identity_mem_iff True simp_thms sum.inject if_False)
  next
    case False
    then have "int_of_digits [code ! 3] = Inl (PyExn ValueErr ''invalid literal for int() with base 10'')"
      by (simp add: int_of_digits_def)
    then show ?thesis
      by (simp only: validate_sidc_def assms s parse_sidc_20 Let_def sidc_fields.simps bindR_simps
          False simp_thms sum.simps if_False)
  qed
qed

lemma validate_ok_iff: "validate_sidc code = Inr [] \<longleftrightarrow> conforms code"
proof (cases "length code = 20 \<and> list_all is_unicode_digit code")
  case True
  then show ?thesis
    by (simp only: validate_20 digit_lt_7_iff conforms_def simp_thms) simp
next
  case False
  then show ?thesis
    by (auto simp: validate_sidc_def conforms_def str_isdigit_def)
qed

section \<open>What the builder and the re-stamping guarantee\<close>

lemma list_all_digit_unicode: "list_all is_digit s \<Longrightarrow> list_all is_unicode_digit s"
  by (auto simp: list_all_iff is_unicode_digit_def)

lemma valid_set_digits: "x \<in> set VALID_SYMBOL_SETS \<Longrightarrow> length x = 2 \<and> list_all is_digit x"
proof -
  have "list_all (\<lambda>x. length x = 2 \<and> list_all is_digit x) VALID_SYMBOL_SETS"
    by code_simp
  then show "x \<in> set VALID_SYMBOL_SETS \<Longrightarrow> ?thesis"
    by (auto simp: list_all_iff)
qed

lemma digit_identity: "digit (identity_int i) \<in> set ''0123456''"
proof -
  have "is_digit (digit (identity_int i)) \<and> nat_of_digits [digit (identity_int i)] < 7"
    using identity_lt_7 [of i] by (simp add: nat_of_digits_def)
  then show ?thesis by (simp only: digit_lt_7_iff)
qed

lemma digit_status: "digit (status_int st) \<in> set ''012345''"
proof -
  have "list_all (\<lambda>s. digit (status_int s) \<in> set ''012345'') all_statuses"
    by code_simp
  then show ?thesis by (simp only: list_all_iff all_statuses_set) simp
qed

lemma conforms_sidc: "conforms (sidc e i ss st)"
proof -
  obtain a b ec where ab: "[a, b] \<in> set VALID_SYMBOL_SETS" and ec: "length ec = 6" "list_all is_digit ec"
    and eq: "sidc e i ss st =
      ''100'' @ [digit (identity_int i), a, b, digit (status_int st)] @ ''000'' @ ec @ ''0000''"
    using sidc_eq by blast
  have "is_digit a" "is_digit b"
    using valid_set_digits [OF ab] by simp_all
  then have "list_all is_unicode_digit (sidc e i ss st)"
    using ec unfolding eq by (intro list_all_digit_unicode) simp
  then show ?thesis
    using ab ec digit_identity [of i] digit_status [of st]
    unfolding conforms_def eq by (simp add: slice_def VERSION_def)
qed

text \<open>Every SIDC the builder \<open>sidc\<close> makes, for any entity mnemonic (known or not),
  affiliation, symbol set and status, passes the conformance check with no error.\<close>

theorem sidc_conformant: "validate_sidc (sidc entity identity symbol_set status) = Inr []"
  by (simp only: validate_ok_iff conforms_sidc)

lemma with_identity_20:
  assumes "length code = 20"
  shows "length (with_identity code i) = 20"
    and "with_identity code i = code[3 := digit (identity_int i)]"
proof -
  have "with_identity code i = code[3 := digit (identity_int i)]"
    using assms by (simp add: with_identity_def upd_conv_take_nth_drop)
  then show "length (with_identity code i) = 20"
    and "with_identity code i = code[3 := digit (identity_int i)]"
    using assms by simp_all
qed

lemma slice_list_update: "n < i \<or> j \<le> n \<Longrightarrow> slice i j (xs[n := x]) = slice i j xs"
  by (cases "n < i")
     (auto simp: slice_def drop_update_cancel drop_update_swap take_update_cancel)

lemma parse_with_identity:
  assumes "length code = 20"
  shows "parse_sidc (with_identity code i) =
    (parse_sidc code)\<lparr>f_identity := show_nat (identity_int i)\<rparr>"
  using assms
  by (simp add: with_identity_20 parse_sidc_20 slice_list_update)

lemma conforms_with_identity:
  assumes "conforms code"
  shows "conforms (with_identity code i)"
proof -
  have len: "length code = 20" and u: "list_all is_unicode_digit code"
    using assms by (simp_all add: conforms_def)
  have "is_unicode_digit (digit (identity_int i))"
    by (simp add: is_unicode_digit_def)
  then have "list_all is_unicode_digit (code[3 := digit (identity_int i)])"
    using u set_update_subset_insert [of code 3 "digit (identity_int i)"]
    by (auto simp: list_all_iff)
  then show ?thesis
    using assms digit_identity [of i] len
    unfolding conforms_def with_identity_20(2) [OF len]
    by (simp add: slice_list_update)
qed

text \<open>Re-stamping the affiliation of a conforming SIDC keeps it conforming and
  changes no decoded field but the standard identity, which becomes the requested one.\<close>

theorem with_identity_correct:
  assumes "validate_sidc code = Inr []"
  shows "validate_sidc (with_identity code identity) = Inr [] \<and>
    parse_sidc (with_identity code identity) =
      (parse_sidc code)\<lparr>f_identity := show_nat (identity_int identity)\<rparr>"
  using assms conforms_with_identity [of code identity] parse_with_identity [of code identity]
  unfolding validate_ok_iff by (simp add: conforms_def)

theorem with_identity_correct_witness:
  "validate_sidc ''10061030001612000000'' = Inr [] \<and>
   parse_sidc (with_identity ''10061030001612000000'' FRIEND) =
     (parse_sidc ''10061030001612000000'')\<lparr>f_identity := ''3''\<rparr>"
proof -
  have v: "validate_sidc ''10061030001612000000'' = Inr []" by code_simp
  have "show_nat (identity_int FRIEND) = ''3''" by code_simp
  then show ?thesis using v with_identity_correct [OF v, of FRIEND] by simp
qed

text \<open>The conformance check raises instead of reporting on exactly the 20-character
  codes that pass \<open>str.isdigit\<close> but whose affiliation position is not a decimal digit (a
  superscript digit), since it calls \<open>int()\<close> there unguarded.\<close>

theorem validate_sidc_raises_iff:
  "(\<exists>e. validate_sidc code = Inl e) \<longleftrightarrow>
     length code = 20 \<and> list_all is_unicode_digit code \<and> \<not> is_digit (code ! 3)"
proof (cases "length code = 20 \<and> list_all is_unicode_digit code")
  case True
  then have s: "str_isdigit code" and len: "length code = 20"
    by (auto simp: str_isdigit_def)
  show ?thesis
    using True
    by (cases "is_digit (code ! 3)")
       (simp_all add: validate_sidc_def s parse_sidc_20 int_of_digits_def Let_def)
next
  case False
  then show ?thesis
    by (auto simp: validate_sidc_def str_isdigit_def)
qed

end
