(* ===== verification/Json.thy ===== *)
theory Json
  imports Prelude "HOL-Library.Multiset"
begin

text \<open>
  The part of Python's \<open>json\<close> module the program relies on, on values: \<open>json.dumps\<close> with
  its separators and \<open>sort_keys\<close>, and \<open>json.loads\<close>. The control channel of the exchange
  engine and the signed policy payload are made of these texts. Floats occur in no value
  the program prints itself; their text is the pair of functions of \<open>floatlib\<close>, a parameter.
  \<open>loads\<close> recurses with the length of the text as fuel, which \<open>loads_dumps\<close> shows to be enough.
\<close>

section \<open>Values and floats\<close>

text \<open>A float is an exact rational or one of the special values; rounding is not modelled.\<close>

datatype pyfloat = Fin rat | PosInf | NegInf | NaN

fun fl_le :: "pyfloat \<Rightarrow> pyfloat \<Rightarrow> bool" where
  "fl_le NaN _ = False"
| "fl_le _ NaN = False"
| "fl_le NegInf _ = True"
| "fl_le _ PosInf = True"
| "fl_le (Fin x) (Fin y) = (x \<le> y)"
| "fl_le _ _ = False"

record floatlib =
  fl_repr :: "pyfloat \<Rightarrow> string"
  fl_parse :: "string \<Rightarrow> pyfloat option"

datatype json =
    JNull
  | JBool bool
  | JInt int
  | JFloat pyfloat
  | JStr string
  | JList "json list"
  | JDict "(string \<times> json) list"

section \<open>Printing\<close>

definition hex_digit :: "nat \<Rightarrow> char" where
  "hex_digit n = (if n < 10 then char_of (48 + n) else char_of (87 + n))"

definition hex_val :: "char \<Rightarrow> nat option" where
  "hex_val c =
     (let n = of_char c in
      if 48 \<le> n \<and> n \<le> 57 then Some (n - 48)
      else if 97 \<le> n \<and> n \<le> 102 then Some (n - 87)
      else if 65 \<le> n \<and> n \<le> 70 then Some (n - 55)
      else None)"

definition esc_char :: "char \<Rightarrow> string" where
  "esc_char c =
     (if c = CHR 0x22 then [CHR 0x5C, CHR 0x22]
      else if c = CHR 0x5C then [CHR 0x5C, CHR 0x5C]
      else if c = CHR 0x0A then [CHR 0x5C, CHR ''n'']
      else if c = CHR 0x0D then [CHR 0x5C, CHR ''r'']
      else if c = CHR 0x09 then [CHR 0x5C, CHR ''t'']
      else if c = CHR 0x0C then [CHR 0x5C, CHR ''f'']
      else if c = CHR 0x08 then [CHR 0x5C, CHR ''b'']
      else if 32 \<le> (of_char c :: nat) \<and> (of_char c :: nat) \<le> 126 then [c]
      else [CHR 0x5C, CHR ''u'', CHR ''0'', CHR ''0'',
            hex_digit (of_char c div 16), hex_digit (of_char c mod 16)])"

definition dumps_str :: "string \<Rightarrow> string" where
  "dumps_str s = CHR 0x22 # concat (map esc_char s) @ [CHR 0x22]"

fun join :: "'a list \<Rightarrow> 'a list list \<Rightarrow> 'a list" where
  "join sep [] = []"
| "join sep [x] = x"
| "join sep (x # y # xs) = x @ sep @ join sep (y # xs)"

fun dumps :: "floatlib \<Rightarrow> string \<Rightarrow> string \<Rightarrow> json \<Rightarrow> string" where
  "dumps F isep ksep JNull = ''null''"
| "dumps F isep ksep (JBool b) = (if b then ''true'' else ''false'')"
| "dumps F isep ksep (JInt i) = show_int i"
| "dumps F isep ksep (JFloat x) = fl_repr F x"
| "dumps F isep ksep (JStr s) = dumps_str s"
| "dumps F isep ksep (JList xs) = ''['' @ join isep (map (dumps F isep ksep) xs) @ '']''"
| "dumps F isep ksep (JDict d) =
     ''{'' @ join isep (map (\<lambda>(k, v). dumps_str k @ ksep @ dumps F isep ksep v) d) @ ''}''"

text \<open>\<open>sort_keys=True\<close>: every dictionary is printed in the order of its keys.\<close>

fun sort_keys :: "json \<Rightarrow> json" where
  "sort_keys (JList xs) = JList (map sort_keys xs)"
| "sort_keys (JDict d) = JDict (sort_key fst (map (\<lambda>(k, v). (k, sort_keys v)) d))"
| "sort_keys v = v"

text \<open>\<open>json.dumps(v)\<close> with its default separators, and the canonical form of \<open>signing.py\<close>.\<close>

definition json_dumps :: "floatlib \<Rightarrow> json \<Rightarrow> string" where
  "json_dumps F v = dumps F '', '' '': '' v"

definition json_dumps_canonical :: "floatlib \<Rightarrow> json \<Rightarrow> string" where
  "json_dumps_canonical F v = dumps F '','' '':'' (sort_keys v)"

section \<open>Parsing\<close>

definition is_ws :: "char \<Rightarrow> bool" where
  "is_ws c \<longleftrightarrow> c \<in> {CHR 0x20, CHR 0x09, CHR 0x0A, CHR 0x0D}"

definition skip_ws :: "string \<Rightarrow> string" where
  "skip_ws s = dropWhile is_ws s"

definition unescape :: "char \<Rightarrow> char option" where
  "unescape e =
     (if e = CHR 0x22 then Some (CHR 0x22) else if e = CHR 0x5C then Some (CHR 0x5C)
      else if e = CHR ''/'' then Some (CHR ''/'') else if e = CHR ''n'' then Some (CHR 0x0A)
      else if e = CHR ''r'' then Some (CHR 0x0D) else if e = CHR ''t'' then Some (CHR 0x09)
      else if e = CHR ''f'' then Some (CHR 0x0C) else if e = CHR ''b'' then Some (CHR 0x08)
      else None)"

definition hex4 :: "char \<Rightarrow> char \<Rightarrow> char \<Rightarrow> char \<Rightarrow> nat option" where
  "hex4 a b c d =
     (case (hex_val a, hex_val b, hex_val c, hex_val d) of
        (Some w, Some x, Some y, Some z) \<Rightarrow> Some (4096 * w + 256 * x + 16 * y + z)
      | _ \<Rightarrow> None)"

definition cons_fst :: "'a \<Rightarrow> ('a list \<times> 'b) option \<Rightarrow> ('a list \<times> 'b) option" where
  "cons_fst c r = map_option (\<lambda>(s, r). (c # s, r)) r"

fun parse_string :: "string \<Rightarrow> (string \<times> string) option" where
  "parse_string [] = None"
| "parse_string (c # cs) =
     (if c = CHR 0x22 then Some ([], cs)
      else if c = CHR 0x5C then
        (case cs of
           [] \<Rightarrow> None
         | e # es \<Rightarrow>
             if e = CHR ''u'' then
               (case es of
                  h1 # h2 # h3 # h4 # hs \<Rightarrow>
                    (case hex4 h1 h2 h3 h4 of
                       None \<Rightarrow> None
                     | Some n \<Rightarrow> if n < 256 then cons_fst (char_of n) (parse_string hs) else None)
                | _ \<Rightarrow> None)
             else (case unescape e of None \<Rightarrow> None | Some c' \<Rightarrow> cons_fst c' (parse_string es)))
      else if (of_char c :: nat) < 32 then None
      else cons_fst c (parse_string cs))"

definition digits_of :: "string \<Rightarrow> string" where
  "digits_of s = takeWhile is_digit s"

text \<open>The fraction and the exponent of a number: the longest match, or nothing.\<close>

definition frac_of :: "string \<Rightarrow> string" where
  "frac_of s = (case s of c # cs \<Rightarrow> if c = CHR ''.'' \<and> digits_of cs \<noteq> [] then c # digits_of cs else []
                | [] \<Rightarrow> [])"

definition exp_of :: "string \<Rightarrow> string" where
  "exp_of s =
     (case s of
        e # cs \<Rightarrow>
          if e = CHR ''e'' \<or> e = CHR ''E'' then
            (case cs of
               g # gs \<Rightarrow>
                 if g = CHR ''+'' \<or> g = CHR ''-'' then (if digits_of gs \<noteq> [] then e # g # digits_of gs else [])
                 else if digits_of cs \<noteq> [] then e # digits_of cs else []
             | [] \<Rightarrow> [])
          else []
      | [] \<Rightarrow> [])"

definition parse_nat_text :: "string \<Rightarrow> string" where
  "parse_nat_text s =
     (let ds = digits_of s in case ds of [] \<Rightarrow> [] | d # _ \<Rightarrow> if d = CHR ''0'' then [d] else ds)"

definition parse_number :: "floatlib \<Rightarrow> string \<Rightarrow> (json \<times> string) option" where
  "parse_number F s =
     (let (sign, t) = (case s of c # cs \<Rightarrow> if c = CHR ''-'' then ([c], cs) else ([], s) | [] \<Rightarrow> ([], s));
          ds = parse_nat_text t;
          u = drop (length ds) t;
          fr = frac_of u;
          ex = exp_of (drop (length fr) u);
          rest = drop (length fr + length ex) u
      in if ds = [] then None
         else if fr = [] \<and> ex = [] then
           Some (JInt (if sign = [] then int (nat_of_digits ds) else - int (nat_of_digits ds)), rest)
         else map_option (\<lambda>x. (JFloat x, rest)) (fl_parse F (sign @ ds @ fr @ ex)))"

definition parse_word :: "string \<Rightarrow> json \<Rightarrow> string \<Rightarrow> (json \<times> string) option" where
  "parse_word w v s = (if take (length w) s = w then Some (v, drop (length w) s) else None)"

definition parse_atom :: "floatlib \<Rightarrow> string \<Rightarrow> (json \<times> string) option" where
  "parse_atom F s =
     (case s of
        [] \<Rightarrow> None
      | c # _ \<Rightarrow>
          if c = CHR ''n'' then parse_word ''null'' JNull s
          else if c = CHR ''t'' then parse_word ''true'' (JBool True) s
          else if c = CHR ''f'' then parse_word ''false'' (JBool False) s
          else if c = CHR ''N'' then parse_word ''NaN'' (JFloat NaN) s
          else if c = CHR ''I'' then parse_word ''Infinity'' (JFloat PosInf) s
          else if take 9 s = ''-Infinity'' then Some (JFloat NegInf, drop 9 s)
          else parse_number F s)"

fun parse_value :: "floatlib \<Rightarrow> nat \<Rightarrow> string \<Rightarrow> (json \<times> string) option"
  and parse_items :: "floatlib \<Rightarrow> nat \<Rightarrow> string \<Rightarrow> (json list \<times> string) option"
  and parse_members :: "floatlib \<Rightarrow> nat \<Rightarrow> string \<Rightarrow> ((string \<times> json) list \<times> string) option"
where
  "parse_value F 0 s = None"
| "parse_value F (Suc n) s =
     (case s of
        [] \<Rightarrow> None
      | c # cs \<Rightarrow>
          if c = CHR 0x22 then map_option (\<lambda>(x, r). (JStr x, r)) (parse_string cs)
          else if c = CHR ''['' then
            (case skip_ws cs of
               [] \<Rightarrow> None
             | d # ds \<Rightarrow>
                 if d = CHR '']'' then Some (JList [], ds)
                 else map_option (\<lambda>(xs, r). (JList xs, r)) (parse_items F n (d # ds)))
          else if c = CHR ''{'' then
            (case skip_ws cs of
               [] \<Rightarrow> None
             | d # ds \<Rightarrow>
                 if d = CHR ''}'' then Some (JDict [], ds)
                 else map_option (\<lambda>(ps, r). (JDict (dict_update [] ps), r)) (parse_members F n (d # ds)))
          else parse_atom F (c # cs))"
| "parse_items F 0 s = None"
| "parse_items F (Suc n) s =
     (case parse_value F n s of
        None \<Rightarrow> None
      | Some (v, r) \<Rightarrow>
          (case skip_ws r of
             [] \<Rightarrow> None
           | d # ds \<Rightarrow>
               if d = CHR '']'' then Some ([v], ds)
               else if d = CHR '','' then cons_fst v (parse_items F n (skip_ws ds))
               else None))"
| "parse_members F 0 s = None"
| "parse_members F (Suc n) s =
     (case s of
        [] \<Rightarrow> None
      | c # cs \<Rightarrow>
          if c \<noteq> CHR 0x22 then None
          else
            (case parse_string cs of
               None \<Rightarrow> None
             | Some (k, r) \<Rightarrow>
                 (case skip_ws r of
                    [] \<Rightarrow> None
                  | d # ds \<Rightarrow>
                      if d \<noteq> CHR '':'' then None
                      else
                        (case parse_value F n (skip_ws ds) of
                           None \<Rightarrow> None
                         | Some (v, r') \<Rightarrow>
                             (case skip_ws r' of
                                [] \<Rightarrow> None
                              | e # es \<Rightarrow>
                                  if e = CHR ''}'' then Some ([(k, v)], es)
                                  else if e = CHR '','' then cons_fst (k, v) (parse_members F n (skip_ws es))
                                  else None)))))"

definition json_loads :: "floatlib \<Rightarrow> string \<Rightarrow> json result" where
  "json_loads F s =
     (case parse_value F (Suc (length s)) (skip_ws s) of
        Some (v, r) \<Rightarrow> if skip_ws r = [] then Inr v else Inl (PyExn JsonErr ''Extra data'')
      | None \<Rightarrow> Inl (PyExn JsonErr ''Expecting value''))"


section \<open>Round trip\<close>

lemma hex_val_digit [simp]: "n < 16 \<Longrightarrow> hex_val (hex_digit n) = Some n"
  by (simp add: hex_val_def hex_digit_def)

lemma parse_string_plain:
  "c \<noteq> CHR 0x22 \<Longrightarrow> c \<noteq> CHR 0x5C \<Longrightarrow> 32 \<le> (of_char c :: nat) \<Longrightarrow>
   parse_string (c # cs) = cons_fst c (parse_string cs)"
  by simp

lemma parse_string_hex:
  assumes "p < 16" and "q < 16"
  shows "parse_string (CHR 0x5C # CHR ''u'' # CHR ''0'' # CHR ''0'' # hex_digit p # hex_digit q # cs)
    = cons_fst (char_of (16 * p + q)) (parse_string cs)"
proof -
  have "hex_val CHR ''0'' = Some 0" by (simp add: hex_val_def)
  then have "hex4 CHR ''0'' CHR ''0'' (hex_digit p) (hex_digit q) = Some (16 * p + q)"
    using assms by (simp add: hex4_def)
  moreover have "16 * p + q < 256" using assms by simp
  ultimately show ?thesis by simp
qed

lemma parse_string_escape: "parse_string (esc_char c @ cs) = cons_fst c (parse_string cs)"
proof -
  have hex: "char_of (16 * (of_char c div 16) + of_char c mod 16 :: nat) = c"
    by (simp add: mult.commute)
  have lt: "(of_char c :: nat) div 16 < 16"
    using nat_of_char_less_256 [of c] by (simp add: less_mult_imp_div_less)
  show ?thesis
  proof (cases "c \<in> {CHR 0x22, CHR 0x5C, CHR 0x0A, CHR 0x0D, CHR 0x09, CHR 0x0C, CHR 0x08}")
    case True
    then show ?thesis by (auto simp: esc_char_def unescape_def)
  next
    case False
    then show ?thesis
    proof (cases "32 \<le> (of_char c :: nat) \<and> (of_char c :: nat) \<le> 126")
      case True
      then have "esc_char c = [c]" using False by (simp add: esc_char_def)
      then show ?thesis using True False parse_string_plain [of c cs] by simp
    next
      case nplain: False
      then have "esc_char c = [CHR 0x5C, CHR ''u'', CHR ''0'', CHR ''0'',
            hex_digit (of_char c div 16), hex_digit (of_char c mod 16)]"
        using False by (auto simp: esc_char_def)
      then show ?thesis
        using parse_string_hex [of "of_char c div 16" "of_char c mod 16" cs] lt by (simp only: append.simps hex)
    qed
  qed
qed

lemma parse_string_body: "parse_string (concat (map esc_char s) @ CHR 0x22 # r) = Some (s, r)"
  by (induction s) (simp_all add: parse_string_escape cons_fst_def)

text \<open>What may follow a value in a text: anything that does not continue a number.\<close>

definition stops :: "string \<Rightarrow> bool" where
  "stops r \<longleftrightarrow> (case r of [] \<Rightarrow> True
     | c # _ \<Rightarrow> \<not> is_digit c \<and> c \<noteq> CHR ''.'' \<and> c \<noteq> CHR ''e'' \<and> c \<noteq> CHR ''E'')"

lemma stops_simps [simp]:
  "stops []" "stops (CHR '','' # r)" "stops (CHR '']'' # r)" "stops (CHR ''}'' # r)"
  by (simp_all add: stops_def is_digit_def)

lemma takeWhile_stop:
  "list_all is_digit ds \<Longrightarrow> stops r \<Longrightarrow> digits_of (ds @ r) = ds"
  by (cases r) (auto simp: digits_of_def stops_def list_all_iff takeWhile_append)

lemma frac_exp_stop: "stops r \<Longrightarrow> frac_of r = [] \<and> exp_of r = []"
  by (cases r) (auto simp: stops_def frac_of_def exp_of_def)

lemma show_nat_hd:
  "\<exists>d ds. show_nat n = d # ds \<and> is_digit d \<and> (d = CHR ''0'' \<longrightarrow> ds = [])"
proof (induction n rule: show_nat.induct)
  case (1 n)
  show ?case
  proof (cases "n < 10")
    case True
    then show ?thesis by (subst show_nat.simps) simp
  next
    case False
    then obtain d ds where d: "show_nat (n div 10) = d # ds" "is_digit d" "d = CHR ''0'' \<longrightarrow> ds = []"
      using 1 by auto
    have "d \<noteq> CHR ''0''"
    proof
      assume "d = CHR ''0''"
      with d have "show_nat (n div 10) = ''0''" by simp
      then have "n div 10 = nat_of_digits ''0''" by (metis nat_of_digits_show)
      then have "n div 10 = 0" by (simp add: nat_of_digits_def digit_val_def)
      with False show False by simp
    qed
    with d False show ?thesis by (subst show_nat.simps) auto
  qed
qed

lemma parse_nat_text_show: "stops r \<Longrightarrow> parse_nat_text (show_nat n @ r) = show_nat n"
  using show_nat_hd [of n] takeWhile_stop [OF show_nat_digits [of n], of r]
  by (auto simp: parse_nat_text_def Let_def split: list.splits)

lemma parse_number_nat:
  assumes "stops r"
  shows "parse_number F (show_nat n @ r) = Some (JInt (int n), r)"
    and "parse_number F (CHR ''-'' # show_nat n @ r) = Some (JInt (- int n), r)"
proof -
  obtain d ds where d: "show_nat n = d # ds" "is_digit d" using show_nat_hd by blast
  then have nd: "d \<noteq> CHR ''-''" by (auto simp: is_digit_def)
  have hd: "(case show_nat n @ r of c # cs \<Rightarrow> if c = CHR ''-'' then ([c], cs) else ([], show_nat n @ r)
             | [] \<Rightarrow> ([], show_nat n @ r)) = ([], show_nat n @ r)"
    using d nd by simp
  note f = parse_nat_text_show [OF assms, of n] frac_exp_stop [OF assms]
  show "parse_number F (show_nat n @ r) = Some (JInt (int n), r)"
    unfolding parse_number_def Let_def hd by (simp add: f)
  show "parse_number F (CHR ''-'' # show_nat n @ r) = Some (JInt (- int n), r)"
    unfolding parse_number_def Let_def by (simp add: f)
qed

lemma digit_not_letter:
  "is_digit d \<Longrightarrow> d \<noteq> CHR ''n'' \<and> d \<noteq> CHR ''t'' \<and> d \<noteq> CHR ''f'' \<and> d \<noteq> CHR ''N'' \<and> d \<noteq> CHR ''I''
     \<and> d \<noteq> CHR ''-'' \<and> d \<noteq> CHR 0x22 \<and> d \<noteq> CHR ''['' \<and> d \<noteq> CHR ''{'' \<and> d \<noteq> CHR '']''
     \<and> d \<noteq> CHR ''}'' \<and> \<not> is_ws d"
  by (auto simp: is_digit_def is_ws_def)

lemma parse_atom_int:
  assumes "stops r"
  shows "parse_atom F (show_int i @ r) = Some (JInt i, r)"
proof -
  obtain d ds where d: "show_nat (nat \<bar>i\<bar>) = d # ds" "is_digit d" using show_nat_hd by blast
  note nl = digit_not_letter [OF d(2)]
  show ?thesis
  proof (cases "i < 0")
    case True
    then have s: "show_int i = CHR ''-'' # d # ds" using d by (simp add: show_int_def)
    have "take 9 (CHR ''-'' # d # ds @ r) \<noteq> ''-Infinity''" using nl by simp
    then show ?thesis
      using parse_number_nat(2) [OF assms, of F "nat \<bar>i\<bar>", unfolded d(1)] True
      by (simp add: parse_atom_def s del: take_Suc_Cons)
  next
    case False
    then have s: "show_int i = d # ds" using d by (simp add: show_int_def)
    have "take 9 (d # ds @ r) \<noteq> ''-Infinity''" using nl by simp
    then show ?thesis
      using parse_number_nat(1) [OF assms, of F "nat \<bar>i\<bar>", unfolded d(1)] False nl
      by (simp add: parse_atom_def s del: take_Suc_Cons)
  qed
qed

lemma show_int_hd: "\<exists>c cs. show_int i = c # cs \<and> (is_digit c \<or> c = CHR ''-'')"
  using show_nat_hd [of "nat i"] by (auto simp: show_int_def)

text \<open>The values whose text reads back: without floats, no key twice in a dictionary.\<close>

fun plain_json :: "json \<Rightarrow> bool" where
  "plain_json (JFloat x) = False"
| "plain_json (JList xs) = list_all plain_json xs"
| "plain_json (JDict d) = (dict_ok d \<and> list_all (\<lambda>(k, v). plain_json v) d)"
| "plain_json v = True"

definition value_start :: "string \<Rightarrow> bool" where
  "value_start s \<longleftrightarrow> s \<noteq> [] \<and> \<not> is_ws (hd s) \<and> hd s \<noteq> CHR '']''"

lemma value_start_char:
  "value_start (c # cs) \<longleftrightarrow> \<not> is_ws c \<and> c \<noteq> CHR '']''"
  by (simp add: value_start_def)

lemma dumps_head:
  assumes "plain_json v"
  shows "value_start (dumps F i k v)"
proof (cases v)
  case (JInt n)
  obtain c cs where c: "show_int n = c # cs" "is_digit c \<or> c = CHR ''-''" using show_int_hd by blast
  have "\<not> is_ws CHR ''-''" by (simp add: is_ws_def)
  then have "value_start (c # cs)"
    using c(2) digit_not_letter [of c] unfolding value_start_char by (elim disjE) simp_all
  then show ?thesis by (simp add: JInt c(1))
next
  case (JFloat x)
  then show ?thesis using assms by simp
next
  case (JBool b)
  then show ?thesis by (cases b) (simp_all add: value_start_char is_ws_def)
next
  case JNull
  then show ?thesis by (simp add: value_start_char is_ws_def)
next
  case (JStr x)
  then show ?thesis by (simp add: value_start_char is_ws_def dumps_str_def)
next
  case (JList x)
  then show ?thesis by (simp add: value_start_char is_ws_def)
next
  case (JDict x)
  then show ?thesis by (simp add: value_start_char is_ws_def)
qed

text \<open>The separators of a text: a comma or a colon and white space.\<close>

definition seps :: "string \<Rightarrow> string \<Rightarrow> bool" where
  "seps isep ksep \<longleftrightarrow>
     (\<exists>w w'. isep = CHR '','' # w \<and> ksep = CHR '':'' # w' \<and> list_all is_ws w \<and> list_all is_ws w')"

lemma skip_ws_append: "list_all is_ws w \<Longrightarrow> skip_ws (w @ s) = skip_ws s"
  by (induction w) (auto simp: skip_ws_def)

lemma skip_ws_head: "\<not> is_ws c \<Longrightarrow> skip_ws (c # s) = c # s"
  by (simp add: skip_ws_def)

lemma skip_ws_dumps:
  "plain_json v \<Longrightarrow> skip_ws (dumps F i k v @ s) = dumps F i k v @ s"
  using dumps_head [of v F i k] by (cases "dumps F i k v") (auto simp: skip_ws_head value_start_def)

definition reads :: "floatlib \<Rightarrow> string \<Rightarrow> string \<Rightarrow> json \<Rightarrow> bool" where
  "reads F i k v \<longleftrightarrow>
     (\<forall>n r. Suc (length (dumps F i k v)) \<le> n \<longrightarrow> stops r \<longrightarrow> parse_value F n (dumps F i k v @ r) = Some (v, r))"

lemma readsD:
  "reads F i k v \<Longrightarrow> Suc (length (dumps F i k v)) \<le> n \<Longrightarrow> stops r \<Longrightarrow>
   parse_value F n (dumps F i k v @ r) = Some (v, r)"
  by (simp add: reads_def)

lemma not_ws_punct [simp]: "\<not> is_ws CHR '','' " "\<not> is_ws CHR '']''" "\<not> is_ws CHR ''}''" "\<not> is_ws CHR '':''" "\<not> is_ws CHR 0x22"
  by (simp_all add: is_ws_def)

lemma parse_items_dumps:
  assumes "xs \<noteq> []" and "\<forall>v \<in> set xs. plain_json v \<and> reads F i k v" and "seps i k"
    and "length (join i (map (dumps F i k) xs)) + 2 \<le> n"
  shows "parse_items F n (join i (map (dumps F i k) xs) @ CHR '']'' # r) = Some (xs, r)"
  using assms
proof (induction xs arbitrary: n)
  case Nil
  then show ?case by simp
next
  case (Cons v vs)
  obtain m where n: "n = Suc m" using Cons.prems(4) by (cases n) auto
  have v: "plain_json v" "reads F i k v" using Cons.prems by auto
  obtain w where i: "i = CHR '','' # w" "list_all is_ws w" using Cons.prems(3) by (auto simp: seps_def)
  show ?case
  proof (cases vs)
    case Nil
    then show ?thesis
      using Cons.prems(4) readsD [OF v(2), of m "CHR '']'' # r"] by (simp add: n skip_ws_head)
  next
    case (Cons v' vs')
    let ?rest = "join i (map (dumps F i k) vs) @ CHR '']'' # r"
    have len: "length (dumps F i k v) + Suc (length w) + length (join i (map (dumps F i k) vs)) + 1 \<le> m"
      using Cons.prems(4) arg_cong [OF i(1), of length] by (simp add: n Cons)
    have pv: "parse_value F m (dumps F i k v @ i @ ?rest) = Some (v, i @ ?rest)"
    proof (rule readsD [OF v(2)])
      show "Suc (length (dumps F i k v)) \<le> m" using len by simp
      show "stops (i @ ?rest)" by (simp add: i(1))
    qed
    have "plain_json v'" using Cons.prems Cons by simp
    then have hd: "skip_ws ?rest = ?rest"
      using skip_ws_dumps by (cases vs') (auto simp: Cons)
    have "parse_items F m ?rest = Some (vs, r)"
      using Cons.IH [of m] Cons.prems len Cons by simp
    moreover have "join i (map (dumps F i k) (v # vs)) @ CHR '']'' # r = dumps F i k v @ i @ ?rest"
      by (simp add: Cons)
    ultimately show ?thesis
      using pv hd by (simp add: n skip_ws_head skip_ws_append i cons_fst_def)
  qed
qed

abbreviation dump_member :: "floatlib \<Rightarrow> string \<Rightarrow> string \<Rightarrow> string \<times> json \<Rightarrow> string" where
  "dump_member F i k \<equiv> \<lambda>(key, v). dumps_str key @ k @ dumps F i k v"

lemma parse_member:
  assumes "plain_json v" and "reads F i k v" and "seps i k" and "stops s"
    and "Suc (length (dumps F i k v)) \<le> m"
  shows "\<exists>t. dump_member F i k (key, v) @ s = CHR 0x22 # t \<and>
           (\<exists>q qs. parse_string t = Some (key, q) \<and> skip_ws q = CHR '':'' # qs \<and>
             parse_value F m (skip_ws qs) = Some (v, s))"
proof -
  obtain w where k: "k = CHR '':'' # w" "list_all is_ws w" using assms(3) by (auto simp: seps_def)
  let ?t = "concat (map esc_char key) @ CHR 0x22 # k @ dumps F i k v @ s"
  have "parse_string ?t = Some (key, k @ dumps F i k v @ s)" by (rule parse_string_body)
  moreover have "skip_ws (k @ dumps F i k v @ s) = CHR '':'' # w @ dumps F i k v @ s"
    by (simp add: k skip_ws_head)
  moreover have "parse_value F m (skip_ws (w @ dumps F i k v @ s)) = Some (v, s)"
    using assms by (simp only: skip_ws_append [OF k(2)] skip_ws_dumps) (simp only: readsD)
  ultimately show ?thesis by (simp add: dumps_str_def)
qed

lemma parse_members_dumps:
  assumes "d \<noteq> []" and "\<forall>(key, v) \<in> set d. plain_json v \<and> reads F i k v" and "seps i k"
    and "length (join i (map (dump_member F i k) d)) + 2 \<le> n"
  shows "parse_members F n (join i (map (dump_member F i k) d) @ CHR ''}'' # r) = Some (d, r)"
  using assms
proof (induction d arbitrary: n)
  case Nil
  then show ?case by simp
next
  case (Cons p d)
  obtain m where n: "n = Suc m" using Cons.prems(4) by (cases n) auto
  obtain key v where p: "p = (key, v)" by (cases p)
  have v: "plain_json v" "reads F i k v" using Cons.prems p by auto
  obtain w where i: "i = CHR '','' # w" "list_all is_ws w" using Cons.prems(3) by (auto simp: seps_def)
  show ?case
  proof (cases d)
    case Nil
    have "Suc (length (dumps F i k v)) \<le> m" using Cons.prems(4) by (simp add: n p Nil)
    from parse_member [OF v Cons.prems(3) _ this, of "CHR ''}'' # r" key]
    show ?thesis by (auto simp: n p Nil skip_ws_head)
  next
    case (Cons p' d')
    let ?rest = "join i (map (dump_member F i k) d) @ CHR ''}'' # r"
    have len: "length (dump_member F i k (key, v)) + Suc (length w) + length (join i (map (dump_member F i k) d)) + 1 \<le> m"
      using Cons.prems(4) arg_cong [OF i(1), of length] by (simp add: n p Cons)
    then have "Suc (length (dumps F i k v)) \<le> m" by simp
    from parse_member [OF v Cons.prems(3) _ this, of "i @ ?rest" key]
    obtain t q qs where t: "dump_member F i k (key, v) @ i @ ?rest = CHR 0x22 # t"
      "parse_string t = Some (key, q)" "skip_ws q = CHR '':'' # qs"
      "parse_value F m (skip_ws qs) = Some (v, i @ ?rest)"
      using i(1) by auto
    obtain t' where "dump_member F i k p' = CHR 0x22 # t'" by (cases p') (simp add: dumps_str_def)
    then have hd: "skip_ws ?rest = ?rest"
      by (cases d') (simp_all add: Cons skip_ws_head)
    have sk: "skip_ws (i @ ?rest) = CHR '','' # w @ ?rest" by (simp add: i(1) skip_ws_head)
    have "parse_members F m ?rest = Some (d, r)"
      using Cons.IH [of m] Cons.prems len Cons by simp
    moreover have "join i (map (dump_member F i k) (p # d)) @ CHR ''}'' # r = CHR 0x22 # t"
      using t(1) by (simp add: Cons p)
    ultimately show ?thesis
      by (simp add: n t sk skip_ws_append i(2) hd cons_fst_def p)
  qed
qed

lemma dict_update_fresh:
  "dict_ok (d @ e) \<Longrightarrow> dict_update d e = d @ e"
proof (induction e arbitrary: d)
  case Nil
  then show ?case by (simp add: dict_update_def)
next
  case (Cons p e)
  obtain key v where p: "p = (key, v)" by (cases p)
  have "key \<notin> fst ` set d" using Cons.prems by (auto simp: p)
  then have "AList.update key v d = d @ [(key, v)]"
    by (induction d) auto
  then show ?case
    using Cons.IH [of "d @ [(key, v)]"] Cons.prems by (simp add: dict_update_def p)
qed

lemma dumps_reads: "plain_json v \<Longrightarrow> seps i k \<Longrightarrow> reads F i k v"
proof (induction v)
  case JNull
  show ?case by (auto simp: reads_def parse_atom_def parse_word_def Suc_le_eq gr0_conv_Suc elim!: less_natE)
next
  case (JBool b)
  show ?case
    by (cases b) (auto simp: reads_def parse_atom_def parse_word_def Suc_le_eq gr0_conv_Suc elim!: less_natE)
next
  case (JInt j)
  obtain c cs where c: "show_int j = c # cs" "is_digit c \<or> c = CHR ''-''" using show_int_hd by blast
  have "c \<noteq> CHR 0x22 \<and> c \<noteq> CHR ''['' \<and> c \<noteq> CHR ''{''"
    using c(2) digit_not_letter [of c] by auto
  moreover have "stops r \<Longrightarrow> parse_atom F (c # cs @ r) = Some (JInt j, r)" for r
    using parse_atom_int [of r F j] c(1) by simp
  ultimately show ?case
    by (auto simp: reads_def c(1) Suc_le_eq elim!: less_natE)
next
  case (JFloat x)
  then show ?case by simp
next
  case (JStr x)
  show ?case
    by (auto simp: reads_def dumps_str_def parse_string_body Suc_le_eq elim!: less_natE)
next
  case (JList xs)
  then have all: "\<forall>v \<in> set xs. plain_json v \<and> reads F i k v"
    by (auto simp: list_all_iff)
  show ?case unfolding reads_def
  proof (intro allI impI)
    fix n r assume n: "Suc (length (dumps F i k (JList xs))) \<le> n" and "stops r"
    obtain m where m: "n = Suc m" using n by (cases n) auto
    show "parse_value F n (dumps F i k (JList xs) @ r) = Some (JList xs, r)"
    proof (cases xs)
      case Nil
      then show ?thesis by (simp add: m skip_ws_head)
    next
      case (Cons v vs)
      let ?t = "join i (map (dumps F i k) xs)"
      have "value_start (dumps F i k v)" using all dumps_head Cons by auto
      then have "value_start (?t @ CHR '']'' # r)" by (cases vs) (auto simp: Cons value_start_def)
      then obtain c cs where c: "?t @ CHR '']'' # r = c # cs" "\<not> is_ws c" "c \<noteq> CHR '']''"
        by (cases "?t @ CHR '']'' # r") (auto simp: value_start_def)
      have "parse_items F m (?t @ CHR '']'' # r) = Some (xs, r)"
        using n by (intro parse_items_dumps [OF _ all JList.prems(2)]) (simp_all add: m Cons)
      then show ?thesis using c by (simp add: m skip_ws_head)
    qed
  qed
next
  case (JDict d)
  then have all: "\<forall>(key, v) \<in> set d. plain_json v \<and> reads F i k v" and ok: "dict_ok d"
    by (auto simp: list_all_iff)
  show ?case unfolding reads_def
  proof (intro allI impI)
    fix n r assume n: "Suc (length (dumps F i k (JDict d))) \<le> n" and "stops r"
    obtain m where m: "n = Suc m" using n by (cases n) auto
    show "parse_value F n (dumps F i k (JDict d) @ r) = Some (JDict d, r)"
    proof (cases d)
      case Nil
      then show ?thesis by (simp add: m skip_ws_head)
    next
      case (Cons p d')
      let ?t = "join i (map (dump_member F i k) d)"
      obtain cs where c: "?t @ CHR ''}'' # r = CHR 0x22 # cs"
        by (cases p; cases d') (auto simp: Cons dumps_str_def)
      have "parse_members F m (?t @ CHR ''}'' # r) = Some (d, r)"
        using n by (intro parse_members_dumps [OF _ all JDict.prems(2)]) (simp_all add: m Cons)
      then show ?thesis
        using c dict_update_fresh [of "[]" d] ok by (simp add: m skip_ws_head)
    qed
  qed
qed

lemma loads_dumps:
  assumes "plain_json v" and "seps i k"
  shows "json_loads F (dumps F i k v) = Inr v"
  using readsD [OF dumps_reads [OF assms, of F], of "Suc (length (dumps F i k v))" "[]"]
    skip_ws_dumps [OF assms(1), of F i k "[]"]
  by (simp add: json_loads_def skip_ws_def)

lemma seps_lits [simp]: "seps '','' '':''" "seps '', '' '': ''"
  by (auto simp: seps_def is_ws_def)

lemma json_loads_dumps [simp]: "plain_json v \<Longrightarrow> json_loads F (json_dumps F v) = Inr v"
  unfolding json_dumps_def by (rule loads_dumps) simp_all

lemma keys_sorted:
  "distinct (map fst (sort_key fst (map (\<lambda>(k, v). (k, f v)) d))) \<longleftrightarrow> dict_ok d"
proof -
  have "mset (map fst (sort_key fst (map (\<lambda>(k, v). (k, f v)) d))) = mset (map fst d)"
    by (simp add: image_mset.compositionality comp_def case_prod_unfold)
  then show ?thesis by (metis distinct_count_atmost_1 mset_eq_imp_distinct_iff)
qed

lemma plain_sort_keys: "plain_json v \<Longrightarrow> plain_json (sort_keys v)"
proof (induction v)
  case (JDict d)
  then show ?case
    using keys_sorted [of sort_keys d] by (fastforce simp: list_all_iff)
qed (auto simp: list_all_iff)

text \<open>Two values with the same canonical text are equal up to the order of their keys.\<close>

lemma json_loads_canonical:
  "plain_json v \<Longrightarrow> json_loads F (json_dumps_canonical F v) = Inr (sort_keys v)"
  unfolding json_dumps_canonical_def by (rule loads_dumps [OF plain_sort_keys seps_lits(1)])

lemma canonical_inject:
  assumes "plain_json v" and "plain_json w"
    and "json_dumps_canonical F v = json_dumps_canonical F w"
  shows "sort_keys v = sort_keys w"
  by (metis assms json_loads_canonical sum.inject(2))

end
