(* ===== verification/Messages.thy ===== *)
theory Messages
  imports Symbology Json
begin

text \<open>
  \<open>datamodel/messages.py\<close>: the header and the ten bodies of a JDSS message, each a record of
  the fields of its class, and for each class the function that builds it as pydantic does:
  the field constraints of the class first (a violation is a \<open>ValidationErr\<close>), then its
  validators, which normalise the SIDC. Coordinates and speeds are exact rationals;
  infinities and NaN are not modelled in a message. A time is in microseconds since the epoch.
\<close>

section \<open>Fields\<close>

datatype message_type =
    PRESENCE | IDENTIFICATION | CONTACT | SKETCH | OVERLAY | CASEVAC | CHAT | GENINFO | RECEIPT
  | CHATROOMS

fun type_name :: "message_type \<Rightarrow> string" where
  "type_name PRESENCE = ''Presence''"
| "type_name IDENTIFICATION = ''Identification''"
| "type_name CONTACT = ''ContactSighting''"
| "type_name SKETCH = ''Sketch''"
| "type_name OVERLAY = ''Overlay''"
| "type_name CASEVAC = ''CasevacRequest''"
| "type_name CHAT = ''Chat''"
| "type_name GENINFO = ''GenInfo''"
| "type_name RECEIPT = ''Receipt''"
| "type_name CHATROOMS = ''Chatrooms''"

record location =
  loc_lat :: rat
  loc_lon :: rat
  loc_alt_m :: "rat option"

record header =
  message_id :: string
  originator_id :: string
  network_id :: string
  reporting_time :: int
  sequence :: int
  classification :: int
  releasable_to :: string

record presence =
  pr_location :: location
  pr_callsign :: string
  pr_battery_pct :: "int option"
  pr_course_deg :: "rat option"
  pr_speed_mps :: "rat option"
  pr_sidc :: string

record identification =
  id_callsign :: string
  id_unit :: string
  id_role :: string
  id_nation :: string
  id_sidc :: string

record contact_sighting =
  ct_location :: location
  ct_identity :: standard_identity
  ct_status :: sidc_status
  ct_description :: string
  ct_strength :: "int option"
  ct_course_deg :: "rat option"
  ct_speed_mps :: "rat option"
  ct_sidc :: string

record sketch_point =
  sp_location :: location
  sp_label :: string

record sketch =
  sk_title :: string
  sk_points :: "sketch_point list"

record overlay_graphic =
  og_sidc :: string
  og_location :: location
  og_label :: string

record overlay =
  ov_name :: string
  ov_graphics :: "overlay_graphic list"

record casevac_request =
  cv_location :: location
  cv_patients_urgent :: int
  cv_patients_priority :: int
  cv_patients_routine :: int
  cv_special_equipment :: string
  cv_security_at_pickup :: string
  cv_sidc :: string

record chat_message =
  ch_text :: string
  ch_recipient :: string

record general_info =
  gi_subject :: string
  gi_text :: string
  gi_location :: "location option"

datatype receipt_status = Received | Read | Rejected

record receipt =
  rc_ack_message_id :: string
  rc_status :: receipt_status
  rc_note :: string

record chat_room =
  cr_room_id :: string
  cr_name :: string
  cr_members :: "string list"

record chatrooms =
  cs_rooms :: "chat_room list"

datatype body =
    Presence presence
  | Identification identification
  | ContactSighting contact_sighting
  | Sketch sketch
  | Overlay overlay
  | CasevacRequest casevac_request
  | ChatMessage chat_message
  | GeneralInfo general_info
  | Receipt receipt
  | Chatrooms chatrooms

record message =
  header :: header
  body :: body

fun body_type :: "body \<Rightarrow> message_type" where
  "body_type (Presence _) = PRESENCE"
| "body_type (Identification _) = IDENTIFICATION"
| "body_type (ContactSighting _) = CONTACT"
| "body_type (Sketch _) = SKETCH"
| "body_type (Overlay _) = OVERLAY"
| "body_type (CasevacRequest _) = CASEVAC"
| "body_type (ChatMessage _) = CHAT"
| "body_type (GeneralInfo _) = GENINFO"
| "body_type (Receipt _) = RECEIPT"
| "body_type (Chatrooms _) = CHATROOMS"

definition msg_type :: "message \<Rightarrow> string" where
  "msg_type m = type_name (body_type (body m))"

definition MESSAGE_TYPES :: "string list" where
  "MESSAGE_TYPES = map type_name [PRESENCE, IDENTIFICATION, CONTACT, SKETCH, OVERLAY, CASEVAC,
     CHAT, GENINFO, RECEIPT, CHATROOMS]"

section \<open>Validated construction\<close>

definition invalid :: "string \<Rightarrow> 'a result" where
  "invalid field = Inl (PyExn ValidationErr field)"

definition in_range :: "'n::linorder \<Rightarrow> 'n \<Rightarrow> 'n \<Rightarrow> bool" where
  "in_range lo hi x \<longleftrightarrow> lo \<le> x \<and> x \<le> hi"

definition opt_all :: "('a \<Rightarrow> bool) \<Rightarrow> 'a option \<Rightarrow> bool" where
  "opt_all P v = (case v of None \<Rightarrow> True | Some x \<Rightarrow> P x)"

definition mk_location :: "rat \<Rightarrow> rat \<Rightarrow> rat option \<Rightarrow> location result" where
  "mk_location lat lon alt =
     (if \<not> in_range (-90) 90 lat then invalid ''lat''
      else if \<not> in_range (-180) 180 lon then invalid ''lon''
      else Inr \<lparr> loc_lat = lat, loc_lon = lon, loc_alt_m = alt \<rparr>)"

text \<open>The defaults that call \<open>_new_id\<close> and \<open>_utcnow\<close> are arguments here.\<close>

definition mk_header ::
  "string \<Rightarrow> string \<Rightarrow> string \<Rightarrow> int \<Rightarrow> int \<Rightarrow> int \<Rightarrow> string \<Rightarrow> header result" where
  "mk_header mid orig net time seq cls rel =
     (if \<not> in_range 0 3 cls then invalid ''classification''
      else Inr \<lparr> message_id = mid, originator_id = orig, network_id = net, reporting_time = time,
                 sequence = seq, classification = cls, releasable_to = rel \<rparr>)"

definition default_sidc :: "string \<Rightarrow> standard_identity \<Rightarrow> string option \<Rightarrow> string" where
  "default_sidc entity identity given =
     (case given of None \<Rightarrow> sidc entity identity None PRESENT | Some code \<Rightarrow> code)"

definition mk_presence ::
  "location \<Rightarrow> string \<Rightarrow> int option \<Rightarrow> rat option \<Rightarrow> rat option \<Rightarrow> string option \<Rightarrow> presence result" where
  "mk_presence loc callsign battery course speed code =
     (if \<not> opt_all (in_range 0 100) battery then invalid ''battery_pct''
      else if \<not> opt_all (in_range 0 360) course then invalid ''course_deg''
      else if \<not> opt_all (\<lambda>v. 0 \<le> v) speed then invalid ''speed_mps''
      else Inr \<lparr> pr_location = loc, pr_callsign = callsign, pr_battery_pct = battery,
                 pr_course_deg = course, pr_speed_mps = speed,
                 pr_sidc = normalize (default_sidc ''dismounted_infantry'' FRIEND code) \<rparr>)"

definition mk_identification ::
  "string \<Rightarrow> string \<Rightarrow> string option \<Rightarrow> string option \<Rightarrow> string option \<Rightarrow> identification" where
  "mk_identification callsign unit role nation code =
     \<lparr> id_callsign = callsign, id_unit = unit,
       id_role = (case role of None \<Rightarrow> ''rifleman'' | Some r \<Rightarrow> r),
       id_nation = (case nation of None \<Rightarrow> ''XXX'' | Some n \<Rightarrow> n),
       id_sidc = default_sidc ''dismounted_infantry'' FRIEND code \<rparr>"

text \<open>\<open>ContactSighting._sync_symbol\<close>: affiliation and status are written into the SIDC.\<close>

definition sync_symbol :: "string \<Rightarrow> standard_identity \<Rightarrow> sidc_status \<Rightarrow> string" where
  "sync_symbol code identity status =
     (let code = with_identity code identity
      in normalize (take 6 code @ show_nat (status_int status) @ drop 7 code))"

definition mk_contact ::
  "location \<Rightarrow> standard_identity \<Rightarrow> sidc_status \<Rightarrow> string \<Rightarrow> int option \<Rightarrow> rat option \<Rightarrow> rat option
     \<Rightarrow> string option \<Rightarrow> contact_sighting result" where
  "mk_contact loc identity status description strength course speed code =
     (if \<not> opt_all (in_range 0 360) course then invalid ''course_deg''
      else if \<not> opt_all (\<lambda>v. 0 \<le> v) speed then invalid ''speed_mps''
      else Inr \<lparr> ct_location = loc, ct_identity = identity, ct_status = status,
                 ct_description = description, ct_strength = strength,
                 ct_course_deg = course, ct_speed_mps = speed,
                 ct_sidc = sync_symbol (default_sidc ''hostile_contact'' HOSTILE code) identity status \<rparr>)"

text \<open>The \<open>mode="before"\<close> validators: a missing text is empty, a missing list is no items.\<close>

definition coerce_str :: "string option \<Rightarrow> string" where
  "coerce_str v = (case v of None \<Rightarrow> [] | Some s \<Rightarrow> s)"

definition coerce_list :: "'a list option \<Rightarrow> 'a list" where
  "coerce_list v = (case v of None \<Rightarrow> [] | Some xs \<Rightarrow> xs)"

definition mk_geninfo :: "string option \<Rightarrow> string option \<Rightarrow> location option \<Rightarrow> general_info" where
  "mk_geninfo subject text loc =
     \<lparr> gi_subject = coerce_str subject, gi_text = coerce_str text, gi_location = loc \<rparr>"

definition mk_receipt :: "string \<Rightarrow> receipt_status \<Rightarrow> string option \<Rightarrow> receipt" where
  "mk_receipt ack status note =
     \<lparr> rc_ack_message_id = ack, rc_status = status, rc_note = coerce_str note \<rparr>"

definition mk_chatroom :: "string \<Rightarrow> string option \<Rightarrow> string list option \<Rightarrow> chat_room" where
  "mk_chatroom rid name members =
     \<lparr> cr_room_id = rid, cr_name = coerce_str name, cr_members = coerce_list members \<rparr>"

definition mk_chatrooms :: "chat_room list option \<Rightarrow> chatrooms" where
  "mk_chatrooms rooms = \<lparr> cs_rooms = coerce_list rooms \<rparr>"

section \<open>What a constructed message satisfies\<close>

definition valid_location :: "location \<Rightarrow> bool" where
  "valid_location l \<longleftrightarrow> in_range (-90) 90 (loc_lat l) \<and> in_range (-180) 180 (loc_lon l)"

definition valid_header :: "header \<Rightarrow> bool" where
  "valid_header h \<longleftrightarrow> in_range 0 3 (classification h)"

definition valid_presence :: "presence \<Rightarrow> bool" where
  "valid_presence p \<longleftrightarrow> valid_location (pr_location p) \<and> opt_all (in_range 0 100) (pr_battery_pct p) \<and>
     opt_all (in_range 0 360) (pr_course_deg p) \<and> opt_all (\<lambda>v. 0 \<le> v) (pr_speed_mps p) \<and>
     length (pr_sidc p) = 20"

definition valid_contact :: "contact_sighting \<Rightarrow> bool" where
  "valid_contact c \<longleftrightarrow> valid_location (ct_location c) \<and> opt_all (in_range 0 360) (ct_course_deg c) \<and>
     opt_all (\<lambda>v. 0 \<le> v) (ct_speed_mps c) \<and> length (ct_sidc c) = 20 \<and>
     ct_sidc c ! 3 = digit (identity_int (ct_identity c)) \<and>
     ct_sidc c ! 6 = digit (status_int (ct_status c))"

fun valid_body :: "body \<Rightarrow> bool" where
  "valid_body (Presence p) = valid_presence p"
| "valid_body (ContactSighting c) = valid_contact c"
| "valid_body (Sketch s) = list_all (\<lambda>p. valid_location (sp_location p)) (sk_points s)"
| "valid_body (Overlay v) = list_all (\<lambda>g. valid_location (og_location g)) (ov_graphics v)"
| "valid_body (CasevacRequest v) = valid_location (cv_location v)"
| "valid_body (GeneralInfo g) = opt_all valid_location (gi_location g)"
| "valid_body b = True"

definition valid_message :: "message \<Rightarrow> bool" where
  "valid_message m \<longleftrightarrow> valid_header (header m) \<and> valid_body (body m)"

lemma mk_location_iff:
  "mk_location lat lon alt = Inr l \<longleftrightarrow>
     valid_location l \<and> l = \<lparr> loc_lat = lat, loc_lon = lon, loc_alt_m = alt \<rparr>"
  by (auto simp: mk_location_def invalid_def valid_location_def)

lemma mk_header_valid: "mk_header mid orig net time seq cls rel = Inr h \<Longrightarrow> valid_header h"
  by (auto simp: mk_header_def invalid_def valid_header_def split: if_splits)

lemma mk_presence_valid:
  "valid_location loc \<Longrightarrow> mk_presence loc callsign battery course speed code = Inr p \<Longrightarrow> valid_presence p"
  by (auto simp: mk_presence_def invalid_def valid_presence_def split: if_splits)

lemma sync_symbol_update:
  "sync_symbol code i st =
     (normalize code)[3 := digit (identity_int i), 6 := digit (status_int st)]"
proof -
  let ?c = "with_identity code i"
  have c: "?c = (normalize code)[3 := digit (identity_int i)]" and len: "length ?c = 20"
    using with_identity_20 [of "normalize code" i] by (simp_all add: with_identity_def)
  have "take 6 ?c @ show_nat (status_int st) @ drop 7 ?c = ?c[6 := digit (status_int st)]"
    using len by (simp add: upd_conv_take_nth_drop)
  then show ?thesis
    using len c by (simp add: sync_symbol_def Let_def)
qed

lemma mk_contact_valid:
  "valid_location loc \<Longrightarrow> mk_contact loc i st d n course speed code = Inr c \<Longrightarrow> valid_contact c"
  by (auto simp: mk_contact_def invalid_def valid_contact_def sync_symbol_update split: if_splits)

lemma conforms_status:
  assumes "conforms code"
  shows "conforms (code[6 := digit (status_int st)])"
proof -
  have len: "length code = 20" and u: "list_all is_unicode_digit code"
    using assms by (simp_all add: conforms_def)
  have "is_unicode_digit (digit (status_int st))"
    by (simp add: is_unicode_digit_def)
  then have "list_all is_unicode_digit (code[6 := digit (status_int st)])"
    using u set_update_subset_insert [of code 6 "digit (status_int st)"]
    by (auto simp: list_all_iff)
  then show ?thesis
    using assms digit_status [of st] len
    unfolding conforms_def by (simp add: slice_list_update)
qed

lemma sync_symbol_conforms: "conforms (normalize code) \<Longrightarrow> conforms (sync_symbol code i st)"
  using conforms_status [OF conforms_with_identity [of "normalize code" i], of st]
  by (simp add: sync_symbol_update with_identity_20)

text \<open>A contact report is only built with its course in 0..360 and its speed
  non-negative, and then its symbol agrees with its attributes whatever SIDC was supplied: the
  code has 20 characters, its affiliation and status digits are those of the report, every
  other position is the supplied code padded with zeros, and it is conformant when the supplied
  one was.\<close>

theorem contact_symbol_synced:
  assumes "mk_contact loc i st d n course speed (Some code) = Inr c"
  shows "opt_all (in_range 0 360) course \<and> opt_all (\<lambda>v. 0 \<le> v) speed \<and>
    ct_sidc c = (normalize code)[3 := digit (identity_int (ct_identity c)), 6 := digit (status_int (ct_status c))] \<and>
    (validate_sidc (normalize code) = Inr [] \<longrightarrow> validate_sidc (ct_sidc c) = Inr [])"
  using assms sync_symbol_conforms [of code i st]
  by (auto simp: mk_contact_def invalid_def default_sidc_def sync_symbol_update validate_ok_iff
      split: if_splits)

theorem contact_symbol_synced_witness:
  "ct_sidc (projr (mk_contact \<lparr>loc_lat = 0, loc_lon = 0, loc_alt_m = None\<rparr> FRIEND PRESENT_DAMAGED []
      None (Some 90) None (Some ''100600'')))
   = (normalize ''100600'')[3 := digit 3, 6 := digit 3]"
proof -
  let ?c = "projr (mk_contact \<lparr>loc_lat = 0, loc_lon = 0, loc_alt_m = None\<rparr> FRIEND PRESENT_DAMAGED []
      None (Some 90) None (Some ''100600''))"
  have ok: "mk_contact \<lparr>loc_lat = 0, loc_lon = 0, loc_alt_m = None\<rparr> FRIEND PRESENT_DAMAGED []
      None (Some 90) None (Some ''100600'') = Inr ?c"
    and st: "ct_identity ?c = FRIEND" "ct_status ?c = PRESENT_DAMAGED"
    by (simp_all add: mk_contact_def opt_all_def in_range_def)
  from contact_symbol_synced [OF ok] show ?thesis
    unfolding st by simp
qed

lemma length_sidc: "length (sidc e i ss st) = 20"
  using conforms_sidc [of e i ss st] by (simp add: conforms_def)

lemma default_symbols_valid:
  "mk_presence loc cs b c s None = Inr p \<Longrightarrow> conforms (pr_sidc p)"
  "mk_contact loc i st d n c s None = Inr ct \<Longrightarrow> conforms (ct_sidc ct)"
  using conforms_sidc sync_symbol_conforms
  by (auto simp: mk_presence_def mk_contact_def invalid_def default_sidc_def length_sidc
      split: if_splits)

end
