(* ===== verification/Codec.thy ===== *)
theory Codec
  imports Messages
begin

text \<open>
  \<open>datamodel/codec\<close>: the three codecs between a message and the bytes of a frame, behind the
  protocol \<open>Codec\<close> of \<open>interfaces.py\<close> (the record \<open>codec\<close>, whose law is the locale \<open>codec_law\<close>).
  What pydantic, lxml and pyarrow do is a parameter (the record \<open>codec_env\<close>); each codec's
  \<open>_ok\<close> predicate says at which messages those libraries behave as documented, and there the
  codec is proved to read back what it wrote. The conversion between dictionaries and XML
  elements is the source's own, and is modelled and proved in full.
\<close>

section \<open>A message as a plain dictionary\<close>

text \<open>\<open>model_dump(mode="json")\<close>: the fields of a class in their declared order, \<open>type\<close> first in a
  body; \<open>fmt\<close> is the text of a time.\<close>

definition jopt :: "('a \<Rightarrow> json) \<Rightarrow> 'a option \<Rightarrow> json" where
  "jopt f v = (case v of None \<Rightarrow> JNull | Some x \<Rightarrow> f x)"

definition jrat :: "rat \<Rightarrow> json" where
  "jrat x = JFloat (Fin x)"

definition dump_location :: "location \<Rightarrow> json" where
  "dump_location l = JDict [(''lat'', jrat (loc_lat l)), (''lon'', jrat (loc_lon l)),
     (''alt_m'', jopt jrat (loc_alt_m l))]"

definition dump_header :: "(int \<Rightarrow> string) \<Rightarrow> header \<Rightarrow> (string, json) dict" where
  "dump_header fmt h =
     [(''message_id'', JStr (message_id h)), (''originator_id'', JStr (originator_id h)),
      (''network_id'', JStr (network_id h)), (''reporting_time'', JStr (fmt (reporting_time h))),
      (''sequence'', JInt (sequence h)), (''classification'', JInt (classification h)),
      (''releasable_to'', JStr (releasable_to h))]"

fun receipt_status_str :: "receipt_status \<Rightarrow> string" where
  "receipt_status_str Received = ''received''"
| "receipt_status_str Read = ''read''"
| "receipt_status_str Rejected = ''rejected''"

fun dump_fields :: "body \<Rightarrow> (string, json) dict" where
  "dump_fields (Presence p) =
     [(''location'', dump_location (pr_location p)), (''callsign'', JStr (pr_callsign p)),
      (''battery_pct'', jopt JInt (pr_battery_pct p)), (''course_deg'', jopt jrat (pr_course_deg p)),
      (''speed_mps'', jopt jrat (pr_speed_mps p)), (''sidc'', JStr (pr_sidc p))]"
| "dump_fields (Identification i) =
     [(''callsign'', JStr (id_callsign i)), (''unit'', JStr (id_unit i)), (''role'', JStr (id_role i)),
      (''nation'', JStr (id_nation i)), (''sidc'', JStr (id_sidc i))]"
| "dump_fields (ContactSighting c) =
     [(''location'', dump_location (ct_location c)),
      (''identity'', JInt (int (identity_int (ct_identity c)))),
      (''status'', JInt (int (status_int (ct_status c)))), (''description'', JStr (ct_description c)),
      (''strength'', jopt JInt (ct_strength c)), (''course_deg'', jopt jrat (ct_course_deg c)),
      (''speed_mps'', jopt jrat (ct_speed_mps c)), (''sidc'', JStr (ct_sidc c))]"
| "dump_fields (Sketch s) =
     [(''title'', JStr (sk_title s)),
      (''points'', JList (map (\<lambda>p. JDict [(''location'', dump_location (sp_location p)),
                                         (''label'', JStr (sp_label p))]) (sk_points s)))]"
| "dump_fields (Overlay v) =
     [(''name'', JStr (ov_name v)),
      (''graphics'', JList (map (\<lambda>g. JDict [(''sidc'', JStr (og_sidc g)),
          (''location'', dump_location (og_location g)), (''label'', JStr (og_label g))]) (ov_graphics v)))]"
| "dump_fields (CasevacRequest v) =
     [(''location'', dump_location (cv_location v)), (''patients_urgent'', JInt (cv_patients_urgent v)),
      (''patients_priority'', JInt (cv_patients_priority v)),
      (''patients_routine'', JInt (cv_patients_routine v)),
      (''special_equipment'', JStr (cv_special_equipment v)),
      (''security_at_pickup'', JStr (cv_security_at_pickup v)), (''sidc'', JStr (cv_sidc v))]"
| "dump_fields (ChatMessage c) =
     [(''text'', JStr (ch_text c)), (''recipient'', JStr (ch_recipient c))]"
| "dump_fields (GeneralInfo g) =
     [(''subject'', JStr (gi_subject g)), (''text'', JStr (gi_text g)),
      (''location'', jopt dump_location (gi_location g))]"
| "dump_fields (Receipt r) =
     [(''ack_message_id'', JStr (rc_ack_message_id r)),
      (''status'', JStr (receipt_status_str (rc_status r))), (''note'', JStr (rc_note r))]"
| "dump_fields (Chatrooms c) =
     [(''rooms'', JList (map (\<lambda>r. JDict [(''room_id'', JStr (cr_room_id r)), (''name'', JStr (cr_name r)),
          (''members'', JList (map JStr (cr_members r)))]) (cs_rooms c)))]"

definition dump_body :: "body \<Rightarrow> (string, json) dict" where
  "dump_body b = (''type'', JStr (type_name (body_type b))) # dump_fields b"

definition dump_message :: "(int \<Rightarrow> string) \<Rightarrow> message \<Rightarrow> json" where
  "dump_message fmt m =
     JDict [(''header'', JDict (dump_header fmt (header m))), (''body'', JDict (dump_body (body m)))]"

section \<open>Dictionaries as XML elements\<close>

datatype xml = Elem (tag: string) (elem_text: "string option") (children: "xml list")

text \<open>\<open>cstr\<close> is \<open>str\<close> of a float, a list or a dictionary.\<close>

fun to_xml_value :: "(json \<Rightarrow> string) \<Rightarrow> json \<Rightarrow> string" where
  "to_xml_value cstr (JBool b) = (if b then ''true'' else ''false'')"
| "to_xml_value cstr (JStr s) = s"
| "to_xml_value cstr (JInt i) = show_int i"
| "to_xml_value cstr JNull = ''None''"
| "to_xml_value cstr v = cstr v"

fun value_to_element :: "(json \<Rightarrow> string) \<Rightarrow> string \<Rightarrow> json \<Rightarrow> xml"
  and item_to_element :: "(json \<Rightarrow> string) \<Rightarrow> json \<Rightarrow> xml"
where
  "value_to_element cstr key (JDict d) = Elem key None (map (\<lambda>(k, v). value_to_element cstr k v) d)"
| "value_to_element cstr key (JList xs) = Elem key None (map (item_to_element cstr) xs)"
| "value_to_element cstr key JNull = Elem key None []"
| "value_to_element cstr key v = Elem key (Some (to_xml_value cstr v)) []"
| "item_to_element cstr (JDict d) = Elem ''item'' None (map (\<lambda>(k, v). value_to_element cstr k v) d)"
| "item_to_element cstr v = Elem ''item'' (Some (to_xml_value cstr v)) []"

definition dict_to_elements :: "(json \<Rightarrow> string) \<Rightarrow> (string, json) dict \<Rightarrow> xml list" where
  "dict_to_elements cstr data = map (\<lambda>(k, v). value_to_element cstr k v) data"

text \<open>\<open>e.tag.split("}")[-1]\<close>.\<close>

definition tag_of :: "xml \<Rightarrow> string" where
  "tag_of e = rev (takeWhile (\<lambda>c. c \<noteq> CHR ''}'') (rev (tag e)))"

fun elements_to_dict :: "xml \<Rightarrow> json" where
  "elements_to_dict (Elem t x cs) =
     (if cs = [] then (case x of None \<Rightarrow> JNull | Some s \<Rightarrow> JStr s)
      else if list_all (\<lambda>c. tag_of c = ''item'') cs then JList (map elements_to_dict cs)
      else JDict (dict_update [] (map (\<lambda>c. (tag_of c, elements_to_dict c)) cs)))"

section \<open>The codecs\<close>

record codec =
  c_name :: string
  c_content_type :: string
  c_encode :: "message \<Rightarrow> bytes result"
  c_decode :: "bytes \<Rightarrow> message result"

locale codec_law =
  fixes enc :: "message \<Rightarrow> bytes result"
    and dec :: "bytes \<Rightarrow> message result"
    and ok :: "message \<Rightarrow> bool"
  assumes dec_enc: "ok m \<Longrightarrow> enc m = Inr bs \<Longrightarrow> dec bs = Inr m"
begin

lemma enc_inject: "ok m \<Longrightarrow> ok m' \<Longrightarrow> enc m = Inr bs \<Longrightarrow> enc m' = Inr bs \<Longrightarrow> m = m'"
  using dec_enc by (metis sum.inject(2))

end

text \<open>
  The libraries: pydantic's JSON text of a message and of a body and its validation of a text
  and of a plain dictionary; the texts of a time and of a value; lxml's serialiser, parser and
  schema check; and pyarrow's IPC stream of a table.
\<close>

record codec_env =
  e_iso :: "int \<Rightarrow> string"
  e_str :: "json \<Rightarrow> string"
  e_floats :: floatlib
  e_dump_json :: "message \<Rightarrow> string"
  e_dump_body_json :: "body \<Rightarrow> string"
  e_validate_json :: "string \<Rightarrow> message result"
  e_validate :: "json \<Rightarrow> message result"
  e_xml_tostring :: "xml \<Rightarrow> bytes result"
  e_xml_fromstring :: "bytes \<Rightarrow> xml result"
  e_schema :: "(xml \<Rightarrow> bool) option"
  e_ipc_write :: "(string, json) dict list \<Rightarrow> bytes result"
  e_ipc_read :: "bytes \<Rightarrow> (string, json) dict list result"

definition message_from_dict :: "codec_env \<Rightarrow> json \<Rightarrow> message result" where
  "message_from_dict E data = e_validate E data"

subsection \<open>JSON\<close>

definition json_encode :: "codec_env \<Rightarrow> message \<Rightarrow> bytes result" where
  "json_encode E m = Inr (utf8_encode (e_dump_json E m))"

definition json_decode :: "codec_env \<Rightarrow> bytes \<Rightarrow> message result" where
  "json_decode E raw = bindR (utf8_decode raw) (e_validate_json E)"

definition json_codec :: "codec_env \<Rightarrow> codec" where
  "json_codec E = \<lparr> c_name = ''json'', c_content_type = ''application/json'',
     c_encode = json_encode E, c_decode = json_decode E \<rparr>"

text \<open>Pydantic reads back the JSON text it wrote for \<open>m\<close>.\<close>

definition json_ok :: "codec_env \<Rightarrow> message \<Rightarrow> bool" where
  "json_ok E m \<longleftrightarrow> e_validate_json E (e_dump_json E m) = Inr m"

interpretation json: codec_law "json_encode E" "json_decode E" "json_ok E" for E
  by unfold_locales (auto simp: json_encode_def json_decode_def json_ok_def)

subsection \<open>XML\<close>

definition xml_of_message :: "codec_env \<Rightarrow> message \<Rightarrow> xml" where
  "xml_of_message E m =
     Elem ''JdssMessage'' None
       [Elem ''header'' None (dict_to_elements (e_str E) (dump_header (e_iso E) (header m))),
        Elem ''body'' None (dict_to_elements (e_str E) (dump_body (body m)))]"

definition xml_encode :: "codec_env \<Rightarrow> message \<Rightarrow> bytes result" where
  "xml_encode E m = e_xml_tostring E (xml_of_message E m)"

definition xml_payload :: "xml \<Rightarrow> json" where
  "xml_payload doc = JDict (dict_update [] (map (\<lambda>s. (tag_of s, elements_to_dict s)) (children doc)))"

definition xml_decode :: "codec_env \<Rightarrow> bytes \<Rightarrow> message result" where
  "xml_decode E raw = bindR (e_xml_fromstring E raw) (\<lambda>doc.
     if \<not> (case e_schema E of None \<Rightarrow> True | Some valid \<Rightarrow> valid doc)
     then Inl (PyExn ValueErr ''JDSSDM schema validation failed'')
     else message_from_dict E (xml_payload doc))"

definition xml_codec :: "codec_env \<Rightarrow> codec" where
  "xml_codec E = \<lparr> c_name = ''xml'', c_content_type = ''application/vnd.nato.jdssdm+xml'',
     c_encode = xml_encode E, c_decode = xml_decode E \<rparr>"

text \<open>What a parser sees of a serialised tree: an empty text is no text.\<close>

fun parsed :: "xml \<Rightarrow> xml" where
  "parsed (Elem t x cs) = Elem t (if x = Some [] then None else x) (map parsed cs)"

text \<open>What the conversion through elements makes of a value: scalars become their text, the empty
  text, list and dictionary become null.\<close>

fun stringify :: "(json \<Rightarrow> string) \<Rightarrow> json \<Rightarrow> json"
  and stringify_item :: "(json \<Rightarrow> string) \<Rightarrow> json \<Rightarrow> json"
where
  "stringify cstr (JDict d) =
     (if d = [] then JNull else JDict (map (\<lambda>(k, v). (k, stringify cstr v)) d))"
| "stringify cstr (JList xs) = (if xs = [] then JNull else JList (map (stringify_item cstr) xs))"
| "stringify cstr JNull = JNull"
| "stringify cstr v = (if to_xml_value cstr v = [] then JNull else JStr (to_xml_value cstr v))"
| "stringify_item cstr (JDict d) =
     (if d = [] then JNull else JDict (map (\<lambda>(k, v). (k, stringify cstr v)) d))"
| "stringify_item cstr v = (if to_xml_value cstr v = [] then JNull else JStr (to_xml_value cstr v))"

text \<open>The dictionaries whose keys survive as tags.\<close>

definition tag_keys :: "string list \<Rightarrow> bool" where
  "tag_keys ks \<longleftrightarrow> distinct ks \<and> list_all (\<lambda>k. CHR ''}'' \<notin> set k) ks \<and> (ks \<noteq> [] \<longrightarrow> list_ex (\<lambda>k. k \<noteq> ''item'') ks)"

fun tag_dicts :: "json \<Rightarrow> bool" where
  "tag_dicts (JDict d) = (tag_keys (map fst d) \<and> list_all (\<lambda>(k, v). tag_dicts v) d)"
| "tag_dicts (JList xs) = list_all tag_dicts xs"
| "tag_dicts v = True"

lemma tag_of_Elem: "CHR ''}'' \<notin> set t \<Longrightarrow> tag_of (Elem t x cs) = t"
proof -
  assume "CHR ''}'' \<notin> set t"
  then have "takeWhile (\<lambda>c. c \<noteq> CHR ''}'') (rev t) = rev t"
    by (simp only: takeWhile_eq_all_conv set_rev) auto
  then show ?thesis by (simp only: tag_of_def xml.sel rev_rev_ident)
qed

lemma tag_parsed [simp]: "tag (parsed e) = tag e"
  by (cases e) simp

lemma tag_of_parsed: "CHR ''}'' \<notin> set (tag e) \<Longrightarrow> tag_of (parsed e) = tag e"
  by (cases e) (simp add: tag_of_Elem)

lemma tag_value_to_element [simp]: "tag (value_to_element cstr k v) = k"
  by (cases v) simp_all

lemma tag_item_to_element [simp]: "tag (item_to_element cstr v) = ''item''"
  by (cases v) simp_all

definition reads_elem :: "(json \<Rightarrow> string) \<Rightarrow> json \<Rightarrow> bool" where
  "reads_elem cstr v \<longleftrightarrow> (\<forall>k. elements_to_dict (parsed (value_to_element cstr k v)) = stringify cstr v) \<and>
     elements_to_dict (parsed (item_to_element cstr v)) = stringify_item cstr v"

lemma elements_dict:
  assumes "tag_keys (map fst d)" and "\<forall>(k, v) \<in> set d. reads_elem cstr v"
  shows "elements_to_dict (Elem t None (map parsed (map (\<lambda>(k, v). value_to_element cstr k v) d)))
    = (if d = [] then JNull else JDict (map (\<lambda>(k, v). (k, stringify cstr v)) d))"
proof (cases "d = []")
  case False
  let ?cs = "map parsed (map (\<lambda>(k, v). value_to_element cstr k v) d)"
  have keys: "CHR ''}'' \<notin> set k" if "(k, v) \<in> set d" for k v
    using assms(1) that by (auto simp: tag_keys_def list_all_iff)
  have tags: "map tag_of ?cs = map fst d"
    using keys by (auto simp: tag_of_parsed)
  have "\<not> list_all (\<lambda>c. tag_of c = ''item'') ?cs"
  proof
    assume "list_all (\<lambda>c. tag_of c = ''item'') ?cs"
    then have "list_all (\<lambda>k. k = ''item'') (map tag_of ?cs)" by (simp add: list_all_iff)
    with assms(1) False show False
      by (auto simp: tags tag_keys_def list_all_iff list_ex_iff simp del: map_map)
  qed
  moreover have pairs: "map (\<lambda>c. (tag_of c, elements_to_dict c)) ?cs = map (\<lambda>(k, v). (k, stringify cstr v)) d"
    using keys assms(2) by (auto simp: tag_of_parsed reads_elem_def)
  moreover have "dict_ok (map (\<lambda>(k, v). (k, stringify cstr v)) d)"
    using assms(1) by (simp add: tag_keys_def comp_def case_prod_unfold)
  ultimately show ?thesis
    using False dict_update_fresh [of "[]" "map (\<lambda>(k, v). (k, stringify cstr v)) d"]
    unfolding elements_to_dict.simps pairs by (simp del: map_map)
qed simp

lemma reads_elem: "tag_dicts v \<Longrightarrow> reads_elem cstr v"
proof (induction v)
  case (JList xs)
  then have r: "\<forall>x \<in> set xs. reads_elem cstr x" by (auto simp: list_all_iff)
  have "tag_of (parsed (item_to_element cstr x)) = ''item''" for x
    by (simp add: tag_of_parsed)
  then have "elements_to_dict (parsed (value_to_element cstr k (JList xs))) = stringify cstr (JList xs)" for k
    using r by (auto simp: list_all_iff reads_elem_def)
  then show ?case by (simp add: reads_elem_def)
next
  case (JDict d)
  then have "\<forall>(k, v) \<in> set d. reads_elem cstr v" by (auto simp: list_all_iff)
  then show ?case
    using elements_dict [of d cstr] JDict.prems by (simp add: reads_elem_def)
qed (simp_all add: reads_elem_def)

lemma tag_dicts_jopt [simp]: "(\<And>x. tag_dicts (f x)) \<Longrightarrow> tag_dicts (jopt f v)"
  by (simp add: jopt_def split: option.split)

lemma tag_dicts_jrat [simp]: "tag_dicts (jrat x)"
  by (simp add: jrat_def)

lemma tag_dicts_location [simp]: "tag_dicts (dump_location l)"
  by (simp add: dump_location_def tag_keys_def)

lemma tag_dicts_message: "tag_dicts (dump_message fmt m)"
proof -
  have "tag_dicts (JDict (dump_body b))" for b
    by (cases b) (simp_all add: dump_body_def tag_keys_def list_all_iff)
  moreover have "tag_dicts (JDict (dump_header fmt (header m)))"
    by (simp add: dump_header_def tag_keys_def)
  ultimately show ?thesis by (simp add: dump_message_def tag_keys_def)
qed

lemma xml_payload_dump:
  "xml_payload (parsed (xml_of_message E m)) = stringify (e_str E) (dump_message (e_iso E) m)"
proof -
  have h: "tag_keys (map fst (dump_header (e_iso E) (header m)))"
    "\<forall>(k, v) \<in> set (dump_header (e_iso E) (header m)). reads_elem (e_str E) v"
    and b: "tag_keys (map fst (dump_body (body m)))"
    "\<forall>(k, v) \<in> set (dump_body (body m)). reads_elem (e_str E) v"
    using tag_dicts_message [of "e_iso E" m] reads_elem
    by (auto simp: dump_message_def list_all_iff)
  have ne: "dump_header (e_iso E) (header m) \<noteq> []" "dump_body (body m) \<noteq> []"
    by (simp_all add: dump_header_def dump_body_def)
  show ?thesis
    by (simp add: xml_payload_def xml_of_message_def dict_to_elements_def tag_of_Elem
        dump_message_def dict_update_def elements_dict [OF h] elements_dict [OF b] ne
        del: elements_to_dict.simps map_map)
qed

text \<open>What the XML codec hands to validation after parsing is, for every message of
  every type, the message's own dictionary with its scalars as text and with null in place of
  every empty text, list and dictionary: no field is lost, renamed, merged or reordered, and no
  list of one is confused with a record.\<close>

theorem xml_payload_is_dump:
  "xml_payload (parsed (xml_of_message E m)) = stringify (e_str E) (dump_message (e_iso E) m)"
  by (rule xml_payload_dump)

text \<open>lxml parses its own text back, the schema accepts it, and pydantic's lax mode rebuilds \<open>m\<close>
  from the text forms of its fields.\<close>

definition xml_ok :: "codec_env \<Rightarrow> message \<Rightarrow> bool" where
  "xml_ok E m \<longleftrightarrow>
     (\<forall>bs. e_xml_tostring E (xml_of_message E m) = Inr bs \<longrightarrow>
        e_xml_fromstring E bs = Inr (parsed (xml_of_message E m))) \<and>
     (case e_schema E of None \<Rightarrow> True | Some valid \<Rightarrow> valid (parsed (xml_of_message E m))) \<and>
     e_validate E (stringify (e_str E) (dump_message (e_iso E) m)) = Inr m"

lemma xml_decode_encode: "xml_ok E m \<Longrightarrow> xml_encode E m = Inr bs \<Longrightarrow> xml_decode E bs = Inr m"
  unfolding xml_ok_def xml_encode_def xml_decode_def message_from_dict_def
  by (simp only: bindR_simps xml_payload_dump) simp

interpretation xml: codec_law "xml_encode E" "xml_decode E" "xml_ok E" for E
  by unfold_locales (rule xml_decode_encode)

subsection \<open>Arrow\<close>

definition to_row :: "codec_env \<Rightarrow> message \<Rightarrow> (string, json) dict" where
  "to_row E m =
     (let h = header m in
      [(''message_id'', JStr (message_id h)), (''originator_id'', JStr (originator_id h)),
       (''network_id'', JStr (network_id h)), (''reporting_time'', JStr (e_iso E (reporting_time h))),
       (''sequence'', JInt (sequence h)), (''classification'', JInt (classification h)),
       (''releasable_to'', JStr (releasable_to h)), (''type'', JStr (msg_type m)),
       (''body_json'', JStr (e_dump_body_json E (body m)))])"

definition row_get :: "(string, json) dict \<Rightarrow> string \<Rightarrow> json result" where
  "row_get row k = (case map_of row k of None \<Rightarrow> Inl (PyExn KeyErr k) | Some v \<Rightarrow> Inr v)"

fun row_fields :: "(string, json) dict \<Rightarrow> string list \<Rightarrow> (string, json) dict result" where
  "row_fields row [] = Inr []"
| "row_fields row (k # ks) =
     bindR (row_get row k) (\<lambda>v. bindR (row_fields row ks) (\<lambda>r. Inr ((k, v) # r)))"

definition from_row :: "codec_env \<Rightarrow> (string, json) dict \<Rightarrow> message result" where
  "from_row E row =
     bindR (row_fields row [''message_id'', ''originator_id'', ''network_id'', ''reporting_time'',
              ''sequence'', ''classification'', ''releasable_to'']) (\<lambda>hdr.
     bindR (row_get row ''body_json'') (\<lambda>bj.
     bindR (case bj of JStr s \<Rightarrow> json_loads (e_floats E) s
            | _ \<Rightarrow> Inl (PyExn TypeErr ''the JSON object must be str, bytes or bytearray'')) (\<lambda>b.
     message_from_dict E (JDict [(''header'', JDict hdr), (''body'', b)]))))"

fun mapR :: "('a \<Rightarrow> 'b result) \<Rightarrow> 'a list \<Rightarrow> 'b list result" where
  "mapR f [] = Inr []"
| "mapR f (x # xs) = bindR (f x) (\<lambda>y. bindR (mapR f xs) (\<lambda>ys. Inr (y # ys)))"

definition arrow_encode_batch :: "codec_env \<Rightarrow> message list \<Rightarrow> bytes result" where
  "arrow_encode_batch E ms = e_ipc_write E (map (to_row E) ms)"

definition arrow_decode_batch :: "codec_env \<Rightarrow> bytes \<Rightarrow> message list result" where
  "arrow_decode_batch E raw = bindR (e_ipc_read E raw) (mapR (from_row E))"

definition arrow_encode :: "codec_env \<Rightarrow> message \<Rightarrow> bytes result" where
  "arrow_encode E m = arrow_encode_batch E [m]"

definition arrow_decode :: "codec_env \<Rightarrow> bytes \<Rightarrow> message result" where
  "arrow_decode E raw = bindR (arrow_decode_batch E raw) (\<lambda>ms.
     case ms of [] \<Rightarrow> Inl (PyExn ValueErr ''empty Arrow stream'') | m # _ \<Rightarrow> Inr m)"

definition arrow_codec :: "codec_env \<Rightarrow> codec" where
  "arrow_codec E = \<lparr> c_name = ''arrow'', c_content_type = ''application/vnd.apache.arrow.stream'',
     c_encode = arrow_encode E, c_decode = arrow_decode E \<rparr>"

text \<open>Pydantic's JSON text of the body is the one \<open>json.loads\<close> reads as its dictionary, and the
  header's typed cells with that dictionary validate to the message.\<close>

definition row_ok :: "codec_env \<Rightarrow> message \<Rightarrow> bool" where
  "row_ok E m \<longleftrightarrow>
     json_loads (e_floats E) (e_dump_body_json E (body m)) = Inr (JDict (dump_body (body m))) \<and>
     e_validate E (dump_message (e_iso E) m) = Inr m"

definition arrow_ok :: "codec_env \<Rightarrow> message list \<Rightarrow> bool" where
  "arrow_ok E ms \<longleftrightarrow>
     (\<forall>bs. e_ipc_write E (map (to_row E) ms) = Inr bs \<longrightarrow> e_ipc_read E bs = Inr (map (to_row E) ms)) \<and>
     list_all (row_ok E) ms"

lemma from_to_row: "row_ok E m \<Longrightarrow> from_row E (to_row E m) = Inr m"
  by (simp add: from_row_def to_row_def Let_def row_get_def row_ok_def message_from_dict_def
      dump_message_def dump_header_def)

lemma mapR_Inr: "(\<And>x. x \<in> set xs \<Longrightarrow> f (g x) = Inr x) \<Longrightarrow> mapR f (map g xs) = Inr xs"
  by (induction xs) auto

lemma arrow_batch:
  "arrow_ok E ms \<Longrightarrow> arrow_encode_batch E ms = Inr bs \<Longrightarrow> arrow_decode_batch E bs = Inr ms"
  by (auto simp: arrow_encode_batch_def arrow_decode_batch_def arrow_ok_def list_all_iff
      intro!: mapR_Inr from_to_row)

interpretation arrow: codec_law "arrow_encode E" "arrow_decode E" "\<lambda>m. arrow_ok E [m]" for E
  by unfold_locales (simp add: arrow_encode_def arrow_decode_def arrow_batch)

end
