(* ===== verification/Sha256.thy ===== *)
theory Sha256
  imports Prelude
begin

text \<open>
  SHA-256, HMAC and PBKDF2 of Python's \<open>hashlib\<close> and \<open>hmac\<close>, on byte lists with 32-bit words: what
  the pre-shared key provider, the address allocator and the user store compute with. The only
  facts the proofs need are the lengths of the results; that the functions are executable lets the
  model be run on the vectors of the standards.
\<close>

unbundle bit_operations_syntax

type_synonym w32 = "32 word"

text \<open>The constants are defined as the standard explains them: the first 32 bits of the fractional
  parts of the cube roots of the first 64 primes, and of the square roots of the first eight.\<close>

definition iroot :: "nat \<Rightarrow> int \<Rightarrow> int" where
  "iroot k n = foldl (\<lambda>r b. if (r + 2 ^ b) ^ k \<le> n then r + 2 ^ b else r) 0 (rev [0..<40])"

definition root_bits :: "nat \<Rightarrow> int \<Rightarrow> w32" where
  "root_bits k p = word_of_int (iroot k (p * 2 ^ (32 * k)))"

definition small_primes :: "int list" where
  "small_primes = filter (\<lambda>n. list_all (\<lambda>d. n mod d \<noteq> 0) [2..n - 1]) [2..311]"

definition sha_K :: "w32 list" where
  "sha_K = map (root_bits 3) small_primes"

definition sha_H0 :: "w32 list" where
  "sha_H0 = map (root_bits 2) [2, 3, 5, 7, 11, 13, 17, 19]"

definition word_of_bytes :: "bytes \<Rightarrow> w32" where
  "word_of_bytes bs = foldl (\<lambda>w b. push_bit 8 w OR ucast b) 0 bs"

definition bytes_of_word :: "w32 \<Rightarrow> bytes" where
  "bytes_of_word w = [ucast (drop_bit 24 w), ucast (drop_bit 16 w), ucast (drop_bit 8 w), ucast w]"

fun chunks_fuel :: "nat \<Rightarrow> nat \<Rightarrow> 'a list \<Rightarrow> 'a list list" where
  "chunks_fuel 0 n xs = []"
| "chunks_fuel (Suc k) n xs = (if xs = [] then [] else take n xs # chunks_fuel k n (drop n xs))"

definition chunks :: "nat \<Rightarrow> 'a list \<Rightarrow> 'a list list" where
  "chunks n xs = chunks_fuel (length xs) n xs"

definition be64 :: "nat \<Rightarrow> bytes" where
  "be64 n = (let w = (word_of_nat n :: 64 word) in map (\<lambda>i. ucast (drop_bit (8 * (7 - i)) w)) [0..<8])"

definition sha_pad :: "bytes \<Rightarrow> bytes" where
  "sha_pad m = m @ [0x80] @ replicate ((119 - length m mod 64) mod 64) 0 @ be64 (8 * length m)"

definition sha_extend :: "w32 list \<Rightarrow> w32 list" where
  "sha_extend ws =
     (let n = length ws;
          a = ws ! (n - 15); b = ws ! (n - 2);
          s0 = word_rotr 7 a XOR word_rotr 18 a XOR drop_bit 3 a;
          s1 = word_rotr 17 b XOR word_rotr 19 b XOR drop_bit 10 b
      in ws @ [ws ! (n - 16) + s0 + ws ! (n - 7) + s1])"

record sha_state =
  ra :: w32
  rb :: w32
  rc :: w32
  rd :: w32
  re :: w32
  rf :: w32
  rg :: w32
  rh :: w32

definition sha_round :: "sha_state \<Rightarrow> w32 \<times> w32 \<Rightarrow> sha_state" where
  "sha_round st kw =
     (let a = ra st; b = rb st; c = rc st; e = re st; f = rf st; g = rg st;
          s1 = word_rotr 6 e XOR word_rotr 11 e XOR word_rotr 25 e;
          ch = (e AND f) XOR (NOT e AND g);
          t1 = rh st + s1 + ch + fst kw + snd kw;
          s0 = word_rotr 2 a XOR word_rotr 13 a XOR word_rotr 22 a;
          maj = (a AND b) XOR (a AND c) XOR (b AND c)
      in \<lparr> ra = t1 + (s0 + maj), rb = a, rc = b, rd = c, re = rd st + t1, rf = e, rg = f, rh = g \<rparr>)"

definition sha_compress :: "w32 list \<Rightarrow> bytes \<Rightarrow> w32 list" where
  "sha_compress h block =
     (let ws = (sha_extend ^^ 48) (map word_of_bytes (chunks 4 block));
          st = foldl sha_round \<lparr> ra = h ! 0, rb = h ! 1, rc = h ! 2, rd = h ! 3,
                                 re = h ! 4, rf = h ! 5, rg = h ! 6, rh = h ! 7 \<rparr> (zip sha_K ws)
      in [h ! 0 + ra st, h ! 1 + rb st, h ! 2 + rc st, h ! 3 + rd st,
          h ! 4 + re st, h ! 5 + rf st, h ! 6 + rg st, h ! 7 + rh st])"

definition sha256 :: "bytes \<Rightarrow> bytes" where
  "sha256 m = concat (map bytes_of_word (foldl sha_compress sha_H0 (chunks 64 (sha_pad m))))"

lemma length_sha_fold: "length h = 8 \<Longrightarrow> length (foldl sha_compress h bs) = 8"
  by (induction bs arbitrary: h) (simp_all add: sha_compress_def Let_def)

lemma length_bytes_of_words: "length (concat (map bytes_of_word ws)) = 4 * length ws"
  by (induction ws) (simp_all add: bytes_of_word_def)

lemma length_sha256 [simp]: "length (sha256 m) = 32"
  by (simp add: sha256_def length_bytes_of_words length_sha_fold sha_H0_def)

section \<open>HMAC and PBKDF2\<close>

definition hmac_key :: "bytes \<Rightarrow> bytes" where
  "hmac_key k = (let k' = (if 64 < length k then sha256 k else k) in k' @ replicate (64 - length k') 0)"

definition hmac_sha256 :: "bytes \<Rightarrow> bytes \<Rightarrow> bytes" where
  "hmac_sha256 k m =
     (let key = hmac_key k
      in sha256 (map (\<lambda>b. b XOR 0x5C) key @ sha256 (map (\<lambda>b. b XOR 0x36) key @ m)))"

lemma length_hmac [simp]: "length (hmac_sha256 k m) = 32"
  by (simp add: hmac_sha256_def Let_def)

definition xor_bytes :: "bytes \<Rightarrow> bytes \<Rightarrow> bytes" where
  "xor_bytes xs ys = map2 (\<lambda>x y. x XOR y) xs ys"

text \<open>One block of output, which is all the program asks for (32 bytes).\<close>

definition pbkdf2_sha256 :: "bytes \<Rightarrow> bytes \<Rightarrow> nat \<Rightarrow> bytes" where
  "pbkdf2_sha256 pw salt n =
     (let u = hmac_sha256 pw (salt @ [0, 0, 0, 1])
      in snd (((\<lambda>(u, t). let u' = hmac_sha256 pw u in (u', xor_bytes t u')) ^^ (n - 1)) (u, u)))"

definition hex_lower :: "nat \<Rightarrow> char" where
  "hex_lower n = (if n < 10 then char_of (48 + n) else char_of (87 + n))"

definition hex_of_bytes :: "bytes \<Rightarrow> string" where
  "hex_of_bytes bs = concat (map (\<lambda>b. [hex_lower (unat b div 16), hex_lower (unat b mod 16)]) bs)"

lemma length_hex_of_bytes [simp]: "length (hex_of_bytes bs) = 2 * length bs"
  by (induction bs) (simp_all add: hex_of_bytes_def)

lemma hex_lower_not_bar: "n < 16 \<Longrightarrow> hex_lower n \<noteq> CHR ''|''"
proof
  assume n: "n < 16" and "hex_lower n = CHR ''|''"
  then have "of_char (hex_lower n) = (124 :: nat)" by simp
  with n show False by (simp add: hex_lower_def split: if_splits)
qed

end
