(* ===== verification/Security.thy ===== *)
theory Security
  imports Sha256 PyText
begin

text \<open>
  \<open>security/provider.py\<close> and \<open>security/classification.py\<close>: the two providers behind the protocol
  \<open>SecurityProvider\<close> and the releasability caveat. The protocol's contract is the locale
  \<open>security_law\<close>: what a provider accepts is exactly what it protects, and it gives back the
  payload. The pre-shared key provider meets it with HMAC-SHA256.
\<close>

record security_provider =
  sp_name :: string
  sp_protect :: "bytes \<Rightarrow> bytes"
  sp_verify :: "bytes \<Rightarrow> bytes result"

locale security_law =
  fixes protect :: "bytes \<Rightarrow> bytes"
    and verify :: "bytes \<Rightarrow> bytes result"
  assumes verify_iff: "verify wire = Inr p \<longleftrightarrow> wire = protect p"
begin

lemma verify_protect [simp]: "verify (protect p) = Inr p"
  by (simp add: verify_iff)

lemma protect_inject: "protect p = protect q \<Longrightarrow> p = q"
  by (metis verify_protect sum.inject(2))

lemma unprotected_rejected: "(\<And>p. wire \<noteq> protect p) \<Longrightarrow> \<not> is_ok (verify wire)"
  by (auto simp: is_ok_iff verify_iff)

end

section \<open>Providers\<close>

definition null_protect :: "bytes \<Rightarrow> bytes" where
  "null_protect payload = payload"

definition null_verify :: "bytes \<Rightarrow> bytes result" where
  "null_verify wire = Inr wire"

definition null_security :: security_provider where
  "null_security = \<lparr> sp_name = ''null'', sp_protect = null_protect, sp_verify = null_verify \<rparr>"

definition TAG_LEN :: nat where
  "TAG_LEN = 32"

definition psk_tag :: "bytes \<Rightarrow> bytes \<Rightarrow> bytes" where
  "psk_tag key payload = hmac_sha256 key payload"

definition psk_protect :: "bytes \<Rightarrow> bytes \<Rightarrow> bytes" where
  "psk_protect key payload = payload @ psk_tag key payload"

definition psk_verify :: "bytes \<Rightarrow> bytes \<Rightarrow> bytes result" where
  "psk_verify key wire =
     (if length wire < TAG_LEN then Inl (PyExn SecurityErr ''frame too short for HMAC tag'')
      else
        let payload = take (length wire - TAG_LEN) wire;
            tag = drop (length wire - TAG_LEN) wire
        in if tag \<noteq> psk_tag key payload then Inl (PyExn SecurityErr ''HMAC verification failed'')
           else Inr payload)"

text \<open>The key given as text is its UTF-8.\<close>

definition psk_security :: "string \<Rightarrow> security_provider" where
  "psk_security key = \<lparr> sp_name = ''psk'', sp_protect = psk_protect (utf8_encode key),
     sp_verify = psk_verify (utf8_encode key) \<rparr>"

lemma length_psk_tag [simp]: "length (psk_tag key p) = TAG_LEN"
  by (simp add: psk_tag_def TAG_LEN_def)

lemma psk_verify_Inr: "psk_verify key wire = Inr p \<longleftrightarrow> wire = psk_protect key p"
proof
  assume v: "psk_verify key wire = Inr p"
  then have "p = take (length wire - TAG_LEN) wire" "drop (length wire - TAG_LEN) wire = psk_tag key p"
    by (auto simp: psk_verify_def Let_def split: if_splits)
  then show "wire = psk_protect key p"
    by (metis psk_protect_def append_take_drop_id)
qed (simp add: psk_verify_def psk_protect_def Let_def)

interpretation null: security_law null_protect null_verify
  by unfold_locales (auto simp: null_protect_def null_verify_def)

interpretation psk: security_law "psk_protect key" "psk_verify key" for key
  by unfold_locales (rule psk_verify_Inr)

lemma psk_verify_kind:
  "psk_verify key wire = Inl e \<Longrightarrow> exn_kind e = SecurityErr"
  by (auto simp: psk_verify_def Let_def split: if_splits)

text \<open>With the pre-shared key the receiver accepts a wire text exactly when it is some
  payload followed by that payload's 32-byte HMAC-SHA256 under the receiver's key, and then it
  returns this payload; everything else, a text shorter than the tag included, raises
  \<open>SecurityError\<close> and nothing else.\<close>

theorem psk_verify_spec:
  "psk_verify key wire =
     (case (if length wire < 32 then None else Some (take (length wire - 32) wire)) of
        None \<Rightarrow> Inl (PyExn SecurityErr ''frame too short for HMAC tag'')
      | Some p \<Rightarrow> if wire = p @ hmac_sha256 key p then Inr p
                  else Inl (PyExn SecurityErr ''HMAC verification failed''))"
proof (cases "length wire < 32")
  case False
  have "wire = take (length wire - 32) wire @ t \<longleftrightarrow> drop (length wire - 32) wire = t" for t
    by (metis append_take_drop_id same_append_eq)
  then show ?thesis
    using False by (simp add: psk_verify_def TAG_LEN_def psk_tag_def)
qed (simp add: psk_verify_def TAG_LEN_def)

section \<open>Classification and releasability\<close>

datatype classification_level = UNCLASSIFIED | RESTRICTED | CONFIDENTIAL | SECRET

fun level_int :: "classification_level \<Rightarrow> nat" where
  "level_int UNCLASSIFIED = 0"
| "level_int RESTRICTED = 1"
| "level_int CONFIDENTIAL = 2"
| "level_int SECRET = 3"

fun level_label :: "classification_level \<Rightarrow> string" where
  "level_label UNCLASSIFIED = ''NATO UNCLASSIFIED''"
| "level_label RESTRICTED = ''NATO RESTRICTED''"
| "level_label CONFIDENTIAL = ''NATO CONFIDENTIAL''"
| "level_label SECRET = ''NATO SECRET''"

text \<open>An \<open>IntEnum\<close> is ordered by its numbers, which are those a header may carry.\<close>

lemma level_int_inject: "level_int a = level_int b \<longleftrightarrow> a = b"
  by (cases a; cases b) simp_all

lemma level_of_int: "n \<le> 3 \<longleftrightarrow> (\<exists>l. level_int l = n)"
proof
  assume "n \<le> 3"
  then consider "n = 0" | "n = 1" | "n = 2" | "n = 3" by linarith
  then show "\<exists>l. level_int l = n" by cases (metis level_int.simps)+
next
  have "level_int l \<le> 3" for l by (cases l) simp_all
  then show "\<exists>l. level_int l = n \<Longrightarrow> n \<le> 3" by blast
qed

instantiation classification_level :: linorder
begin

definition less_eq_classification_level :: "classification_level \<Rightarrow> classification_level \<Rightarrow> bool" where
  "less_eq_classification_level a b \<longleftrightarrow> level_int a \<le> level_int b"

definition less_classification_level :: "classification_level \<Rightarrow> classification_level \<Rightarrow> bool" where
  "less_classification_level a b \<longleftrightarrow> level_int a < level_int b"

instance
  by intro_classes (auto simp: less_eq_classification_level_def less_classification_level_def level_int_inject)

end

definition comma_to_space :: "string \<Rightarrow> string" where
  "comma_to_space s = map (\<lambda>c. if c = CHR '','' then CHR '' '' else c) s"

definition releasable_to_nation :: "string \<Rightarrow> string \<Rightarrow> bool" where
  "releasable_to_nation caveat nation =
     (if caveat = [] \<or> py_upper caveat \<in> {''ALL'', ''REL ALL''} then True
      else py_upper nation \<in> set (map py_upper (split_ws (comma_to_space caveat))))"

lemma comma_to_space_id: "CHR '','' \<notin> set s \<Longrightarrow> comma_to_space s = s"
  by (induction s) (auto simp: comma_to_space_def)

lemma comma_to_space_append: "comma_to_space (s @ t) = comma_to_space s @ comma_to_space t"
  by (simp add: comma_to_space_def)

lemma comma_to_space_sep:
  "c = CHR '','' \<or> c = CHR '' '' \<Longrightarrow> comma_to_space (c # s) = CHR '' '' # comma_to_space s"
  unfolding comma_to_space_def by auto

lemma comma_join:
  "\<forall>w \<in> set ws. CHR '','' \<notin> set w \<Longrightarrow> c = CHR '','' \<or> c = CHR '' '' \<Longrightarrow>
   comma_to_space (join_words c ws) = join_words (CHR '' '') ws"
proof (induction ws rule: induct_list012)
  case (3 w v ws)
  have "comma_to_space w = w" using 3 by (simp add: comma_to_space_id)
  then show ?case using 3 by (simp add: comma_to_space_append comma_to_space_sep)
qed (simp_all add: comma_to_space_id comma_to_space_def [of "[]"])

text \<open>A caveat that lists nations, separated by spaces or by commas, releases to a
  nation exactly when the nation is on the list, compared without regard to case.\<close>

theorem releasable_to_list:
  assumes "list_all is_word nations" and "\<forall>w \<in> set nations. CHR '','' \<notin> set w"
    and "sep = CHR '','' \<or> sep = CHR '' ''" and "nations \<noteq> []"
    and "py_upper (join_words sep nations) \<notin> {''ALL'', ''REL ALL''}"
  shows "releasable_to_nation (join_words sep nations) nation \<longleftrightarrow>
    (\<exists>n \<in> set nations. py_upper n = py_upper nation)"
proof -
  have "py_space (CHR '' '')" by (simp add: py_space_def)
  then have "split_ws (comma_to_space (join_words sep nations)) = nations"
    using comma_join [OF assms(2,3)] split_join_words [OF assms(1)] by simp
  moreover have "join_words sep nations \<noteq> []"
  proof (cases nations)
    case (Cons n ns)
    then show ?thesis using assms(1) by (cases ns) (auto simp: is_word_def)
  qed (use assms(4) in simp)
  ultimately show ?thesis
    using assms(5) by (auto simp: releasable_to_nation_def image_iff intro: sym)
qed

theorem releasable_to_list_witness:
  "releasable_to_nation ''bel,NLD'' ''Nld'' \<longleftrightarrow> (\<exists>n \<in> {''bel'', ''NLD''}. py_upper n = py_upper ''Nld'')"
proof -
  have w: "list_all is_word [''bel'', ''NLD'']" by code_simp
  have c: "\<forall>w \<in> set [''bel'', ''NLD'']. CHR '','' \<notin> set w" by simp
  have j: "join_words (CHR '','') [''bel'', ''NLD''] = ''bel,NLD''" by simp
  have u: "py_upper (join_words (CHR '','') [''bel'', ''NLD'']) = ''BEL,NLD''" unfolding j by code_simp
  have "py_upper (join_words (CHR '','') [''bel'', ''NLD'']) \<notin> {''ALL'', ''REL ALL''}"
    unfolding u by simp
  from releasable_to_list [OF w c _ _ this, of "''Nld''"] show ?thesis
    unfolding j by simp
qed

end
