(* ===== verification/Policy.thy ===== *)
theory Policy
  imports Messages
begin

text \<open>
  \<open>connections/policy.py\<close>: the connection policies. A policy decides on a message by its
  originator alone, which is the law of the locale \<open>connection_policy\<close>; the open, the matrix and
  the pair policy and their composition are interpretations of it. The matrix policy and the pair
  policy also have the management operations and the snapshots the coalition authority distributes.
  A Python \<open>set\<close> of peers is a \<open>string set\<close>, finite in every state the operations build.
\<close>

locale connection_policy =
  fixes allows :: "message \<Rightarrow> bool"
  assumes by_originator:
    "originator_id (header m) = originator_id (header m') \<Longrightarrow> allows m = allows m'"
begin

definition admits :: "string \<Rightarrow> bool" where
  "admits peer = allows \<lparr> header = \<lparr> message_id = [], originator_id = peer, network_id = [],
     reporting_time = 0, sequence = 0, classification = 0, releasable_to = [] \<rparr>,
     body = ChatMessage \<lparr> ch_text = [], ch_recipient = [] \<rparr> \<rparr>"

lemma allows_admits: "allows m \<longleftrightarrow> admits (originator_id (header m))"
  unfolding admits_def by (rule by_originator) simp

lemma blocked_throughout:
  "\<not> allows m \<Longrightarrow> originator_id (header m') = originator_id (header m) \<Longrightarrow> \<not> allows m'"
  by (simp add: allows_admits)

end

section \<open>The open policy and composition\<close>

definition allow_all_allows :: "message \<Rightarrow> bool" where
  "allow_all_allows m = True"

definition composite_allows :: "(message \<Rightarrow> bool) list \<Rightarrow> message \<Rightarrow> bool" where
  "composite_allows policies m = list_all (\<lambda>allows. allows m) policies"

section \<open>The matrix policy\<close>

record matrix_policy =
  mp_node_id :: string
  default_allow :: bool
  overrides :: "(string, bool) dict"

definition matrix_init :: "string \<Rightarrow> string \<Rightarrow> (string, bool) dict \<Rightarrow> matrix_policy" where
  "matrix_init node_id default_action ovr =
     \<lparr> mp_node_id = node_id, default_allow = (default_action \<noteq> ''deny''), overrides = ovr \<rparr>"

definition matrix_allows_peer :: "matrix_policy \<Rightarrow> string \<Rightarrow> bool" where
  "matrix_allows_peer p peer = dict_get (overrides p) peer (default_allow p)"

definition matrix_allows :: "matrix_policy \<Rightarrow> message \<Rightarrow> bool" where
  "matrix_allows p m = matrix_allows_peer p (originator_id (header m))"

definition matrix_block :: "string \<Rightarrow> matrix_policy \<Rightarrow> matrix_policy" where
  "matrix_block peer p = p\<lparr>overrides := AList.update peer False (overrides p)\<rparr>"

definition matrix_allow :: "string \<Rightarrow> matrix_policy \<Rightarrow> matrix_policy" where
  "matrix_allow peer p = p\<lparr>overrides := AList.update peer True (overrides p)\<rparr>"

definition matrix_reset :: "string \<Rightarrow> matrix_policy \<Rightarrow> matrix_policy" where
  "matrix_reset peer p = p\<lparr>overrides := AList.delete peer (overrides p)\<rparr>"

definition matrix_set_default :: "string \<Rightarrow> matrix_policy \<Rightarrow> matrix_policy" where
  "matrix_set_default action p = p\<lparr>default_allow := (action \<noteq> ''deny'')\<rparr>"

definition matrix_replace :: "string \<Rightarrow> (string, string) dict \<Rightarrow> matrix_policy \<Rightarrow> matrix_policy" where
  "matrix_replace default_action ovr p =
     p\<lparr>default_allow := (default_action \<noteq> ''deny''), overrides := dict_map (\<lambda>v. v = ''allow'') ovr\<rparr>"

definition matrix_blocked_peers :: "matrix_policy \<Rightarrow> string list" where
  "matrix_blocked_peers p = sort (map fst (filter (\<lambda>(k, allowed). \<not> allowed) (overrides p)))"

record matrix_snap =
  ms_default_action :: string
  ms_overrides :: "(string, string) dict"

definition matrix_snapshot :: "matrix_policy \<Rightarrow> matrix_snap" where
  "matrix_snapshot p =
     \<lparr> ms_default_action = (if default_allow p then ''allow'' else ''deny''),
       ms_overrides = dict_map (\<lambda>allowed. if allowed then ''allow'' else ''block'') (overrides p) \<rparr>"

section \<open>The pair policy\<close>

record pair_policy =
  pp_node_id :: string
  pairs :: "(string, string set) dict"

definition pairs_init :: "string \<Rightarrow> (string, string list) dict \<Rightarrow> pair_policy" where
  "pairs_init node_id ps = \<lparr> pp_node_id = node_id, pairs = dict_map set ps \<rparr>"

definition pairs_allows :: "pair_policy \<Rightarrow> message \<Rightarrow> bool" where
  "pairs_allows p m =
     (case map_of (pairs p) (pp_node_id p) of
        None \<Rightarrow> True
      | Some blocked \<Rightarrow> blocked = {} \<or> originator_id (header m) \<notin> blocked)"

definition pairs_block :: "string \<Rightarrow> string \<Rightarrow> pair_policy \<Rightarrow> pair_policy" where
  "pairs_block observer originator p =
     p\<lparr>pairs := AList.update observer (insert originator (dict_get (pairs p) observer {})) (pairs p)\<rparr>"

definition pairs_allow :: "string \<Rightarrow> string \<Rightarrow> pair_policy \<Rightarrow> pair_policy" where
  "pairs_allow observer originator p =
     (case map_of (pairs p) observer of
        None \<Rightarrow> p
      | Some peers \<Rightarrow>
          if peers = {} then p
          else if peers - {originator} = {} then p\<lparr>pairs := AList.delete observer (pairs p)\<rparr>
          else p\<lparr>pairs := AList.update observer (peers - {originator}) (pairs p)\<rparr>)"

definition pairs_replace :: "(string, string list) dict \<Rightarrow> pair_policy \<Rightarrow> pair_policy" where
  "pairs_replace ps p = p\<lparr>pairs := dict_map set (filter (\<lambda>(k, v). v \<noteq> []) ps)\<rparr>"

definition pairs_snapshot :: "pair_policy \<Rightarrow> (string, string list) dict" where
  "pairs_snapshot p = dict_map sorted_list_of_set (filter (\<lambda>(k, v). v \<noteq> {}) (pairs p))"

section \<open>Every policy decides by the originator\<close>

interpretation allow_all: connection_policy allow_all_allows
  by unfold_locales (simp add: allow_all_allows_def)

interpretation matrix: connection_policy "matrix_allows p" for p
  by unfold_locales (simp add: matrix_allows_def)

interpretation pair: connection_policy "pairs_allows p" for p
  by unfold_locales (simp add: pairs_allows_def split: option.split)

text \<open>The gateway's effective policy: its own, the coalition's and the pair policy.\<close>

definition effective_allows :: "matrix_policy option \<Rightarrow> matrix_policy \<Rightarrow> pair_policy \<Rightarrow> message \<Rightarrow> bool" where
  "effective_allows local coalition ps =
     composite_allows [case local of None \<Rightarrow> allow_all_allows | Some p \<Rightarrow> matrix_allows p,
                       matrix_allows coalition, pairs_allows ps]"

lemma composite_by_originator:
  "\<forall>allows \<in> set ps. connection_policy allows \<Longrightarrow> connection_policy (composite_allows ps)"
proof (rule connection_policy.intro)
  fix m m' :: message
  assume "\<forall>allows \<in> set ps. connection_policy allows"
    and eq: "originator_id (header m) = originator_id (header m')"
  then have "p m = p m'" if "p \<in> set ps" for p
    using that connection_policy.by_originator [OF _ eq] by blast
  then show "composite_allows ps m = composite_allows ps m'"
    unfolding composite_allows_def list_all_iff by blast
qed

lemma effective_parts:
  "\<forall>allows \<in> set [case local of None \<Rightarrow> allow_all_allows | Some p \<Rightarrow> matrix_allows p,
                  matrix_allows coalition, pairs_allows ps]. connection_policy allows"
  by (cases local)
     (simp_all add: allow_all.connection_policy_axioms matrix.connection_policy_axioms
       pair.connection_policy_axioms)

interpretation effective: connection_policy "effective_allows local coalition ps"
  for local coalition ps
  using composite_by_originator [OF effective_parts] by (simp add: effective_allows_def [abs_def])

section \<open>Management\<close>

lemma matrix_allows_peer_ops [simp]:
  "matrix_allows_peer (matrix_block x p) y = (y \<noteq> x \<and> matrix_allows_peer p y)"
  "matrix_allows_peer (matrix_allow x p) y = (y = x \<or> matrix_allows_peer p y)"
  "matrix_allows_peer (matrix_reset x p) y = (if y = x then default_allow p else matrix_allows_peer p y)"
  "matrix_allows_peer (matrix_set_default a p) y = dict_get (overrides p) y (a \<noteq> ''deny'')"
  by (auto simp: matrix_allows_peer_def matrix_block_def matrix_allow_def matrix_reset_def
      matrix_set_default_def dict_get_def)

definition matrix_wf :: "matrix_policy \<Rightarrow> bool" where
  "matrix_wf p \<longleftrightarrow> dict_ok (overrides p)"

lemma matrix_wf_ops [inv_intros]:
  "dict_ok ovr \<Longrightarrow> matrix_wf (matrix_init n a ovr)"
  "matrix_wf p \<Longrightarrow> matrix_wf (matrix_block x p)"
  "matrix_wf p \<Longrightarrow> matrix_wf (matrix_allow x p)"
  "matrix_wf p \<Longrightarrow> matrix_wf (matrix_reset x p)"
  "matrix_wf p \<Longrightarrow> matrix_wf (matrix_set_default a p)"
  "dict_ok ovr' \<Longrightarrow> matrix_wf (matrix_replace a ovr' p)"
  by (simp_all add: matrix_wf_def matrix_init_def matrix_block_def matrix_allow_def matrix_reset_def
      matrix_set_default_def matrix_replace_def)

lemma blocked_peers_iff:
  "matrix_wf p \<Longrightarrow> peer \<in> set (matrix_blocked_peers p) \<longleftrightarrow> map_of (overrides p) peer = Some False"
  by (auto simp: matrix_wf_def matrix_blocked_peers_def image_iff map_of_eq_Some_iff)

definition pairs_wf :: "pair_policy \<Rightarrow> bool" where
  "pairs_wf p \<longleftrightarrow> dict_ok (pairs p) \<and> (\<forall>(k, v) \<in> set (pairs p). finite v)"

definition pair_blocked :: "pair_policy \<Rightarrow> string \<Rightarrow> string \<Rightarrow> bool" where
  "pair_blocked p observer originator \<longleftrightarrow> originator \<in> dict_get (pairs p) observer {}"

lemma pairs_allows_iff: "pairs_allows p m \<longleftrightarrow> \<not> pair_blocked p (pp_node_id p) (originator_id (header m))"
  by (auto simp: pairs_allows_def pair_blocked_def dict_get_def split: option.split)

lemma set_AList_update: "(k, v) \<in> set (AList.update k' v' d) \<Longrightarrow> (k, v) = (k', v') \<or> (k, v) \<in> set d"
  by (induction d) (auto split: if_splits)

lemma set_AList_delete: "set (AList.delete k d) \<subseteq> set d"
  by (auto simp: AList.delete_eq)

lemma pairs_wf_get: "pairs_wf p \<Longrightarrow> finite (dict_get (pairs p) o' {})"
  by (auto simp: pairs_wf_def dict_get_def split: option.split dest: map_of_SomeD)

lemma pairs_wf_ops [inv_intros]:
  "dict_ok ps \<Longrightarrow> pairs_wf (pairs_init n ps)"
  "pairs_wf p \<Longrightarrow> pairs_wf (pairs_block x y p)"
  "pairs_wf p \<Longrightarrow> pairs_wf (pairs_allow x y p)"
  "dict_ok ps \<Longrightarrow> pairs_wf (pairs_replace ps p)"
proof -
  show "dict_ok ps \<Longrightarrow> pairs_wf (pairs_init n ps)"
    by (auto simp: pairs_wf_def pairs_init_def dict_map_def comp_def case_prod_unfold)
  show "pairs_wf p \<Longrightarrow> pairs_wf (pairs_block x y p)"
    using pairs_wf_get [of p x]
    by (auto simp: pairs_wf_def pairs_block_def dest!: set_AList_update)
  show "pairs_wf p \<Longrightarrow> pairs_wf (pairs_allow x y p)"
    using set_AList_delete [of x "pairs p"]
    by (fastforce simp: pairs_wf_def pairs_allow_def dest!: set_AList_update map_of_SomeD split: option.split)
  show "dict_ok ps \<Longrightarrow> pairs_wf (pairs_replace ps p)"
    by (auto simp: pairs_wf_def pairs_replace_def dict_map_def comp_def case_prod_unfold distinct_map_filter)
qed

lemma pair_blocked_ops [simp]:
  "pair_blocked (pairs_block x y p) a b \<longleftrightarrow> (a = x \<and> b = y) \<or> pair_blocked p a b"
  "pair_blocked (pairs_allow x y p) a b \<longleftrightarrow> pair_blocked p a b \<and> \<not> (a = x \<and> b = y)"
  by (auto simp: pair_blocked_def pairs_block_def pairs_allow_def dict_get_def split: option.splits)

lemma map_of_filter_vals:
  "dict_ok d \<Longrightarrow> map_of (filter (\<lambda>(k, v). P v) d) k =
     (case map_of d k of Some v \<Rightarrow> if P v then Some v else None | None \<Rightarrow> None)"
proof (induction d)
  case (Cons p d)
  obtain k' v where p: "p = (k', v)" by (cases p)
  have "map_of d k' = None" using Cons.prems by (simp add: p map_of_eq_None_iff)
  with Cons show ?case by (auto simp: p split: option.splits)
qed simp

lemma sorted_list_Nil: "finite v \<Longrightarrow> [] = sorted_list_of_set v \<longleftrightarrow> v = {}"
  by (metis sorted_list_of_set_eq_Nil_iff)

lemma pairs_snapshot_replace:
  assumes "pairs_wf p"
  shows "pair_blocked (pairs_replace (pairs_snapshot p) q) a b \<longleftrightarrow> pair_blocked p a b"
proof -
  have ok: "dict_ok (pairs p)" and fin: "\<And>k v. (k, v) \<in> set (pairs p) \<Longrightarrow> finite v"
    using assms by (auto simp: pairs_wf_def)
  have "filter (\<lambda>(k, v). v \<noteq> []) (dict_map sorted_list_of_set (filter (\<lambda>(k, v). v \<noteq> {}) (pairs p)))
      = dict_map sorted_list_of_set (filter (\<lambda>(k, v). v \<noteq> {}) (pairs p))"
    using fin by (fastforce simp: dict_map_def sorted_list_Nil intro!: filter_True)
  then have "pairs (pairs_replace (pairs_snapshot p) q) = filter (\<lambda>(k, v). v \<noteq> {}) (pairs p)"
    using fin by (auto simp: pairs_replace_def pairs_snapshot_def intro!: dict_map_id)
  then show ?thesis
    using ok by (simp add: pair_blocked_def dict_get_def map_of_filter_vals split: option.split)
qed

lemma matrix_snapshot_replace:
  "matrix_replace (ms_default_action (matrix_snapshot p)) (ms_overrides (matrix_snapshot p)) q
     = p\<lparr>mp_node_id := mp_node_id q\<rparr>"
proof -
  have "dict_map (\<lambda>v. v = ''allow'') (dict_map (\<lambda>allowed. if allowed then ''allow'' else ''block'') (overrides p))
    = overrides p"
    by (simp only: dict_map_comp) (rule dict_map_id, simp)
  then show ?thesis by (simp add: matrix_replace_def matrix_snapshot_def)
qed

lemma snapshot_transfers:
  assumes "pairs_wf auth_pairs"
  shows "effective_allows local
      (matrix_replace (ms_default_action (matrix_snapshot auth)) (ms_overrides (matrix_snapshot auth)) mine)
      (pairs_replace (pairs_snapshot auth_pairs) my_pairs) m
    = effective_allows local auth (auth_pairs\<lparr>pp_node_id := pp_node_id my_pairs\<rparr>) m"
  using assms
  by (simp add: effective_allows_def composite_allows_def matrix_snapshot_replace matrix_allows_def
      matrix_allows_peer_def pairs_allows_iff pairs_snapshot_replace)
     (simp add: pairs_replace_def pair_blocked_def)

text \<open>A node that replaces its coalition and pair policies by the snapshots of the
  authority's ends up admitting exactly the messages the authority's policies admit for that
  node, whatever its policies were before.\<close>

theorem policy_snapshot_transfers:
  assumes "pairs_wf auth_pairs"
  shows "effective_allows local
      (matrix_replace (ms_default_action (matrix_snapshot auth)) (ms_overrides (matrix_snapshot auth)) mine)
      (pairs_replace (pairs_snapshot auth_pairs) my_pairs) m
    = effective_allows local auth (auth_pairs\<lparr>pp_node_id := pp_node_id my_pairs\<rparr>) m"
  by (rule snapshot_transfers [OF assms])

theorem policy_snapshot_transfers_witness:
  "\<forall>m. effective_allows None
      (matrix_replace (ms_default_action (matrix_snapshot (matrix_init ''c'' ''deny'' [(''a'', True)])))
         (ms_overrides (matrix_snapshot (matrix_init ''c'' ''deny'' [(''a'', True)]))) (matrix_init ''c'' ''allow'' []))
      (pairs_replace (pairs_snapshot (pairs_init ''hq'' [(''n'', [''a''])])) (pairs_init ''n'' [])) m
    = effective_allows None (matrix_init ''c'' ''deny'' [(''a'', True)])
        ((pairs_init ''hq'' [(''n'', [''a''])])\<lparr>pp_node_id := ''n''\<rparr>) m"
proof -
  have wf: "pairs_wf (pairs_init ''hq'' [(''n'', [''a''])])" by (simp add: pairs_wf_ops(1))
  show ?thesis
    by (intro allI, subst policy_snapshot_transfers [OF wf]) (simp add: pairs_init_def)
qed

text \<open>Managing the matrix changes the decisions for the named peer and for no other:
  blocking and allowing decide it, resetting returns it to the default action, and a pair block
  is enforced by its observer only.\<close>

theorem policy_management_local:
  "matrix_allows_peer (matrix_block x p) y = (y \<noteq> x \<and> matrix_allows_peer p y) \<and>
   matrix_allows_peer (matrix_allow x p) y = (y = x \<or> matrix_allows_peer p y) \<and>
   matrix_allows_peer (matrix_reset x p) y = (if y = x then default_allow p else matrix_allows_peer p y) \<and>
   pairs_allows (pairs_block obs x q) m =
     (pairs_allows q m \<and> (pp_node_id q, originator_id (header m)) \<noteq> (obs, x)) \<and>
   pairs_allows (pairs_allow obs x q) m =
     (pairs_allows q m \<or> (pp_node_id q, originator_id (header m)) = (obs, x))"
proof -
  have "pp_node_id (pairs_block obs x q) = pp_node_id q" "pp_node_id (pairs_allow obs x q) = pp_node_id q"
    by (simp_all add: pairs_block_def pairs_allow_def split: option.split)
  then show ?thesis by (auto simp: pairs_allows_iff)
qed

end
