(* ===== verification/Capability.thy ===== *)
theory Capability
  imports Messages
begin

text \<open>
  \<open>capabilities.py\<close>: which message types a node may receive and emit. An unknown type is
  permitted and cannot be switched; the ten known ones are switched independently.
\<close>

record capabilities =
  cap_recv :: "(string, bool) dict"
  cap_emit :: "(string, bool) dict"

datatype direction = Receive | Emit

text \<open>Any direction string other than \<open>"receive"\<close> means emit.\<close>

definition direction_of :: "string \<Rightarrow> direction" where
  "direction_of d = (if d = ''receive'' then Receive else Emit)"

definition all_permitted :: "(string, bool) dict" where
  "all_permitted = map (\<lambda>t. (t, True)) MESSAGE_TYPES"

definition capabilities_init :: "(string, bool) dict \<Rightarrow> (string, bool) dict \<Rightarrow> capabilities" where
  "capabilities_init receive emit =
     \<lparr> cap_recv = dict_update all_permitted receive, cap_emit = dict_update all_permitted emit \<rparr>"

definition can_receive :: "capabilities \<Rightarrow> string \<Rightarrow> bool" where
  "can_receive c t = dict_get (cap_recv c) t True"

definition can_emit :: "capabilities \<Rightarrow> string \<Rightarrow> bool" where
  "can_emit c t = dict_get (cap_emit c) t True"

definition switch :: "string \<Rightarrow> bool \<Rightarrow> (string, bool) dict \<Rightarrow> (string, bool) dict" where
  "switch t allowed table = (if t \<in> set (map fst table) then AList.update t allowed table else table)"

definition set_capability :: "string \<Rightarrow> string \<Rightarrow> bool \<Rightarrow> capabilities \<Rightarrow> capabilities" where
  "set_capability t d allowed c =
     (case direction_of d of
        Receive \<Rightarrow> c\<lparr>cap_recv := switch t allowed (cap_recv c)\<rparr>
      | Emit \<Rightarrow> c\<lparr>cap_emit := switch t allowed (cap_emit c)\<rparr>)"

definition capability_snapshot ::
  "capabilities \<Rightarrow> string list \<times> (string, bool) dict \<times> (string, bool) dict" where
  "capability_snapshot c = (MESSAGE_TYPES, cap_recv c, cap_emit c)"

definition capabilities_wf :: "capabilities \<Rightarrow> bool" where
  "capabilities_wf c \<longleftrightarrow> dict_ok (cap_recv c) \<and> dict_ok (cap_emit c) \<and>
     set MESSAGE_TYPES \<subseteq> dom (map_of (cap_recv c)) \<inter> dom (map_of (cap_emit c))"

lemma all_permitted_get: "dict_get all_permitted t True"
  by (auto simp: dict_get_def all_permitted_def split: option.split dest!: map_of_SomeD)

lemma all_permitted_ok: "dict_ok all_permitted" "dom (map_of all_permitted) = set MESSAGE_TYPES"
  by (simp_all add: all_permitted_def MESSAGE_TYPES_def dom_map_of_conv_image_fst)

lemma dom_dict_update: "dom (map_of d) \<subseteq> dom (map_of (dict_update d e))"
proof (induction e arbitrary: d)
  case (Cons p e)
  have "dom (map_of d) \<subseteq> dom (map_of (AList.update (fst p) (snd p) d))" by auto
  also have "\<dots> \<subseteq> dom (map_of (dict_update (AList.update (fst p) (snd p) d) e))" by (rule Cons)
  finally show ?case by (simp add: dict_update_def case_prod_unfold)
qed (simp add: dict_update_def)

lemma capabilities_wf_init [inv_intros]: "capabilities_wf (capabilities_init r e)"
  using all_permitted_ok dom_dict_update [of all_permitted r] dom_dict_update [of all_permitted e]
  unfolding capabilities_wf_def capabilities_init_def
  by (simp only: capabilities.simps dict_ok_dict_update) blast

lemma switch_keys [simp]: "dom (map_of (switch t a d)) = dom (map_of d)"
proof -
  have "map_of (AList.update t a d) = (map_of d)(t \<mapsto> a)" by simp
  then show ?thesis
    by (cases "t \<in> dom (map_of d)") (auto simp: switch_def dom_map_of_conv_image_fst [symmetric] insert_absorb simp del: map_of_update)
qed

lemma capabilities_wf_set [inv_intros]: "capabilities_wf c \<Longrightarrow> capabilities_wf (set_capability t d a c)"
  by (auto simp: capabilities_wf_def set_capability_def switch_def split: direction.split)

lemma dict_get_switch:
  "dict_get (switch t a d) t' True = (if t' = t \<and> t \<in> dom (map_of d) then a else dict_get d t' True)"
  by (auto simp: switch_def dom_map_of_conv_image_fst)

text \<open>A capability switch takes effect on the named type in the named direction and on
  nothing else, for every known message type and in every state the constructor and switches
  reach; an unknown type is not switched and stays permitted unless configured.\<close>

theorem capability_switch:
  assumes "capabilities_wf c"
  shows "can_receive (set_capability t ''receive'' a c) t' =
      (if t' = t \<and> t \<in> dom (map_of (cap_recv c)) then a else can_receive c t') \<and>
    can_emit (set_capability t ''receive'' a c) t' = can_emit c t' \<and>
    can_emit (set_capability t ''emit'' a c) t' =
      (if t' = t \<and> t \<in> dom (map_of (cap_emit c)) then a else can_emit c t') \<and>
    can_receive (set_capability t ''emit'' a c) t' = can_receive c t' \<and>
    (\<forall>m. msg_type m \<in> dom (map_of (cap_recv c)) \<inter> dom (map_of (cap_emit c)))"
proof -
  have "msg_type m \<in> set MESSAGE_TYPES" for m
    by (cases "body_type (body m)") (simp_all add: msg_type_def MESSAGE_TYPES_def)
  then have known: "\<forall>m. msg_type m \<in> dom (map_of (cap_recv c)) \<inter> dom (map_of (cap_emit c))"
    using assms unfolding capabilities_wf_def by blast
  show ?thesis
    using known unfolding can_receive_def can_emit_def set_capability_def direction_of_def
    by (simp add: dict_get_switch)
qed

theorem capability_switch_witness:
  "can_receive (set_capability ''Chat'' ''receive'' False (capabilities_init [] [])) ''Chat'' = False"
proof -
  have "''Chat'' \<in> dom (map_of (cap_recv (capabilities_init [] [])))"
    by (simp add: capabilities_init_def dict_update_def all_permitted_ok MESSAGE_TYPES_def)
  then show ?thesis
    using capability_switch [OF capabilities_wf_init, of "''Chat''" False "[]" "[]" "''Chat''"] by simp
qed

end
