(* ===== verification/Framing.thy ===== *)
theory Framing
  imports PyText
begin

text \<open>
  The wire frame of \<open>iem/exchange.py\<close>: magic, version, the two length-prefixed names, and the
  payload behind its 32-bit big-endian length. \<open>from_bytes\<close> takes exactly the steps of the source,
  index and unpack errors included; the texts of interpreter-made exceptions are abbreviated.
\<close>

record frame =
  codec_name :: string
  security_name :: string
  payload :: bytes

definition MAGIC :: bytes where
  "MAGIC = map byte_of ''JDSS''"

definition FRAME_VERSION :: nat where
  "FRAME_VERSION = 1"

definition CONTROL_CODEC :: string where
  "CONTROL_CODEC = ''__ctl__''"

text \<open>\<open>bytes([n])\<close> and \<open>struct.pack(">I", n)\<close>.\<close>

definition byte_of_int :: "nat \<Rightarrow> bytes result" where
  "byte_of_int n = (if n < 256 then Inr [word_of_nat n]
                    else Inl (PyExn ValueErr ''bytes must be in range(0, 256)''))"

definition be32 :: "nat \<Rightarrow> bytes" where
  "be32 n = [word_of_nat (n div 16777216), word_of_nat (n div 65536 mod 256),
             word_of_nat (n div 256 mod 256), word_of_nat (n mod 256)]"

definition pack_I :: "nat \<Rightarrow> bytes result" where
  "pack_I n = (if n < 4294967296 then Inr (be32 n)
               else Inl (PyExn StructErr ''argument out of range''))"

definition unpack_I :: "bytes \<Rightarrow> nat result" where
  "unpack_I bs =
     (case bs of
        [a, b, c, d] \<Rightarrow> Inr (16777216 * unat a + 65536 * unat b + 256 * unat c + unat d)
      | _ \<Rightarrow> Inl (PyExn StructErr ''unpack requires a buffer of 4 bytes''))"

definition index_byte :: "bytes \<Rightarrow> nat \<Rightarrow> nat result" where
  "index_byte bs i = (if i < length bs then Inr (unat (bs ! i))
                      else Inl (PyExn IndexErr ''index out of range''))"

definition to_bytes :: "frame \<Rightarrow> bytes result" where
  "to_bytes f =
     bindR (ascii_encode (codec_name f)) (\<lambda>codec.
     bindR (ascii_encode (security_name f)) (\<lambda>sec.
     bindR (byte_of_int (length codec)) (\<lambda>clen.
     bindR (byte_of_int (length sec)) (\<lambda>slen.
     bindR (pack_I (length (payload f))) (\<lambda>plen.
     Inr (MAGIC @ [word_of_nat FRAME_VERSION] @ clen @ codec @ slen @ sec @ plen @ payload f))))))"

definition from_bytes :: "bytes \<Rightarrow> frame result" where
  "from_bytes raw =
     (if slice 0 4 raw \<noteq> MAGIC then Inl (PyExn ValueErr ''bad magic'')
      else
        bindR (index_byte raw 4) (\<lambda>version.
        if version \<noteq> FRAME_VERSION
        then Inl (PyExn ValueErr (''unsupported frame version '' @ show_nat version))
        else
          bindR (index_byte raw 5) (\<lambda>clen.
          bindR (ascii_decode (slice 6 (6 + clen) raw)) (\<lambda>codec.
          let pos = 6 + clen in
          bindR (index_byte raw pos) (\<lambda>slen.
          bindR (ascii_decode (slice (pos + 1) (pos + 1 + slen) raw)) (\<lambda>sec.
          let pos = pos + 1 + slen in
          bindR (unpack_I (slice pos (pos + 4) raw)) (\<lambda>plen.
          Inr \<lparr> codec_name = codec, security_name = sec,
                payload = slice (pos + 4) (pos + 4 + plen) raw \<rparr>)))))))"

section \<open>Round trip\<close>

lemma unpack_be32: "n < 4294967296 \<Longrightarrow> unpack_I (be32 n) = Inr n"
proof -
  assume n: "n < 4294967296"
  define a b c d where "a = n div 16777216" and "b = n div 65536 mod 256"
    and "c = n div 256 mod 256" and "d = n mod 256"
  have lt: "a < 256" "b < 256" "c < 256" "d < 256"
    using n by (simp_all add: a_def b_def c_def d_def less_mult_imp_div_less)
  have "n div 256 = n div 65536 * 256 + c" "n div 65536 = a * 256 + b" "n = n div 256 * 256 + d"
    using div_mult2_eq [of n 256 256] div_mult2_eq [of n 65536 256]
    by (simp_all add: a_def b_def c_def d_def)
  then have "n = 16777216 * a + 65536 * b + 256 * c + d" by linarith
  moreover have "unpack_I (be32 n) = Inr (16777216 * a + 65536 * b + 256 * c + d)"
    unfolding be32_def unpack_I_def a_def [symmetric] b_def [symmetric] c_def [symmetric] d_def [symmetric]
    by (simp only: list.case unat_byte_lit [OF lt(1)] unat_byte_lit [OF lt(2)]
        unat_byte_lit [OF lt(3)] unat_byte_lit [OF lt(4)])
  ultimately show ?thesis by simp
qed

lemma length_be32 [simp]: "length (be32 n) = 4"
  by (simp add: be32_def)

lemma length_MAGIC [simp]: "length MAGIC = 4"
  by (simp add: MAGIC_def)

definition frame_head :: "frame \<Rightarrow> bytes" where
  "frame_head f =
     MAGIC @ [word_of_nat FRAME_VERSION] @ [word_of_nat (length (codec_name f))] @
     map byte_of (codec_name f) @ [word_of_nat (length (security_name f))] @
     map byte_of (security_name f) @ be32 (length (payload f))"

definition frame_text :: "frame \<Rightarrow> bytes" where
  "frame_text f = frame_head f @ payload f"

definition frame_ok :: "frame \<Rightarrow> bool" where
  "frame_ok f \<longleftrightarrow> list_all is_ascii (codec_name f) \<and> list_all is_ascii (security_name f) \<and>
     length (codec_name f) < 256 \<and> length (security_name f) < 256 \<and> length (payload f) < 4294967296"

lemma to_bytes_iff: "to_bytes f = Inr bs \<longleftrightarrow> frame_ok f \<and> bs = frame_text f"
  by (auto simp: to_bytes_def frame_ok_def frame_text_def frame_head_def byte_of_int_def pack_I_def ascii_encode_def
      split: if_splits)

lemma slice_skip: "length xs \<le> i \<Longrightarrow> slice i j (xs @ ys) = slice (i - length xs) (j - length xs) ys"
  by (simp add: slice_def)

lemma slice_here: "length xs = n \<Longrightarrow> slice 0 n (xs @ ys) = xs"
  by (simp add: slice_def)

lemma index_skip: "length xs \<le> i \<Longrightarrow> index_byte (xs @ ys) i = index_byte ys (i - length xs)"
  by (auto simp: index_byte_def nth_append)

lemma index_here: "n < 256 \<Longrightarrow> index_byte (word_of_nat n # ys) 0 = Inr n"
  by (simp only: index_byte_def length_Cons zero_less_Suc if_True nth_Cons_0 unat_byte_lit)

lemma ascii_decode_map: "list_all is_ascii s \<Longrightarrow> ascii_decode (map byte_of s) = Inr s"
  using ascii_decode_encode [of s] by (simp add: ascii_encode_Inr)

text \<open>Whatever follows the head, the decoder takes as much of it as the head announces, or what
  there is.\<close>

lemma from_bytes_head:
  assumes "frame_ok f"
  shows "from_bytes (frame_head f @ rest) = Inr (f\<lparr>payload := take (length (payload f)) rest\<rparr>)"
proof -
  let ?c = "codec_name f" and ?s = "security_name f" and ?p = "payload f"
  let ?head = "MAGIC @ [word_of_nat FRAME_VERSION] @ [word_of_nat (length ?c)] @ map byte_of ?c @
    [word_of_nat (length ?s)] @ map byte_of ?s @ be32 (length ?p)"
  have head: "frame_head f = ?head"
    by (simp add: frame_head_def)
  have c: "list_all is_ascii ?c" "length ?c < 256" and s: "list_all is_ascii ?s" "length ?s < 256"
    and p: "length ?p < 4294967296"
    using assms by (simp_all add: frame_ok_def)
  note here = index_here [OF c(2)] index_here [OF s(2)]
  have v: "index_byte (?head @ rest) 4 = Inr FRAME_VERSION"
    using index_here [of FRAME_VERSION] by (simp add: index_skip FRAME_VERSION_def)
  have cl: "index_byte (?head @ rest) 5 = Inr (length ?c)"
    using here(1) by (simp add: index_skip [of "MAGIC @ [_]", simplified])
  have "slice 6 (6 + length ?c) (?head @ rest) = map byte_of ?c"
    using slice_append [of 6 "MAGIC @ [word_of_nat FRAME_VERSION] @ [word_of_nat (length ?c)]"
        "6 + length ?c" "map byte_of ?c"] by simp
  then have cd: "ascii_decode (slice 6 (6 + length ?c) (?head @ rest)) = Inr ?c"
    by (simp only: ascii_decode_map [OF c(1)])
  have sl: "index_byte (?head @ rest) (6 + length ?c) = Inr (length ?s)"
    using here(2) index_skip [of "MAGIC @ [word_of_nat FRAME_VERSION] @ [word_of_nat (length ?c)] @ map byte_of ?c"
        "6 + length ?c"] by simp
  have "slice (6 + length ?c + 1) (6 + length ?c + 1 + length ?s) (?head @ rest) = map byte_of ?s"
    using slice_append [of "6 + length ?c + 1" "MAGIC @ [word_of_nat FRAME_VERSION] @ [word_of_nat (length ?c)]
        @ map byte_of ?c @ [word_of_nat (length ?s)]" "6 + length ?c + 1 + length ?s" "map byte_of ?s"] by simp
  then have sd: "ascii_decode (slice (6 + length ?c + 1) (6 + length ?c + 1 + length ?s) (?head @ rest)) = Inr ?s"
    by (simp only: ascii_decode_map [OF s(1)])
  let ?pos = "6 + length ?c + 1 + length ?s"
  have "slice ?pos (?pos + 4) (?head @ rest) = be32 (length ?p)"
    using slice_append [of ?pos "MAGIC @ [word_of_nat FRAME_VERSION] @ [word_of_nat (length ?c)]
        @ map byte_of ?c @ [word_of_nat (length ?s)] @ map byte_of ?s" "?pos + 4" "be32 (length ?p)"] by simp
  then have pl: "unpack_I (slice ?pos (?pos + 4) (?head @ rest)) = Inr (length ?p)"
    by (simp only: unpack_be32 [OF p])
  have lh: "length ?head = ?pos + 4" by simp
  have pay: "slice (?pos + 4) (?pos + 4 + length ?p) (?head @ rest) = take (length ?p) rest"
    by (subst slice_skip) (simp_all only: lh order_refl diff_self_eq_0 diff_add_inverse slice_def drop_0 diff_zero)
  have m: "slice 0 4 (?head @ rest) = MAGIC"
    by (simp add: slice_def)
  show ?thesis
    unfolding head from_bytes_def
    by (simp only: m v cl cd sl sd pl pay bindR_simps Let_def if_False simp_thms) simp
qed

lemma from_to_bytes: "to_bytes f = Inr bs \<Longrightarrow> from_bytes (bs @ trailing) = Inr f"
  using from_bytes_head [of f "payload f @ trailing"] by (simp add: to_bytes_iff frame_text_def)

text \<open>Property C40: encoding a frame succeeds exactly when both names are ASCII of at most 255
  characters and the payload is shorter than 4 GiB, and the receiver decodes the encoded frame,
  with any bytes behind it, to the frame itself.\<close>

theorem frame_roundtrip:
  "(is_ok (to_bytes f) \<longleftrightarrow>
      list_all is_ascii (codec_name f) \<and> list_all is_ascii (security_name f) \<and>
      length (codec_name f) \<le> 255 \<and> length (security_name f) \<le> 255 \<and> length (payload f) < 2 ^ 32) \<and>
   (case to_bytes f of Inl e \<Rightarrow> exn_kind e \<in> {UnicodeErr, ValueErr, StructErr}
    | Inr bs \<Rightarrow> from_bytes (bs @ trailing) = Inr f)"
proof -
  have "is_ok (to_bytes f) \<longleftrightarrow> frame_ok f" by (auto simp: is_ok_iff to_bytes_iff)
  moreover have "to_bytes f = Inl e \<Longrightarrow> exn_kind e \<in> {UnicodeErr, ValueErr, StructErr}" for e
    by (auto simp: to_bytes_def byte_of_int_def pack_I_def ascii_encode_def split: if_splits)
  ultimately show ?thesis
    using from_to_bytes [of f] by (auto simp: frame_ok_def less_Suc_eq_le split: sum.split)
qed

text \<open>The decoder does not notice a payload cut short: a frame that lost its last
  bytes decodes without error to the frame with the shortened payload, so only the security
  provider or the codec can reject it.\<close>

theorem truncated_payload_decodes:
  assumes "to_bytes f = Inr bs" and "k \<le> length (payload f)"
  shows "from_bytes (take (length bs - k) bs) = Inr (f\<lparr>payload := take (length (payload f) - k) (payload f)\<rparr>)"
proof -
  have ok: "frame_ok f" and bs: "bs = frame_text f" using assms(1) by (simp_all add: to_bytes_iff)
  have "take (length bs - k) bs = frame_head f @ take (length (payload f) - k) (payload f)"
    using assms(2) by (simp add: bs frame_text_def)
  then show ?thesis
    using from_bytes_head [OF ok, of "take (length (payload f) - k) (payload f)"] by simp
qed

theorem truncated_payload_decodes_witness:
  "from_bytes (take 19 (projr (to_bytes \<lparr>codec_name = ''xml'', security_name = ''psk'', payload = [1, 2, 3]\<rparr>)))
    = Inr \<lparr>codec_name = ''xml'', security_name = ''psk'', payload = [1, 2]\<rparr>"
proof -
  let ?f = "\<lparr>codec_name = ''xml'', security_name = ''psk'', payload = [1, 2, 3 :: byte]\<rparr>"
  have "frame_ok ?f" by (simp add: frame_ok_def is_ascii_def)
  then have ok: "to_bytes ?f = Inr (frame_text ?f)" by (simp add: to_bytes_iff)
  have "length (frame_text ?f) = 20" by (simp add: frame_text_def frame_head_def)
  then show ?thesis
    using truncated_payload_decodes [OF ok, of 1] by (simp add: ok)
qed

end
