(* ===== verification/Exchange.thy ===== *)
theory Exchange
  imports Framing Codec Security Policy Capability Act
begin

text \<open>
  \<open>iem/exchange.py\<close>: the exchange engine. Its state is the record \<open>engine\<close>; the collaborators it
  was constructed with (codec, security provider, policy, capabilities, transport) are the record
  \<open>deps\<close>, as they are at the time of a call; each method is an operation of \<open>Act\<close> whose calls on
  the transport, the metrics sink, the handlers and the log are values of \<open>call\<close>, in order.
  A handler is its subscriptions and whether it raises on a message; what else it does is its own.
\<close>

record handler =
  h_id :: nat
  h_subs :: "string list"
  h_raises :: "message \<Rightarrow> pyexn option"

record engine =
  node_id :: string
  repeat :: nat
  seq :: int
  seen :: "string set"
  seen_order :: "string list"
  window :: nat
  handlers :: "handler list"
  control_kinds :: "string list"

record deps =
  d_codec :: codec
  d_security :: security_provider
  d_policy :: "(message \<Rightarrow> bool) option"
  d_caps :: "(string \<Rightarrow> bool) option"
  d_up :: bool
  d_floats :: floatlib

datatype call =
    Send bytes
  | RecordSent message
  | RecordReceived message
  | RecordDropped string "message option"
  | NodeSeen string
  | Handle nat message
  | Control string json
  | Warn string string

type_synonym 'a eact = "(engine, call, 'a) act"

definition engine_init :: "string \<Rightarrow> int \<Rightarrow> nat \<Rightarrow> engine" where
  "engine_init nid rep win =
     \<lparr> node_id = nid, repeat = nat (max 1 rep), seq = 0, seen = {}, seen_order = [], window = win,
       handlers = [], control_kinds = [] \<rparr>"

definition add_handler :: "handler \<Rightarrow> unit eact" where
  "add_handler h = modifyA (\<lambda>s. s\<lparr>handlers := handlers s @ [h]\<rparr>)"

definition on_control :: "string \<Rightarrow> unit eact" where
  "on_control kind = modifyA (\<lambda>s. s\<lparr>control_kinds := List.insert kind (control_kinds s)\<rparr>)"

definition clear_dedup :: "nat eact" where
  "clear_dedup = bindA (getA (\<lambda>s. card (seen s))) (\<lambda>n.
     thenA (modifyA (\<lambda>s. s\<lparr>seen := {}, seen_order := []\<rparr>)) (retA n))"

section \<open>Deduplication\<close>

definition msg_key :: "message \<Rightarrow> string" where
  "msg_key m = originator_id (header m) @ '':'' @ message_id (header m)"

definition is_duplicate :: "message \<Rightarrow> engine \<Rightarrow> bool" where
  "is_duplicate m s \<longleftrightarrow> msg_key m \<in> seen s"

text \<open>With a full deque of length 0 the source reads \<open>self._seen_order[0]\<close> of an empty deque.\<close>

definition remember :: "message \<Rightarrow> unit eact" where
  "remember m s =
     (let key = msg_key m in
      if key \<in> seen s then (Inr (), s, [])
      else if length (seen_order s) = window s \<and> seen_order s = []
      then (Inl (PyExn IndexErr ''deque index out of range''), s, [])
      else
        (let kept = (if length (seen_order s) = window s then seen s - {hd (seen_order s)} else seen s)
         in (Inr (), s\<lparr>seen_order := deque_append (window s) key (seen_order s), seen := insert key kept\<rparr>, [])))"

section \<open>Publishing\<close>

definition send :: "deps \<Rightarrow> bytes \<Rightarrow> unit eact" where
  "send D fr = (if d_up D then callA (Send fr) else raiseA (PyExn RuntimeErr ''transport not started''))"

definition set_sequence :: "int \<Rightarrow> message \<Rightarrow> message" where
  "set_sequence n m = m\<lparr>header := (header m)\<lparr>sequence := n\<rparr>\<rparr>"

definition data_frame :: "deps \<Rightarrow> bytes \<Rightarrow> bytes result" where
  "data_frame D encoded =
     to_bytes \<lparr> codec_name = c_name (d_codec D), security_name = sp_name (d_security D),
                payload = sp_protect (d_security D) encoded \<rparr>"

definition transmit :: "deps \<Rightarrow> message \<Rightarrow> message eact" where
  "transmit D m =
     thenA (modifyA (\<lambda>s. s\<lparr>seq := seq s + 1\<rparr>)) (
     bindA (getA seq) (\<lambda>n.
     let m = set_sequence n m in
     bindA (liftA (c_encode (d_codec D) m)) (\<lambda>encoded.
     bindA (liftA (data_frame D encoded)) (\<lambda>fr.
     bindA (getA repeat) (\<lambda>k.
     thenA (forA [0..<k] (\<lambda>_. send D fr)) (
     thenA (remember m) (retA m)))))))"

definition set_originator :: "string \<Rightarrow> message \<Rightarrow> message" where
  "set_originator nid m =
     (if originator_id (header m) = [] then m\<lparr>header := (header m)\<lparr>originator_id := nid\<rparr>\<rparr> else m)"

definition publish :: "deps \<Rightarrow> message \<Rightarrow> message eact" where
  "publish D m =
     bindA (getA node_id) (\<lambda>nid.
     bindA (transmit D (set_originator nid m)) (\<lambda>m.
     thenA (callA (RecordSent m)) (retA m)))"

definition handle_one :: "message \<Rightarrow> handler \<Rightarrow> unit eact" where
  "handle_one m h =
     (if ''*'' \<in> set (h_subs h) \<or> msg_type m \<in> set (h_subs h)
      then thenA (callA (Handle (h_id h) m))
             (case h_raises h m of None \<Rightarrow> retA () | Some e \<Rightarrow> raiseA e)
      else retA ())"

definition dispatch :: "message \<Rightarrow> unit eact" where
  "dispatch m = bindA (getA handlers) (\<lambda>hs. forA hs (handle_one m))"

definition deliver_local :: "message \<Rightarrow> unit eact" where
  "deliver_local m =
     thenA (callA (NodeSeen (originator_id (header m)))) (
     thenA (callA (RecordReceived m)) (dispatch m))"

definition relay_from_bridge :: "deps \<Rightarrow> message \<Rightarrow> unit eact" where
  "relay_from_bridge D m = bindA (transmit D m) deliver_local"

definition control_body :: "string \<Rightarrow> string \<Rightarrow> (string, json) dict \<Rightarrow> json" where
  "control_body nid kind data =
     JDict (dict_update [(''kind'', JStr kind), (''node'', JStr nid)] data)"

definition publish_control :: "deps \<Rightarrow> string \<Rightarrow> (string, json) dict \<Rightarrow> unit eact" where
  "publish_control D kind data =
     bindA (getA node_id) (\<lambda>nid.
     bindA (liftA (to_bytes \<lparr> codec_name = CONTROL_CODEC, security_name = sp_name (d_security D),
        payload = sp_protect (d_security D)
          (utf8_encode (json_dumps (d_floats D) (control_body nid kind data))) \<rparr>)) (\<lambda>fr.
     bindA (getA repeat) (\<lambda>k. forA [0..<k] (\<lambda>_. send D fr))))"

section \<open>Receiving\<close>

definition reject :: "string \<Rightarrow> message option \<Rightarrow> unit eact" where
  "reject reason m =
     thenA (callA (RecordDropped reason m)) (
     bindA (getA node_id) (\<lambda>nid. callA (Warn nid reason)))"

text \<open>What raises in here is swallowed by the caller. A kind that is no string has no handler.\<close>

definition handle_control :: "deps \<Rightarrow> bytes \<Rightarrow> unit eact" where
  "handle_control D p =
     bindA (liftA (utf8_decode p)) (\<lambda>text.
     bindA (liftA (json_loads (d_floats D) text)) (\<lambda>data.
     case data of
       JDict d \<Rightarrow>
         (case dict_get d ''kind'' (JStr []) of
            JStr kind \<Rightarrow>
              bindA (getA control_kinds) (\<lambda>kinds.
              if kind \<in> set kinds then callA (Control kind data) else retA ())
          | JList _ \<Rightarrow> raiseA (PyExn TypeErr ''unhashable type'')
          | JDict _ \<Rightarrow> raiseA (PyExn TypeErr ''unhashable type'')
          | _ \<Rightarrow> retA ())
     | _ \<Rightarrow> raiseA (PyExn AttributeErr ''get'')))"

definition select_codec :: "deps \<Rightarrow> string \<Rightarrow> codec result" where
  "select_codec D name =
     (if name = c_name (d_codec D) then Inr (d_codec D)
      else Inl (PyExn ValueErr (''no codec for frame codec '' @ py_repr name)))"

definition decode_message :: "deps \<Rightarrow> string \<Rightarrow> bytes \<Rightarrow> message result" where
  "decode_message D name p = bindR (select_codec D name) (\<lambda>c. c_decode c p)"

definition receive_message :: "deps \<Rightarrow> message \<Rightarrow> unit eact" where
  "receive_message D m =
     (if \<not> (case d_policy D of None \<Rightarrow> True | Some allows \<Rightarrow> allows m)
      then reject (''policy: sender '' @ originator_id (header m) @ '' not permitted'') (Some m)
      else if \<not> (case d_caps D of None \<Rightarrow> True | Some can_recv \<Rightarrow> can_recv (msg_type m))
      then reject (''capability: receive of '' @ msg_type m @ '' disabled'') (Some m)
      else bindA (getA (is_duplicate m)) (\<lambda>dup.
        if dup then callA (RecordDropped ''duplicate'' (Some m))
        else thenA (remember m) (deliver_local m)))"

definition on_frame :: "deps \<Rightarrow> bytes \<Rightarrow> unit eact" where
  "on_frame D raw =
     (case from_bytes raw of
        Inl e \<Rightarrow> reject (''framing: '' @ exn_str e) None
      | Inr fr \<Rightarrow>
          (case sp_verify (d_security D) (payload fr) of
             Inl e \<Rightarrow> reject (''security: '' @ exn_str e) None
           | Inr p \<Rightarrow>
               if codec_name fr = CONTROL_CODEC
               then catchA (handle_control D p) (\<lambda>_. retA ())
               else
                 (case decode_message D (codec_name fr) p of
                    Inl e \<Rightarrow> reject (''codec: '' @ exn_str e) None
                  | Inr m \<Rightarrow> receive_message D m)))"

section \<open>The deduplication window\<close>

definition dedup_inv :: "engine \<Rightarrow> bool" where
  "dedup_inv s \<longleftrightarrow> seen s = set (seen_order s) \<and> distinct (seen_order s) \<and> length (seen_order s) \<le> window s"

lemma dedup_inv_init [inv_intros]: "dedup_inv (engine_init nid rep win)"
  by (simp add: dedup_inv_def engine_init_def)

lemma set_hd_tl: "xs \<noteq> [] \<Longrightarrow> distinct xs \<Longrightarrow> set xs - {hd xs} = set (tl xs)"
  by (cases xs) auto

lemma keeps_remember [inv_intros]: "keeps dedup_inv (remember m)"
proof -
  have "dedup_inv (state_of (remember m s))" if inv: "dedup_inv s" for s
  proof (cases "msg_key m \<in> seen s \<or> (length (seen_order s) = window s \<and> seen_order s = [])")
    case True
    then show ?thesis using inv by (auto simp: remember_def Let_def)
  next
    case False
    show ?thesis
    proof (cases "length (seen_order s) = window s")
      case True
      have "set (tl (seen_order s)) \<subseteq> set (seen_order s)" by (cases "seen_order s") auto
      then show ?thesis
        using inv False True set_hd_tl [of "seen_order s"]
        by (auto simp: remember_def Let_def dedup_inv_def deque_append_def distinct_tl)
    next
      case nfull: False
      then show ?thesis
        using inv False by (auto simp: remember_def Let_def dedup_inv_def deque_append_def)
    qed
  qed
  then show ?thesis by (simp add: keeps_def)
qed

lemma dedup_modify: "(\<And>s. seen (f s) = seen s \<and> seen_order (f s) = seen_order s \<and> window (f s) = window s)
    \<Longrightarrow> keeps dedup_inv (modifyA f)"
  by (intro keeps_modify) (simp add: dedup_inv_def)

lemma keeps_send [inv_intros]: "keeps I (send D fr)"
  by (simp add: send_def keeps_basic)

lemma keeps_reject [inv_intros]: "keeps I (reject r m)"
  unfolding reject_def by (intro inv_intros)

lemma keeps_transmit [inv_intros]: "keeps dedup_inv (transmit D m)"
  unfolding transmit_def Let_def
  by (intro keeps_then keeps_bind keeps_for keeps_send keeps_remember keeps_basic dedup_modify) simp

lemma keeps_dispatch [inv_intros]: "keeps I (dispatch m)"
proof -
  have "keeps I (handle_one m h)" for h
    unfolding handle_one_def
    by (cases "h_raises h m") (simp_all add: keeps_basic keeps_then)
  then show ?thesis unfolding dispatch_def by (intro inv_intros)
qed

lemma keeps_deliver [inv_intros]: "keeps I (deliver_local m)"
  unfolding deliver_local_def by (intro inv_intros)

lemma keeps_handle_control [inv_intros]: "keeps I (handle_control D p)"
  unfolding handle_control_def
  by (intro keeps_bind keeps_basic)
     (auto simp: keeps_basic keeps_bind split: json.split)

lemma keeps_receive [inv_intros]: "keeps dedup_inv (receive_message D m)"
proof -
  have "keeps dedup_inv (if dup then callA c else thenA (remember m) (deliver_local m))" for dup c
    by (cases dup) (simp_all add: keeps_basic keeps_then keeps_remember keeps_deliver)
  then show ?thesis
    unfolding receive_message_def by (simp add: keeps_reject keeps_bind keeps_basic)
qed

lemma keeps_on_frame [inv_intros]: "keeps dedup_inv (on_frame D raw)"
  unfolding on_frame_def
  by (auto intro!: keeps_reject keeps_receive keeps_catch keeps_handle_control keeps_basic
      split: sum.split)

lemma keeps_publish [inv_intros]: "keeps dedup_inv (publish D m)"
  unfolding publish_def by (intro inv_intros)

lemma keeps_relay [inv_intros]: "keeps dedup_inv (relay_from_bridge D m)"
  unfolding relay_from_bridge_def by (intro inv_intros)

lemma keeps_publish_control [inv_intros]: "keeps I (publish_control D kind data)"
  unfolding publish_control_def by (intro inv_intros)

lemma keeps_clear [inv_intros]: "keeps dedup_inv clear_dedup"
  unfolding clear_dedup_def by (intro inv_intros) (simp add: dedup_inv_def)

lemma keeps_add_handler [inv_intros]: "keeps dedup_inv (add_handler h)" "keeps dedup_inv (on_control k)"
  unfolding add_handler_def on_control_def by (rule dedup_modify, simp)+

text \<open>What other components and the network can make the engine do.\<close>

datatype engine_op =
    OpFrame deps bytes
  | OpPublish deps message
  | OpRelay deps message
  | OpPublishControl deps string "(string, json) dict"
  | OpAddHandler handler
  | OpOnControl string
  | OpClear

fun run_op :: "engine_op \<Rightarrow> engine \<Rightarrow> engine" where
  "run_op (OpFrame D raw) s = state_of (on_frame D raw s)"
| "run_op (OpPublish D m) s = state_of (publish D m s)"
| "run_op (OpRelay D m) s = state_of (relay_from_bridge D m s)"
| "run_op (OpPublishControl D k d) s = state_of (publish_control D k d s)"
| "run_op (OpAddHandler h) s = state_of (add_handler h s)"
| "run_op (OpOnControl k) s = state_of (on_control k s)"
| "run_op OpClear s = state_of (clear_dedup s)"

lemma dedup_inv_op: "dedup_inv s \<Longrightarrow> dedup_inv (run_op op s)"
  by (cases op) (auto intro: keepsD keeps_on_frame keeps_publish keeps_relay keeps_publish_control
      keeps_add_handler keeps_clear)

lemma dedup_inv_ops: "dedup_inv s \<Longrightarrow> dedup_inv (fold run_op ops s)"
  by (induction ops arbitrary: s) (simp_all add: dedup_inv_op)

text \<open>The window is set once.\<close>

definition has_window :: "nat \<Rightarrow> engine \<Rightarrow> bool" where
  "has_window w s \<longleftrightarrow> window s = w"

lemma window_modify: "(\<And>s. window (f s) = window s) \<Longrightarrow> keeps (has_window w) (modifyA f)"
  by (intro keeps_modify) (simp add: has_window_def)

lemma window_remember: "keeps (has_window w) (remember m)"
  by (simp add: keeps_def remember_def Let_def has_window_def)

lemma window_transmit: "keeps (has_window w) (transmit D m)"
  unfolding transmit_def Let_def
  by (intro keeps_then keeps_bind keeps_for keeps_send window_remember keeps_basic window_modify) simp

lemma window_receive: "keeps (has_window w) (receive_message D m)"
proof -
  have "keeps (has_window w) (if dup then callA c else thenA (remember m) (deliver_local m))" for dup c
    by (cases dup) (simp_all add: keeps_basic keeps_then window_remember keeps_deliver)
  then show ?thesis
    unfolding receive_message_def by (simp add: keeps_reject keeps_bind keeps_basic)
qed

lemma window_on_frame: "keeps (has_window w) (on_frame D raw)"
  unfolding on_frame_def
  by (auto intro!: keeps_reject window_receive keeps_catch keeps_handle_control keeps_basic split: sum.split)

lemma window_publish: "keeps (has_window w) (publish D m)" "keeps (has_window w) (relay_from_bridge D m)"
  unfolding publish_def relay_from_bridge_def
  by (intro keeps_bind keeps_then keeps_basic keeps_deliver window_transmit)+

lemma window_other:
  "keeps (has_window w) (add_handler h)" "keeps (has_window w) (on_control k)"
  "keeps (has_window w) clear_dedup"
  unfolding add_handler_def on_control_def clear_dedup_def
  by (intro keeps_bind keeps_then keeps_basic window_modify; simp)+

lemma window_kept: "window (run_op op s) = window s"
proof -
  have "has_window (window s) s" by (simp add: has_window_def)
  then have "has_window (window s) (run_op op s)"
    using window_on_frame window_publish window_other keeps_publish_control
    by (cases op) (simp_all add: keepsD)
  then show ?thesis by (simp add: has_window_def)
qed

lemma window_kept_ops: "window (fold run_op ops s) = window s"
  by (induction ops arbitrary: s) (simp_all add: window_kept)

text \<open>Whatever an engine is made to do, its duplicate cache is the set of the keys in its
  eviction queue, the queue holds no key twice, and neither grows beyond the window it was
  created with.\<close>

theorem dedup_cache_invariant:
  "let s = fold run_op ops (engine_init nid rep win) in
     seen s = set (seen_order s) \<and> distinct (seen_order s) \<and> card (seen s) \<le> win"
proof -
  let ?s = "fold run_op ops (engine_init nid rep win)"
  have i: "dedup_inv ?s" by (intro dedup_inv_ops dedup_inv_init)
  have "window ?s = win" by (simp add: window_kept_ops engine_init_def)
  with i show ?thesis by (simp add: dedup_inv_def Let_def distinct_card)
qed

section \<open>What happens to a frame\<close>

lemma reject_run: "reject r m s = (Inr (), s, [RecordDropped r m, Warn (node_id s) r])"
  by (simp add: reject_def act_simps)

definition accepts :: "deps \<Rightarrow> engine \<Rightarrow> bytes \<Rightarrow> message \<Rightarrow> bool" where
  "accepts D s raw m \<longleftrightarrow>
     (case from_bytes raw of Inl _ \<Rightarrow> False
      | Inr fr \<Rightarrow> (case sp_verify (d_security D) (payload fr) of Inl _ \<Rightarrow> False
        | Inr p \<Rightarrow> codec_name fr \<noteq> CONTROL_CODEC \<and> decode_message D (codec_name fr) p = Inr m)) \<and>
     (case d_policy D of None \<Rightarrow> True | Some allows \<Rightarrow> allows m) \<and>
     (case d_caps D of None \<Rightarrow> True | Some can_recv \<Rightarrow> can_recv (msg_type m)) \<and>
     msg_key m \<notin> seen s"

text \<open>The frames that carry an authentic control message.\<close>

definition control_frame :: "deps \<Rightarrow> bytes \<Rightarrow> bool" where
  "control_frame D raw \<longleftrightarrow>
     (case from_bytes raw of Inl _ \<Rightarrow> False
      | Inr fr \<Rightarrow> codec_name fr = CONTROL_CODEC \<and> is_ok (sp_verify (d_security D) (payload fr)))"

lemma receive_accepted:
  assumes "accepts D s raw m"
  shows "on_frame D raw s = thenA (remember m) (deliver_local m) s"
proof -
  obtain fr p where "from_bytes raw = Inr fr" "sp_verify (d_security D) (payload fr) = Inr p"
    "codec_name fr \<noteq> CONTROL_CODEC" "decode_message D (codec_name fr) p = Inr m"
    using assms by (auto simp: accepts_def split: sum.splits)
  then have "on_frame D raw s = receive_message D m s" by (simp add: on_frame_def)
  also have "\<dots> = thenA (remember m) (deliver_local m) s"
    using assms
    by (auto simp: receive_message_def accepts_def is_duplicate_def bindA_def getA_def split: option.splits)
  finally show ?thesis .
qed

text \<open>Every frame that is not accepted leaves the state alone and is reported as one drop, or is a
  control frame.\<close>

definition drop_calls :: "call list \<Rightarrow> bool" where
  "drop_calls cs \<longleftrightarrow>
     (\<exists>r mo nid. (cs = [RecordDropped r mo, Warn nid r] \<and>
          ((mo = None \<and> before CHR '':'' r \<in> {''framing'', ''security'', ''codec''}) \<or>
           (mo \<noteq> None \<and> before CHR '':'' r \<in> {''policy'', ''capability''})))
        \<or> (cs = [RecordDropped ''duplicate'' mo] \<and> mo \<noteq> None))"

lemma before_lits [simp]:
  "before CHR '':'' (''framing: '' @ r) = ''framing''"
  "before CHR '':'' (''security: '' @ r) = ''security''"
  "before CHR '':'' (''codec: '' @ r) = ''codec''"
  "before CHR '':'' (''policy: sender '' @ r) = ''policy''"
  "before CHR '':'' (''capability: receive of '' @ r) = ''capability''"
  by (simp_all add: before_def)

lemma reject_drop:
  "reject (''framing: '' @ r) None s = (Inr (), s, calls_of (reject (''framing: '' @ r) None s)) \<and>
   drop_calls (calls_of (reject (''framing: '' @ r) None s))"
  "reject (''security: '' @ r) None s = (Inr (), s, calls_of (reject (''security: '' @ r) None s)) \<and>
   drop_calls (calls_of (reject (''security: '' @ r) None s))"
  "reject (''codec: '' @ r) None s = (Inr (), s, calls_of (reject (''codec: '' @ r) None s)) \<and>
   drop_calls (calls_of (reject (''codec: '' @ r) None s))"
  "reject (''policy: sender '' @ r) (Some m) s = (Inr (), s, calls_of (reject (''policy: sender '' @ r) (Some m) s)) \<and>
   drop_calls (calls_of (reject (''policy: sender '' @ r) (Some m) s))"
  "reject (''capability: receive of '' @ r) (Some m) s =
     (Inr (), s, calls_of (reject (''capability: receive of '' @ r) (Some m) s)) \<and>
   drop_calls (calls_of (reject (''capability: receive of '' @ r) (Some m) s))"
  using before_lits [of r] unfolding reject_run drop_calls_def outcome_simps
  by (simp_all del: append_Cons)

lemma receive_not_accepted:
  assumes "\<not> ((case d_policy D of None \<Rightarrow> True | Some allows \<Rightarrow> allows m) \<and>
     (case d_caps D of None \<Rightarrow> True | Some can_recv \<Rightarrow> can_recv (msg_type m)) \<and> msg_key m \<notin> seen s)"
  shows "\<exists>cs. receive_message D m s = (Inr (), s, cs) \<and> drop_calls cs"
proof -
  have dup: "drop_calls [RecordDropped ''duplicate'' (Some m)]" by (simp add: drop_calls_def)
  show ?thesis
    using assms dup reject_drop(4) [of "originator_id (header m) @ '' not permitted''" m s]
      reject_drop(5) [of "msg_type m @ '' disabled''" m s]
    by (auto simp: receive_message_def is_duplicate_def bindA_def getA_def callA_def simp del: append_Cons)
qed

lemma not_accepted:
  assumes "\<not> control_frame D raw" and "\<And>m. \<not> accepts D s raw m"
  shows "\<exists>cs. on_frame D raw s = (Inr (), s, cs) \<and> drop_calls cs"
proof (cases "from_bytes raw")
  case (Inl e)
  then show ?thesis using reject_drop(1) [of "exn_str e" s] by (auto simp: on_frame_def simp del: append_Cons)
next
  case fr: (Inr fr)
  show ?thesis
  proof (cases "sp_verify (d_security D) (payload fr)")
    case (Inl e)
    then show ?thesis
      using fr reject_drop(2) [of "exn_str e" s] by (auto simp: on_frame_def simp del: append_Cons)
  next
    case p: (Inr p)
    then have nc: "codec_name fr \<noteq> CONTROL_CODEC"
      using assms(1) fr by (auto simp: control_frame_def)
    show ?thesis
    proof (cases "decode_message D (codec_name fr) p")
      case (Inl e)
      then show ?thesis
        using fr p nc reject_drop(3) [of "exn_str e" s] by (auto simp: on_frame_def simp del: append_Cons)
    next
      case (Inr m)
      have "\<not> accepts D s raw m" by (rule assms(2))
      with Inr fr p nc show ?thesis
        using receive_not_accepted [of m D s] by (auto simp: on_frame_def accepts_def)
    qed
  qed
qed

lemma remember_new:
  assumes "msg_key m \<notin> seen s" and "0 < window s"
  shows "remember m s = (Inr (), state_of (remember m s), [])"
    and "msg_key m \<in> seen (state_of (remember m s))"
  using assms by (auto simp: remember_def Let_def)

definition is_handle :: "call \<Rightarrow> bool" where
  "is_handle c = (case c of Handle _ _ \<Rightarrow> True | _ \<Rightarrow> False)"

lemma calls_handlers: "calls_only is_handle (forA hs (handle_one m))"
proof (rule calls_for)
  fix h
  show "calls_only is_handle (handle_one m h)"
    unfolding handle_one_def
    by (cases "h_raises h m") (simp_all add: calls_basic calls_then is_handle_def)
qed

lemma calls_dispatch: "list_all is_handle (calls_of (dispatch m s))"
  using calls_handlers [of "handlers s" m] by (simp add: dispatch_def calls_only_def bindA_def getA_def calls_of_def case_prod_unfold)

lemma deliver_run:
  "deliver_local m s = (value_of (dispatch m s), state_of (dispatch m s),
     NodeSeen (originator_id (header m)) # RecordReceived m # calls_of (dispatch m s))"
  by (simp add: deliver_local_def act_simps)

lemma accepted_run:
  assumes "accepts D s raw m" and "0 < window s"
  shows "\<exists>s' r hs. on_frame D raw s = (r, s', NodeSeen (originator_id (header m)) # RecordReceived m # hs) \<and>
    list_all is_handle hs \<and> s' = state_of (dispatch m (state_of (remember m s))) \<and>
    hs = calls_of (dispatch m (state_of (remember m s)))"
proof -
  have new: "msg_key m \<notin> seen s" using assms(1) by (simp add: accepts_def)
  show ?thesis
    unfolding receive_accepted [OF assms(1)] thenA_Inr [where m = "remember m" and s = s, OF remember_new(1) [OF new assms(2)]] deliver_run
    by (simp add: calls_dispatch)
qed

lemma dispatch_state [simp]: "state_of (dispatch m s) = s"
  using keepsD [OF keeps_dispatch, of "\<lambda>t. t = s" s m] by simp

lemma accepts_unique: "accepts D s raw m \<Longrightarrow> accepts D s raw m' \<Longrightarrow> m = m'"
  by (auto simp: accepts_def split: sum.splits)

lemma control_not_accepted: "control_frame D raw \<Longrightarrow> \<not> accepts D s raw m"
  by (auto simp: accepts_def control_frame_def split: sum.splits)

definition is_control :: "call \<Rightarrow> bool" where
  "is_control c = (case c of Control _ _ \<Rightarrow> True | _ \<Rightarrow> False)"

lemma calls_control: "list_all is_control (calls_of (handle_control D p s))"
proof -
  have "calls_only is_control (handle_control D p)"
    unfolding handle_control_def
    by (intro calls_bind calls_basic)
       (auto simp: calls_basic is_control_def intro!: calls_bind split: json.split)
  then show ?thesis by (simp add: calls_only_def)
qed

lemma control_run:
  assumes "control_frame D raw"
  shows "\<exists>cs. on_frame D raw s = (Inr (), s, cs) \<and> list_all is_control cs"
proof -
  obtain fr p where fr: "from_bytes raw = Inr fr" "codec_name fr = CONTROL_CODEC"
    "sp_verify (d_security D) (payload fr) = Inr p"
    using assms by (auto simp: control_frame_def is_ok_iff split: sum.splits)
  then have run: "on_frame D raw s = catchA (handle_control D p) (\<lambda>_. retA ()) s"
    by (simp add: on_frame_def)
  have st: "state_of (handle_control D p s) = s"
    using keepsD [OF keeps_handle_control, of "\<lambda>t. t = s" s D p] by simp
  have "value_of (on_frame D raw s) = Inr ()" "state_of (on_frame D raw s) = s"
    "calls_of (on_frame D raw s) = calls_of (handle_control D p s)"
    unfolding run catchA_parts st by (auto simp: retA_def split: sum.split)
  then show ?thesis
    using outcome_eq [of "on_frame D raw s"] calls_control [of D p s] by metis
qed

text \<open>The metrics events that count a frame.\<close>

definition counts_frame :: "call \<Rightarrow> bool" where
  "counts_frame c = (case c of RecordReceived _ \<Rightarrow> True | RecordDropped _ _ \<Rightarrow> True | _ \<Rightarrow> False)"

lemma no_count:
  "list_all is_handle cs \<Longrightarrow> filter counts_frame cs = []"
  "list_all is_control cs \<Longrightarrow> filter counts_frame cs = []"
  by (auto simp: filter_empty_conv list_all_iff is_handle_def is_control_def counts_frame_def
      split: call.splits)

lemma drop_count: "drop_calls cs \<Longrightarrow> length (filter counts_frame cs) = 1 \<and> \<not> list_ex is_handle cs \<and>
    (\<forall>m. RecordReceived m \<notin> set cs)"
  by (auto simp: drop_calls_def counts_frame_def is_handle_def)

lemma frame_cases:
  assumes "0 < window s"
  obtains (control) cs where "control_frame D raw" "on_frame D raw s = (Inr (), s, cs)" "list_all is_control cs"
  | (dropped) cs where "\<not> control_frame D raw" "\<And>m. \<not> accepts D s raw m"
      "on_frame D raw s = (Inr (), s, cs)" "drop_calls cs"
  | (accepted) m r hs where "\<not> control_frame D raw" "accepts D s raw m"
      "on_frame D raw s = (r, state_of (remember m s),
         NodeSeen (originator_id (header m)) # RecordReceived m # hs)"
      "hs = calls_of (dispatch m (state_of (remember m s)))" "list_all is_handle hs"
proof (cases "control_frame D raw")
  case True
  then show ?thesis using control_run that(1) by blast
next
  case nc: False
  show ?thesis
  proof (cases "\<exists>m. accepts D s raw m")
    case True
    then obtain m where m: "accepts D s raw m" by blast
    from accepted_run [OF m assms] show ?thesis
      using that(3) [OF nc m] by auto
  next
    case False
    then show ?thesis using not_accepted [OF nc] that(2) [OF nc] by blast
  qed
qed

lemma handled_is: "Handle h m' \<in> set (calls_of (dispatch m s)) \<Longrightarrow> m' = m"
proof -
  define P where "P c \<longleftrightarrow> (case c of Handle _ m' \<Rightarrow> m' = m | _ \<Rightarrow> False)" for c
  have "calls_only P (forA l (handle_one m))" for l
  proof (rule calls_for)
    fix x show "calls_only P (handle_one m x)"
      unfolding handle_one_def
      by (cases "h_raises x m") (simp_all add: calls_basic calls_then P_def)
  qed
  then have "list_all P (calls_of (dispatch m s))"
    by (simp add: dispatch_def calls_only_def bindA_parts getA_def)
  then show "Handle h m' \<in> set (calls_of (dispatch m s)) \<Longrightarrow> m' = m"
    by (auto simp: list_all_iff P_def)
qed

lemma handle_calls:
  "list_all is_handle cs \<Longrightarrow> RecordReceived m \<notin> set cs"
  "list_all is_control cs \<Longrightarrow> RecordReceived m \<notin> set cs \<and> Handle h m \<notin> set cs"
  by (auto simp: list_all_iff is_handle_def is_control_def split: call.splits)

definition accounted :: "deps \<Rightarrow> engine \<Rightarrow> bytes \<Rightarrow> call list \<Rightarrow> bool" where
  "accounted D s raw cs \<longleftrightarrow>
     length (filter counts_frame cs) = (if control_frame D raw then 0 else 1) \<and>
     (\<forall>m. RecordReceived m \<in> set cs \<longleftrightarrow> accepts D s raw m) \<and>
     (\<forall>h m. Handle h m \<in> set cs \<longrightarrow> accepts D s raw m)"

lemma accounted_control:
  assumes "control_frame D raw" and "list_all is_control cs"
  shows "accounted D s raw cs"
  using no_count(2) [OF assms(2)] handle_calls(2) [OF assms(2)] control_not_accepted [OF assms(1)] assms(1)
  by (auto simp: accounted_def)

lemma accounted_drop:
  assumes "\<not> control_frame D raw" and "\<And>m. \<not> accepts D s raw m" and "drop_calls cs"
  shows "accounted D s raw cs"
proof -
  have "Handle h m \<notin> set cs" for h m
    using drop_count [OF assms(3)] by (fastforce simp: list_ex_iff is_handle_def)
  then show ?thesis
    using drop_count [OF assms(3)] assms(1,2) by (simp add: accounted_def)
qed

lemma accounted_accept:
  assumes "\<not> control_frame D raw" and "accepts D s raw m" and "list_all is_handle hs"
    and "\<And>h m'. Handle h m' \<in> set hs \<Longrightarrow> m' = m"
  shows "accounted D s raw (NodeSeen n # RecordReceived m # hs)"
proof -
  have "accepts D s raw m' \<longleftrightarrow> m' = m" for m'
    using accepts_unique assms(2) by blast
  moreover have "RecordReceived m' \<notin> set hs" for m' by (rule handle_calls(1) [OF assms(3)])
  ultimately show ?thesis
    using assms(1,4) no_count(1) [OF assms(3)] by (auto simp: accounted_def counts_frame_def)
qed

lemma accounted_frame:
  assumes "0 < window s"
  shows "accounted D s raw (calls_of (on_frame D raw s))"
  using assms
proof (cases rule: frame_cases [of s D raw])
  case (control cs)
  then show ?thesis using accounted_control [OF control(1,3)] by (simp only: outcome_simps)
next
  case (dropped cs)
  then show ?thesis using accounted_drop [OF dropped(1,2,4)] by (simp only: outcome_simps)
next
  case (accepted m r hs)
  have "Handle h m' \<in> set hs \<Longrightarrow> m' = m" for h m'
    unfolding accepted(4) by (rule handled_is)
  then show ?thesis
    using accounted_accept [OF accepted(1,2,5)] unfolding accepted(3) outcome_simps by blast
qed

text \<open>Property C3: every inbound frame is accounted for exactly once, as received or as dropped,
  except an authentic control frame, which is never counted; and a received count means the
  frame passed framing, security, codec, policy, capability and duplicate checks.\<close>

theorem frame_accounting:
  assumes "0 < window s"
  shows "length (filter counts_frame (calls_of (on_frame D raw s))) = (if control_frame D raw then 0 else 1) \<and>
    (\<forall>m. RecordReceived m \<in> set (calls_of (on_frame D raw s)) \<longleftrightarrow> accepts D s raw m) \<and>
    (\<forall>h m. Handle h m \<in> set (calls_of (on_frame D raw s)) \<longrightarrow> accepts D s raw m)"
  using accounted_frame [OF assms] unfolding accounted_def .

section \<open>Exactly once within the window\<close>

text \<open>The cache of a state, and what remembering one more key makes of it.\<close>

definition cache :: "engine \<Rightarrow> string list \<times> string set \<times> nat" where
  "cache s = (seen_order s, seen s, window s)"

definition cache_add :: "string \<Rightarrow> string list \<times> string set \<times> nat \<Rightarrow> string list \<times> string set \<times> nat" where
  "cache_add key c =
     (case c of (xs, S, w) \<Rightarrow>
        if key \<in> S \<or> (length xs = w \<and> xs = []) then (xs, S, w)
        else (deque_append w key xs, insert key (if length xs = w then S - {hd xs} else S), w))"

lemma cache_remember: "cache (state_of (remember m s)) = cache_add (msg_key m) (cache s)"
  by (cases "seen_order s") (simp_all add: cache_def cache_add_def remember_def Let_def)

lemma remember_cache: "cache s = cache s' \<Longrightarrow> cache (state_of (remember m s)) = cache (state_of (remember m s'))"
  unfolding cache_remember by (rule arg_cong)

definition one_more :: "engine \<Rightarrow> engine \<Rightarrow> bool" where
  "one_more s s' \<longleftrightarrow> cache s' = cache s \<or> (\<exists>m. cache s' = cache (state_of (remember m s)))"

lemma one_more_refl: "cache s' = cache s \<Longrightarrow> one_more s s'"
  by (simp add: one_more_def)

lemma one_more_remember: "cache s' = cache s \<Longrightarrow> one_more s (state_of (remember m s'))"
  using remember_cache [of s' s m] by (auto simp: one_more_def)

lemma sends_state [simp]: "state_of (forA xs (\<lambda>_. send D fr) s) = s"
  using keepsD [OF keeps_for, of "\<lambda>t. t = s" "\<lambda>_. send D fr" s xs] keeps_send by auto

definition from_cache :: "string list \<times> string set \<times> nat \<Rightarrow> engine \<Rightarrow> bool" where
  "from_cache c s \<longleftrightarrow> cache s = c"

definition one_from :: "engine \<Rightarrow> engine \<Rightarrow> bool" where
  "one_from s0 s \<longleftrightarrow> one_more s0 s"

lemma from_one: "from_cache (cache s0) s \<Longrightarrow> one_from s0 s"
  by (simp add: from_cache_def one_from_def one_more_refl)

lemma remember_leads: "leads (from_cache (cache s0)) (remember m) (one_from s0)"
  by (simp add: leads_def from_cache_def one_from_def one_more_remember)

lemma transmit_leads: "leads (from_cache (cache s0)) (transmit D m) (one_from s0)"
  unfolding transmit_def Let_def
  by (intro leads_then_first leads_bind_first leads_then_last [OF remember_leads] from_one keeps_for keeps_send keeps_basic
      keeps_modify)
     (simp_all add: from_cache_def cache_def)

lemma publish_leads:
  "leads (from_cache (cache s0)) (publish D m) (one_from s0)"
  "leads (from_cache (cache s0)) (relay_from_bridge D m) (one_from s0)"
  unfolding publish_def relay_from_bridge_def
  by (intro leads_bind_first leads_bind_last [OF transmit_leads] from_one keeps_then keeps_deliver keeps_basic
      | assumption)+

lemma deliver_state [simp]: "state_of (deliver_local m s) = s"
  by (simp add: deliver_run)

lemma frame_one_more:
  assumes "0 < window s"
  shows "one_more s (state_of (on_frame D raw s))"
  using assms
proof (cases rule: frame_cases [of s D raw])
  case (control cs)
  then show ?thesis by (simp add: one_more_refl)
next
  case (dropped cs)
  then show ?thesis by (simp add: one_more_refl)
next
  case (accepted m r hs)
  then show ?thesis by (simp add: one_more_remember)
qed

lemma op_one_more:
  assumes "op \<noteq> OpClear" and "0 < window s"
  shows "one_more s (run_op op s)"
proof (cases op)
  case (OpPublish D m)
  then show ?thesis
    using leadsD [OF publish_leads(1), of s s D m] by (simp add: from_cache_def one_from_def)
next
  case (OpRelay D m)
  then show ?thesis
    using leadsD [OF publish_leads(2), of s s D m] by (simp add: from_cache_def one_from_def)
next
  case (OpPublishControl D k d)
  then show ?thesis
    using keepsD [OF keeps_publish_control, of "\<lambda>t. t = s" s D k d] by (simp add: one_more_refl)
qed (use assms in \<open>simp_all add: frame_one_more one_more_refl add_handler_def on_control_def modifyA_def cache_def\<close>)

text \<open>How many keys came after \<open>k\<close>.\<close>

definition recency :: "string \<Rightarrow> string list \<Rightarrow> nat" where
  "recency k xs = length (takeWhile (\<lambda>x. x \<noteq> k) (rev xs))"

lemma recency_snoc: "recency k (xs @ [x]) = (if x = k then 0 else Suc (recency k xs))"
  by (simp add: recency_def)

lemma recency_tl: "k \<in> set (tl xs) \<Longrightarrow> recency k (tl xs) = recency k xs"
  by (cases xs) (auto simp: recency_def takeWhile_append)

lemma recency_hd: "distinct xs \<Longrightarrow> xs \<noteq> [] \<Longrightarrow> recency (hd xs) xs = length xs - 1"
proof (cases xs)
  case (Cons x ys)
  moreover assume "distinct xs"
  ultimately have "\<forall>y \<in> set (rev ys). y \<noteq> x" by auto
  then have "takeWhile (\<lambda>y. y \<noteq> x) (rev ys @ [x]) = rev ys"
    by (subst takeWhile_append2) auto
  with Cons show ?thesis by (simp add: recency_def)
qed simp

lemma remember_recency:
  assumes inv: "dedup_inv s" and k: "k \<in> seen s" and r: "Suc (recency k (seen_order s)) < window s"
  shows "k \<in> seen (state_of (remember m s))"
    and "recency k (seen_order (state_of (remember m s))) \<le> Suc (recency k (seen_order s))"
proof -
  let ?xs = "seen_order s"
  have d: "distinct ?xs" and ss: "seen s = set ?xs" and l: "length ?xs \<le> window s"
    using inv by (simp_all add: dedup_inv_def)
  have ne: "?xs \<noteq> []" using k ss by auto
  have hd: "hd ?xs \<noteq> k" if "length ?xs = window s"
    using recency_hd [OF d ne] that r by auto
  then have tl: "k \<in> set (tl ?xs)" if "length ?xs = window s"
    using that k ss ne by (cases ?xs) auto
  show "k \<in> seen (state_of (remember m s))"
    using k hd by (auto simp: remember_def Let_def)
  show "recency k (seen_order (state_of (remember m s))) \<le> Suc (recency k ?xs)"
    using tl l r recency_tl [of k ?xs]
    by (auto simp: remember_def Let_def deque_append_def recency_snoc)
qed

lemma op_recency:
  assumes "dedup_inv s" and "k \<in> seen s" and "Suc (recency k (seen_order s)) < window s" and "op \<noteq> OpClear"
  shows "k \<in> seen (run_op op s) \<and> recency k (seen_order (run_op op s)) \<le> Suc (recency k (seen_order s))"
proof -
  have "0 < window s" using assms(3) by simp
  from op_one_more [OF assms(4) this]
  consider "cache (run_op op s) = cache s" | m where "cache (run_op op s) = cache (state_of (remember m s))"
    by (auto simp: one_more_def)
  then show ?thesis
    using remember_recency [OF assms(1-3)] assms(2) by cases (auto simp: cache_def)
qed

lemma ops_recency:
  assumes "dedup_inv s" and "k \<in> seen s" and "recency k (seen_order s) + length ops < window s"
    and "OpClear \<notin> set ops"
  shows "k \<in> seen (fold run_op ops s)"
  using assms
proof (induction ops arbitrary: s)
  case (Cons op ops)
  have "k \<in> seen (run_op op s)" "recency k (seen_order (run_op op s)) \<le> Suc (recency k (seen_order s))"
    using op_recency [of s k op] Cons.prems by auto
  then show ?case
    using Cons dedup_inv_op [of s op] by (simp add: window_kept)
qed simp

lemma remembered_recency:
  assumes "msg_key m \<notin> seen s" and "0 < window s"
  shows "recency (msg_key m) (seen_order (state_of (remember m s))) = 0"
  using assms by (auto simp: remember_def Let_def deque_append_def recency_snoc)

text \<open>Property C4: a message is delivered at most once within the window: once an engine has
  accepted it, no frame is accepted with the same originator and message id as long as fewer
  operations than the window size lie in between and the cache is not cleared.\<close>

theorem delivered_at_most_once:
  assumes "dedup_inv s" and "accepts D s raw m"
    and "length ops < window s" and "OpClear \<notin> set ops"
    and "originator_id (header m') = originator_id (header m)"
    and "message_id (header m') = message_id (header m)"
  shows "\<not> accepts D' (fold run_op ops (state_of (on_frame D raw s))) raw' m'"
proof -
  have w: "0 < window s" using assms(3) by simp
  have new: "msg_key m \<notin> seen s" using assms(2) by (simp add: accepts_def)
  have st: "state_of (on_frame D raw s) = state_of (remember m s)"
    using accepted_run [OF assms(2) w] by auto
  let ?s = "state_of (remember m s)"
  have "dedup_inv ?s" using keepsD [OF keeps_remember assms(1)] .
  moreover have "window ?s = window s" by (auto simp: remember_def Let_def)
  ultimately have "msg_key m \<in> seen (fold run_op ops ?s)"
    using ops_recency [of ?s "msg_key m" ops] remember_new(2) [OF new w] remembered_recency [OF new w]
      assms(3,4) by simp
  moreover have "msg_key m' = msg_key m" using assms(5,6) by (simp add: msg_key_def)
  ultimately show ?thesis by (simp add: st accepts_def)
qed

section \<open>From publisher to receiver\<close>

lemma for_send:
  "forA xs (\<lambda>_. send D fr) s =
     (if d_up D \<or> xs = [] then (Inr (), s, replicate (length xs) (Send fr))
      else (Inl (PyExn RuntimeErr ''transport not started''), s, []))"
proof (induction xs)
  case (Cons x xs)
  then show ?case
    by (cases "d_up D") (simp_all add: thenA_def bindA_def send_def callA_def raiseA_def)
qed (simp add: retA_def)

lemma transmit_Inr:
  assumes "transmit D m s = (Inr m', s', cs)"
  shows "m' = set_sequence (seq s + 1) m \<and>
    (\<exists>b fr. c_encode (d_codec D) m' = Inr b \<and> data_frame D b = Inr fr \<and>
       cs = replicate (repeat s) (Send fr) \<and>
       s' = state_of (remember m' (s\<lparr>seq := seq s + 1\<rparr>)) \<and> is_ok (value_of (remember m' (s\<lparr>seq := seq s + 1\<rparr>))))"
proof -
  let ?m = "set_sequence (seq s + 1) m" and ?s = "s\<lparr>seq := seq s + 1\<rparr>"
  obtain b where b: "c_encode (d_codec D) ?m = Inr b"
    using assms by (cases "c_encode (d_codec D) ?m")
      (auto simp: transmit_def Let_def thenA_def bindA_def act_defs)
  obtain fr where fr: "data_frame D b = Inr fr"
    using assms b by (cases "data_frame D b")
      (auto simp: transmit_def Let_def thenA_def bindA_def act_defs)
  obtain r s1 es where rm: "remember ?m ?s = (r, s1, es)" by (cases "remember ?m ?s")
  have es: "es = []" using rm by (auto simp: remember_def Let_def split: if_splits)
  show ?thesis
    using assms b fr rm es
    by (cases r; cases "d_up D \<or> repeat s = 0")
       (auto simp: transmit_def Let_def thenA_def bindA_def act_defs for_send)
qed

lemma publish_Inr:
  assumes "publish D m s = (Inr m', s', cs)"
  shows "\<exists>b fr. c_encode (d_codec D) m' = Inr b \<and> data_frame D b = Inr fr \<and>
    cs = replicate (repeat s) (Send fr) @ [RecordSent m'] \<and> msg_key m' \<in> seen s'"
proof -
  obtain cs' where t: "transmit D (set_originator (node_id s) m) s = (Inr m', s', cs')"
    and cs: "cs = cs' @ [RecordSent m']"
    using assms by (auto simp: publish_def thenA_def bindA_def act_defs split: prod.splits sum.splits)
  have "msg_key m' \<in> seen s'" if "is_ok (value_of (remember m' t))" "s' = state_of (remember m' t)" for t
    using that by (auto simp: remember_def Let_def split: if_splits)
  then show ?thesis using transmit_Inr [OF t] cs by blast
qed

text \<open>The engine relies on its provider and its codec only through their laws.\<close>

locale engine_stack = security_law protect verify + codec_law enc dec ok
  for protect :: "bytes \<Rightarrow> bytes" and verify :: "bytes \<Rightarrow> bytes result"
    and enc :: "message \<Rightarrow> bytes result" and dec :: "bytes \<Rightarrow> message result"
    and ok :: "message \<Rightarrow> bool" +
  fixes C :: codec and S :: security_provider
  assumes provider: "sp_protect S = protect" "sp_verify S = verify"
    and codec: "c_encode C = enc" "c_decode C = dec"
    and data_name: "c_name C \<noteq> CONTROL_CODEC"
begin

lemma frame_decodes:
  assumes "d_codec D = C" "d_security D = S" "d_codec D' = C" "d_security D' = S"
    and "ok m" and "enc m = Inr b" and "data_frame D b = Inr fr"
  shows "accepts D' s fr m \<longleftrightarrow>
    (case d_policy D' of None \<Rightarrow> True | Some allows \<Rightarrow> allows m) \<and>
    (case d_caps D' of None \<Rightarrow> True | Some can_recv \<Rightarrow> can_recv (msg_type m)) \<and> msg_key m \<notin> seen s"
    and "on_frame D' fr s = receive_message D' m s"
proof -
  have f: "from_bytes fr = Inr \<lparr> codec_name = c_name C, security_name = sp_name S, payload = protect b \<rparr>"
    using from_to_bytes [of _ fr "[]"] assms(1,2,7) by (simp add: data_frame_def provider)
  have d: "decode_message D' (c_name C) b = Inr m"
    using assms dec_enc by (simp add: decode_message_def select_codec_def codec)
  show "accepts D' s fr m \<longleftrightarrow>
    (case d_policy D' of None \<Rightarrow> True | Some allows \<Rightarrow> allows m) \<and>
    (case d_caps D' of None \<Rightarrow> True | Some can_recv \<Rightarrow> can_recv (msg_type m)) \<and> msg_key m \<notin> seen s"
    unfolding accepts_def using f d assms(4) data_name provider by simp
  show "on_frame D' fr s = receive_message D' m s"
    unfolding on_frame_def using f d assms(4) data_name provider by simp
qed

text \<open>Only what the key protects gets past the provider.\<close>

lemma unprotected_silent:
  assumes "d_security D = S" and "from_bytes raw = Inr f" and "\<And>p. payload f \<noteq> protect p"
  shows "\<exists>e. on_frame D raw s = (Inr (), s, [RecordDropped (''security: '' @ exn_str e) None,
    Warn (node_id s) (''security: '' @ exn_str e)])"
proof -
  obtain e where "verify (payload f) = Inl e"
    using unprotected_rejected [OF assms(3)] by (cases "verify (payload f)") auto
  then show ?thesis using assms(1,2) provider by (auto simp: on_frame_def reject_run)
qed

end

text \<open>The stack a gateway is configured with by default, and the one of an open exercise.\<close>

interpretation psk_xml: engine_stack "psk_protect (utf8_encode key)" "psk_verify (utf8_encode key)"
    "xml_encode E" "xml_decode E" "xml_ok E" "xml_codec E" "psk_security key" for key E
  by unfold_locales (simp_all add: psk_security_def xml_codec_def CONTROL_CODEC_def)

interpretation null_json: engine_stack null_protect null_verify
    "json_encode E" "json_decode E" "json_ok E" "json_codec E" null_security for E
  by unfold_locales (simp_all add: null_security_def json_codec_def CONTROL_CODEC_def)

text \<open>Frames arriving one after the other; what a handler raises ends in the transport's task.\<close>

fun feed :: "deps \<Rightarrow> bytes list \<Rightarrow> engine \<Rightarrow> engine \<times> call list" where
  "feed D [] s = (s, [])"
| "feed D (raw # raws) s =
     (case feed D raws (state_of (on_frame D raw s)) of
        (s', cs) \<Rightarrow> (s', calls_of (on_frame D raw s) @ cs))"

definition permits :: "deps \<Rightarrow> message \<Rightarrow> bool" where
  "permits D m \<longleftrightarrow> (case d_policy D of None \<Rightarrow> True | Some allows \<Rightarrow> allows m) \<and>
     (case d_caps D of None \<Rightarrow> True | Some can_recv \<Rightarrow> can_recv (msg_type m))"

lemma receive_duplicate:
  "permits D m \<Longrightarrow> msg_key m \<in> seen s \<Longrightarrow>
   receive_message D m s = (Inr (), s, [RecordDropped ''duplicate'' (Some m)])"
  by (auto simp: receive_message_def permits_def is_duplicate_def bindA_def act_defs)

lemma feed_duplicates:
  assumes "\<And>s. on_frame D fr s = receive_message D m s" and "permits D m" and "msg_key m \<in> seen s"
  shows "feed D (replicate k fr) s = (s, replicate k (RecordDropped ''duplicate'' (Some m)))"
  using assms by (induction k) (simp_all add: receive_duplicate)

definition sent_frames :: "call list \<Rightarrow> bytes list" where
  "sent_frames cs = concat (map (\<lambda>c. case c of Send fr \<Rightarrow> [fr] | _ \<Rightarrow> []) cs)"

lemma sent_frames_publish: "sent_frames (replicate k (Send fr) @ [RecordSent m]) = replicate k fr"
  by (induction k) (simp_all add: sent_frames_def)

lemma feed_copies:
  assumes run: "\<And>s. on_frame D fr s = receive_message D m s" and perm: "permits D m"
    and new: "msg_key m \<notin> seen r" and w: "0 < window r" and k: "0 < k"
  shows "\<exists>hs. list_all is_handle hs \<and> hs = calls_of (dispatch m (state_of (remember m r))) \<and>
    feed D (replicate k fr) r = (state_of (remember m r),
      NodeSeen (originator_id (header m)) # RecordReceived m # hs @
      replicate (k - 1) (RecordDropped ''duplicate'' (Some m)))"
proof -
  obtain n where n: "k = Suc n" using k by (cases k) auto
  let ?r = "state_of (remember m r)" and ?hs = "calls_of (dispatch m (state_of (remember m r)))"
  have "receive_message D m r = thenA (remember m) (deliver_local m) r"
    using perm new by (simp add: receive_message_def permits_def is_duplicate_def bindA_def getA_def)
  also have "\<dots> = (value_of (dispatch m ?r), ?r, NodeSeen (originator_id (header m)) # RecordReceived m # ?hs)"
    unfolding thenA_Inr [where m = "remember m" and s = r, OF remember_new(1) [OF new w]] deliver_run
    by simp
  finally have "feed D (replicate k fr) r = (?r,
      NodeSeen (originator_id (header m)) # RecordReceived m # ?hs @
      replicate (k - 1) (RecordDropped ''duplicate'' (Some m)))"
    using feed_duplicates [OF run perm remember_new(2) [OF new w], of n] by (simp add: n run)
  then show ?thesis using calls_dispatch by blast
qed

definition stack_deps :: "codec \<Rightarrow> security_provider \<Rightarrow> (message \<Rightarrow> bool) option \<Rightarrow> (string \<Rightarrow> bool) option
    \<Rightarrow> floatlib \<Rightarrow> deps" where
  "stack_deps C S policy caps F = \<lparr> d_codec = C, d_security = S, d_policy = policy, d_caps = caps,
     d_up = True, d_floats = F \<rparr>"

text \<open>Property C1: with the default stack (XML codec, pre-shared key), a message that was published
  reaches every receiver with the same key that permits it and has not seen it: fed the frames
  the publisher sent, the receiver counts it as received once, hands it to its handlers once,
  and counts every repetition as a duplicate; the publisher's own loopback is all duplicates.\<close>

theorem published_is_delivered_once:
  assumes "publish (stack_deps (xml_codec E) (psk_security key) pol caps F) m s = (Inr m', s', cs)"
    and "xml_ok E m'" and "0 < repeat s"
    and "permits (stack_deps (xml_codec E) (psk_security key) pol' caps' F) m'"
    and "msg_key m' \<notin> seen r" and "0 < window r"
  shows "feed (stack_deps (xml_codec E) (psk_security key) pol' caps' F) (sent_frames cs) r =
      (state_of (remember m' r),
       NodeSeen (originator_id (header m')) # RecordReceived m' #
       calls_of (dispatch m' (state_of (remember m' r))) @
       replicate (repeat s - 1) (RecordDropped ''duplicate'' (Some m'))) \<and>
    feed (stack_deps (xml_codec E) (psk_security key) pol' caps' F) (sent_frames cs) s' =
      (s', replicate (repeat s) (RecordDropped ''duplicate'' (Some m')))"
proof -
  let ?D = "stack_deps (xml_codec E) (psk_security key) pol caps F"
  let ?R = "stack_deps (xml_codec E) (psk_security key) pol' caps' F"
  obtain b fr where b: "xml_encode E m' = Inr b" and fr: "data_frame ?D b = Inr fr"
    and cs: "cs = replicate (repeat s) (Send fr) @ [RecordSent m']" and own: "msg_key m' \<in> seen s'"
    using publish_Inr [OF assms(1)] by (auto simp: stack_deps_def xml_codec_def)
  have run: "on_frame ?R fr t = receive_message ?R m' t" for t
    by (rule psk_xml.frame_decodes(2) [of ?D E key ?R m' b fr])
       (use assms(2) b fr in \<open>simp_all add: stack_deps_def\<close>)
  have sf: "sent_frames cs = replicate (repeat s) fr" unfolding cs by (rule sent_frames_publish)
  show ?thesis
    using feed_copies [OF run assms(4,5,6,3)] feed_duplicates [OF run assms(4) own, of "repeat s"]
    unfolding sf by auto
qed

text \<open>Property C2: a node without the coalition key is never heard: a frame whose payload is not
  protected under the receiver's key changes nothing in the engine, reaches no handler and no
  control handler, and is reported as one security drop, whatever codec it names.\<close>

theorem unauthenticated_frame_silent:
  assumes "from_bytes raw = Inr f" and "\<And>p. payload f \<noteq> p @ hmac_sha256 (utf8_encode key) p"
  shows "\<exists>why. on_frame (stack_deps (xml_codec E) (psk_security key) pol caps F) raw s =
    (Inr (), s, [RecordDropped (''security: '' @ why) None, Warn (node_id s) (''security: '' @ why)])"
proof -
  have "payload f \<noteq> psk_protect (utf8_encode key) p" for p
    using assms(2) [of p] by (simp add: psk_protect_def psk_tag_def)
  from psk_xml.unprotected_silent [OF _ assms(1) this, of "stack_deps (xml_codec E) (psk_security key) pol caps F"]
  show ?thesis by (auto simp: stack_deps_def)
qed

section \<open>A concrete exchange\<close>

text \<open>A message, and libraries that behave on it as documented.\<close>

definition demo_msg :: message where
  "demo_msg = \<lparr> header = \<lparr> message_id = ''m1'', originator_id = ''a'', network_id = ''net'',
     reporting_time = 0, sequence = 1, classification = 0, releasable_to = ''ALL'' \<rparr>,
     body = ChatMessage \<lparr> ch_text = ''hi'', ch_recipient = ''all'' \<rparr> \<rparr>"

definition demo_env0 :: codec_env where
  "demo_env0 = \<lparr> e_iso = (\<lambda>_. ''t''), e_str = (\<lambda>_. ''v''),
     e_floats = \<lparr> fl_repr = (\<lambda>_. ''0.0''), fl_parse = (\<lambda>_. None) \<rparr>,
     e_dump_json = (\<lambda>_. []), e_dump_body_json = (\<lambda>_. []), e_validate_json = (\<lambda>_. Inr demo_msg),
     e_validate = (\<lambda>_. Inr demo_msg), e_xml_tostring = (\<lambda>_. Inr []),
     e_xml_fromstring = (\<lambda>_. Inl (PyExn ValueErr [])), e_schema = None,
     e_ipc_write = (\<lambda>_. Inr []), e_ipc_read = (\<lambda>_. Inr []) \<rparr>"

definition demo_env :: codec_env where
  "demo_env = demo_env0\<lparr>e_xml_fromstring := (\<lambda>_. Inr (parsed (xml_of_message demo_env0 demo_msg)))\<rparr>"

abbreviation demo_deps :: deps where
  "demo_deps \<equiv> stack_deps (xml_codec demo_env) (psk_security ''k'') None None (e_floats demo_env)"

lemma demo_ok: "xml_ok demo_env demo_msg"
proof -
  have "xml_of_message demo_env demo_msg = xml_of_message demo_env0 demo_msg"
    by (simp add: xml_of_message_def demo_env_def)
  then show ?thesis by (simp add: xml_ok_def demo_env_def demo_env0_def)
qed

lemma publish_ok:
  assumes "c_encode (d_codec D) (set_sequence (seq s + 1) (set_originator (node_id s) m)) = Inr b"
    and "data_frame D b = Inr fr" and "d_up D" and "0 < window s"
  shows "\<exists>s' cs. publish D m s = (Inr (set_sequence (seq s + 1) (set_originator (node_id s) m)), s', cs)"
proof -
  let ?m = "set_sequence (seq s + 1) (set_originator (node_id s) m)" and ?s = "s\<lparr>seq := seq s + 1\<rparr>"
  have "\<exists>s'. remember ?m ?s = (Inr (), s', [])"
    using assms(4) by (auto simp: remember_def Let_def)
  then show ?thesis
    using assms by (auto simp: publish_def transmit_def Let_def thenA_def bindA_def act_defs for_send)
qed

lemma demo_frame: "\<exists>fr. data_frame demo_deps [] = Inr fr"
proof -
  have "frame_ok \<lparr> codec_name = ''xml'', security_name = ''psk'', payload = psk_protect (utf8_encode ''k'') [] \<rparr>"
    by (simp add: frame_ok_def is_ascii_def psk_protect_def TAG_LEN_def)
  then show ?thesis
    by (auto simp: data_frame_def to_bytes_iff stack_deps_def xml_codec_def psk_security_def)
qed

lemma demo_published:
  "\<exists>s' cs. publish demo_deps demo_msg (engine_init ''a'' 2 8) = (Inr demo_msg, s', cs)"
proof -
  have m: "set_sequence (seq (engine_init ''a'' 2 8) + 1) (set_originator (node_id (engine_init ''a'' 2 8)) demo_msg) = demo_msg"
    by (simp add: set_sequence_def set_originator_def demo_msg_def engine_init_def)
  obtain fr where fr: "data_frame demo_deps [] = Inr fr" using demo_frame by blast
  have e: "c_encode (d_codec demo_deps) demo_msg = Inr []"
    by (simp add: stack_deps_def xml_codec_def xml_encode_def demo_env_def demo_env0_def)
  show ?thesis
    using publish_ok [of demo_deps "engine_init ''a'' 2 8" demo_msg "[]" fr] e fr
    unfolding m by (simp add: stack_deps_def engine_init_def)
qed

theorem frame_accounting_witness:
  "0 < window (engine_init ''a'' 2 8) \<and>
   length (filter counts_frame (calls_of (on_frame demo_deps [] (engine_init ''a'' 2 8)))) = 1"
proof -
  have "0 < window (engine_init ''a'' 2 8)" by (simp add: engine_init_def)
  moreover have "\<not> control_frame demo_deps []"
    by (simp add: control_frame_def from_bytes_def slice_def MAGIC_def)
  ultimately show ?thesis
    using frame_accounting [of "engine_init ''a'' 2 8" demo_deps "[]"] by simp
qed

lemma demo_accepts: "\<exists>fr. accepts demo_deps (engine_init ''b'' 2 8) fr demo_msg"
proof -
  obtain fr where fr: "data_frame demo_deps [] = Inr fr" using demo_frame by blast
  have e: "xml_encode demo_env demo_msg = Inr []"
    by (simp add: xml_encode_def demo_env_def demo_env0_def)
  have "accepts demo_deps (engine_init ''b'' 2 8) fr demo_msg"
    by (subst psk_xml.frame_decodes(1) [OF _ _ _ _ demo_ok e fr])
       (simp_all add: stack_deps_def engine_init_def)
  then show ?thesis by blast
qed

theorem delivered_at_most_once_witness:
  "\<exists>fr. accepts demo_deps (engine_init ''b'' 2 8) fr demo_msg \<and>
     \<not> accepts demo_deps (fold run_op [OpOnControl ''x'', OpOnControl ''y'']
          (state_of (on_frame demo_deps fr (engine_init ''b'' 2 8)))) fr demo_msg"
proof -
  obtain fr where fr: "accepts demo_deps (engine_init ''b'' 2 8) fr demo_msg" using demo_accepts by blast
  have l: "length [OpOnControl ''x'', OpOnControl ''y''] < window (engine_init ''b'' 2 8)"
    "OpClear \<notin> set [OpOnControl ''x'', OpOnControl ''y'']"
    by (simp_all add: engine_init_def)
  from delivered_at_most_once [OF dedup_inv_init fr l refl refl] fr show ?thesis by blast
qed

theorem published_is_delivered_once_witness:
  "\<exists>s' cs. publish demo_deps demo_msg (engine_init ''a'' 2 8) = (Inr demo_msg, s', cs) \<and>
     snd (feed demo_deps (sent_frames cs) (engine_init ''b'' 2 8)) =
       [NodeSeen ''a'', RecordReceived demo_msg, RecordDropped ''duplicate'' (Some demo_msg)]"
proof -
  obtain s' cs where p: "publish demo_deps demo_msg (engine_init ''a'' 2 8) = (Inr demo_msg, s', cs)"
    using demo_published by blast
  have h: "handlers (state_of (remember demo_msg (engine_init ''b'' 2 8))) = []"
    by (simp add: remember_def engine_init_def Let_def)
  have "calls_of (dispatch demo_msg (state_of (remember demo_msg (engine_init ''b'' 2 8)))) = []"
    by (simp add: dispatch_def bindA_parts act_simps h)
  moreover have "permits demo_deps demo_msg" by (simp add: permits_def stack_deps_def)
  moreover have "repeat (engine_init ''a'' 2 8) = 2" by (simp add: engine_init_def)
  moreover have "originator_id (header demo_msg) = ''a''" by (simp add: demo_msg_def)
  ultimately show ?thesis
    using p published_is_delivered_once [OF p demo_ok, of None None "engine_init ''b'' 2 8"]
    by (auto simp: engine_init_def)
qed

theorem unauthenticated_frame_silent_witness:
  "\<exists>raw why. on_frame demo_deps raw (engine_init ''b'' 2 8) =
    (Inr (), engine_init ''b'' 2 8,
     [RecordDropped (''security: '' @ why) None, Warn ''b'' (''security: '' @ why)])"
proof -
  let ?f = "\<lparr> codec_name = ''xml'', security_name = ''psk'', payload = [0] \<rparr>"
  have "frame_ok ?f" by (simp add: frame_ok_def is_ascii_def)
  then have "to_bytes ?f = Inr (frame_text ?f)" by (simp add: to_bytes_iff)
  from from_to_bytes [OF this, of "[]"] have f: "from_bytes (frame_text ?f) = Inr ?f" by simp
  have "payload ?f \<noteq> p @ hmac_sha256 (utf8_encode ''k'') p" for p
  proof
    assume "payload ?f = p @ hmac_sha256 (utf8_encode ''k'') p"
    then have "length (payload ?f) = length (p @ hmac_sha256 (utf8_encode ''k'') p)" by (rule arg_cong)
    then show False by simp
  qed
  from unauthenticated_frame_silent [OF f this, of demo_env None None "e_floats demo_env" "engine_init ''b'' 2 8"]
  show ?thesis by (auto simp: engine_init_def)
qed

text \<open>The key of the duplicate cache tells two messages apart unless one originator
  id continues the other with a colon: exactly then different originator and message ids can
  have the same key, so that the second message is dropped as a repetition of the first.\<close>

theorem dedup_key_collisions:
  "msg_key m = msg_key m' \<longleftrightarrow>
     (let oi = originator_id (header m); oi' = originator_id (header m');
          i = message_id (header m); i' = message_id (header m') in
      (oi = oi' \<and> i = i') \<or>
      (\<exists>w. oi = oi' @ '':'' @ w \<and> i' = w @ '':'' @ i) \<or>
      (\<exists>w. oi' = oi @ '':'' @ w \<and> i = w @ '':'' @ i'))"
proof -
  have "x @ '':'' @ y = x' @ '':'' @ y' \<longleftrightarrow>
      (x = x' \<and> y = y') \<or> (\<exists>w. x = x' @ '':'' @ w \<and> y' = w @ '':'' @ y) \<or>
      (\<exists>w. x' = x @ '':'' @ w \<and> y = w @ '':'' @ y')" for x y x' y' :: string
  proof
    assume "x @ '':'' @ y = x' @ '':'' @ y'"
    then obtain us where "(x = x' @ us \<and> us @ '':'' @ y = '':'' @ y') \<or> (x @ us = x' \<and> '':'' @ y = us @ '':'' @ y')"
      by (auto simp: append_eq_append_conv2)
    then show "(x = x' \<and> y = y') \<or> (\<exists>w. x = x' @ '':'' @ w \<and> y' = w @ '':'' @ y) \<or>
      (\<exists>w. x' = x @ '':'' @ w \<and> y = w @ '':'' @ y')"
      by (cases us) auto
  qed auto
  then show ?thesis by (simp only: msg_key_def Let_def)
qed

end
