(* ===== verification/Distributor.thy ===== *)
theory Distributor
  imports Exchange
begin

text \<open>
  \<open>connections/signing.py\<close> and \<open>connections/distributor.py\<close>: the coalition policy authority. The
  authority changes its policies, bumps a version and broadcasts its snapshots, signed when it
  has a key, as a control message; every other node takes over the snapshot of a newer version
  whose signature verifies. Ed25519 is a parameter (\<open>ed25519\<close>). The update handler runs on
  whatever JSON object the control frame carried, with the errors Python raises on it.
\<close>

section \<open>Signing\<close>

record ed25519 =
  ed_sign :: "bytes \<Rightarrow> bytes \<Rightarrow> bytes"
  ed_verify :: "bytes \<Rightarrow> bytes \<Rightarrow> bytes \<Rightarrow> bool"

text \<open>\<open>bytes.fromhex\<close>: pairs of hex digits, ASCII white space allowed between them.\<close>

definition ascii_space :: "char \<Rightarrow> bool" where
  "ascii_space c \<longleftrightarrow> (let n = (of_char c :: nat) in (9 \<le> n \<and> n \<le> 13) \<or> n = 32)"

fun from_hex :: "string \<Rightarrow> bytes option" where
  "from_hex [] = Some []"
| "from_hex [c] = (if ascii_space c then Some [] else None)"
| "from_hex (c # d # cs) =
     (if ascii_space c then from_hex (d # cs)
      else (case (hex_val c, hex_val d) of
              (Some x, Some y) \<Rightarrow> map_option (\<lambda>bs. word_of_nat (16 * x + y) # bs) (from_hex cs)
            | _ \<Rightarrow> None))"

definition or_empty :: "json \<Rightarrow> json" where
  "or_empty v = (case v of
     JNull \<Rightarrow> JDict [] | JBool b \<Rightarrow> if b then v else JDict [] | JInt i \<Rightarrow> if i \<noteq> 0 then v else JDict []
   | JFloat x \<Rightarrow> if x \<noteq> Fin 0 then v else JDict [] | JStr s \<Rightarrow> if s \<noteq> [] then v else JDict []
   | JList xs \<Rightarrow> if xs \<noteq> [] then v else JDict [] | JDict d \<Rightarrow> v)"

definition policy_object :: "int \<Rightarrow> json \<Rightarrow> json \<Rightarrow> json \<Rightarrow> json" where
  "policy_object version default_action ovr ps =
     JDict [(''version'', JInt version), (''default_action'', default_action),
            (''overrides'', ovr), (''pairs'', or_empty ps)]"

definition canonical_payload :: "floatlib \<Rightarrow> int \<Rightarrow> json \<Rightarrow> json \<Rightarrow> json \<Rightarrow> bytes" where
  "canonical_payload F version default_action ovr ps =
     utf8_encode (json_dumps_canonical F (policy_object version default_action ovr ps))"

definition signer_sign :: "ed25519 \<Rightarrow> bytes \<Rightarrow> bytes \<Rightarrow> string" where
  "signer_sign ed priv p = hex_of_bytes (ed_sign ed priv p)"

definition verifier_verify :: "ed25519 \<Rightarrow> bytes \<Rightarrow> bytes \<Rightarrow> string \<Rightarrow> bool" where
  "verifier_verify ed pub p sig =
     (case from_hex sig of None \<Rightarrow> False | Some s \<Rightarrow> ed_verify ed pub s p)"

section \<open>The distributor\<close>

record distributor =
  ds_node_id :: string
  ds_policy :: matrix_policy
  ds_pairs :: pair_policy
  ds_authority :: "string option"
  ds_version :: int
  ds_signer :: "bytes option"
  ds_verifier :: "bytes option"

datatype dcall = PublishControl string "(string, json) dict"

type_synonym 'a dact = "(distributor, dcall, 'a) act"

definition KIND :: string where
  "KIND = ''policyupdate''"

definition is_authority :: "distributor \<Rightarrow> bool" where
  "is_authority s \<longleftrightarrow> ds_authority s = Some (ds_node_id s)"

definition distributor_init ::
  "string \<Rightarrow> matrix_policy \<Rightarrow> pair_policy \<Rightarrow> string option \<Rightarrow> bytes option \<Rightarrow> bytes option \<Rightarrow> distributor" where
  "distributor_init nid policy ps authority signer verifier =
     \<lparr> ds_node_id = nid, ds_policy = policy, ds_pairs = ps, ds_authority = authority,
       ds_version = (if authority = Some nid then 1 else 0), ds_signer = signer, ds_verifier = verifier \<rparr>"

subsection \<open>Authority side\<close>

definition json_of_overrides :: "(string, string) dict \<Rightarrow> json" where
  "json_of_overrides d = JDict (map (\<lambda>(k, v). (k, JStr v)) d)"

definition json_of_pairs :: "(string, string list) dict \<Rightarrow> json" where
  "json_of_pairs d = JDict (map (\<lambda>(k, v). (k, JList (map JStr v))) d)"

definition update_data :: "ed25519 \<Rightarrow> floatlib \<Rightarrow> distributor \<Rightarrow> (string, json) dict" where
  "update_data ed F s =
     (let snap = matrix_snapshot (ds_policy s);
          da = JStr (ms_default_action snap);
          ovr = json_of_overrides (ms_overrides snap);
          ps = json_of_pairs (pairs_snapshot (ds_pairs s));
          data = [(''version'', JInt (ds_version s)), (''default_action'', da),
                  (''overrides'', ovr), (''pairs'', ps)]
      in (case ds_signer s of
            None \<Rightarrow> data
          | Some priv \<Rightarrow> AList.update ''sig''
              (JStr (signer_sign ed priv (canonical_payload F (ds_version s) da ovr ps))) data))"

definition broadcast :: "ed25519 \<Rightarrow> floatlib \<Rightarrow> unit dact" where
  "broadcast ed F = bindA (getA (update_data ed F)) (\<lambda>data. callA (PublishControl KIND data))"

definition require_authority :: "unit dact" where
  "require_authority = bindA (getA is_authority) (\<lambda>a.
     if a then retA ()
     else raiseA (PyExn PermissionErr ''this node is not the coalition policy authority''))"

definition commit :: "ed25519 \<Rightarrow> floatlib \<Rightarrow> unit dact" where
  "commit ed F = thenA (modifyA (\<lambda>s. s\<lparr>ds_version := ds_version s + 1\<rparr>)) (broadcast ed F)"

definition authority_op :: "ed25519 \<Rightarrow> floatlib \<Rightarrow> (distributor \<Rightarrow> distributor) \<Rightarrow> unit dact" where
  "authority_op ed F change = thenA require_authority (thenA (modifyA change) (commit ed F))"

definition on_policy :: "(matrix_policy \<Rightarrow> matrix_policy) \<Rightarrow> distributor \<Rightarrow> distributor" where
  "on_policy f s = s\<lparr>ds_policy := f (ds_policy s)\<rparr>"

definition on_pairs :: "(pair_policy \<Rightarrow> pair_policy) \<Rightarrow> distributor \<Rightarrow> distributor" where
  "on_pairs f s = s\<lparr>ds_pairs := f (ds_pairs s)\<rparr>"

definition dist_block :: "ed25519 \<Rightarrow> floatlib \<Rightarrow> string \<Rightarrow> unit dact" where
  "dist_block ed F peer = authority_op ed F (on_policy (matrix_block peer))"

definition dist_allow :: "ed25519 \<Rightarrow> floatlib \<Rightarrow> string \<Rightarrow> unit dact" where
  "dist_allow ed F peer = authority_op ed F (on_policy (matrix_allow peer))"

definition dist_reset :: "ed25519 \<Rightarrow> floatlib \<Rightarrow> string \<Rightarrow> unit dact" where
  "dist_reset ed F peer = authority_op ed F (on_policy (matrix_reset peer))"

definition dist_set_default :: "ed25519 \<Rightarrow> floatlib \<Rightarrow> string \<Rightarrow> unit dact" where
  "dist_set_default ed F action = authority_op ed F (on_policy (matrix_set_default action))"

definition dist_block_pair :: "ed25519 \<Rightarrow> floatlib \<Rightarrow> string \<Rightarrow> string \<Rightarrow> unit dact" where
  "dist_block_pair ed F observer originator = authority_op ed F (on_pairs (pairs_block observer originator))"

definition dist_allow_pair :: "ed25519 \<Rightarrow> floatlib \<Rightarrow> string \<Rightarrow> string \<Rightarrow> unit dact" where
  "dist_allow_pair ed F observer originator = authority_op ed F (on_pairs (pairs_allow observer originator))"

subsection \<open>Receiver side\<close>

text \<open>\<open>int(v)\<close> of a JSON value; of a text, optional sign and digits with single underscores.\<close>

fun underscored :: "string \<Rightarrow> bool" where
  "underscored [] = False"
| "underscored [c] = is_digit c"
| "underscored (c # d # cs) =
     (is_digit c \<and> (if d = CHR ''_'' then underscored cs else underscored (d # cs)))"

definition int_of_text :: "string \<Rightarrow> int result" where
  "int_of_text s =
     (let t = py_strip s;
          neg = (t \<noteq> [] \<and> hd t = CHR ''-'');
          u = (if t \<noteq> [] \<and> hd t \<in> {CHR ''-'', CHR ''+''} then tl t else t)
      in if underscored u
         then let n = int (nat_of_digits (filter is_digit u)) in Inr (if neg then - n else n)
         else Inl (PyExn ValueErr ''invalid literal for int() with base 10''))"

definition py_int :: "json \<Rightarrow> int result" where
  "py_int v = (case v of
     JInt i \<Rightarrow> Inr i | JBool b \<Rightarrow> Inr (if b then 1 else 0)
   | JFloat (Fin x) \<Rightarrow> Inr (if 0 \<le> x then \<lfloor>x\<rfloor> else \<lceil>x\<rceil>)
   | JFloat _ \<Rightarrow> Inl (PyExn ValueErr ''cannot convert float to integer'')
   | JStr s \<Rightarrow> int_of_text s
   | _ \<Rightarrow> Inl (PyExn TypeErr ''int() argument''))"

definition json_overrides :: "json \<Rightarrow> (string, bool) dict result" where
  "json_overrides v = (case v of
     JDict d \<Rightarrow> Inr (dict_map (\<lambda>x. x = JStr ''allow'') d)
   | _ \<Rightarrow> Inl (PyExn AttributeErr ''items''))"

text \<open>\<open>set(v)\<close>, of which only the strings can ever equal an originator id.\<close>

definition hashable :: "json \<Rightarrow> bool" where
  "hashable v = (case v of JList _ \<Rightarrow> False | JDict _ \<Rightarrow> False | _ \<Rightarrow> True)"

definition json_set :: "json \<Rightarrow> string set result" where
  "json_set v = (case v of
     JList xs \<Rightarrow> if list_all hashable xs then Inr (set (concat (map (\<lambda>x. case x of JStr s \<Rightarrow> [s] | _ \<Rightarrow> []) xs)))
                 else Inl (PyExn TypeErr ''unhashable type'')
   | JStr s \<Rightarrow> Inr (set (map (\<lambda>c. [c]) s))
   | JDict d \<Rightarrow> Inr (set (map fst d))
   | _ \<Rightarrow> Inl (PyExn TypeErr ''object is not iterable''))"

definition truthy :: "json \<Rightarrow> bool" where
  "truthy v \<longleftrightarrow> v \<notin> {JNull, JBool False, JInt 0, JFloat (Fin 0), JStr [], JList [], JDict []}"

fun json_pair_items :: "(string, json) dict \<Rightarrow> (string, string set) dict result" where
  "json_pair_items [] = Inr []"
| "json_pair_items ((k, v) # d) =
     (if truthy v then bindR (json_set v) (\<lambda>s. bindR (json_pair_items d) (\<lambda>r. Inr ((k, s) # r)))
      else json_pair_items d)"

definition json_pairs :: "json \<Rightarrow> (string, string set) dict result" where
  "json_pairs v = (case v of JDict d \<Rightarrow> json_pair_items d | _ \<Rightarrow> Inl (PyExn AttributeErr ''items''))"

definition sender_matches :: "(string, json) dict \<Rightarrow> string option \<Rightarrow> bool" where
  "sender_matches data authority =
     (case dict_get data ''node'' JNull of
        JStr n \<Rightarrow> authority = Some n | JNull \<Rightarrow> authority = None | _ \<Rightarrow> False)"

text \<open>A signature that is no text makes \<open>bytes.fromhex\<close> raise, which leaves the handler.\<close>

definition check_signature :: "ed25519 \<Rightarrow> floatlib \<Rightarrow> int \<Rightarrow> (string, json) dict \<Rightarrow> bytes option \<Rightarrow> bool result" where
  "check_signature ed F version data verifier =
     (case verifier of
        None \<Rightarrow> Inr True
      | Some pub \<Rightarrow>
          (case dict_get data ''sig'' (JStr []) of
             JStr sig \<Rightarrow> Inr (verifier_verify ed pub
               (canonical_payload F version (dict_get data ''default_action'' (JStr ''allow''))
                  (dict_get data ''overrides'' (JDict [])) (dict_get data ''pairs'' (JDict []))) sig)
           | _ \<Rightarrow> Inl (PyExn TypeErr ''fromhex() argument must be str'')))"

definition apply_update :: "int \<Rightarrow> (string, json) dict \<Rightarrow> unit dact" where
  "apply_update version data =
     thenA (modifyA (\<lambda>s. s\<lparr>ds_version := version\<rparr>)) (
     bindA (liftA (json_overrides (dict_get data ''overrides'' (JDict [])))) (\<lambda>ovr.
     thenA (modifyA (on_policy (\<lambda>p. p\<lparr>default_allow :=
         (dict_get data ''default_action'' (JStr ''allow'') \<noteq> JStr ''deny''), overrides := ovr\<rparr>))) (
     bindA (liftA (json_pairs (dict_get data ''pairs'' (JDict [])))) (\<lambda>ps.
     modifyA (on_pairs (\<lambda>p. p\<lparr>pairs := ps\<rparr>))))))"

definition on_update :: "ed25519 \<Rightarrow> floatlib \<Rightarrow> (string, json) dict \<Rightarrow> unit dact" where
  "on_update ed F data =
     bindA (getA (\<lambda>s. s)) (\<lambda>s.
     if \<not> sender_matches data (ds_authority s) \<or> is_authority s then retA ()
     else
       bindA (liftA (py_int (dict_get data ''version'' (JInt 0)))) (\<lambda>version.
       bindA (liftA (check_signature ed F version data (ds_verifier s))) (\<lambda>good.
       if \<not> good then retA ()
       else if version \<le> ds_version s then retA ()
       else apply_update version data)))"

section \<open>Who can change a policy\<close>

lemma authority_op_run:
  "authority_op ed F change s =
     (if is_authority s
      then (let s' = (change s)\<lparr>ds_version := ds_version (change s) + 1\<rparr>
            in (Inr (), s', [PublishControl KIND (update_data ed F s')]))
      else (Inl (PyExn PermissionErr ''this node is not the coalition policy authority''), s, []))"
  by (simp add: authority_op_def thenA_def bindA_def require_authority_def commit_def broadcast_def
      act_defs Let_def)

text \<open>Only the authority changes the coalition policy from its own side: on any other
  node every management operation raises \<open>PermissionError\<close>, changes nothing and broadcasts
  nothing; on the authority it makes its change, raises the version by one and broadcasts the
  new snapshot.\<close>

theorem authority_operations:
  "dist_block ed F peer s =
     (if is_authority s
      then (let s' = (on_policy (matrix_block peer) s)\<lparr>ds_version := ds_version s + 1\<rparr>
            in (Inr (), s', [PublishControl KIND (update_data ed F s')]))
      else (Inl (PyExn PermissionErr ''this node is not the coalition policy authority''), s, [])) \<and>
   dist_block_pair ed F observer originator s =
     (if is_authority s
      then (let s' = (on_pairs (pairs_block observer originator) s)\<lparr>ds_version := ds_version s + 1\<rparr>
            in (Inr (), s', [PublishControl KIND (update_data ed F s')]))
      else (Inl (PyExn PermissionErr ''this node is not the coalition policy authority''), s, []))"
  unfolding dist_block_def dist_block_pair_def authority_op_run
  by (simp add: on_policy_def on_pairs_def)

section \<open>What an update does\<close>

lemma on_update_run:
  "on_update ed F data s =
     (if \<not> sender_matches data (ds_authority s) \<or> is_authority s then (Inr (), s, [])
      else (case py_int (dict_get data ''version'' (JInt 0)) of
        Inl e \<Rightarrow> (Inl e, s, [])
      | Inr v \<Rightarrow> (case check_signature ed F v data (ds_verifier s) of
          Inl e \<Rightarrow> (Inl e, s, [])
        | Inr good \<Rightarrow> if \<not> good \<or> v \<le> ds_version s then (Inr (), s, []) else apply_update v data s)))"
  by (simp add: on_update_def bindA_def act_defs split: sum.split prod.split)

lemma apply_update_version: "ds_version (state_of (apply_update v data s)) = v"
  by (simp add: apply_update_def bindA_parts thenA_def act_defs on_policy_def on_pairs_def split: sum.split)

lemma on_update_guarded:
  assumes "state_of (on_update ed F data s) \<noteq> s"
  obtains v where "sender_matches data (ds_authority s)" "\<not> is_authority s"
    "py_int (dict_get data ''version'' (JInt 0)) = Inr v" "ds_version s < v"
    "check_signature ed F v data (ds_verifier s) = Inr True"
    "on_update ed F data s = apply_update v data s"
    "ds_version (state_of (on_update ed F data s)) = v"
  using assms apply_update_version [of _ data s]
  by (auto simp: on_update_run split: if_splits sum.splits)

text \<open>An update changes a node's policies or version only if it names the authority as
  its sender, the node is not the authority itself, its version is strictly newer, and, on a
  node with the authority's public key, its signature verifies on its own contents; the node's
  version is then the update's, so versions never decrease and a replay changes nothing.\<close>

theorem update_guard:
  "let s' = state_of (on_update ed F data s) in
   s' = s \<or>
   (sender_matches data (ds_authority s) \<and> \<not> is_authority s \<and> ds_version s < ds_version s' \<and>
    py_int (dict_get data ''version'' (JInt 0)) = Inr (ds_version s') \<and>
    check_signature ed F (ds_version s') data (ds_verifier s) = Inr True \<and>
    state_of (on_update ed F data s') = s')"
proof (cases "state_of (on_update ed F data s) = s")
  case False
  let ?s' = "state_of (on_update ed F data s)"
  from on_update_guarded [OF False] obtain v where v: "sender_matches data (ds_authority s)"
    "\<not> is_authority s" "py_int (dict_get data ''version'' (JInt 0)) = Inr v" "ds_version s < v"
    "check_signature ed F v data (ds_verifier s) = Inr True" "ds_version ?s' = v" by blast
  have "state_of (on_update ed F data ?s') = ?s'"
  proof (rule ccontr)
    assume "state_of (on_update ed F data ?s') \<noteq> ?s'"
    from on_update_guarded [OF this] obtain w where
      "py_int (dict_get data ''version'' (JInt 0)) = Inr w" "ds_version ?s' < w" by blast
    with v(3,6) show False by simp
  qed
  with v show ?thesis by (simp add: Let_def)
qed simp

section \<open>The canonical payload determines the policy\<close>

lemma map_of_sorted:
  assumes "dict_ok d"
  shows "map_of (sort_key fst (map (\<lambda>(k, v). (k, f v)) d)) k = map_option f (map_of d k)"
proof -
  let ?e = "map (\<lambda>(k, v). (k, f v)) d"
  have "dict_ok (sort_key fst ?e)" using assms by (simp only: keys_sorted)
  moreover have "dict_ok ?e" using assms by (simp add: comp_def case_prod_unfold)
  ultimately have "map_of (sort_key fst ?e) = map_of ?e"
    by (rule map_of_inject_set [THEN iffD2]) simp
  moreover have "map_of ?e k = map_option f (map_of d k)"
    by (induction d) auto
  ultimately show ?thesis by simp
qed

lemma sort_keys_JDict_map:
  assumes "dict_ok d" "dict_ok e" "sort_keys (JDict d) = sort_keys (JDict e)"
  shows "map_option sort_keys (map_of d k) = map_option sort_keys (map_of e k)"
proof -
  have "sort_key fst (map (\<lambda>(k, v). (k, sort_keys v)) d) = sort_key fst (map (\<lambda>(k, v). (k, sort_keys v)) e)"
    using assms(3) unfolding sort_keys.simps by (simp only: json.inject)
  then show ?thesis
    unfolding map_of_sorted [OF assms(1), symmetric] map_of_sorted [OF assms(2), symmetric] by (rule arg_cong)
qed

lemma canonical_payload_inject:
  assumes "canonical_payload F v da ovr ps = canonical_payload F v' da' ovr' ps'"
    and "list_all plain_json [da, ovr, ps, da', ovr', ps']"
  shows "v = v' \<and> sort_keys da = sort_keys da' \<and> sort_keys ovr = sort_keys ovr' \<and>
    sort_keys (or_empty ps) = sort_keys (or_empty ps')"
proof -
  have ok: "plain_json (or_empty x)" if "plain_json x" for x
    using that by (cases x) (auto simp: or_empty_def)
  let ?d = "[(''version'', JInt v), (''default_action'', da), (''overrides'', ovr), (''pairs'', or_empty ps)]"
  let ?e = "[(''version'', JInt v'), (''default_action'', da'), (''overrides'', ovr'), (''pairs'', or_empty ps')]"
  have p: "plain_json (policy_object v da ovr ps)" "plain_json (policy_object v' da' ovr' ps')"
    using assms(2) ok by (simp_all add: policy_object_def)
  have "json_dumps_canonical F (policy_object v da ovr ps) = json_dumps_canonical F (policy_object v' da' ovr' ps')"
    using assms(1) unfolding canonical_payload_def by (metis utf8_decode_encode sum.inject(2))
  from canonical_inject [OF p this] have "sort_keys (JDict ?d) = sort_keys (JDict ?e)"
    by (simp only: policy_object_def)
  from sort_keys_JDict_map [OF _ _ this]
  have m: "map_option sort_keys (map_of ?d k) = map_option sort_keys (map_of ?e k)" for k by simp
  show ?thesis using m [of "''version''"] m [of "''default_action''"] m [of "''overrides''"] m [of "''pairs''"]
    by simp
qed


section \<open>Convergence\<close>

lemma ascii_space_hex: "n < 16 \<Longrightarrow> \<not> ascii_space (hex_lower n)"
  by (auto simp: ascii_space_def hex_lower_def)

lemma hex_val_lower: "n < 16 \<Longrightarrow> hex_val (hex_lower n) = Some n"
  by (simp add: hex_val_def hex_lower_def)

lemma from_hex_of_bytes [simp]: "from_hex (hex_of_bytes bs) = Some bs"
proof (induction bs)
  case (Cons b bs)
  have lt: "unat b < 256" using unsigned_less [of b, where 'a = nat] by simp
  then have h: "unat b div 16 < 16" "unat b mod 16 < 16" by (simp_all add: less_mult_imp_div_less)
  have w: "word_of_nat (16 * (unat b div 16) + unat b mod 16) = b" by simp
  have "hex_of_bytes (b # bs) = hex_lower (unat b div 16) # hex_lower (unat b mod 16) # hex_of_bytes bs"
    by (simp add: hex_of_bytes_def)
  then show ?case
    using Cons h w by (simp add: ascii_space_hex hex_val_lower)
qed (simp add: hex_of_bytes_def)

lemma json_overrides_of [simp]:
  "json_overrides (json_of_overrides d) = Inr (dict_map (\<lambda>v. v = ''allow'') d)"
  by (simp add: json_overrides_def json_of_overrides_def dict_map_def case_prod_unfold)

lemma json_set_of: "json_set (JList (map JStr v)) = Inr (set v)"
  by (simp add: json_set_def hashable_def list_all_iff comp_def)

lemma json_pairs_of [simp]:
  "json_pairs (json_of_pairs d) = Inr (dict_map set (filter (\<lambda>(k, v). v \<noteq> []) d))"
proof -
  have "json_pair_items (map (\<lambda>(k, v). (k, JList (map JStr v))) d) =
      Inr (dict_map set (filter (\<lambda>(k, v). v \<noteq> []) d))"
    by (induction d) (auto simp: json_set_of truthy_def dict_map_def)
  then show ?thesis by (simp add: json_pairs_def json_of_pairs_def)
qed

text \<open>The object a control message with the authority's data carries.\<close>

definition wire_data :: "string \<Rightarrow> (string, json) dict \<Rightarrow> (string, json) dict" where
  "wire_data nid data = dict_update [(''kind'', JStr KIND), (''node'', JStr nid)] data"

lemma update_data_ok:
  "dict_ok (update_data ed F s)" "set (map fst (update_data ed F s)) \<subseteq>
    {''version'', ''default_action'', ''overrides'', ''pairs'', ''sig''}"
  by (auto simp: update_data_def Let_def split: option.split)

lemma wire_get:
  "dict_get (wire_data nid (update_data ed F s)) k d =
     (case map_of (update_data ed F s) k of
        Some v \<Rightarrow> v
      | None \<Rightarrow> if k = ''kind'' then JStr KIND else if k = ''node'' then JStr nid else d)"
  using update_data_ok(1) [of ed F s]
  by (auto simp: dict_get_def wire_data_def map_of_dict_update map_add_def split: option.split)

lemma update_data_get:
  "map_of (update_data ed F s) ''version'' = Some (JInt (ds_version s))"
  "map_of (update_data ed F s) ''default_action'' = Some (JStr (ms_default_action (matrix_snapshot (ds_policy s))))"
  "map_of (update_data ed F s) ''overrides'' = Some (json_of_overrides (ms_overrides (matrix_snapshot (ds_policy s))))"
  "map_of (update_data ed F s) ''pairs'' = Some (json_of_pairs (pairs_snapshot (ds_pairs s)))"
  "map_of (update_data ed F s) ''node'' = None" "map_of (update_data ed F s) ''kind'' = None"
  "map_of (update_data ed F s) ''sig'' = map_option (\<lambda>priv. JStr (signer_sign ed priv
     (canonical_payload F (ds_version s) (JStr (ms_default_action (matrix_snapshot (ds_policy s))))
       (json_of_overrides (ms_overrides (matrix_snapshot (ds_policy s))))
       (json_of_pairs (pairs_snapshot (ds_pairs s)))))) (ds_signer s)"
  by (auto simp: update_data_def Let_def split: option.split)

text \<open>What a receiver needs: it trusts this authority, and can check its signatures.\<close>

definition trusts :: "ed25519 \<Rightarrow> distributor \<Rightarrow> distributor \<Rightarrow> bool" where
  "trusts ed r s \<longleftrightarrow> is_authority s \<and> ds_authority r = ds_authority s \<and> \<not> is_authority r \<and>
     (case ds_verifier r of
        None \<Rightarrow> True
      | Some pub \<Rightarrow> (case ds_signer s of
          None \<Rightarrow> False
        | Some priv \<Rightarrow> \<forall>p. ed_verify ed pub (ed_sign ed priv p) p))"

lemma update_checked:
  assumes "trusts ed r s"
  shows "sender_matches (wire_data (ds_node_id s) (update_data ed F s)) (ds_authority r)"
    and "check_signature ed F (ds_version s) (wire_data (ds_node_id s) (update_data ed F s)) (ds_verifier r) = Inr True"
proof -
  show "sender_matches (wire_data (ds_node_id s) (update_data ed F s)) (ds_authority r)"
    using assms by (simp add: sender_matches_def wire_get update_data_get trusts_def is_authority_def)
  show "check_signature ed F (ds_version s) (wire_data (ds_node_id s) (update_data ed F s)) (ds_verifier r) = Inr True"
    using assms
    by (auto simp: check_signature_def wire_get update_data_get trusts_def verifier_verify_def signer_sign_def
        split: option.splits)
qed

lemma update_applied:
  assumes "trusts ed r s"
  shows "on_update ed F (wire_data (ds_node_id s) (update_data ed F s)) r =
    (if ds_version s \<le> ds_version r then (Inr (), r, [])
     else (Inr (), r\<lparr>ds_version := ds_version s,
       ds_policy := matrix_replace (ms_default_action (matrix_snapshot (ds_policy s)))
         (ms_overrides (matrix_snapshot (ds_policy s))) (ds_policy r),
       ds_pairs := pairs_replace (pairs_snapshot (ds_pairs s)) (ds_pairs r)\<rparr>, []))"
proof -
  have "\<not> is_authority r" using assms by (simp add: trusts_def)
  moreover have "py_int (dict_get (wire_data (ds_node_id s) (update_data ed F s)) ''version'' (JInt 0)) = Inr (ds_version s)"
    by (simp add: wire_get update_data_get py_int_def)
  moreover have "apply_update (ds_version s) (wire_data (ds_node_id s) (update_data ed F s)) r =
    (Inr (), r\<lparr>ds_version := ds_version s,
       ds_policy := matrix_replace (ms_default_action (matrix_snapshot (ds_policy s)))
         (ms_overrides (matrix_snapshot (ds_policy s))) (ds_policy r),
       ds_pairs := pairs_replace (pairs_snapshot (ds_pairs s)) (ds_pairs r)\<rparr>, [])"
    by (simp add: apply_update_def thenA_def bindA_def act_defs wire_get update_data_get on_policy_def on_pairs_def
        matrix_replace_def pairs_replace_def)
  ultimately show ?thesis
    using update_checked [OF assms] by (simp add: on_update_run)
qed

text \<open>A broadcast of the authority brings every node that trusts it and is behind to the
  authority's version and policies: from then on the node admits, for every local policy of its
  own and every message, exactly what the authority's coalition and pair policies admit for it;
  a node that is not behind is left as it is.\<close>

theorem update_converges:
  assumes "trusts ed r s" and "pairs_wf (ds_pairs s)"
  shows "let r' = state_of (on_update ed F (wire_data (ds_node_id s) (update_data ed F s)) r) in
    if ds_version s \<le> ds_version r then r' = r
    else ds_version r' = ds_version s \<and>
      (\<forall>local m. effective_allows local (ds_policy r') (ds_pairs r') m =
         effective_allows local (ds_policy s) ((ds_pairs s)\<lparr>pp_node_id := pp_node_id (ds_pairs r)\<rparr>) m)"
  using snapshot_transfers [OF assms(2)] by (simp add: update_applied [OF assms(1)] Let_def)

text \<open>An authority that restarts begins at version 1 again, whatever version it had
  reached, so every node that holds any of its policies ignores its broadcasts until it has
  counted past the old version.\<close>

theorem restarted_authority_ignored:
  assumes "1 \<le> ds_version r" and "restarted = distributor_init nid policy ps (Some nid) signer verifier"
    and "trusts ed r restarted"
  shows "on_update ed F (wire_data nid (update_data ed F restarted)) r = (Inr (), r, [])"
proof -
  have "ds_version restarted \<le> ds_version r" "ds_node_id restarted = nid"
    using assms(1) by (simp_all add: assms(2) distributor_init_def)
  then show ?thesis using update_applied [OF assms(3), of F] by simp
qed

section \<open>Over the air\<close>

lemma publish_control_Inr:
  assumes "publish_control D kind data s = (Inr (), s', cs)"
  shows "\<exists>fr. to_bytes \<lparr> codec_name = CONTROL_CODEC, security_name = sp_name (d_security D),
      payload = sp_protect (d_security D) (utf8_encode (json_dumps (d_floats D) (control_body (node_id s) kind data))) \<rparr>
      = Inr fr \<and> cs = replicate (repeat s) (Send fr)"
  using assms
  by (auto simp: publish_control_def bindA_def act_defs for_send split: sum.splits if_splits)

lemma sent_frames_copies: "sent_frames (replicate k (Send fr)) = replicate k fr"
  by (induction k) (simp_all add: sent_frames_def)

lemma control_delivered:
  assumes "publish_control D kind data s = (Inr (), s', cs)"
    and "d_security D = psk_security key" and "d_security D' = psk_security key" and "d_floats D' = d_floats D"
    and "plain_json (control_body (node_id s) kind data)"
    and "map_of data ''kind'' = None" and "dict_ok data" and "kind \<in> set (control_kinds r)"
    and "fr \<in> set (sent_frames cs)"
  shows "on_frame D' fr r = (Inr (), r, [Control kind (control_body (node_id s) kind data)])"
proof -
  let ?text = "json_dumps (d_floats D) (control_body (node_id s) kind data)"
  let ?f = "\<lparr> codec_name = CONTROL_CODEC, security_name = ''psk'',
      payload = psk_protect (utf8_encode key) (utf8_encode ?text) \<rparr>"
  have "to_bytes ?f = Inr fr"
    using publish_control_Inr [OF assms(1)] assms(2,9)
    by (auto simp: psk_security_def sent_frames_copies)
  from from_to_bytes [OF this, of "[]"] have f: "from_bytes fr = Inr ?f" by simp
  have "dict_get (dict_update [(''kind'', JStr kind), (''node'', JStr (node_id s))] data) ''kind'' (JStr []) = JStr kind"
    using assms(6,7) by (simp add: dict_get_def map_of_dict_update map_add_def)
  then have "handle_control D' (utf8_encode ?text) r = (Inr (), r, [Control kind (control_body (node_id s) kind data)])"
    using assms(4,5,8) by (simp add: handle_control_def bindA_def act_defs control_body_def)
  then show ?thesis
    using f assms(3) by (simp add: on_frame_def psk_security_def catchA_def)
qed

lemma plain_dict_update:
  assumes "plain_json (JDict d)" and "plain_json (JDict e)"
  shows "plain_json (JDict (dict_update d e))"
proof -
  have "list_all (\<lambda>(k, v). plain_json v) (dict_update d e)"
    if "list_all (\<lambda>(k, v). plain_json v) d" "list_all (\<lambda>(k, v). plain_json v) e" for d
    using that
  proof (induction e arbitrary: d)
    case (Cons p e)
    have "list_all (\<lambda>(k, v). plain_json v) (AList.update (fst p) (snd p) d)"
      using Cons.prems by (cases p) (auto simp: list_all_iff dest!: set_AList_update)
    then show ?case
      using Cons.IH [of "AList.update (fst p) (snd p) d"] Cons.prems
      by (simp add: dict_update_def case_prod_unfold)
  qed (simp add: dict_update_def)
  then show ?thesis using assms by simp
qed

lemma update_data_plain:
  assumes "matrix_wf (ds_policy s)" and "pairs_wf (ds_pairs s)"
  shows "plain_json (JDict (update_data ed F s))"
proof -
  have o: "plain_json (json_of_overrides (ms_overrides (matrix_snapshot (ds_policy s))))"
    using assms(1) by (auto simp: json_of_overrides_def matrix_snapshot_def matrix_wf_def list_all_iff comp_def case_prod_unfold)
  have p: "plain_json (json_of_pairs (pairs_snapshot (ds_pairs s)))"
    using assms(2) by (auto simp: json_of_pairs_def pairs_snapshot_def pairs_wf_def list_all_iff comp_def
        case_prod_unfold distinct_map_filter)
  show ?thesis
    using o p by (simp add: update_data_def Let_def split: option.split)
qed

lemma wire_is_control: "control_body nid KIND (update_data ed F s) = JDict (wire_data nid (update_data ed F s))"
  by (simp add: control_body_def wire_data_def)

lemma update_delivered:
  assumes "publish_control D KIND (update_data ed F a) s = (Inr (), s', cs)"
    and "d_security D = psk_security key" and "d_security D' = psk_security key" and "d_floats D' = d_floats D"
    and "node_id s = ds_node_id a" and "matrix_wf (ds_policy a)" and "pairs_wf (ds_pairs a)"
    and "KIND \<in> set (control_kinds r)" and "fr \<in> set (sent_frames cs)"
  shows "on_frame D' fr r = (Inr (), r, [Control KIND (JDict (wire_data (ds_node_id a) (update_data ed F a)))])"
proof -
  have "plain_json (JDict [(''kind'', JStr KIND), (''node'', JStr (node_id s))])" by simp
  then have "plain_json (control_body (node_id s) KIND (update_data ed F a))"
    unfolding control_body_def by (rule plain_dict_update [OF _ update_data_plain [OF assms(6,7)]])
  from control_delivered [OF assms(1-4) this update_data_get(6) update_data_ok(1) assms(8,9)]
  show ?thesis by (simp only: wire_is_control assms(5))
qed

text \<open>The authority's broadcast arrives: each frame the authority's engine sends for an
  update makes the engine of every node with the same key call its \<open>policyupdate\<close> handler once
  with exactly the object on which that node converges, counting nothing and changing no engine
  state.\<close>

theorem update_reaches_nodes:
  assumes "publish_control (stack_deps C (psk_security key) pol caps F) KIND (update_data ed F a) s
      = (Inr (), s', cs)"
    and "node_id s = ds_node_id a" and "matrix_wf (ds_policy a)" and "pairs_wf (ds_pairs a)"
    and "KIND \<in> set (control_kinds r)" and "fr \<in> set (sent_frames cs)"
  shows "on_frame (stack_deps C' (psk_security key) pol' caps' F) fr r =
    (Inr (), r, [Control KIND (JDict (wire_data (ds_node_id a) (update_data ed F a)))])"
  by (rule update_delivered [OF assms(1) _ _ _ assms(2-6)]) (simp_all add: stack_deps_def)

section \<open>A concrete coalition\<close>

definition demo_ed :: ed25519 where
  "demo_ed = \<lparr> ed_sign = (\<lambda>_ p. p), ed_verify = (\<lambda>_ sig p. sig = p) \<rparr>"

definition demo_authority :: distributor where
  "demo_authority = distributor_init ''hq'' (matrix_init ''COALITION'' ''allow'' [(''x'', False)])
     (pairs_init ''hq'' []) (Some ''hq'') (Some []) None"

definition demo_member :: distributor where
  "demo_member = distributor_init ''n'' (matrix_init ''COALITION'' ''allow'' []) (pairs_init ''n'' [])
     (Some ''hq'') None (Some [])"

lemma demo_trusts: "trusts demo_ed demo_member demo_authority"
  by (simp add: trusts_def demo_ed_def demo_member_def demo_authority_def distributor_init_def is_authority_def)

lemma demo_wf: "matrix_wf (ds_policy demo_authority)" "pairs_wf (ds_pairs demo_authority)"
  by (simp_all add: demo_authority_def distributor_init_def matrix_wf_ops(1) pairs_wf_ops(1))

theorem update_converges_witness:
  "ds_version (state_of (on_update demo_ed (e_floats demo_env)
      (wire_data ''hq'' (update_data demo_ed (e_floats demo_env) demo_authority)) demo_member)) = 1"
proof -
  have v: "ds_version demo_authority = 1" "ds_version demo_member = 0" "ds_node_id demo_authority = ''hq''"
    by (simp_all add: demo_authority_def demo_member_def distributor_init_def)
  show ?thesis
    using update_converges [OF demo_trusts demo_wf(2), of "e_floats demo_env"] by (simp add: v Let_def)
qed

theorem restarted_authority_ignored_witness:
  "on_update demo_ed (e_floats demo_env) (wire_data ''hq'' (update_data demo_ed (e_floats demo_env) demo_authority))
     (demo_member\<lparr>ds_version := 5\<rparr>) = (Inr (), demo_member\<lparr>ds_version := 5\<rparr>, [])"
proof (rule restarted_authority_ignored)
  show "1 \<le> ds_version (demo_member\<lparr>ds_version := 5\<rparr>)" by simp
  show "demo_authority = distributor_init ''hq'' (matrix_init ''COALITION'' ''allow'' [(''x'', False)])
     (pairs_init ''hq'' []) (Some ''hq'') (Some []) None" by (rule demo_authority_def)
  show "trusts demo_ed (demo_member\<lparr>ds_version := 5\<rparr>) demo_authority"
    by (simp add: trusts_def demo_ed_def demo_member_def demo_authority_def distributor_init_def
        is_authority_def)
qed


definition demo_open :: distributor where
  "demo_open = distributor_init ''hq'' (matrix_init ''c'' ''allow'' []) (pairs_init ''hq'' []) (Some ''hq'') None None"

lemma demo_open_short:
  "length (utf8_encode (json_dumps (e_floats demo_env)
     (control_body ''hq'' KIND (update_data demo_ed (e_floats demo_env) demo_open)))) < 200"
  by code_simp

theorem update_reaches_nodes_witness:
  "\<exists>s' cs. publish_control demo_deps KIND (update_data demo_ed (e_floats demo_env) demo_open)
       (engine_init ''hq'' 2 8) = (Inr (), s', cs) \<and>
     (\<forall>fr. fr \<notin> set (sent_frames cs) \<or>
        on_frame demo_deps fr (state_of (on_control KIND (engine_init ''n'' 2 8))) =
        (Inr (), state_of (on_control KIND (engine_init ''n'' 2 8)),
         [Control KIND (JDict (wire_data ''hq'' (update_data demo_ed (e_floats demo_env) demo_open)))]))"
proof -
  let ?s = "engine_init ''hq'' 2 8" and ?r = "state_of (on_control KIND (engine_init ''n'' 2 8))"
  let ?b = "utf8_encode (json_dumps (e_floats demo_env)
      (control_body ''hq'' KIND (update_data demo_ed (e_floats demo_env) demo_open)))"
  let ?f = "\<lparr> codec_name = CONTROL_CODEC, security_name = ''psk'', payload = psk_protect (utf8_encode ''k'') ?b \<rparr>"
  have "frame_ok ?f"
    using demo_open_short by (simp add: frame_ok_def is_ascii_def psk_protect_def TAG_LEN_def CONTROL_CODEC_def)
  then have "to_bytes ?f = Inr (frame_text ?f)" by (simp add: to_bytes_iff)
  then obtain s' cs where p: "publish_control demo_deps KIND (update_data demo_ed (e_floats demo_env) demo_open) ?s
      = (Inr (), s', cs)"
    by (simp add: publish_control_def bindA_def act_defs for_send stack_deps_def psk_security_def engine_init_def)
  have wf: "matrix_wf (ds_policy demo_open)" "pairs_wf (ds_pairs demo_open)"
    by (simp_all add: demo_open_def distributor_init_def matrix_wf_ops(1) pairs_wf_ops(1))
  have id: "ds_node_id demo_open = ''hq''" "node_id ?s = ds_node_id demo_open" "KIND \<in> set (control_kinds ?r)"
    by (simp_all add: demo_open_def distributor_init_def engine_init_def on_control_def modifyA_def)
  show ?thesis
    using p update_reaches_nodes [OF p id(2) wf id(3)] unfolding id(1) by blast
qed

end
