(* ===== verification/AuditLog.thy ===== *)
theory AuditLog
  imports Codec
begin

text \<open>
  \<open>audit.py\<close> and \<open>monitor/telemetry_arrow.py\<close>: the three bounded logs of a node. The message audit
  log, the application log and the telemetry buffer are interpretations of the interface
  \<open>bounded_log\<close> of the prelude, which gives each the same history theorem. Times are in
  microseconds.
\<close>

text \<open>\<open>xs[-limit:]\<close> for any int.\<close>

definition tail_slice :: "int \<Rightarrow> 'a list \<Rightarrow> 'a list" where
  "tail_slice limit xs = (if 0 \<le> limit then last_n (nat limit) xs else drop (nat (- limit)) xs)"

section \<open>The message audit log\<close>

record log_entry =
  le_ts :: int
  le_direction :: string
  le_disposition :: string
  le_reason :: "string option"
  le_type :: "string option"
  le_originator_id :: "string option"
  le_message_id :: "string option"
  le_callsign :: "string option"
  le_classification :: "int option"
  le_releasable_to :: "string option"
  le_network_id :: "string option"
  le_sequence :: "int option"
  le_reporting_time :: "string option"
  le_body :: "(string, json) dict option"

record message_log =
  log_buf :: "log_entry list"
  log_capacity :: nat

definition message_log_init :: "nat \<Rightarrow> message_log" where
  "message_log_init capacity = \<lparr> log_buf = [], log_capacity = capacity \<rparr>"

definition log_record :: "log_entry \<Rightarrow> message_log \<Rightarrow> message_log" where
  "log_record e l = l\<lparr>log_buf := deque_append (log_capacity l) e (log_buf l)\<rparr>"

text \<open>An empty filter text is no filter.\<close>

definition log_recent :: "int \<Rightarrow> string option \<Rightarrow> string option \<Rightarrow> message_log \<Rightarrow> log_entry list" where
  "log_recent limit direction disposition l =
     (let items = log_buf l;
          items = (case direction of Some d \<Rightarrow> if d = [] then items else filter (\<lambda>e. le_direction e = d) items
                   | None \<Rightarrow> items);
          items = (case disposition of Some d \<Rightarrow> if d = [] then items else filter (\<lambda>e. le_disposition e = d) items
                   | None \<Rightarrow> items)
      in tail_slice limit items)"

definition count_key :: "string \<Rightarrow> (string, nat) dict \<Rightarrow> (string, nat) dict" where
  "count_key k c = AList.update k (dict_get c k 0 + 1) c"

definition log_counts :: "message_log \<Rightarrow> (string, nat) dict" where
  "log_counts l = foldl (\<lambda>c e. count_key (le_disposition e) (count_key (le_direction e) c))
     [(''in'', 0), (''out'', 0), (''accepted'', 0), (''rejected'', 0)] (log_buf l)"

definition log_clear :: "message_log \<Rightarrow> nat \<times> message_log" where
  "log_clear l = (length (log_buf l), l\<lparr>log_buf := []\<rparr>)"

interpretation audit_log: bounded_log log_record log_buf log_capacity
  by unfold_locales (simp_all add: log_record_def)

section \<open>The application log\<close>

record app_record =
  ar_ts :: int
  ar_level :: string
  ar_logger :: string
  ar_message :: string

definition APP_CAPACITY :: nat where
  "APP_CAPACITY = 500"

definition app_emit :: "app_record \<Rightarrow> app_record list \<Rightarrow> app_record list" where
  "app_emit r buf = deque_append APP_CAPACITY r buf"

text \<open>\<open>logging.getLevelName\<close> of a level name; of any other text it is a text, which does not compare
  with a number.\<close>

definition level_no :: "string \<Rightarrow> nat option" where
  "level_no s = map_of [(''CRITICAL'', 50), (''FATAL'', 50), (''ERROR'', 40), (''WARN'', 30),
     (''WARNING'', 30), (''INFO'', 20), (''DEBUG'', 10), (''NOTSET'', 0)] s"

definition at_least :: "string \<Rightarrow> string \<Rightarrow> bool result" where
  "at_least level threshold =
     (case (level_no level, level_no threshold) of
        (Some n, Some t) \<Rightarrow> Inr (t \<le> n)
      | (None, None) \<Rightarrow> Inr (''Level '' @ threshold \<le> ''Level '' @ level)
      | _ \<Rightarrow> Inl (PyExn TypeErr ''not supported between instances''))"

fun filterR :: "('a \<Rightarrow> bool result) \<Rightarrow> 'a list \<Rightarrow> 'a list result" where
  "filterR f [] = Inr []"
| "filterR f (x # xs) =
     bindR (f x) (\<lambda>keep. bindR (filterR f xs) (\<lambda>ys. Inr (if keep then x # ys else ys)))"

definition app_log :: "int \<Rightarrow> string option \<Rightarrow> app_record list \<Rightarrow> app_record list result" where
  "app_log limit min_level buf =
     bindR (case min_level of
              Some t \<Rightarrow> if t = [] then Inr buf else filterR (\<lambda>r. at_least (ar_level r) t) buf
            | None \<Rightarrow> Inr buf)
       (\<lambda>items. Inr (tail_slice limit items))"

interpretation app_ring: bounded_log app_emit "\<lambda>buf. buf" "\<lambda>buf. APP_CAPACITY"
  by unfold_locales (simp_all add: app_emit_def)

section \<open>The telemetry buffer\<close>

record telemetry =
  tele_buf :: "message list"
  tele_capacity :: nat

definition telemetry_init :: "nat \<Rightarrow> telemetry" where
  "telemetry_init capacity = \<lparr> tele_buf = [], tele_capacity = capacity \<rparr>"

definition telemetry_add :: "message \<Rightarrow> telemetry \<Rightarrow> telemetry" where
  "telemetry_add m t = t\<lparr>tele_buf := deque_append (tele_capacity t) m (tele_buf t)\<rparr>"

definition telemetry_recent :: "int \<Rightarrow> telemetry \<Rightarrow> message list" where
  "telemetry_recent limit t = tail_slice limit (tele_buf t)"

definition count_by_type :: "telemetry \<Rightarrow> (string, nat) dict" where
  "count_by_type t = foldl (\<lambda>c m. count_key (msg_type m) c) [] (tele_buf t)"

definition telemetry_clear :: "telemetry \<Rightarrow> nat \<times> telemetry" where
  "telemetry_clear t = (length (tele_buf t), t\<lparr>tele_buf := []\<rparr>)"

definition telemetry_len :: "telemetry \<Rightarrow> nat" where
  "telemetry_len t = length (tele_buf t)"

definition to_arrow_ipc :: "codec_env \<Rightarrow> int \<Rightarrow> telemetry \<Rightarrow> bytes result" where
  "to_arrow_ipc E limit t = arrow_encode_batch E (telemetry_recent limit t)"

interpretation tele: bounded_log telemetry_add tele_buf tele_capacity
  by unfold_locales (simp_all add: telemetry_add_def)

section \<open>Counting\<close>

lemma count_key_get: "dict_get (count_key k c) k' 0 = dict_get c k' 0 + (if k' = k then 1 else 0)"
  by (simp add: count_key_def)

lemma fold_count:
  "dict_get (foldl (\<lambda>c x. count_key (f x) c) c xs) k 0 = dict_get c k 0 + length (filter (\<lambda>x. f x = k) xs)"
  by (induction xs arbitrary: c) (auto simp: count_key_get)

lemma fold_count2:
  "dict_get (foldl (\<lambda>c x. count_key (g x) (count_key (f x) c)) c xs) k 0 =
     dict_get c k 0 + length (filter (\<lambda>x. f x = k) xs) + length (filter (\<lambda>x. g x = k) xs)"
  by (induction xs arbitrary: c) (auto simp: count_key_get)

lemma telemetry_decodes:
  "arrow_ok E (telemetry_recent limit t) \<Longrightarrow> to_arrow_ipc E limit t = Inr bs \<Longrightarrow>
   arrow_decode_batch E bs = Inr (telemetry_recent limit t)"
  by (simp add: to_arrow_ipc_def arrow_batch)

text \<open>The bounded logs hold exactly the most recent entries: after any additions to a new
  log of positive capacity, the audit log, the telemetry buffer and the application log are the
  last ones added, oldest first, and the counters of the audit log and of the telemetry count
  those entries.\<close>

theorem bounded_logs_recent:
  "log_buf (fold log_record es (message_log_init (Suc n))) = last_n (Suc n) es \<and>
   tele_buf (fold telemetry_add ms (telemetry_init (Suc n))) = last_n (Suc n) ms \<and>
   fold app_emit rs [] = last_n 500 rs \<and>
   dict_get (log_counts (fold log_record es (message_log_init (Suc n)))) k 0 =
     length (filter (\<lambda>e. le_direction e = k) (last_n (Suc n) es)) +
     length (filter (\<lambda>e. le_disposition e = k) (last_n (Suc n) es)) \<and>
   dict_get (count_by_type (fold telemetry_add ms (telemetry_init (Suc n)))) k 0 =
     length (filter (\<lambda>m. msg_type m = k) (last_n (Suc n) ms))"
proof -
  have a: "log_buf (fold log_record es (message_log_init (Suc n))) = last_n (Suc n) es"
    using audit_log.history_empty [of "message_log_init (Suc n)" es] by (simp add: message_log_init_def)
  moreover have t: "tele_buf (fold telemetry_add ms (telemetry_init (Suc n))) = last_n (Suc n) ms"
    using tele.history_empty [of "telemetry_init (Suc n)" ms] by (simp add: telemetry_init_def)
  moreover have "fold app_emit rs [] = last_n 500 rs"
    using app_ring.history_empty [of "[]" rs] by (simp add: APP_CAPACITY_def)
  moreover have "dict_get [(''in'', 0), (''out'', 0), (''accepted'', 0), (''rejected'', 0)] k 0 = (0 :: nat)"
    "dict_get [] k 0 = (0 :: nat)"
    by (simp_all add: dict_get_def)
  ultimately show ?thesis
    by (simp add: log_counts_def count_by_type_def a t fold_count2 fold_count)
qed

end
