(* ===== verification/Metrics.thy ===== *)
theory Metrics
  imports AuditLog Exchange
begin

text \<open>
  \<open>monitor/metrics.py\<close>: the metrics sink of a gateway: counters, the peers it has heard, the two
  logs, and the live event queues. \<open>sink\<close> connects it to the engine: it is what the calls an
  engine operation makes on its sink do to the metrics, at the time \<open>now\<close> (microseconds).
  The Prometheus client's counters are dictionaries of naturals.
\<close>

record peer =
  p_count :: nat
  p_last_seen :: "int option"
  p_classification :: "int option"
  p_releasable_to :: "string option"
  p_callsign :: "string option"
  p_unit :: "string option"
  p_nation :: "string option"
  p_role :: "string option"

record event =
  ev_direction :: string
  ev_type :: string
  ev_originator_id :: string
  ev_callsign :: "string option"
  ev_message_id :: string
  ev_reporting_time :: string
  ev_classification :: int
  ev_releasable_to :: string
  ev_body :: "(string, json) dict"

record metrics =
  m_node_id :: string
  m_telemetry :: telemetry
  m_audit :: message_log
  m_nodes :: "(string, peer) dict"
  m_queues :: "(nat \<times> event list) list"
  m_max_classification :: int
  m_drops :: "(string, nat) dict"
  m_sent :: "(string, nat) dict"
  m_received :: "(string, nat) dict"
  m_dropped :: "(string, nat) dict"
  m_known_nodes :: nat

definition metrics_init :: "string \<Rightarrow> nat \<Rightarrow> metrics" where
  "metrics_init nid capacity =
     \<lparr> m_node_id = nid, m_telemetry = telemetry_init capacity,
       m_audit = message_log_init (max 1000 capacity), m_nodes = [], m_queues = [],
       m_max_classification = 0, m_drops = [], m_sent = [], m_received = [], m_dropped = [],
       m_known_nodes = 0 \<rparr>"

definition QUEUE_SIZE :: nat where
  "QUEUE_SIZE = 256"

definition COARSE_DROP :: "(string, string) dict" where
  "COARSE_DROP = [(''framing'', ''decode''), (''security'', ''decode''), (''codec'', ''decode'')]"

definition fresh_peer :: peer where
  "fresh_peer = \<lparr> p_count = 0, p_last_seen = None, p_classification = None, p_releasable_to = None,
     p_callsign = None, p_unit = None, p_nation = None, p_role = None \<rparr>"

section \<open>What a message says about its sender\<close>

text \<open>\<open>getattr(body, name, None)\<close> for the identity fields.\<close>

fun body_callsign :: "body \<Rightarrow> string option" where
  "body_callsign (Presence p) = Some (pr_callsign p)"
| "body_callsign (Identification i) = Some (id_callsign i)"
| "body_callsign _ = None"

fun body_unit :: "body \<Rightarrow> string option" where
  "body_unit (Identification i) = Some (id_unit i)"
| "body_unit _ = None"

fun body_nation :: "body \<Rightarrow> string option" where
  "body_nation (Identification i) = Some (id_nation i)"
| "body_nation _ = None"

fun body_role :: "body \<Rightarrow> string option" where
  "body_role (Identification i) = Some (id_role i)"
| "body_role _ = None"

text \<open>\<open>a or b\<close> of two optional texts; an empty text is false.\<close>

definition or_text :: "string option \<Rightarrow> string option \<Rightarrow> string option" where
  "or_text a b = (case a of Some s \<Rightarrow> if s \<noteq> [] then Some s else b | None \<Rightarrow> b)"

definition keep_if :: "string option \<Rightarrow> string option \<Rightarrow> string option" where
  "keep_if value old = or_text value old"

definition peer_of :: "metrics \<Rightarrow> string \<Rightarrow> peer" where
  "peer_of M nid = dict_get (m_nodes M) nid fresh_peer"

definition audit_fields :: "codec_env \<Rightarrow> int \<Rightarrow> string \<Rightarrow> string \<Rightarrow> string option \<Rightarrow> message \<Rightarrow> metrics \<Rightarrow> log_entry" where
  "audit_fields E now dir disp reason m M =
     (let h = header m in
      \<lparr> le_ts = now, le_direction = dir, le_disposition = disp, le_reason = reason,
        le_type = Some (msg_type m), le_originator_id = Some (originator_id h),
        le_message_id = Some (message_id h),
        le_callsign = or_text (body_callsign (body m)) (p_callsign (peer_of M (originator_id h))),
        le_classification = Some (classification h), le_releasable_to = Some (Messages.releasable_to h),
        le_network_id = Some (network_id h), le_sequence = Some (sequence h),
        le_reporting_time = Some (e_iso E (reporting_time h)), le_body = Some (dump_body (body m)) \<rparr>)"

definition blank_entry :: "int \<Rightarrow> string \<Rightarrow> log_entry" where
  "blank_entry now reason =
     \<lparr> le_ts = now, le_direction = ''in'', le_disposition = ''rejected'', le_reason = Some reason,
       le_type = None, le_originator_id = None, le_message_id = None, le_callsign = None,
       le_classification = None, le_releasable_to = None, le_network_id = None, le_sequence = None,
       le_reporting_time = None, le_body = None \<rparr>"

section \<open>Live events\<close>

definition subscribe :: "nat \<Rightarrow> metrics \<Rightarrow> metrics" where
  "subscribe q M = M\<lparr>m_queues := m_queues M @ [(q, [])]\<rparr>"

definition unsubscribe :: "nat \<Rightarrow> metrics \<Rightarrow> metrics" where
  "unsubscribe q M = M\<lparr>m_queues := filter (\<lambda>(i, _). i \<noteq> q) (m_queues M)\<rparr>"

definition put_nowait :: "event \<Rightarrow> nat \<times> event list \<Rightarrow> nat \<times> event list" where
  "put_nowait ev q = (if length (snd q) < QUEUE_SIZE then (fst q, snd q @ [ev]) else q)"

definition emit :: "codec_env \<Rightarrow> string \<Rightarrow> message \<Rightarrow> metrics \<Rightarrow> metrics" where
  "emit E dir m M =
     (let h = header m;
          ev = \<lparr> ev_direction = dir, ev_type = msg_type m, ev_originator_id = originator_id h,
                 ev_callsign = or_text (p_callsign (peer_of M (originator_id h))) (body_callsign (body m)),
                 ev_message_id = message_id h, ev_reporting_time = e_iso E (reporting_time h),
                 ev_classification = classification h, ev_releasable_to = Messages.releasable_to h,
                 ev_body = dump_body (body m) \<rparr>
      in M\<lparr>m_queues := map (put_nowait ev) (m_queues M)\<rparr>)"

section \<open>The sink\<close>

definition node_seen :: "int \<Rightarrow> string \<Rightarrow> metrics \<Rightarrow> metrics" where
  "node_seen now nid M =
     (let nodes = AList.update nid ((peer_of M nid)\<lparr>p_last_seen := Some now\<rparr>) (m_nodes M)
      in M\<lparr>m_nodes := nodes, m_known_nodes := length nodes\<rparr>)"

definition enrich_peer :: "int \<Rightarrow> message \<Rightarrow> metrics \<Rightarrow> metrics" where
  "enrich_peer now m M =
     (let h = header m; b = body m; old = peer_of M (originator_id h);
          new = \<lparr> p_count = p_count old + 1, p_last_seen = Some now,
                  p_classification = Some (classification h),
                  p_releasable_to = Some (Messages.releasable_to h),
                  p_callsign = keep_if (body_callsign b) (p_callsign old),
                  p_unit = keep_if (body_unit b) (p_unit old),
                  p_nation = keep_if (body_nation b) (p_nation old),
                  p_role = keep_if (body_role b) (p_role old) \<rparr>;
          nodes = AList.update (originator_id h) new (m_nodes M)
      in M\<lparr>m_nodes := nodes, m_known_nodes := length nodes,
           m_max_classification := max (m_max_classification M) (classification h)\<rparr>)"

definition record_sent :: "codec_env \<Rightarrow> int \<Rightarrow> message \<Rightarrow> metrics \<Rightarrow> metrics" where
  "record_sent E now m M =
     (let M = M\<lparr>m_sent := count_key (msg_type m) (m_sent M)\<rparr>;
          M = M\<lparr>m_telemetry := telemetry_add m (m_telemetry M)\<rparr>;
          M = M\<lparr>m_audit := log_record (audit_fields E now ''out'' ''accepted'' None m M) (m_audit M)\<rparr>
      in emit E ''sent'' m M)"

definition record_received :: "codec_env \<Rightarrow> int \<Rightarrow> message \<Rightarrow> metrics \<Rightarrow> metrics" where
  "record_received E now m M =
     (let M = M\<lparr>m_received := count_key (msg_type m) (m_received M)\<rparr>;
          M = M\<lparr>m_telemetry := telemetry_add m (m_telemetry M)\<rparr>;
          M = enrich_peer now m M;
          M = M\<lparr>m_audit := log_record (audit_fields E now ''in'' ''accepted'' None m M) (m_audit M)\<rparr>
      in emit E ''received'' m M)"

definition drop_label :: "string \<Rightarrow> string" where
  "drop_label reason = (let first = before CHR '':'' reason in dict_get COARSE_DROP first first)"

definition record_dropped :: "codec_env \<Rightarrow> int \<Rightarrow> string \<Rightarrow> message option \<Rightarrow> metrics \<Rightarrow> metrics" where
  "record_dropped E now reason mo M =
     (let label = drop_label reason;
          M = M\<lparr>m_dropped := count_key label (m_dropped M), m_drops := count_key label (m_drops M)\<rparr>;
          entry = (case mo of None \<Rightarrow> blank_entry now reason
                   | Some m \<Rightarrow> audit_fields E now ''in'' ''rejected'' (Some reason) m M)
      in M\<lparr>m_audit := log_record entry (m_audit M)\<rparr>)"

fun sink :: "codec_env \<Rightarrow> int \<Rightarrow> call \<Rightarrow> metrics \<Rightarrow> metrics" where
  "sink E now (RecordSent m) M = record_sent E now m M"
| "sink E now (RecordReceived m) M = record_received E now m M"
| "sink E now (RecordDropped r mo) M = record_dropped E now r mo M"
| "sink E now (NodeSeen nid) M = node_seen now nid M"
| "sink E now _ M = M"

definition sink_all :: "codec_env \<Rightarrow> int \<Rightarrow> call list \<Rightarrow> metrics \<Rightarrow> metrics" where
  "sink_all E now cs M = fold (sink E now) cs M"

section \<open>Queries\<close>

record peer_view =
  pv_node_id :: string
  pv_callsign :: "string option"
  pv_unit :: "string option"
  pv_nation :: "string option"
  pv_role :: "string option"
  pv_messages :: nat
  pv_classification :: int
  pv_releasable_to :: string
  pv_tenths_ago :: int
  pv_connected :: bool

text \<open>\<open>round(age, 1)\<close> in tenths of a second, ties to even; of the exact age, not of its float.\<close>

definition round_tenth :: "int \<Rightarrow> int" where
  "round_tenth us =
     (let q = us div 100000; r = us mod 100000
      in if r < 50000 then q else if 50000 < r then q + 1 else if even q then q else q + 1)"

definition peer_view :: "int \<Rightarrow> int \<Rightarrow> string \<times> peer \<Rightarrow> peer_view" where
  "peer_view now timeout_s np =
     (let p = snd np;
          age = now - (case p_last_seen p of None \<Rightarrow> 0 | Some t \<Rightarrow> t)
      in \<lparr> pv_node_id = fst np, pv_callsign = p_callsign p, pv_unit = p_unit p, pv_nation = p_nation p,
           pv_role = p_role p, pv_messages = p_count p,
           pv_classification = (case p_classification p of None \<Rightarrow> 0 | Some c \<Rightarrow> c),
           pv_releasable_to = (case p_releasable_to p of None \<Rightarrow> ''ALL'' | Some r \<Rightarrow> r),
           pv_tenths_ago = round_tenth age, pv_connected = (age \<le> timeout_s * 1000000) \<rparr>)"

definition peers :: "int \<Rightarrow> int \<Rightarrow> metrics \<Rightarrow> peer_view list" where
  "peers now timeout_s M = sort_key pv_tenths_ago (map (peer_view now timeout_s) (m_nodes M))"

record metrics_snap =
  sn_node_id :: string
  sn_known_nodes :: "string list"
  sn_counts_by_type :: "(string, nat) dict"
  sn_buffered :: nat
  sn_max_classification_seen :: int
  sn_dropped_by_reason :: "(string, nat) dict"

definition metrics_snapshot :: "metrics \<Rightarrow> metrics_snap" where
  "metrics_snapshot M =
     \<lparr> sn_node_id = m_node_id M, sn_known_nodes = map fst (m_nodes M),
       sn_counts_by_type = count_by_type (m_telemetry M), sn_buffered = telemetry_len (m_telemetry M),
       sn_max_classification_seen = m_max_classification M, sn_dropped_by_reason = m_drops M \<rparr>"

definition subscriber_count :: "metrics \<Rightarrow> nat" where
  "subscriber_count M = length (m_queues M)"

section \<open>The counters agree with the calls\<close>

definition total :: "(string, nat) dict \<Rightarrow> nat" where
  "total d = sum_list (map snd d)"

lemma total_count_key: "dict_ok d \<Longrightarrow> total (count_key k d) = total d + 1"
proof -
  have "sum_list (map snd (AList.update k (dict_get d k 0 + 1) d)) = sum_list (map snd d) + 1"
    if "dict_ok d" for d :: "(string, nat) dict"
    using that by (induction d) (auto simp: dict_get_def)
  then show "dict_ok d \<Longrightarrow> total (count_key k d) = total d + 1"
    by (simp add: total_def count_key_def)
qed

definition metrics_inv :: "metrics \<Rightarrow> bool" where
  "metrics_inv M \<longleftrightarrow> dict_ok (m_nodes M) \<and> m_known_nodes M = length (m_nodes M) \<and>
     dict_ok (m_sent M) \<and> dict_ok (m_received M) \<and> dict_ok (m_dropped M) \<and> m_drops M = m_dropped M \<and>
     (\<forall>q \<in> set (m_queues M). length (snd q) \<le> QUEUE_SIZE)"

lemma metrics_inv_init [inv_intros]: "metrics_inv (metrics_init nid cap)"
  by (simp add: metrics_inv_def metrics_init_def)

lemma put_nowait_len: "length (snd q) \<le> QUEUE_SIZE \<Longrightarrow> length (snd (put_nowait ev q)) \<le> QUEUE_SIZE"
  by (simp add: put_nowait_def)

lemma dict_ok_count_key [simp]: "dict_ok d \<Longrightarrow> dict_ok (count_key k d)"
  by (simp add: count_key_def)

lemma metrics_inv_sink [inv_intros]: "metrics_inv M \<Longrightarrow> metrics_inv (sink E now c M)"
  by (cases c) (auto simp: metrics_inv_def record_sent_def record_received_def record_dropped_def
      node_seen_def enrich_peer_def emit_def Let_def intro: put_nowait_len)

lemma metrics_inv_sinks: "metrics_inv M \<Longrightarrow> metrics_inv (sink_all E now cs M)"
  unfolding sink_all_def by (induction cs arbitrary: M) (simp_all add: metrics_inv_sink)

definition of_received :: "call \<Rightarrow> message list" where
  "of_received c = (case c of RecordReceived m \<Rightarrow> [m] | _ \<Rightarrow> [])"

definition of_dropped :: "call \<Rightarrow> string list" where
  "of_dropped c = (case c of RecordDropped r _ \<Rightarrow> [r] | _ \<Rightarrow> [])"

definition received_msgs :: "call list \<Rightarrow> message list" where
  "received_msgs cs = concat (map of_received cs)"

definition drop_reasons :: "call list \<Rightarrow> string list" where
  "drop_reasons cs = concat (map of_dropped cs)"

lemma sink_one:
  "dict_get (m_drops (sink E now c M)) l 0 =
     dict_get (m_drops M) l 0 + length (filter (\<lambda>r. drop_label r = l) (of_dropped c))"
  "p_count (peer_of (sink E now c M) nid) =
     p_count (peer_of M nid) + length (filter (\<lambda>m. originator_id (header m) = nid) (of_received c))"
  "m_max_classification (sink E now c M) =
     foldl (\<lambda>a m. max a (classification (header m))) (m_max_classification M) (of_received c)"
  by (cases c; simp add: record_sent_def record_received_def record_dropped_def node_seen_def
      enrich_peer_def emit_def Let_def peer_of_def of_dropped_def of_received_def count_key_get)+

text \<open>After any calls of the engine, the drop counter of each coarse reason is the number
  of reported drops with that reason, a peer's message count is the number of messages received
  from it, and the highest classification seen is that of the received messages.\<close>

theorem metrics_count_calls:
  "dict_get (m_drops (sink_all E now cs M)) l 0 =
     dict_get (m_drops M) l 0 + length (filter (\<lambda>r. drop_label r = l) (drop_reasons cs)) \<and>
   p_count (peer_of (sink_all E now cs M) nid) =
     p_count (peer_of M nid) + length (filter (\<lambda>m. originator_id (header m) = nid) (received_msgs cs)) \<and>
   m_max_classification (sink_all E now cs M) =
     foldl (\<lambda>a m. max a (classification (header m))) (m_max_classification M) (received_msgs cs)"
  unfolding sink_all_def drop_reasons_def received_msgs_def
  by (induction cs arbitrary: M) (simp_all add: sink_one foldl_append)

section \<open>Frames and counters\<close>

definition frames_counted :: "metrics \<Rightarrow> nat" where
  "frames_counted M = total (m_received M) + total (m_dropped M)"

lemma frames_counted_sink:
  assumes "metrics_inv M"
  shows "frames_counted (sink E now c M) = frames_counted M + length (filter counts_frame [c])"
  using assms
  by (cases c; simp add: record_sent_def record_received_def record_dropped_def node_seen_def enrich_peer_def
      emit_def Let_def frames_counted_def metrics_inv_def total_count_key counts_frame_def)

lemma frames_counted_sinks:
  "metrics_inv M \<Longrightarrow> frames_counted (sink_all E now cs M) = frames_counted M + length (filter counts_frame cs)"
  unfolding sink_all_def
proof (induction cs arbitrary: M)
  case (Cons c cs)
  then show ?case
    using frames_counted_sink [of M E now c] metrics_inv_sink [of M E now c] by simp
qed simp

text \<open>The Prometheus totals account for the traffic: each inbound frame the engine
  handles raises the sum of all received and dropped counters by exactly one, control frames by
  none, and the metrics stay consistent.\<close>

theorem frame_counted_once:
  assumes "0 < window s" and "metrics_inv M"
  shows "frames_counted (sink_all E now (calls_of (on_frame D raw s)) M) =
      frames_counted M + (if control_frame D raw then 0 else 1) \<and>
    metrics_inv (sink_all E now (calls_of (on_frame D raw s)) M)"
  using frames_counted_sinks [OF assms(2), of E now "calls_of (on_frame D raw s)"]
    accounted_frame [OF assms(1), of D raw] metrics_inv_sinks [OF assms(2)]
  by (simp add: accounted_def)

theorem frame_counted_once_witness:
  "frames_counted (sink_all demo_env 0 (calls_of (on_frame demo_deps [] (engine_init ''a'' 2 8))) (metrics_init ''a'' 10))
    = frames_counted (metrics_init ''a'' 10) + 1"
proof -
  have w: "0 < window (engine_init ''a'' 2 8)" by (simp add: engine_init_def)
  have "\<not> control_frame demo_deps []"
    by (simp add: control_frame_def from_bytes_def slice_def MAGIC_def)
  then show ?thesis
    using frame_counted_once [OF w metrics_inv_init, of demo_env 0 demo_deps "[]" "''a''" 10] by simp
qed

section \<open>The audit log agrees with the counters\<close>

definition rejected_as :: "string \<Rightarrow> log_entry \<Rightarrow> bool" where
  "rejected_as l e \<longleftrightarrow> le_disposition e = ''rejected'' \<and>
     (case le_reason e of None \<Rightarrow> False | Some r \<Rightarrow> drop_label r = l)"

definition audit_agrees :: "metrics \<Rightarrow> bool" where
  "audit_agrees M \<longleftrightarrow>
     (\<forall>l. dict_get (m_drops M) l 0 = length (filter (rejected_as l) (log_buf (m_audit M))))"

definition audit_len :: "metrics \<Rightarrow> nat" where
  "audit_len M = length (log_buf (m_audit M))"

lemma not_rejected [simp]: "\<not> rejected_as l (audit_fields E now d ''accepted'' r m M)"
  by (simp add: rejected_as_def audit_fields_def Let_def)

lemma is_rejected [simp]:
  "rejected_as l (audit_fields E now d ''rejected'' (Some r) m M) \<longleftrightarrow> drop_label r = l"
  "rejected_as l (blank_entry now r) \<longleftrightarrow> drop_label r = l"
  by (simp_all add: rejected_as_def audit_fields_def blank_entry_def Let_def)

lemma log_record_room:
  "length (log_buf l) < log_capacity l \<Longrightarrow> log_buf (log_record e l) = log_buf l @ [e]"
  by (simp add: log_record_def deque_append_def)

lemma log_capacity_record [simp]: "log_capacity (log_record e l) = log_capacity l"
  by (simp add: log_record_def)

lemma audit_step:
  assumes "audit_agrees M" and "audit_len M < log_capacity (m_audit M)"
  shows "audit_agrees (sink E now c M)" and "audit_len (sink E now c M) \<le> Suc (audit_len M)"
    and "log_capacity (m_audit (sink E now c M)) = log_capacity (m_audit M)"
proof -
  note defs = record_sent_def record_received_def record_dropped_def node_seen_def enrich_peer_def emit_def
    Let_def audit_agrees_def audit_len_def
  show "audit_agrees (sink E now c M)" and "audit_len (sink E now c M) \<le> Suc (audit_len M)"
    and "log_capacity (m_audit (sink E now c M)) = log_capacity (m_audit M)"
    using assms
    by (cases c; simp add: defs log_record_room count_key_get split: option.split)+
qed

lemma audit_steps:
  assumes "audit_agrees M" and "audit_len M + length cs \<le> log_capacity (m_audit M)"
  shows "audit_agrees (sink_all E now cs M)"
  using assms unfolding sink_all_def
proof (induction cs arbitrary: M)
  case (Cons c cs)
  then have r: "audit_len M < log_capacity (m_audit M)" by simp
  show ?case
    using Cons audit_step [OF Cons.prems(1) r, of E now c] by simp
qed simp

text \<open>As long as the audit log has not overflowed, it agrees with the drop counters: for
  every coarse reason, the counter is the number of rejected entries whose detailed reason has
  that label.\<close>

theorem audit_agrees_with_counters:
  assumes "length cs \<le> max 1000 cap"
  shows "dict_get (m_drops (sink_all E now cs (metrics_init nid cap))) l 0 =
    length (filter (rejected_as l) (log_buf (m_audit (sink_all E now cs (metrics_init nid cap)))))"
proof -
  have "audit_agrees (metrics_init nid cap)" "audit_len (metrics_init nid cap) = 0"
    "log_capacity (m_audit (metrics_init nid cap)) = max 1000 cap"
    by (simp_all add: audit_agrees_def audit_len_def metrics_init_def message_log_init_def dict_get_def)
  then have "audit_agrees (sink_all E now cs (metrics_init nid cap))"
    using assms by (intro audit_steps) simp_all
  then show ?thesis by (simp add: audit_agrees_def)
qed

theorem audit_agrees_with_counters_witness:
  "dict_get (m_drops (sink_all demo_env 0 [RecordDropped ''security: x'' None] (metrics_init ''a'' 10))) ''decode'' 0 =
    length (filter (rejected_as ''decode'')
      (log_buf (m_audit (sink_all demo_env 0 [RecordDropped ''security: x'' None] (metrics_init ''a'' 10)))))"
  by (rule audit_agrees_with_counters) simp

end
