(* ===== verification/Gossip.thy ===== *)
theory Gossip
  imports Metrics Distributor
begin

text \<open>
  \<open>monitor/gossip.py\<close>: every node broadcasts the row of the connection matrix it sees and keeps the
  latest row of every other node; the matrix is the own row and the remote rows that are not
  stale. Rows and node names are taken from the JSON of the control frame unchecked, so they are
  JSON values here, and the query raises where Python's \<open>dict\<close> and \<open>sorted\<close> do.
\<close>

record remote_row =
  rr_row :: json
  rr_ts :: int

record gossip =
  go_node_id :: string
  go_remote :: "(json, remote_row) dict"
  go_ttl :: rat
  go_interval :: rat
  go_peer_timeout :: int

definition GOSSIP_KIND :: string where
  "GOSSIP_KIND = ''peerdigest''"

definition gossip_init :: "string \<Rightarrow> rat \<Rightarrow> int \<Rightarrow> gossip" where
  "gossip_init nid interval timeout =
     (let iv = max (1 / 100) interval in
      \<lparr> go_node_id = nid, go_remote = [], go_ttl = max 10 (iv * 4), go_interval = iv,
        go_peer_timeout = timeout \<rparr>)"

definition own_row :: "int \<Rightarrow> metrics \<Rightarrow> gossip \<Rightarrow> (string, nat) dict" where
  "own_row now M g = dict_update [] (map (\<lambda>p. (pv_node_id p, pv_messages p)) (peers now (go_peer_timeout g) M))"

definition json_row :: "(string, nat) dict \<Rightarrow> json" where
  "json_row row = JDict (dict_map (\<lambda>n. JInt (int n)) row)"

text \<open>The loop's body: what it publishes.\<close>

definition digest_data :: "int \<Rightarrow> metrics \<Rightarrow> gossip \<Rightarrow> (string, json) dict" where
  "digest_data now M g = [(''row'', json_row (own_row now M g))]"

definition on_digest :: "int \<Rightarrow> (string, json) dict \<Rightarrow> gossip \<Rightarrow> unit result \<times> gossip" where
  "on_digest now data g =
     (let node = dict_get data ''node'' JNull in
      if truthy node \<and> node \<noteq> JStr (go_node_id g) then
        (if hashable node
         then (Inr (), g\<lparr>go_remote := AList.update node
                  \<lparr> rr_row = dict_get data ''row'' (JDict []), rr_ts = now \<rparr> (go_remote g)\<rparr>)
         else (Inl (PyExn TypeErr ''unhashable type''), g))
      else (Inr (), g))"

definition remote_count :: "gossip \<Rightarrow> nat" where
  "remote_count g = length (go_remote g)"

text \<open>\<open>dict(row)\<close> of a JSON value: an object, or a list of pairs.\<close>

fun pair_of_json :: "json \<Rightarrow> (json \<times> json) result" where
  "pair_of_json (JList [k, v]) =
     (if hashable k then Inr (k, v) else Inl (PyExn TypeErr ''unhashable type''))"
| "pair_of_json (JStr [c, d]) = Inr (JStr [c], JStr [d])"
| "pair_of_json (JDict [(k, _), (l, _)]) = Inr (JStr k, JStr l)"
| "pair_of_json _ = Inl (PyExn ValueErr ''dictionary update sequence element'')"

definition row_of_json :: "json \<Rightarrow> (json \<times> json) list result" where
  "row_of_json v = (case v of
     JDict d \<Rightarrow> Inr (map (\<lambda>(k, x). (JStr k, x)) d)
   | JList xs \<Rightarrow> bindR (mapR pair_of_json xs) (\<lambda>ps. Inr (dict_update [] ps))
   | JStr [] \<Rightarrow> Inr []
   | JStr _ \<Rightarrow> Inl (PyExn ValueErr ''dictionary update sequence element'')
   | _ \<Rightarrow> Inl (PyExn TypeErr ''object is not iterable''))"

definition fresh :: "int \<Rightarrow> gossip \<Rightarrow> remote_row \<Rightarrow> bool" where
  "fresh now g r \<longleftrightarrow> of_int (now - rr_ts r) / 1000000 \<le> go_ttl g"

fun fresh_rows :: "int \<Rightarrow> gossip \<Rightarrow> (json, remote_row) dict \<Rightarrow> (json \<times> (json \<times> json) list) list result" where
  "fresh_rows now g [] = Inr []"
| "fresh_rows now g ((n, r) # rs) =
     (if fresh now g r
      then bindR (row_of_json (rr_row r)) (\<lambda>row. bindR (fresh_rows now g rs) (\<lambda>rest. Inr ((n, row) # rest)))
      else fresh_rows now g rs)"

text \<open>\<open>sorted\<close> of the node names; the own name is a text, so every name must be.\<close>

definition names_of :: "json list \<Rightarrow> string list result" where
  "names_of ks = (if list_all (\<lambda>k. case k of JStr _ \<Rightarrow> True | _ \<Rightarrow> False) ks
     then Inr (concat (map (\<lambda>k. case k of JStr s \<Rightarrow> [s] | _ \<Rightarrow> []) ks))
     else Inl (PyExn TypeErr ''not supported between instances''))"

record conn_matrix =
  cm_nodes :: "string list"
  cm_rows :: "(json \<times> (json \<times> json) list) list"

definition matrix :: "int \<Rightarrow> metrics \<Rightarrow> gossip \<Rightarrow> conn_matrix result" where
  "matrix now M g =
     bindR (fresh_rows now g (go_remote g)) (\<lambda>remote.
     let own = map (\<lambda>(k, n). (JStr k, JInt (int n))) (own_row now M g);
         rows = (JStr (go_node_id g), own) # remote
     in bindR (names_of (map fst rows @ concat (map (\<lambda>(n, row). map fst row) rows))) (\<lambda>names.
        Inr \<lparr> cm_nodes = sorted_list_of_set (set names), cm_rows = rows \<rparr>))"

definition gossip_inv :: "gossip \<Rightarrow> bool" where
  "gossip_inv g \<longleftrightarrow> dict_ok (go_remote g) \<and> JStr (go_node_id g) \<notin> fst ` set (go_remote g) \<and> 10 \<le> go_ttl g"

lemma gossip_inv_init [inv_intros]: "gossip_inv (gossip_init nid iv t)"
  by (simp add: gossip_inv_def gossip_init_def Let_def)

lemma gossip_inv_digest [inv_intros]: "gossip_inv g \<Longrightarrow> gossip_inv (snd (on_digest now data g))"
  by (auto simp: gossip_inv_def on_digest_def Let_def image_iff dest: set_AList_update)

text \<open>A remote row as an honest node sends it.\<close>

definition honest_row :: "json \<Rightarrow> bool" where
  "honest_row v \<longleftrightarrow> (\<exists>row :: (string, nat) dict. dict_ok row \<and> v = json_row row)"

definition honest :: "gossip \<Rightarrow> bool" where
  "honest g \<longleftrightarrow> (\<forall>(n, r) \<in> set (go_remote g). (\<exists>s. n = JStr s) \<and> honest_row (rr_row r))"

lemma honest_digest:
  assumes "honest g"
  shows "honest (snd (on_digest now (dict_update [(''kind'', JStr GOSSIP_KIND), (''node'', JStr nid)] (digest_data t M g')) g))"
proof -
  let ?d = "dict_update [(''kind'', JStr GOSSIP_KIND), (''node'', JStr nid)] (digest_data t M g')"
  have row: "dict_get ?d ''row'' (JDict []) = json_row (own_row t M g')" and nd: "dict_get ?d ''node'' JNull = JStr nid"
    by (simp_all add: dict_get_def digest_data_def dict_update_def)
  have "dict_ok (own_row t M g')" by (simp add: own_row_def)
  then have "honest_row (json_row (own_row t M g'))" by (auto simp: honest_row_def)
  then show ?thesis
    using assms unfolding on_digest_def Let_def row nd
    by (auto simp: honest_def hashable_def dest!: set_AList_update)
qed

lemma fresh_rows_honest:
  "(\<forall>(n, r) \<in> set rs. (\<exists>s. n = JStr s) \<and> honest_row (rr_row r)) \<Longrightarrow>
   \<exists>rows. fresh_rows now g rs = Inr rows \<and>
     map fst rows = map fst (filter (\<lambda>(n, r). fresh now g r) rs) \<and>
     (\<forall>(n, row) \<in> set rows. (\<exists>s. n = JStr s) \<and> (\<forall>k \<in> fst ` set row. \<exists>s. k = JStr s))"
proof (induction rs)
  case (Cons p rs)
  obtain n r where p: "p = (n, r)" by (cases p)
  obtain rows where rows: "fresh_rows now g rs = Inr rows"
    "map fst rows = map fst (filter (\<lambda>(n, r). fresh now g r) rs)"
    "\<forall>(n, row) \<in> set rows. (\<exists>s. n = JStr s) \<and> (\<forall>k \<in> fst ` set row. \<exists>s. k = JStr s)"
    using Cons by auto
  obtain row :: "(string, nat) dict" where r: "rr_row r = json_row row" and n: "\<exists>s. n = JStr s"
    using Cons.prems by (auto simp: p honest_row_def)
  have "row_of_json (rr_row r) = Inr (map (\<lambda>(k, x). (JStr k, x)) (dict_map (\<lambda>n. JInt (int n)) row))"
    by (simp add: r row_of_json_def json_row_def)
  then show ?case using rows n by (auto simp: p)
qed simp

lemma names_of_texts: "\<forall>k \<in> set ks. \<exists>s. k = JStr s \<Longrightarrow> \<exists>ns. names_of ks = Inr ns \<and> JStr ` set ns = set ks"
  by (auto simp: names_of_def list_all_iff image_iff split: json.splits)

lemma columns_of:
  "set (concat (map (\<lambda>(n, row). map fst row) rows)) = (\<Union>(n, row) \<in> set rows. fst ` set row)"
  by (induction rows) auto

text \<open>Among nodes that send their own digests, the matrix query always answers: its rows
  are the own row first and then exactly the remote rows received within the time to live, and
  its nodes are all row and column names, sorted and without repetition.\<close>

theorem matrix_of_honest_digests:
  assumes "honest g" and "gossip_inv g"
  shows "\<exists>m. matrix now M g = Inr m \<and>
    map fst (cm_rows m) = JStr (go_node_id g) # map fst (filter (\<lambda>(n, r). fresh now g r) (go_remote g)) \<and>
    distinct (map fst (cm_rows m)) \<and> sorted (cm_nodes m) \<and> distinct (cm_nodes m) \<and>
    JStr ` set (cm_nodes m) = set (map fst (cm_rows m)) \<union> (\<Union>(n, row) \<in> set (cm_rows m). fst ` set row)"
proof -
  let ?own = "map (\<lambda>(k, n). (JStr k, JInt (int n))) (own_row now M g)"
  obtain rows where rows: "fresh_rows now g (go_remote g) = Inr rows"
    "map fst rows = map fst (filter (\<lambda>(n, r). fresh now g r) (go_remote g))"
    "\<forall>(n, row) \<in> set rows. (\<exists>s. n = JStr s) \<and> (\<forall>k \<in> fst ` set row. \<exists>s. k = JStr s)"
    using fresh_rows_honest [of "go_remote g" now g] assms(1) by (auto simp: honest_def)
  let ?rows = "(JStr (go_node_id g), ?own) # rows"
  let ?ks = "map fst ?rows @ concat (map (\<lambda>(n, row). map fst row) ?rows)"
  have "\<forall>k \<in> set ?ks. \<exists>s. k = JStr s"
    using rows(3) by (auto simp: case_prod_unfold)
  from names_of_texts [OF this] obtain ns where ns: "names_of ?ks = Inr ns" "JStr ` set ns = set ?ks" by blast
  let ?m = "\<lparr> cm_nodes = sorted_list_of_set (set ns), cm_rows = ?rows \<rparr>"
  have m: "matrix now M g = Inr ?m"
    using rows(1) ns(1) by (simp add: matrix_def Let_def)
  have d: "distinct (map fst ?rows)"
  proof -
    have "distinct (map fst rows)" "JStr (go_node_id g) \<notin> set (map fst rows)"
      using assms(2) unfolding rows(2) by (auto simp: gossip_inv_def distinct_map_filter)
    then show ?thesis by simp
  qed
  have k: "set ?ks = set (map fst ?rows) \<union> (\<Union>(n, row) \<in> set ?rows. fst ` set row)"
    by (simp only: set_append columns_of)
  have n: "JStr ` set (cm_nodes ?m) = set (map fst ?rows) \<union> (\<Union>(n, row) \<in> set ?rows. fst ` set row)"
    unfolding k [symmetric] ns(2) [symmetric] by simp
  show ?thesis
  proof (intro exI [of _ ?m] conjI)
    show "map fst (cm_rows ?m) = JStr (go_node_id g) # map fst (filter (\<lambda>(n, r). fresh now g r) (go_remote g))"
      using rows(2) by simp
    show "JStr ` set (cm_nodes ?m) = set (map fst (cm_rows ?m)) \<union> (\<Union>(n, row) \<in> set (cm_rows ?m). fst ` set row)"
      using n by (simp only: conn_matrix.simps)
  qed (use m d in simp_all)
qed

theorem matrix_of_honest_digests_witness:
  "\<exists>m. matrix 0 (metrics_init ''a'' 10) (gossip_init ''a'' 2 15) = Inr m \<and> map fst (cm_rows m) = [JStr ''a'']"
proof -
  have "honest (gossip_init ''a'' 2 15)" by (simp add: honest_def gossip_init_def Let_def)
  from matrix_of_honest_digests [OF this gossip_inv_init, of 0 "metrics_init ''a'' 10"]
  show ?thesis by (auto simp: gossip_init_def Let_def)
qed

text \<open>One malformed digest from a member with the key breaks the query for everyone who
  hears it: with a fresh remote row whose node name is no text, or whose row is a number, the
  query raises \<open>TypeError\<close> instead of leaving that row out.\<close>

theorem malformed_digest_breaks_matrix:
  "(\<exists>msg. matrix now M (snd (on_digest now [(''node'', JInt 7)] (gossip_init nid iv timeout))) =
      Inl (PyExn TypeErr msg)) \<and>
   (\<exists>msg. matrix now M (snd (on_digest now [(''node'', JStr (nid @ ''x'')), (''row'', JInt 1)]
      (gossip_init nid iv timeout))) = Inl (PyExn TypeErr msg))"
proof -
  have f: "fresh now (g\<lparr>go_remote := x\<rparr>) \<lparr> rr_row = v, rr_ts = now \<rparr>" if "gossip_inv g" for g x v
    using that by (simp add: fresh_def gossip_inv_def)
  note f = f [OF gossip_inv_init [of nid iv timeout]]
  have r: "go_remote (gossip_init nid iv timeout) = []" "go_node_id (gossip_init nid iv timeout) = nid"
    by (simp_all add: gossip_init_def Let_def)
  show ?thesis
    by (simp add: on_digest_def dict_get_def truthy_def hashable_def matrix_def f r row_of_json_def
        Let_def names_of_def)
qed

end
