(* ===== verification/Access.thy ===== *)
theory Access
  imports Sha256 PyText
begin

text \<open>
  The components a gateway is assembled from before it exchanges anything: address allocation
  (\<open>networkaccess/allocator.py\<close>), the loaned radio (\<open>loanedradio/bearer.py\<close>), the plugin registry
  (\<open>plugins/registry.py\<close>) and the in-process transport (\<open>iem/transport_loopback.py\<close>).
\<close>

section \<open>Addresses\<close>

record allocator =
  subnet_prefix :: "string list"
  mcast_prefix :: "string list"
  base_port :: int

definition allocator_init :: "string \<Rightarrow> string \<Rightarrow> int \<Rightarrow> allocator" where
  "allocator_init mission_subnet multicast_base port =
     \<lparr> subnet_prefix = slice 0 2 (split_on (CHR ''.'') mission_subnet),
       mcast_prefix = slice 0 2 (split_on (CHR ''.'') multicast_base), base_port = port \<rparr>"

definition default_allocator :: allocator where
  "default_allocator = allocator_init ''10.77.0.0/16'' ''239.4.0.0'' 46000"

definition hash16 :: "string \<Rightarrow> nat" where
  "hash16 value = (let d = sha256 (utf8_encode value) in 256 * unat (d ! 0) + unat (d ! 1))"

definition dotted :: "string list \<Rightarrow> nat \<Rightarrow> nat \<Rightarrow> string result" where
  "dotted prefix third fourth =
     (case prefix of
        a # b # _ \<Rightarrow> Inr (a @ ''.'' @ b @ ''.'' @ show_nat third @ ''.'' @ show_nat fourth)
      | _ \<Rightarrow> Inl (PyExn IndexErr ''list index out of range''))"

definition host_octet :: "nat \<Rightarrow> nat" where
  "host_octet low = (let f = (if low = 0 then 1 else low) in if f = 255 then 254 else f)"

definition allocate_unicast :: "allocator \<Rightarrow> string \<Rightarrow> string result" where
  "allocate_unicast A nid =
     (let h = hash16 nid in dotted (subnet_prefix A) (h div 256 mod 256) (host_octet (h mod 256)))"

definition multicast_group :: "allocator \<Rightarrow> string \<Rightarrow> (string \<times> int) result" where
  "multicast_group A network_id =
     (let h = hash16 network_id in
      bindR (dotted (mcast_prefix A) (h div 256 mod 256) (h mod 256)) (\<lambda>grp.
      Inr (grp, base_port A + int (h mod 1000))))"

lemma host_octet_range: "low < 256 \<Longrightarrow> 1 \<le> host_octet low \<and> host_octet low \<le> 254"
  by (simp add: host_octet_def Let_def)

text \<open>With the default subnets, every node gets an address in the mission subnet whose
  host part is neither the network nor the broadcast address, every network a group in the
  administrative range and a port in a block of a thousand, both determined by the id alone; but
  the assignment is not free of collisions: there are different node ids with the same address.\<close>

theorem allocation_in_range:
  "(\<exists>third fourth. allocate_unicast default_allocator nid =
      Inr (''10.77.'' @ show_nat third @ ''.'' @ show_nat fourth) \<and> third \<le> 255 \<and> 1 \<le> fourth \<and> fourth \<le> 254) \<and>
   (\<exists>third fourth port. multicast_group default_allocator net =
      Inr (''239.4.'' @ show_nat third @ ''.'' @ show_nat fourth, port) \<and> third \<le> 255 \<and> fourth \<le> 255 \<and>
      46000 \<le> port \<and> port \<le> 46999) \<and>
   (\<exists>a b. a \<noteq> b \<and> allocate_unicast default_allocator a = allocate_unicast default_allocator b)"
proof -
  have p: "subnet_prefix default_allocator = [''10'', ''77'']" "mcast_prefix default_allocator = [''239'', ''4'']"
    "base_port default_allocator = 46000"
    by (simp_all add: default_allocator_def allocator_init_def slice_def)
  let ?u = "\<lambda>t f. ''10.77.'' @ show_nat t @ ''.'' @ show_nat f"
  have u: "allocate_unicast default_allocator x = Inr (?u (hash16 x div 256 mod 256) (host_octet (hash16 x mod 256)))" for x
    by (simp add: allocate_unicast_def Let_def dotted_def p)
  have r: "1 \<le> host_octet (hash16 x mod 256) \<and> host_octet (hash16 x mod 256) \<le> 254" for x
    by (rule host_octet_range) simp
  have "(hash16 nid div 256) mod 256 < 256" by (rule mod_less_divisor) simp
  then have one: "\<exists>third fourth. allocate_unicast default_allocator nid = Inr (?u third fourth) \<and>
      third \<le> 255 \<and> 1 \<le> fourth \<and> fourth \<le> 254"
    using u [of nid] r [of nid] by (intro exI conjI) auto
  have m: "multicast_group default_allocator net =
    Inr (''239.4.'' @ show_nat (hash16 net div 256 mod 256) @ ''.'' @ show_nat (hash16 net mod 256),
         46000 + int (hash16 net mod 1000))"
    by (simp add: multicast_group_def Let_def dotted_def p)
  have "(hash16 net div 256) mod 256 < 256" "hash16 net mod 256 < 256" "hash16 net mod 1000 < 1000"
    by (rule mod_less_divisor, simp)+
  then have two: "\<exists>third fourth port. multicast_group default_allocator net =
      Inr (''239.4.'' @ show_nat third @ ''.'' @ show_nat fourth, port) \<and> third \<le> 255 \<and> fourth \<le> 255 \<and>
      46000 \<le> port \<and> port \<le> 46999"
    using m by (intro exI conjI) auto
  have "range (allocate_unicast default_allocator) \<subseteq> (\<lambda>(t, f). Inr (?u t f)) ` ({..<256} \<times> {..254})"
    using u r by fastforce
  then have "finite (range (allocate_unicast default_allocator))"
    by (rule finite_subset) simp
  moreover have "infinite (UNIV :: string set)" by (rule infinite_UNIV_listI)
  ultimately have "\<not> inj (allocate_unicast default_allocator)"
    using finite_imageD by blast
  then have three: "\<exists>a b. a \<noteq> b \<and> allocate_unicast default_allocator a = allocate_unicast default_allocator b"
    by (auto simp: inj_def)
  from one two three show ?thesis by blast
qed

section \<open>The loaned radio\<close>

record 't radio =
  radio_id :: string
  rd_transport :: "'t option"
  rd_network :: "string option"

definition radio_init :: "string \<Rightarrow> 't radio" where
  "radio_init rid = \<lparr> radio_id = rid, rd_transport = None, rd_network = None \<rparr>"

definition radio_join :: "(string \<Rightarrow> 't result) \<Rightarrow> string \<Rightarrow> 't radio \<Rightarrow> unit result \<times> 't radio" where
  "radio_join factory network_id r =
     (let r = r\<lparr>rd_network := Some network_id\<rparr> in
      case factory network_id of
        Inl e \<Rightarrow> (Inl e, r)
      | Inr t \<Rightarrow> (Inr (), r\<lparr>rd_transport := Some t\<rparr>))"

definition radio_leave :: "'t radio \<Rightarrow> 't radio" where
  "radio_leave r = r\<lparr>rd_transport := None, rd_network := None\<rparr>"

definition radio_transport :: "'t radio \<Rightarrow> 't result" where
  "radio_transport r =
     (case rd_transport r of
        None \<Rightarrow> Inl (PyExn RuntimeErr (''radio '' @ radio_id r @ '' has not joined a network''))
      | Some t \<Rightarrow> Inr t)"

lemma radio_lifecycle:
  "factory net = Inr t \<Longrightarrow> radio_transport (snd (radio_join factory net r)) = Inr t"
  "\<not> is_ok (radio_transport (radio_leave r))"
  "\<not> is_ok (radio_transport (radio_init rid))"
  by (simp_all add: radio_join_def radio_transport_def radio_leave_def radio_init_def)

section \<open>The plugin registry\<close>

text \<open>An implementation is a value of \<open>'i\<close>; \<open>eps\<close> are the entry points installed under a group, a
  name with what loading it gives.\<close>

definition GROUPS :: "(string, string) dict" where
  "GROUPS = map (\<lambda>g. (g, ''jdssarrow.'' @ g))
     [''codecs'', ''transports'', ''security'', ''bearers'', ''allocators'', ''profiles'', ''policies'']"

record 'i registry =
  reg_cache :: "(string, (string, 'i) dict) dict"
  reg_overrides :: "(string, (string, 'i) dict) dict"

type_synonym 'i eps = "string \<Rightarrow> (string \<times> 'i result) list"

definition registry_init :: "'i registry" where
  "registry_init = \<lparr> reg_cache = [], reg_overrides = [] \<rparr>"

definition register :: "string \<Rightarrow> string \<Rightarrow> 'i \<Rightarrow> 'i registry \<Rightarrow> 'i registry" where
  "register grp name impl R =
     R\<lparr>reg_overrides := AList.update grp
        (AList.update name impl (dict_get (reg_overrides R) grp [])) (reg_overrides R)\<rparr>"

fun load_all :: "(string \<times> 'i result) list \<Rightarrow> (string, 'i) dict \<Rightarrow> (string, 'i) dict result" where
  "load_all [] acc = Inr acc"
| "load_all ((n, r) # eps) acc = bindR r (\<lambda>i. load_all eps (AList.update n i acc))"

definition discover :: "'i eps \<Rightarrow> string \<Rightarrow> 'i registry \<Rightarrow> (string, 'i) dict result \<times> 'i registry" where
  "discover eps grp R =
     (case map_of (reg_cache R) grp of
        Some d \<Rightarrow> (Inr d, R)
      | None \<Rightarrow>
          (case map_of GROUPS grp of
             None \<Rightarrow> (Inl (PyExn PluginErr (''unknown plugin group: '' @ py_repr grp)), R)
           | Some g \<Rightarrow>
               (case load_all (eps g) [] of
                  Inl e \<Rightarrow> (Inl e, R)
                | Inr d \<Rightarrow> (Inr d, R\<lparr>reg_cache := AList.update grp d (reg_cache R)\<rparr>))))"

definition registry_names :: "'i eps \<Rightarrow> string \<Rightarrow> 'i registry \<Rightarrow> string list result \<times> 'i registry" where
  "registry_names eps grp R =
     (case discover eps grp R of
        (Inl e, R') \<Rightarrow> (Inl e, R')
      | (Inr d, R') \<Rightarrow> (Inr (sorted_list_of_set
            (set (map fst d) \<union> set (map fst (dict_get (reg_overrides R') grp [])))), R'))"

fun comma_join_names :: "string list \<Rightarrow> string" where
  "comma_join_names [] = []"
| "comma_join_names [n] = n"
| "comma_join_names (n # m # ns) = n @ '', '' @ comma_join_names (m # ns)"

definition registry_get :: "'i eps \<Rightarrow> string \<Rightarrow> string \<Rightarrow> 'i registry \<Rightarrow> 'i result \<times> 'i registry" where
  "registry_get eps grp name R =
     (case map_of (dict_get (reg_overrides R) grp []) name of
        Some i \<Rightarrow> (Inr i, R)
      | None \<Rightarrow>
          (case discover eps grp R of
             (Inl e, R') \<Rightarrow> (Inl e, R')
           | (Inr d, R') \<Rightarrow>
               (case map_of d name of
                  Some i \<Rightarrow> (Inr i, R')
                | None \<Rightarrow>
                    (case registry_names eps grp R' of
                       (Inl e, R'') \<Rightarrow> (Inl e, R'')
                     | (Inr ns, R'') \<Rightarrow>
                         (Inl (PyExn PluginErr (''no '' @ grp @ '' plugin named '' @ py_repr name @
                            ''; available: '' @ (if ns = [] then ''<none>'' else comma_join_names ns))), R'')))))"

text \<open>What the registry resolves a name to, without its cache.\<close>

definition resolve :: "'i eps \<Rightarrow> (string, (string, 'i) dict) dict \<Rightarrow> string \<Rightarrow> string \<Rightarrow> 'i option" where
  "resolve eps ov grp name =
     (case map_of (dict_get ov grp []) name of
        Some i \<Rightarrow> Some i
      | None \<Rightarrow> (case map_of GROUPS grp of None \<Rightarrow> None
          | Some g \<Rightarrow> (case load_all (eps g) [] of Inl _ \<Rightarrow> None | Inr d \<Rightarrow> map_of d name)))"

definition cache_ok :: "'i eps \<Rightarrow> 'i registry \<Rightarrow> bool" where
  "cache_ok eps R \<longleftrightarrow> (\<forall>g d. map_of (reg_cache R) g = Some d \<longrightarrow>
     (\<exists>grp. map_of GROUPS g = Some grp \<and> load_all (eps grp) [] = Inr d))"

lemma cache_ok_init [inv_intros]: "cache_ok eps registry_init"
  by (simp add: cache_ok_def registry_init_def)

lemma cache_ok_register [inv_intros]: "cache_ok eps R \<Longrightarrow> cache_ok eps (register g n i R)"
  by (simp add: cache_ok_def register_def)

lemma discover_spec:
  assumes "cache_ok eps R"
  shows "cache_ok eps (snd (discover eps g R)) \<and> reg_overrides (snd (discover eps g R)) = reg_overrides R \<and>
    (case fst (discover eps g R) of
       Inr d \<Rightarrow> (\<exists>grp. map_of GROUPS g = Some grp \<and> load_all (eps grp) [] = Inr d)
     | Inl _ \<Rightarrow> map_of GROUPS g = None \<or> (\<exists>grp e. map_of GROUPS g = Some grp \<and> load_all (eps grp) [] = Inl e))"
  using assms by (auto simp: discover_def cache_ok_def split: option.split sum.split)

lemma get_spec:
  assumes "cache_ok eps R"
  shows "cache_ok eps (snd (registry_get eps g n R)) \<and> reg_overrides (snd (registry_get eps g n R)) = reg_overrides R \<and>
    (case fst (registry_get eps g n R) of
       Inr i \<Rightarrow> resolve eps (reg_overrides R) g n = Some i
     | Inl _ \<Rightarrow> resolve eps (reg_overrides R) g n = None)"
proof (cases "map_of (dict_get (reg_overrides R) g []) n")
  case None
  obtain r R' where d: "discover eps g R = (r, R')" by (cases "discover eps g R")
  note s = discover_spec [OF assms, of g, unfolded d fst_conv snd_conv]
  show ?thesis
  proof (cases r)
    case (Inl e)
    then show ?thesis using None d s by (auto simp: registry_get_def resolve_def)
  next
    case (Inr dct)
    obtain r2 R2 where d2: "discover eps g R' = (r2, R2)" by (cases "discover eps g R'")
    have "cache_ok eps R'" using s by simp
    note s2 = discover_spec [OF this, of g, unfolded d2 fst_conv snd_conv]
    show ?thesis
      using None d s d2 s2 Inr by (auto simp: registry_get_def resolve_def registry_names_def split: option.split sum.splits)
  qed
qed (use assms in \<open>simp add: registry_get_def resolve_def\<close>)

text \<open>The registry resolves a name the same way however often it is asked and whatever was
  cached before: a registered override wins over every entry point, registering changes no other
  name, and a name that does not resolve raises without changing what resolves.\<close>

theorem registry_resolution:
  assumes "cache_ok eps R"
  shows "fst (registry_get eps g n (register g n i R)) = Inr i \<and>
    (\<forall>g' n'. (g', n') = (g, n) \<or>
       resolve eps (reg_overrides (register g n i R)) g' n' = resolve eps (reg_overrides R) g' n') \<and>
    (\<forall>g' n'. case fst (registry_get eps g' n' R) of
        Inr j \<Rightarrow> resolve eps (reg_overrides R) g' n' = Some j
      | Inl _ \<Rightarrow> resolve eps (reg_overrides R) g' n' = None) \<and>
    (\<forall>g' n'. cache_ok eps (snd (registry_get eps g' n' R)) \<and> reg_overrides (snd (registry_get eps g' n' R)) = reg_overrides R)"
proof -
  have "fst (registry_get eps g n (register g n i R)) = Inr i"
    by (simp add: registry_get_def register_def)
  moreover have "resolve eps (reg_overrides (register g n i R)) g' n' = resolve eps (reg_overrides R) g' n'"
    if "(g', n') \<noteq> (g, n)" for g' n'
    using that by (auto simp: resolve_def register_def)
  ultimately show ?thesis using get_spec [OF assms] by blast
qed

theorem registry_resolution_witness:
  "fst (registry_get (\<lambda>_. [(''xml'', Inr (1::nat))]) ''codecs'' ''xml'' (register ''codecs'' ''xml'' 2 registry_init)) = Inr 2"
  using registry_resolution [OF cache_ok_init, of "\<lambda>_. [(''xml'', Inr (1::nat))]" "''codecs''" "''xml''" 2] by simp

section \<open>The loopback bus\<close>

text \<open>The transports on a group, by identity; a transport hears every frame sent on its group but
  its own, if it has a handler.\<close>

type_synonym buses = "(string, nat list) dict"

record loopback =
  lb_id :: nat
  lb_group :: string
  lb_handler :: bool
  lb_running :: bool

definition loopback_init :: "nat \<Rightarrow> string \<Rightarrow> loopback" where
  "loopback_init i g = \<lparr> lb_id = i, lb_group = g, lb_handler = False, lb_running = False \<rparr>"

definition loopback_on_receive :: "loopback \<Rightarrow> loopback" where
  "loopback_on_receive t = t\<lparr>lb_handler := True\<rparr>"

definition loopback_start :: "loopback \<Rightarrow> buses \<Rightarrow> loopback \<times> buses" where
  "loopback_start t B =
     (t\<lparr>lb_running := True\<rparr>,
      AList.update (lb_group t) (List.insert (lb_id t) (dict_get B (lb_group t) [])) B)"

definition loopback_stop :: "loopback \<Rightarrow> buses \<Rightarrow> loopback \<times> buses" where
  "loopback_stop t B =
     (t\<lparr>lb_running := False\<rparr>,
      AList.update (lb_group t) (removeAll (lb_id t) (dict_get B (lb_group t) [])) B)"

definition loopback_receivers :: "(nat \<Rightarrow> bool) \<Rightarrow> loopback \<Rightarrow> buses \<Rightarrow> nat list result" where
  "loopback_receivers has_handler t B =
     (if \<not> lb_running t then Inl (PyExn RuntimeErr ''transport not started'')
      else Inr (filter (\<lambda>p. p \<noteq> lb_id t \<and> has_handler p) (dict_get B (lb_group t) [])))"

definition bus_ok :: "buses \<Rightarrow> bool" where
  "bus_ok B \<longleftrightarrow> dict_ok B \<and> (\<forall>(g, ts) \<in> set B. distinct ts)"

lemma bus_get_distinct: "bus_ok B \<Longrightarrow> distinct (dict_get B g [])"
  by (auto simp: bus_ok_def dict_get_def split: option.split dest: map_of_SomeD)

lemma in_update: "(k, v) \<in> set (AList.update k' v' d) \<Longrightarrow> (k, v) = (k', v') \<or> (k, v) \<in> set d"
  by (induction d) (auto split: if_splits)

lemma bus_ok_ops [inv_intros]:
  "bus_ok []"
  "bus_ok B \<Longrightarrow> bus_ok (snd (loopback_start t B))"
  "bus_ok B \<Longrightarrow> bus_ok (snd (loopback_stop t B))"
  using bus_get_distinct [of B "lb_group t"]
  by (auto simp: bus_ok_def loopback_start_def loopback_stop_def distinct_removeAll dest!: in_update)

lemma loopback_reaches_others:
  assumes "bus_ok B" and "loopback_receivers hh t B = Inr ps"
  shows "distinct ps \<and> lb_id t \<notin> set ps"
  using assms bus_get_distinct [of B "lb_group t"] by (auto simp: loopback_receivers_def split: if_splits)

end
