(* ===== verification/Config.thy ===== *)
theory Config
  imports Messages
begin

text \<open>
  \<open>config/models.py\<close>: the configuration of a node, one record per class with its defaults, and the
  field constraints pydantic enforces when a configuration is built (\<open>config_ok\<close>). Environment
  variables are the business of pydantic-settings and not modelled; files are in \<open>ConfigFile\<close>.
\<close>

record node_identity =
  ni_node_id :: string
  ni_callsign :: string
  ni_unit :: string
  ni_nation :: string
  ni_role :: string

definition default_identity :: node_identity where
  "default_identity = \<lparr> ni_node_id = ''node-a'', ni_callsign = ''ALPHA-1'', ni_unit = ''1PL/A/1-501'',
     ni_nation = ''XXX'', ni_role = ''rifleman'' \<rparr>"

record plugin_selection =
  pl_codec :: string
  pl_transport :: string
  pl_security :: string
  pl_bearer :: string
  pl_allocator :: string

definition default_plugins :: plugin_selection where
  "default_plugins = \<lparr> pl_codec = ''xml'', pl_transport = ''udp'', pl_security = ''psk'',
     pl_bearer = ''simulated'', pl_allocator = ''default'' \<rparr>"

record network_config =
  nc_network_id :: string
  nc_multicast_group :: "string option"
  nc_multicast_port :: "int option"
  nc_repeat :: int
  nc_psk :: string

definition default_network :: network_config where
  "default_network = \<lparr> nc_network_id = ''default'', nc_multicast_group = None, nc_multicast_port = None,
     nc_repeat = 2, nc_psk = ''jdss-coalition-key'' \<rparr>"

record classification_config =
  cc_level :: int
  cc_releasable_to :: string

definition default_classification :: classification_config where
  "default_classification = \<lparr> cc_level = 0, cc_releasable_to = ''ALL'' \<rparr>"

record connections_config =
  co_policy :: string
  co_default_action :: string
  co_blocked :: "string list"
  co_allowed :: "string list"
  co_policy_authority :: "string option"
  co_coalition_default_action :: string
  co_coalition_blocked :: "string list"
  co_coalition_allowed :: "string list"
  co_authority_public_key :: "string option"
  co_authority_private_key :: "string option"

definition default_connections :: connections_config where
  "default_connections = \<lparr> co_policy = ''matrix'', co_default_action = ''allow'', co_blocked = [],
     co_allowed = [], co_policy_authority = None, co_coalition_default_action = ''allow'',
     co_coalition_blocked = [], co_coalition_allowed = [], co_authority_public_key = None,
     co_authority_private_key = None \<rparr>"

record capabilities_config =
  cp_receive :: "(string, bool) dict"
  cp_emit :: "(string, bool) dict"

record server_connection =
  sv_id :: string
  sv_name :: string
  sv_host :: string
  sv_port :: int
  sv_tls :: bool
  sv_verify :: bool
  sv_client_cert :: "string option"
  sv_client_key :: "string option"
  sv_cacert :: "string option"
  sv_enabled :: bool

definition default_server :: "string \<Rightarrow> server_connection" where
  "default_server sid = \<lparr> sv_id = sid, sv_name = [], sv_host = ''127.0.0.1'', sv_port = 8089, sv_tls = False,
     sv_verify = True, sv_client_cert = None, sv_client_key = None, sv_cacert = None, sv_enabled = True \<rparr>"

record eud_server_config =
  eu_enabled :: bool
  eu_host :: string
  eu_port :: int
  eu_advertised_host :: "string option"

definition default_eud_server :: eud_server_config where
  "default_eud_server = \<lparr> eu_enabled = False, eu_host = ''0.0.0.0'', eu_port = 8087,
     eu_advertised_host = None \<rparr>"

record gossip_config =
  gc_enabled :: bool
  gc_interval_s :: rat

record web_config =
  wc_host :: string
  wc_port :: int
  wc_telemetry_capacity :: int
  wc_peer_timeout_s :: int

record gateway_config =
  cfg_identity :: node_identity
  cfg_plugins :: plugin_selection
  cfg_network :: network_config
  cfg_classification :: classification_config
  cfg_connections :: connections_config
  cfg_capabilities :: capabilities_config
  cfg_gossip :: gossip_config
  cfg_web :: web_config
  cfg_servers :: "server_connection list"
  cfg_eud_server :: eud_server_config

definition default_gossip :: gossip_config where
  "default_gossip = \<lparr> gc_enabled = True, gc_interval_s = 2 \<rparr>"

definition default_web :: web_config where
  "default_web = \<lparr> wc_host = ''0.0.0.0'', wc_port = 8000, wc_telemetry_capacity = 1000, wc_peer_timeout_s = 15 \<rparr>"

definition default_config :: gateway_config where
  "default_config = \<lparr> cfg_identity = default_identity, cfg_plugins = default_plugins,
     cfg_network = default_network, cfg_classification = default_classification,
     cfg_connections = default_connections, cfg_capabilities = \<lparr> cp_receive = [], cp_emit = [] \<rparr>,
     cfg_gossip = default_gossip, cfg_web = default_web, cfg_servers = [],
     cfg_eud_server = default_eud_server \<rparr>"

text \<open>The \<open>Field(ge=..., le=...)\<close> constraints.\<close>

definition network_ok :: "network_config \<Rightarrow> bool" where
  "network_ok n \<longleftrightarrow> in_range 1 8 (nc_repeat n)"

definition classification_ok :: "classification_config \<Rightarrow> bool" where
  "classification_ok c \<longleftrightarrow> in_range 0 3 (cc_level c)"

definition server_ok :: "server_connection \<Rightarrow> bool" where
  "server_ok s \<longleftrightarrow> in_range 1 65535 (sv_port s)"

definition eud_server_ok :: "eud_server_config \<Rightarrow> bool" where
  "eud_server_ok e \<longleftrightarrow> in_range 1 65535 (eu_port e)"

definition config_ok :: "gateway_config \<Rightarrow> bool" where
  "config_ok c \<longleftrightarrow> network_ok (cfg_network c) \<and> classification_ok (cfg_classification c) \<and>
     list_all server_ok (cfg_servers c) \<and> eud_server_ok (cfg_eud_server c)"

definition own_id :: "gateway_config \<Rightarrow> string" where
  "own_id c = ni_node_id (cfg_identity c)"

lemma default_config_ok: "config_ok default_config"
  by (simp add: config_ok_def network_ok_def classification_ok_def eud_server_ok_def in_range_def
      default_config_def default_network_def default_classification_def default_eud_server_def)

end
