(* ===== verification/Gateway.thy ===== *)
theory Gateway
  imports Config Gossip Access
begin

text \<open>
  \<open>gateway/gateway.py\<close>: the composition root, and \<open>gateway/node.py\<close>, the soldier's view of it. The
  record \<open>gateway\<close> holds what the object holds; the coalition policy and the pair policy are shared
  with the distributor, so they live here and a distributor operation runs on the shared values
  (\<open>on_dist\<close>). An engine operation runs on the engine with its collaborators as they are at that
  moment, and its calls reach the metrics and, for control messages, the gossip and distributor
  handlers. \<open>world\<close> is what is outside: the libraries, the clock, and whether the transport starts.
\<close>

section \<open>State\<close>

datatype transport = UdpTransport string int | LoopbackTransport string

record world =
  w_env :: codec_env
  w_ed :: ed25519
  w_now :: int
  w_transport_start :: "unit result"

record gateway =
  gw_config :: gateway_config
  gw_group :: string
  gw_port :: int
  gw_codec :: codec
  gw_security :: security_provider
  gw_local :: "matrix_policy option"
  gw_coalition :: matrix_policy
  gw_pairs :: pair_policy
  gw_caps :: capabilities
  gw_metrics :: metrics
  gw_radio :: "transport radio"
  gw_engine :: "engine option"
  gw_up :: bool
  gw_pending :: "handler list"
  gw_gossip :: "gossip option"
  gw_dist :: "distributor option"
  gw_started_at :: "int option"

type_synonym 'a gact = "(gateway, call, 'a) act"

section \<open>Construction\<close>

text \<open>The entry points the package declares; a plugin group's implementations are built through the
  registry, which raises for any other name.\<close>

definition codec_eps :: "codec_env \<Rightarrow> codec eps" where
  "codec_eps E g = (if g = ''jdssarrow.codecs''
     then [(''xml'', Inr (xml_codec E)), (''json'', Inr (json_codec E)), (''arrow'', Inr (arrow_codec E))] else [])"

definition security_eps :: "(string \<Rightarrow> security_provider) eps" where
  "security_eps g = (if g = ''jdssarrow.security''
     then [(''null'', Inr (\<lambda>_. null_security)), (''psk'', Inr psk_security)] else [])"

definition allocator_eps :: "allocator eps" where
  "allocator_eps g = (if g = ''jdssarrow.allocators'' then [(''default'', Inr default_allocator)] else [])"

definition bearer_eps :: "(string \<Rightarrow> transport radio) eps" where
  "bearer_eps g = (if g = ''jdssarrow.bearers'' then [(''simulated'', Inr radio_init)] else [])"

definition transport_eps :: "(string \<Rightarrow> int \<Rightarrow> transport) eps" where
  "transport_eps g = (if g = ''jdssarrow.transports''
     then [(''loopback'', Inr (\<lambda>gr p. LoopbackTransport gr)), (''udp'', Inr UdpTransport)] else [])"

definition create :: "'i eps \<Rightarrow> string \<Rightarrow> string \<Rightarrow> 'i result" where
  "create eps grp name = fst (registry_get eps grp name registry_init)"

definition resolve_endpoint :: "allocator \<Rightarrow> network_config \<Rightarrow> (string \<times> int) result" where
  "resolve_endpoint A net =
     (case (nc_multicast_group net, nc_multicast_port net) of
        (Some g, Some p) \<Rightarrow> if g \<noteq> [] \<and> p \<noteq> 0 then Inr (g, p) else multicast_group A (nc_network_id net)
      | _ \<Rightarrow> multicast_group A (nc_network_id net))"

definition overrides_of :: "string list \<Rightarrow> string list \<Rightarrow> (string, bool) dict" where
  "overrides_of blocked allowed =
     dict_update (dict_update [] (map (\<lambda>p. (p, False)) blocked)) (map (\<lambda>p. (p, True)) allowed)"

definition build_policy :: "gateway_config \<Rightarrow> matrix_policy option" where
  "build_policy cfg =
     (let c = cfg_connections cfg in
      if co_policy c = ''allow_all'' then None
      else Some (matrix_init (own_id cfg) (co_default_action c) (overrides_of (co_blocked c) (co_allowed c))))"

definition cfg_is_authority :: "gateway_config \<Rightarrow> bool" where
  "cfg_is_authority cfg \<longleftrightarrow> co_policy_authority (cfg_connections cfg) = Some (own_id cfg)"

definition build_coalition_policy :: "gateway_config \<Rightarrow> matrix_policy" where
  "build_coalition_policy cfg =
     (let c = cfg_connections cfg in
      if cfg_is_authority cfg
      then matrix_init ''COALITION'' (co_coalition_default_action c)
             (overrides_of (co_coalition_blocked c) (co_coalition_allowed c))
      else matrix_init ''COALITION'' ''allow'' [])"

definition build_security :: "gateway_config \<Rightarrow> security_provider result" where
  "build_security cfg =
     bindR (create security_eps ''security'' (pl_security (cfg_plugins cfg)))
       (\<lambda>provider. Inr (provider (nc_psk (cfg_network cfg))))"

definition transport_factory :: "gateway_config \<Rightarrow> string \<Rightarrow> int \<Rightarrow> string \<Rightarrow> transport result" where
  "transport_factory cfg grp port net_id =
     bindR (create transport_eps ''transports'' (pl_transport (cfg_plugins cfg))) (\<lambda>t. Inr (t grp port))"

definition gateway_init :: "world \<Rightarrow> gateway_config \<Rightarrow> gateway result" where
  "gateway_init W cfg =
     bindR (create allocator_eps ''allocators'' (pl_allocator (cfg_plugins cfg))) (\<lambda>A.
     bindR (resolve_endpoint A (cfg_network cfg)) (\<lambda>(grp, port).
     bindR (build_security cfg) (\<lambda>sec.
     bindR (create (codec_eps (w_env W)) ''codecs'' (pl_codec (cfg_plugins cfg))) (\<lambda>codec.
     bindR (create bearer_eps ''bearers'' (pl_bearer (cfg_plugins cfg))) (\<lambda>bearer.
     Inr \<lparr> gw_config = cfg, gw_group = grp, gw_port = port, gw_codec = codec, gw_security = sec,
           gw_local = build_policy cfg, gw_coalition = build_coalition_policy cfg,
           gw_pairs = pairs_init (own_id cfg) [],
           gw_caps = capabilities_init (cp_receive (cfg_capabilities cfg)) (cp_emit (cfg_capabilities cfg)),
           gw_metrics = metrics_init (own_id cfg) (nat (wc_telemetry_capacity (cfg_web cfg))),
           gw_radio = bearer (own_id cfg), gw_engine = None, gw_up = False, gw_pending = [],
           gw_gossip = None, gw_dist = None, gw_started_at = None \<rparr>)))))"

section \<open>Running the parts\<close>

definition gw_allows :: "gateway \<Rightarrow> message \<Rightarrow> bool" where
  "gw_allows g = effective_allows (gw_local g) (gw_coalition g) (gw_pairs g)"

definition deps_of :: "world \<Rightarrow> gateway \<Rightarrow> deps" where
  "deps_of W g =
     \<lparr> d_codec = gw_codec g, d_security = gw_security g, d_policy = Some (gw_allows g),
       d_caps = Some (can_receive (gw_caps g)), d_up = gw_up g, d_floats = e_floats (w_env W) \<rparr>"

definition on_engine :: "world \<Rightarrow> (deps \<Rightarrow> 'a eact) \<Rightarrow> 'a gact" where
  "on_engine W m g =
     (case gw_engine g of
        None \<Rightarrow> (Inl (PyExn RuntimeErr ''gateway not started''), g, [])
      | Some e \<Rightarrow>
          (case m (deps_of W g) e of
             (r, e', cs) \<Rightarrow>
               (r, g\<lparr>gw_engine := Some e', gw_metrics := sink_all (w_env W) (w_now W) cs (gw_metrics g)\<rparr>, cs)))"

definition shared_view :: "gateway \<Rightarrow> distributor \<Rightarrow> distributor" where
  "shared_view g d = d\<lparr>ds_policy := gw_coalition g, ds_pairs := gw_pairs g\<rparr>"

definition put_dist :: "distributor \<Rightarrow> gateway \<Rightarrow> gateway" where
  "put_dist d g = g\<lparr>gw_dist := Some d, gw_coalition := ds_policy d, gw_pairs := ds_pairs d\<rparr>"

fun send_update :: "world \<Rightarrow> dcall \<Rightarrow> unit gact" where
  "send_update W (PublishControl kind data) = on_engine W (\<lambda>D. publish_control D kind data)"

definition on_dist :: "world \<Rightarrow> distributor \<Rightarrow> unit dact \<Rightarrow> unit gact" where
  "on_dist W d m g =
     (case m (shared_view g d) of
        (r, d', cs) \<Rightarrow> thenA (forA cs (send_update W)) (liftA r) (put_dist d' g))"

section \<open>Life cycle\<close>

definition AUTO_WINDOW :: nat where
  "AUTO_WINDOW = 4096"

definition parse_key :: "string \<Rightarrow> bytes result" where
  "parse_key hex =
     (case from_hex hex of
        None \<Rightarrow> Inl (PyExn ValueErr ''non-hexadecimal number found in fromhex() arg'')
      | Some k \<Rightarrow> if length k = 32 then Inr k
                  else Inl (PyExn ValueErr ''An Ed25519 key is 32 bytes long''))"

definition opt_key :: "bool \<Rightarrow> string option \<Rightarrow> bytes option result" where
  "opt_key wanted key =
     (case key of
        Some k \<Rightarrow> if wanted \<and> k \<noteq> [] then bindR (parse_key k) (\<lambda>b. Inr (Some b)) else Inr None
      | None \<Rightarrow> Inr None)"

definition start_engine :: "world \<Rightarrow> unit gact" where
  "start_engine W = modifyA (\<lambda>g.
     let nid = own_id (gw_config g);
         e = engine_init nid (nc_repeat (cfg_network (gw_config g))) AUTO_WINDOW
     in g\<lparr>gw_engine := Some (e\<lparr>handlers := gw_pending g\<rparr>)\<rparr>)"

definition attach :: "string \<Rightarrow> unit gact" where
  "attach kind = modifyA (\<lambda>g. g\<lparr>gw_engine := map_option (\<lambda>e. state_of (on_control kind e)) (gw_engine g)\<rparr>)"

definition start_gossip :: "unit gact" where
  "start_gossip = bindA (getA gw_config) (\<lambda>cfg.
     if gc_enabled (cfg_gossip cfg)
     then thenA (modifyA (\<lambda>g. g\<lparr>gw_gossip := Some (gossip_init (own_id cfg) (gc_interval_s (cfg_gossip cfg))
            (wc_peer_timeout_s (cfg_web cfg)))\<rparr>)) (attach GOSSIP_KIND)
     else retA ())"

definition start_dist :: "unit gact" where
  "start_dist = bindA (getA gw_config) (\<lambda>cfg.
     let c = cfg_connections cfg in
     if co_policy_authority c = None then retA ()
     else
       bindA (liftA (opt_key (cfg_is_authority cfg) (co_authority_private_key c))) (\<lambda>signer.
       bindA (liftA (opt_key True (co_authority_public_key c))) (\<lambda>verifier.
       thenA (modifyA (\<lambda>g. g\<lparr>gw_dist := Some (distributor_init (own_id cfg) (gw_coalition g) (gw_pairs g)
                (co_policy_authority c) signer verifier)\<rparr>)) (attach KIND))))"

definition gw_join :: "unit gact" where
  "gw_join g =
     (case radio_join (transport_factory (gw_config g) (gw_group g) (gw_port g))
             (nc_network_id (cfg_network (gw_config g))) (gw_radio g) of
        (r, rad) \<Rightarrow> (r, g\<lparr>gw_radio := rad\<rparr>, []))"

definition gw_start :: "world \<Rightarrow> unit gact" where
  "gw_start W =
     thenA gw_join (thenA (start_engine W) (thenA start_gossip (thenA start_dist (
     thenA (liftA (w_transport_start W)) (
     modifyA (\<lambda>g. g\<lparr>gw_up := True, gw_started_at := Some (w_now W)\<rparr>))))))"

definition gw_stop :: "unit gact" where
  "gw_stop = modifyA (\<lambda>g. g\<lparr>gw_dist := None, gw_gossip := None, gw_engine := None, gw_up := False,
     gw_radio := radio_leave (gw_radio g), gw_started_at := None\<rparr>)"

section \<open>Traffic\<close>

definition gw_add_handler :: "handler \<Rightarrow> unit gact" where
  "gw_add_handler h = modifyA (\<lambda>g.
     case gw_engine g of
       None \<Rightarrow> g\<lparr>gw_pending := gw_pending g @ [h]\<rparr>
     | Some e \<Rightarrow> g\<lparr>gw_engine := Some (state_of (add_handler h e))\<rparr>)"

text \<open>The defaults of a header: a new id \<open>mid\<close>, the current time, sequence number 0.\<close>

definition gw_header :: "world \<Rightarrow> string \<Rightarrow> gateway \<Rightarrow> header result" where
  "gw_header W mid g =
     (let cfg = gw_config g in
      mk_header mid (own_id cfg) (nc_network_id (cfg_network cfg)) (w_now W) 0
        (cc_level (cfg_classification cfg)) (cc_releasable_to (cfg_classification cfg)))"

definition gw_publish :: "world \<Rightarrow> string \<Rightarrow> body \<Rightarrow> message gact" where
  "gw_publish W mid b =
     bindA (getA (gw_header W mid)) (\<lambda>hr.
     bindA (liftA hr) (\<lambda>h.
     let m = \<lparr> header = h, body = b \<rparr> in
     bindA (getA (\<lambda>g. can_emit (gw_caps g) (msg_type m))) (\<lambda>allowed.
     if allowed then on_engine W (\<lambda>D. publish D m)
     else raiseA (PyExn CapabilityErr (''emitting '' @ msg_type m @ '' is disabled on this node'')))))"

definition gw_ingest :: "world \<Rightarrow> message \<Rightarrow> unit gact" where
  "gw_ingest W m = on_engine W (\<lambda>D. relay_from_bridge D m)"

text \<open>What the control handlers attached to the engine do; the engine swallows what they raise.\<close>

fun handle_call :: "world \<Rightarrow> call \<Rightarrow> gateway \<Rightarrow> gateway" where
  "handle_call W (Control kind (JDict data)) g =
     (if kind = KIND then
        (case gw_dist g of None \<Rightarrow> g
         | Some d \<Rightarrow> put_dist (state_of (on_update (w_ed W) (e_floats (w_env W)) data (shared_view g d))) g)
      else if kind = GOSSIP_KIND then
        (case gw_gossip g of None \<Rightarrow> g
         | Some go \<Rightarrow> g\<lparr>gw_gossip := Some (snd (on_digest (w_now W) data go))\<rparr>)
      else g)"
| "handle_call W _ g = g"

definition gw_on_frame :: "world \<Rightarrow> bytes \<Rightarrow> unit gact" where
  "gw_on_frame W raw g =
     (case on_engine W (\<lambda>D. on_frame D raw) g of
        (r, g', cs) \<Rightarrow> (r, fold (handle_call W) cs g', cs))"

record purged =
  pu_audit_log :: nat
  pu_telemetry :: nat
  pu_dedup_cache :: "nat option"

definition purge_messages :: "gateway \<Rightarrow> purged \<times> gateway" where
  "purge_messages g =
     (let (na, a) = log_clear (m_audit (gw_metrics g));
          (nt, t) = telemetry_clear (m_telemetry (gw_metrics g));
          g1 = g\<lparr>gw_metrics := (gw_metrics g)\<lparr>m_audit := a, m_telemetry := t\<rparr>\<rparr>
      in case gw_engine g of
           None \<Rightarrow> (\<lparr> pu_audit_log = na, pu_telemetry = nt, pu_dedup_cache = None \<rparr>, g1)
         | Some e \<Rightarrow> (\<lparr> pu_audit_log = na, pu_telemetry = nt, pu_dedup_cache = Some (card (seen e)) \<rparr>,
             g1\<lparr>gw_engine := Some (state_of (clear_dedup e))\<rparr>))"

section \<open>Queries\<close>

definition gw_running :: "gateway \<Rightarrow> bool" where
  "gw_running g \<longleftrightarrow> gw_engine g \<noteq> None"

definition gw_uptime :: "int \<Rightarrow> gateway \<Rightarrow> int" where
  "gw_uptime now g = (case gw_started_at g of None \<Rightarrow> 0 | Some t \<Rightarrow> now - t)"

definition gw_peers :: "int \<Rightarrow> gateway \<Rightarrow> peer_view list" where
  "gw_peers now g = peers now (wc_peer_timeout_s (cfg_web (gw_config g))) (gw_metrics g)"

definition gw_message_log :: "int \<Rightarrow> string option \<Rightarrow> string option \<Rightarrow> gateway \<Rightarrow> log_entry list" where
  "gw_message_log limit dir disp g = log_recent limit dir disp (m_audit (gw_metrics g))"

record policy_view =
  po_node_id :: string
  po_default_action :: string
  po_overrides :: "(string, string) dict"

definition connection_policy_view :: "gateway \<Rightarrow> policy_view" where
  "connection_policy_view g =
     (case gw_local g of
        None \<Rightarrow> \<lparr> po_node_id = own_id (gw_config g), po_default_action = ''allow'', po_overrides = [] \<rparr>
      | Some p \<Rightarrow> \<lparr> po_node_id = mp_node_id p, po_default_action = ms_default_action (matrix_snapshot p),
                   po_overrides = ms_overrides (matrix_snapshot p) \<rparr>)"

record coalition_view =
  qv_default_action :: string
  qv_overrides :: "(string, string) dict"
  qv_authority_id :: "string option"
  qv_am_authority :: bool
  qv_version :: int
  qv_enabled :: bool
  qv_signed :: bool
  qv_pairs :: "(string, string list) dict"

definition coalition_snapshot :: "gateway \<Rightarrow> coalition_view" where
  "coalition_snapshot g =
     (let cfg = gw_config g; c = cfg_connections cfg; snap = matrix_snapshot (gw_coalition g) in
      \<lparr> qv_default_action = ms_default_action snap, qv_overrides = ms_overrides snap,
        qv_authority_id = co_policy_authority c, qv_am_authority = cfg_is_authority cfg,
        qv_version = (case gw_dist g of Some d \<Rightarrow> ds_version d | None \<Rightarrow> if cfg_is_authority cfg then 1 else 0),
        qv_enabled = (co_policy_authority c \<noteq> None),
        qv_signed = (case gw_dist g of Some d \<Rightarrow> ds_verifier d \<noteq> None
                     | None \<Rightarrow> co_authority_public_key c \<noteq> None),
        qv_pairs = pairs_snapshot (gw_pairs g) \<rparr>)"

definition connection_matrix :: "int \<Rightarrow> gateway \<Rightarrow> (conn_matrix \<times> policy_view \<times> coalition_view) result" where
  "connection_matrix now g =
     bindR (case gw_gossip g of
              Some go \<Rightarrow> matrix now (gw_metrics g) go
            | None \<Rightarrow>
                (let nid = own_id (gw_config g);
                     own = dict_update [] (map (\<lambda>p. (pv_node_id p, pv_messages p)) (gw_peers now g))
                 in Inr \<lparr> cm_nodes = sorted_list_of_set (insert nid (set (map fst own))),
                          cm_rows = [(JStr nid, map (\<lambda>(k, n). (JStr k, JInt (int n))) own)] \<rparr>))
       (\<lambda>m. Inr (m, connection_policy_view g, coalition_snapshot g))"

record health_view =
  he_status :: string
  he_node_id :: string
  he_uptime_tenths :: int
  he_transport :: string
  he_codec :: string
  he_security :: string
  he_repeat :: int
  he_telemetry_buffered :: nat
  he_ws_subscribers :: nat
  he_dropped_rejected :: nat
  he_dropped_by_policy :: nat
  he_dropped_by_capability :: nat
  he_policy :: string
  he_policy_authority :: "string option"
  he_is_policy_authority :: bool
  he_coalition_version :: int
  he_gossip_remote_rows :: nat
  he_classification :: int
  he_releasable_to :: string

definition gw_health :: "int \<Rightarrow> gateway \<Rightarrow> health_view" where
  "gw_health now g =
     (let cfg = gw_config g; M = gw_metrics g in
      \<lparr> he_status = (if gw_running g then ''ok'' else ''stopped''), he_node_id = own_id cfg,
        he_uptime_tenths = round_tenth (gw_uptime now g), he_transport = pl_transport (cfg_plugins cfg),
        he_codec = pl_codec (cfg_plugins cfg), he_security = pl_security (cfg_plugins cfg),
        he_repeat = nc_repeat (cfg_network cfg), he_telemetry_buffered = telemetry_len (m_telemetry M),
        he_ws_subscribers = subscriber_count M, he_dropped_rejected = dict_get (m_drops M) ''decode'' 0,
        he_dropped_by_policy = dict_get (m_drops M) ''policy'' 0,
        he_dropped_by_capability = dict_get (m_drops M) ''capability'' 0,
        he_policy = (case gw_local g of None \<Rightarrow> ''allow_all'' | Some _ \<Rightarrow> ''matrix''),
        he_policy_authority = co_policy_authority (cfg_connections cfg),
        he_is_policy_authority = (case gw_dist g of None \<Rightarrow> False | Some d \<Rightarrow> is_authority d),
        he_coalition_version = (case gw_dist g of None \<Rightarrow> 0 | Some d \<Rightarrow> ds_version d),
        he_gossip_remote_rows = (case gw_gossip g of None \<Rightarrow> 0 | Some go \<Rightarrow> remote_count go),
        he_classification = cc_level (cfg_classification cfg),
        he_releasable_to = cc_releasable_to (cfg_classification cfg) \<rparr>)"

section \<open>Management\<close>

definition on_local :: "(matrix_policy \<Rightarrow> matrix_policy) \<Rightarrow> policy_view gact" where
  "on_local f = thenA (modifyA (\<lambda>g. g\<lparr>gw_local := map_option f (gw_local g)\<rparr>)) (getA connection_policy_view)"

definition block_peer :: "string \<Rightarrow> policy_view gact" where
  "block_peer peer = on_local (matrix_block peer)"

definition allow_peer :: "string \<Rightarrow> policy_view gact" where
  "allow_peer peer = on_local (matrix_allow peer)"

definition reset_peer :: "string \<Rightarrow> policy_view gact" where
  "reset_peer peer = on_local (matrix_reset peer)"

definition gw_set_capability :: "string \<Rightarrow> string \<Rightarrow> bool \<Rightarrow>
    (string list \<times> (string, bool) dict \<times> (string, bool) dict) gact" where
  "gw_set_capability t d a =
     thenA (modifyA (\<lambda>g. g\<lparr>gw_caps := set_capability t d a (gw_caps g)\<rparr>))
       (getA (\<lambda>g. capability_snapshot (gw_caps g)))"

definition require_dist :: "distributor gact" where
  "require_dist = bindA (getA gw_dist) (\<lambda>d.
     case d of None \<Rightarrow> raiseA (PyExn PermissionErr ''coalition policy distribution is not enabled'')
     | Some d \<Rightarrow> retA d)"

definition coalition_set :: "world \<Rightarrow> string \<Rightarrow> string \<Rightarrow> coalition_view gact" where
  "coalition_set W peer action =
     bindA require_dist (\<lambda>d.
     let ed = w_ed W; F = e_floats (w_env W) in
     thenA (if action = ''block'' then on_dist W d (dist_block ed F peer)
            else if action = ''allow'' then on_dist W d (dist_allow ed F peer)
            else if action = ''reset'' then on_dist W d (dist_reset ed F peer)
            else raiseA (PyExn ValueErr ''action must be allow, block or reset''))
       (getA coalition_snapshot))"

definition coalition_set_pair :: "world \<Rightarrow> string \<Rightarrow> string \<Rightarrow> string \<Rightarrow> coalition_view gact" where
  "coalition_set_pair W observer originator action =
     bindA require_dist (\<lambda>d.
     let ed = w_ed W; F = e_floats (w_env W) in
     thenA (if action = ''block'' then on_dist W d (dist_block_pair ed F observer originator)
            else if action = ''allow'' \<or> action = ''reset''
            then on_dist W d (dist_allow_pair ed F observer originator)
            else raiseA (PyExn ValueErr ''action must be block, allow or reset''))
       (getA coalition_snapshot))"

section \<open>The soldier node\<close>

definition node_identify :: "world \<Rightarrow> string \<Rightarrow> message gact" where
  "node_identify W mid =
     bindA (getA (\<lambda>g. cfg_identity (gw_config g))) (\<lambda>i.
     gw_publish W mid (Identification (mk_identification (ni_callsign i) (ni_unit i) (Some (ni_role i))
       (Some (ni_nation i)) None)))"

definition node_presence :: "world \<Rightarrow> string \<Rightarrow> rat \<Rightarrow> rat \<Rightarrow> int option \<Rightarrow> message gact" where
  "node_presence W mid lat lon battery =
     bindA (liftA (mk_location lat lon None)) (\<lambda>loc.
     bindA (getA (\<lambda>g. ni_callsign (cfg_identity (gw_config g)))) (\<lambda>cs.
     bindA (liftA (mk_presence loc cs battery None None None)) (\<lambda>p.
     gw_publish W mid (Presence p))))"

definition node_report_contact :: "world \<Rightarrow> string \<Rightarrow> rat \<Rightarrow> rat \<Rightarrow> string \<Rightarrow> standard_identity \<Rightarrow> message gact" where
  "node_report_contact W mid lat lon description identity =
     bindA (liftA (mk_location lat lon None)) (\<lambda>loc.
     bindA (liftA (mk_contact loc identity PRESENT description None None None None)) (\<lambda>c.
     gw_publish W mid (ContactSighting c)))"

definition node_request_casevac :: "world \<Rightarrow> string \<Rightarrow> rat \<Rightarrow> rat \<Rightarrow> int \<Rightarrow> int \<Rightarrow> message gact" where
  "node_request_casevac W mid lat lon urgent priority =
     bindA (liftA (mk_location lat lon None)) (\<lambda>loc.
     gw_publish W mid (CasevacRequest \<lparr> cv_location = loc, cv_patients_urgent = urgent,
       cv_patients_priority = priority, cv_patients_routine = 0, cv_special_equipment = ''none'',
       cv_security_at_pickup = ''no_enemy'', cv_sidc = sidc ''casualty'' FRIEND None PRESENT \<rparr>))"

definition node_chat :: "world \<Rightarrow> string \<Rightarrow> string \<Rightarrow> string \<Rightarrow> message gact" where
  "node_chat W mid text recipient = gw_publish W mid (ChatMessage \<lparr> ch_text = text, ch_recipient = recipient \<rparr>)"

section \<open>The invariant\<close>

definition eng_ok :: "string \<Rightarrow> engine \<Rightarrow> bool" where
  "eng_ok n e \<longleftrightarrow> node_id e = n \<and> window e = AUTO_WINDOW \<and> dedup_inv e"

definition dist_ok :: "string \<Rightarrow> string option \<Rightarrow> distributor \<Rightarrow> bool" where
  "dist_ok n a d \<longleftrightarrow> ds_node_id d = n \<and> ds_authority d = a \<and> pp_node_id (ds_pairs d) = n"

definition gw_inv :: "gateway \<Rightarrow> bool" where
  "gw_inv g \<longleftrightarrow>
     opt_all (eng_ok (own_id (gw_config g))) (gw_engine g) \<and> metrics_inv (gw_metrics g) \<and>
     pp_node_id (gw_pairs g) = own_id (gw_config g) \<and>
     opt_all (\<lambda>d. ds_node_id d = own_id (gw_config g) \<and>
       ds_authority d = co_policy_authority (cfg_connections (gw_config g))) (gw_dist g) \<and>
     opt_all (\<lambda>go. gossip_inv go \<and> go_node_id go = own_id (gw_config g)) (gw_gossip g)"

lemma opt_all_simps [simp]: "opt_all P None" "opt_all P (Some x) = P x"
  by (simp_all add: opt_all_def)

lemma opt_all_map [simp]: "opt_all P (map_option f v) = opt_all (\<lambda>x. P (f x)) v"
  by (cases v) simp_all

lemma opt_all_mono: "opt_all P v \<Longrightarrow> (\<And>x. P x \<Longrightarrow> Q x) \<Longrightarrow> opt_all Q v"
  by (cases v) simp_all

lemma keeps_engine_ops:
  assumes "\<And>s n. I s \<Longrightarrow> I (s\<lparr>seq := n\<rparr>)" and "\<And>m. keeps I (remember m)"
  shows "keeps I (transmit D m)" and "keeps I (on_frame D raw)" and "keeps I (publish D m)"
    and "keeps I (relay_from_bridge D m)"
proof -
  show t: "keeps I (transmit D m)" for m
    unfolding transmit_def Let_def
    by (intro keeps_then keeps_bind keeps_for keeps_send keeps_basic keeps_modify assms)
  have "keeps I (if dup then callA c else thenA (remember m) (deliver_local m))" for dup c m
    using assms(2) by (cases dup) (simp_all add: keeps_basic keeps_then keeps_deliver)
  then have "keeps I (receive_message D m)" for m
    unfolding receive_message_def by (simp add: keeps_reject keeps_bind keeps_basic)
  then show "keeps I (on_frame D raw)"
    unfolding on_frame_def
    by (auto intro!: keeps_reject keeps_catch keeps_handle_control keeps_basic split: sum.split)
  show "keeps I (publish D m)" "keeps I (relay_from_bridge D m)"
    unfolding publish_def relay_from_bridge_def by (intro keeps_bind keeps_then keeps_basic keeps_deliver t)+
qed

lemma eng_ok_remember: "keeps (eng_ok n) (remember m)"
proof -
  have "node_id (state_of (remember m s)) = node_id s \<and> window (state_of (remember m s)) = window s" for s
    by (simp add: remember_def Let_def)
  then show ?thesis
    using keepsD [OF keeps_remember] by (auto simp: keeps_def eng_ok_def)
qed

lemma eng_ok_seq: "eng_ok n s \<Longrightarrow> eng_ok n (s\<lparr>seq := k\<rparr>)"
  by (simp add: eng_ok_def dedup_inv_def)

lemmas eng_ok_ops = keeps_engine_ops [OF eng_ok_seq eng_ok_remember]

lemma eng_ok_simple:
  "eng_ok n (engine_init n rep AUTO_WINDOW)"
  "eng_ok n e \<Longrightarrow> eng_ok n (e\<lparr>handlers := hs\<rparr>)"
  "eng_ok n e \<Longrightarrow> eng_ok n (state_of (add_handler h e))"
  "eng_ok n e \<Longrightarrow> eng_ok n (state_of (on_control k e))"
  "eng_ok n e \<Longrightarrow> eng_ok n (state_of (clear_dedup e))"
  by (simp_all add: eng_ok_def dedup_inv_def engine_init_def add_handler_def on_control_def clear_dedup_def
      thenA_def bindA_def act_defs AUTO_WINDOW_def)

lemma dist_ok_op:
  assumes "\<And>d. dist_ok n a d \<Longrightarrow> dist_ok n a (change d)"
  shows "keeps (dist_ok n a) (authority_op ed F change)"
proof -
  have "dist_ok n a d \<Longrightarrow> dist_ok n a ((change d)\<lparr>ds_version := v\<rparr>)" for d v
    using assms [of d] by (simp add: dist_ok_def)
  then show ?thesis by (simp add: keeps_def authority_op_run Let_def)
qed

lemma pairs_id [simp]:
  "pp_node_id (pairs_block a b p) = pp_node_id p" "pp_node_id (pairs_allow a b p) = pp_node_id p"
  by (simp_all add: pairs_block_def pairs_allow_def split: option.split)

lemma dist_ok_change:
  "dist_ok n a d \<Longrightarrow> dist_ok n a (on_policy f d)"
  "dist_ok n a d \<Longrightarrow> dist_ok n a (on_pairs (pairs_block x y) d)"
  "dist_ok n a d \<Longrightarrow> dist_ok n a (on_pairs (pairs_allow x y) d)"
  by (simp_all add: dist_ok_def on_policy_def on_pairs_def)

lemma dist_ok_ops:
  "keeps (dist_ok n a) (dist_block ed F p)" "keeps (dist_ok n a) (dist_allow ed F p)"
  "keeps (dist_ok n a) (dist_reset ed F p)" "keeps (dist_ok n a) (dist_block_pair ed F x y)"
  "keeps (dist_ok n a) (dist_allow_pair ed F x y)"
  unfolding dist_block_def dist_allow_def dist_reset_def dist_block_pair_def dist_allow_pair_def
  by (rule dist_ok_op, erule dist_ok_change)+

lemma dist_ok_apply: "keeps (dist_ok n a) (apply_update v data)"
  unfolding apply_update_def
  by (intro keeps_then keeps_bind keeps_basic keeps_modify)
     (simp_all add: dist_ok_def on_policy_def on_pairs_def)

lemma dist_ok_update: "keeps (dist_ok n a) (on_update ed F data)"
  using dist_ok_apply [of n a _ data]
  by (simp add: keeps_def on_update_run split: sum.split)

lemma keeps_on_engine:
  assumes "\<And>D n. keeps (eng_ok n) (m D)"
  shows "keeps gw_inv (on_engine W m)"
proof -
  have "gw_inv (state_of (on_engine W m g))" if i: "gw_inv g" for g
  proof (cases "gw_engine g")
    case (Some e)
    obtain r e' cs where run: "m (deps_of W g) e = (r, e', cs)" by (cases "m (deps_of W g) e")
    have "eng_ok (own_id (gw_config g)) e" using i Some by (simp add: gw_inv_def)
    from keepsD [OF assms this, of "deps_of W g"] have "eng_ok (own_id (gw_config g)) e'" by (simp add: run)
    then show ?thesis
      using i Some run metrics_inv_sinks by (simp add: on_engine_def gw_inv_def)
  qed (use i in \<open>simp add: on_engine_def\<close>)
  then show ?thesis by (simp add: keeps_def)
qed

lemma gw_inv_put:
  assumes "gw_inv g" and "dist_ok (own_id (gw_config g)) (co_policy_authority (cfg_connections (gw_config g))) d"
  shows "gw_inv (put_dist d g)"
  using assms by (simp add: gw_inv_def put_dist_def dist_ok_def)

lemma shared_ok:
  assumes "gw_inv g" and "gw_dist g = Some d"
  shows "dist_ok (own_id (gw_config g)) (co_policy_authority (cfg_connections (gw_config g))) (shared_view g d)"
  using assms by (simp add: gw_inv_def shared_view_def dist_ok_def)

lemma keeps_send_update: "keeps gw_inv (send_update W c)"
  by (cases c) (auto intro!: keeps_on_engine keeps_publish_control)

lemma on_dist_inv:
  assumes "gw_inv g" and "gw_dist g = Some d" and "\<And>n a. keeps (dist_ok n a) m"
  shows "gw_inv (state_of (on_dist W d m g))"
proof -
  obtain r d' cs where run: "m (shared_view g d) = (r, d', cs)" by (cases "m (shared_view g d)")
  from keepsD [OF assms(3) shared_ok [OF assms(1,2)]] have "gw_inv (put_dist d' g)" by (intro gw_inv_put assms(1)) (simp add: run)
  moreover have "keeps gw_inv (thenA (forA cs (send_update W)) (liftA r))"
    by (intro keeps_then keeps_for keeps_send_update keeps_basic)
  ultimately show ?thesis by (simp add: on_dist_def run keepsD)
qed

lemma keeps_gw_modify:
  assumes "\<And>g. gw_config (f g) = gw_config g \<and> gw_engine (f g) = gw_engine g \<and> gw_metrics (f g) = gw_metrics g \<and>
    gw_pairs (f g) = gw_pairs g \<and> gw_dist (f g) = gw_dist g \<and> gw_gossip (f g) = gw_gossip g"
  shows "keeps gw_inv (modifyA f)"
  using assms by (intro keeps_modify) (simp add: gw_inv_def)

lemma keeps_attach: "keeps gw_inv (attach kind)"
  unfolding attach_def
  by (intro keeps_modify) (auto simp: gw_inv_def eng_ok_simple elim: opt_all_mono)

lemma gossip_init_id [simp]: "go_node_id (gossip_init n iv t) = n"
  by (simp add: gossip_init_def Let_def)

lemma gw_inv_start_gossip: "keeps gw_inv start_gossip"
proof -
  have "keeps gw_inv (thenA (modifyA (\<lambda>g. g\<lparr>gw_gossip := Some (gossip_init (own_id (gw_config g)) iv t)\<rparr>)) (attach k))" for iv t k
    by (intro keeps_then keeps_attach keeps_modify)
       (simp add: gw_inv_def gossip_inv_init gossip_init_id)
  then show ?thesis
    by (auto simp: keeps_def start_gossip_def thenA_def bindA_parts act_defs)
qed

lemma gw_inv_new_dist:
  "gw_inv g \<Longrightarrow> gw_inv (g\<lparr>gw_dist := Some (distributor_init (own_id (gw_config g)) (gw_coalition g) (gw_pairs g)
      (co_policy_authority (cfg_connections (gw_config g))) sg vf)\<rparr>)"
  by (simp add: gw_inv_def distributor_init_def)

lemma gw_inv_start_dist: "keeps gw_inv start_dist"
proof -
  have "gw_inv (state_of (start_dist g))" if i: "gw_inv g" for g
    using i keepsD [OF keeps_attach gw_inv_new_dist [OF i]]
    by (simp add: start_dist_def thenA_def bindA_parts act_defs Let_def split: sum.split)
  then show ?thesis by (simp add: keeps_def)
qed

lemma keeps_gw_start: "keeps gw_inv (gw_start W)"
proof -
  have "keeps gw_inv gw_join"
    by (simp add: keeps_def gw_join_def gw_inv_def split: prod.split)
  moreover have "keeps gw_inv (start_engine W)"
    unfolding start_engine_def
    by (intro keeps_modify) (simp add: gw_inv_def eng_ok_simple)
  ultimately show ?thesis
    unfolding gw_start_def
    by (intro keeps_then keeps_basic gw_inv_start_gossip gw_inv_start_dist keeps_gw_modify) simp_all
qed

lemma keeps_gw_stop: "keeps gw_inv gw_stop"
  unfolding gw_stop_def by (intro keeps_modify) (simp add: gw_inv_def)

lemma keeps_gw_publish: "keeps gw_inv (gw_publish W mid b)"
proof -
  have "keeps gw_inv (if ok then on_engine W (\<lambda>D. publish D m) else raiseA e)" for ok m e
    by (cases ok) (simp_all add: keeps_basic keeps_on_engine eng_ok_ops)
  then show ?thesis
    unfolding gw_publish_def Let_def by (intro keeps_bind keeps_basic)
qed

lemma keeps_gw_ingest: "keeps gw_inv (gw_ingest W m)"
  unfolding gw_ingest_def by (intro keeps_on_engine eng_ok_ops)

lemma gw_inv_control:
  assumes "gw_inv g"
  shows "gw_inv (handle_call W c g)"
proof (cases "(W, c, g)" rule: handle_call.cases)
  case (1 W kind data g)
  have "gw_inv (put_dist (state_of (on_update ed F data (shared_view g d))) g)" if "gw_dist g = Some d" for d ed F
    using keepsD [OF dist_ok_update shared_ok] assms 1 that by (intro gw_inv_put) simp_all
  moreover have "gw_inv (g\<lparr>gw_gossip := Some (snd (on_digest now data go))\<rparr>)" if "gw_gossip g = Some go" for go now
    using assms 1 that gossip_inv_digest [of go now data]
    by (simp add: gw_inv_def on_digest_def Let_def)
  ultimately show ?thesis using 1 assms by (simp split: option.split)
qed (use assms in simp_all)

lemma gw_inv_controls: "gw_inv g \<Longrightarrow> gw_inv (fold (handle_call W) cs g)"
  by (induction cs arbitrary: g) (simp_all add: gw_inv_control)

lemma gw_on_frame_state:
  "state_of (gw_on_frame W raw g) =
     fold (handle_call W) (calls_of (on_engine W (\<lambda>D. on_frame D raw) g)) (state_of (on_engine W (\<lambda>D. on_frame D raw) g))"
  "calls_of (gw_on_frame W raw g) = calls_of (on_engine W (\<lambda>D. on_frame D raw) g)"
  by (simp_all add: gw_on_frame_def state_of_def calls_of_def case_prod_unfold)

lemma keeps_gw_on_frame: "keeps gw_inv (gw_on_frame W raw)"
proof -
  have k: "keeps gw_inv (on_engine W (\<lambda>D. on_frame D raw))" by (intro keeps_on_engine eng_ok_ops)
  show ?thesis
    unfolding keeps_def gw_on_frame_state using gw_inv_controls keepsD [OF k] by blast
qed

lemma coalition_inv:
  assumes "\<And>d n a. keeps (dist_ok n a) (m d)"
  shows "keeps gw_inv (bindA require_dist (\<lambda>d. thenA (on_dist W d (m d)) (getA coalition_snapshot)))"
proof -
  have "gw_inv (state_of (bindA require_dist (\<lambda>d. thenA (on_dist W d (m d)) (getA coalition_snapshot)) g))"
    if i: "gw_inv g" for g
  proof (cases "gw_dist g")
    case (Some d)
    have "gw_inv (state_of (on_dist W d (m d) g))" by (rule on_dist_inv [OF i Some assms])
    then have "gw_inv (state_of (thenA (on_dist W d (m d)) (getA coalition_snapshot) g))"
      by (simp add: thenA_def bindA_parts act_defs split: sum.split)
    then show ?thesis using Some by (simp add: require_dist_def bindA_parts act_defs)
  qed (use i in \<open>simp add: require_dist_def bindA_parts act_defs\<close>)
  then show ?thesis by (simp add: keeps_def)
qed

lemma coalition_inv_raise:
  "keeps gw_inv (bindA require_dist (\<lambda>d. thenA (raiseA e) (getA coalition_snapshot)))"
  unfolding require_dist_def
  by (intro keeps_bind keeps_then keeps_basic) (simp add: keeps_basic split: option.split)

lemma keeps_coalition_ops:
  "keeps gw_inv (coalition_set W peer action)" "keeps gw_inv (coalition_set_pair W x y action)"
  unfolding coalition_set_def coalition_set_pair_def Let_def
  by (cases "action = ''block''"; cases "action = ''allow''"; cases "action = ''reset''";
      simp add: coalition_inv coalition_inv_raise dist_ok_ops)+

lemma metrics_inv_buffers: "metrics_inv M \<Longrightarrow> metrics_inv (M\<lparr>m_audit := a, m_telemetry := t\<rparr>)"
  by (simp add: metrics_inv_def)

lemma gw_inv_purge: "gw_inv g \<Longrightarrow> gw_inv (snd (purge_messages g))"
  by (cases "gw_engine g")
     (simp_all add: purge_messages_def gw_inv_def log_clear_def telemetry_clear_def Let_def
       metrics_inv_buffers eng_ok_simple)

lemma keeps_local: "keeps gw_inv (on_local f)"
  unfolding on_local_def by (intro keeps_then keeps_basic keeps_gw_modify) simp

lemma keeps_set_cap: "keeps gw_inv (gw_set_capability t d a)"
  unfolding gw_set_capability_def by (intro keeps_then keeps_basic keeps_gw_modify) simp

lemma keeps_gw_handler: "keeps gw_inv (gw_add_handler h)"
  unfolding gw_add_handler_def
  by (intro keeps_modify) (auto simp: gw_inv_def eng_ok_simple split: option.split)

text \<open>Everything an application, the network or an operator can do to a gateway.\<close>

datatype gateway_op =
    GStart world | GStop | GFrame world bytes | GPublish world string body | GIngest world message
  | GHandler handler | GBlock string | GAllow string | GReset string | GCapability string string bool
  | GCoalition world string string | GPair world string string string | GPurge

fun run_gw :: "gateway_op \<Rightarrow> gateway \<Rightarrow> gateway" where
  "run_gw (GStart W) g = state_of (gw_start W g)"
| "run_gw GStop g = state_of (gw_stop g)"
| "run_gw (GFrame W raw) g = state_of (gw_on_frame W raw g)"
| "run_gw (GPublish W mid b) g = state_of (gw_publish W mid b g)"
| "run_gw (GIngest W m) g = state_of (gw_ingest W m g)"
| "run_gw (GHandler h) g = state_of (gw_add_handler h g)"
| "run_gw (GBlock p) g = state_of (block_peer p g)"
| "run_gw (GAllow p) g = state_of (allow_peer p g)"
| "run_gw (GReset p) g = state_of (reset_peer p g)"
| "run_gw (GCapability t d a) g = state_of (gw_set_capability t d a g)"
| "run_gw (GCoalition W p a) g = state_of (coalition_set W p a g)"
| "run_gw (GPair W x y a) g = state_of (coalition_set_pair W x y a g)"
| "run_gw GPurge g = snd (purge_messages g)"

lemma gw_inv_op: "gw_inv g \<Longrightarrow> gw_inv (run_gw op g)"
  using keepsD [OF keeps_local]
  by (cases op) (simp_all add: keepsD keeps_gw_start keeps_gw_stop keeps_gw_on_frame keeps_gw_publish
      keeps_gw_ingest keeps_gw_handler keeps_set_cap keeps_coalition_ops gw_inv_purge block_peer_def
      allow_peer_def reset_peer_def)

lemma gw_inv_ops: "gw_inv g \<Longrightarrow> gw_inv (fold run_gw ops g)"
  by (induction ops arbitrary: g) (simp_all add: gw_inv_op)

lemma gw_inv_init: "gateway_init W cfg = Inr g \<Longrightarrow> gw_inv g"
  by (auto simp: gateway_init_def bindR_Inr_iff gw_inv_def metrics_inv_init pairs_init_def
      split: prod.splits)

text \<open>Property C9: whatever a gateway built from a configuration is made to do, its engine keeps the
  gateway's identity and a consistent duplicate cache of the constructed window, its metrics
  stay consistent, its pair policy decides for the gateway's own id, and its distributor and
  gossip act under that id and the configured authority.\<close>

theorem gateway_invariant:
  assumes "gateway_init W cfg = Inr g"
  shows "gw_inv (fold run_gw ops g)"
  by (intro gw_inv_ops gw_inv_init [OF assms])

section \<open>A blocked peer stays out\<close>

definition loc :: "matrix_policy option \<Rightarrow> gateway \<Rightarrow> bool" where
  "loc L g \<longleftrightarrow> gw_local g = L"

lemma loc_modify: "(\<And>g. gw_local (f g) = gw_local g) \<Longrightarrow> keeps (loc L) (modifyA f)"
  by (intro keeps_modify) (simp add: loc_def)

lemma loc_on_engine: "keeps (loc L) (on_engine W m)"
  by (simp add: keeps_def on_engine_def loc_def split: option.split prod.split)

lemma loc_on_dist: "keeps (loc L) (on_dist W d m)"
proof -
  have "keeps (loc L) (send_update W c)" for c by (cases c) (simp add: loc_on_engine)
  then have "keeps (loc L) (thenA (forA cs (send_update W)) (liftA r))" for cs and r :: "unit result"
    by (intro keeps_then keeps_for keeps_basic)
  then show ?thesis by (simp add: keeps_def on_dist_def put_dist_def loc_def split: prod.split)
qed

lemma loc_start: "keeps (loc L) (gw_start W)"
proof -
  have "keeps (loc L) gw_join" by (simp add: keeps_def gw_join_def loc_def split: prod.split)
  moreover have "keeps (loc L) (start_engine W)"
    unfolding start_engine_def by (rule loc_modify) (simp add: Let_def)
  moreover have a: "keeps (loc L) (attach k)" for k unfolding attach_def by (rule loc_modify) simp
  moreover have "keeps (loc L) start_gossip"
    unfolding start_gossip_def
    by (intro keeps_bind keeps_basic) (auto intro!: keeps_then a loc_modify keeps_basic)
  moreover have "keeps (loc L) start_dist"
    unfolding start_dist_def Let_def
    by (intro keeps_bind keeps_basic) (auto intro!: keeps_bind keeps_then a loc_modify keeps_basic)
  ultimately show ?thesis
    unfolding gw_start_def by (intro keeps_then keeps_basic loc_modify) simp_all
qed

lemma loc_control: "gw_local (handle_call W c g) = gw_local g"
  by (cases "(W, c, g)" rule: handle_call.cases) (auto simp: put_dist_def split: option.split)

lemma loc_controls: "gw_local (fold (handle_call W) cs g) = gw_local g"
  by (induction cs arbitrary: g) (simp_all add: loc_control)

lemma loc_on_frame: "keeps (loc L) (gw_on_frame W raw)"
  using loc_on_engine [of L W "\<lambda>D. on_frame D raw"]
  by (simp add: keeps_def loc_def loc_controls gw_on_frame_state)

lemma loc_publish: "keeps (loc L) (gw_publish W mid b)"
  unfolding gw_publish_def Let_def
  by (intro keeps_bind keeps_basic) (auto intro!: loc_on_engine keeps_basic)

lemma loc_coalition: "keeps (loc L) (coalition_set W p a)" "keeps (loc L) (coalition_set_pair W x y a)"
  unfolding coalition_set_def coalition_set_pair_def require_dist_def Let_def
  by (intro keeps_bind keeps_then keeps_basic;
      auto intro!: loc_on_dist keeps_basic split: option.split)+

lemma loc_rest:
  "keeps (loc L) gw_stop" "keeps (loc L) (gw_ingest W m)" "keeps (loc L) (gw_add_handler h)"
  "keeps (loc L) (gw_set_capability t d a)"
  unfolding gw_stop_def gw_ingest_def gw_add_handler_def gw_set_capability_def
  by (auto intro!: loc_modify loc_on_engine keeps_then keeps_basic split: option.split)

text \<open>What each operation does to the node's own policy.\<close>

fun local_op :: "gateway_op \<Rightarrow> (matrix_policy \<Rightarrow> matrix_policy)" where
  "local_op (GBlock x) = matrix_block x"
| "local_op (GAllow x) = matrix_allow x"
| "local_op (GReset x) = matrix_reset x"
| "local_op _ = id"

lemma local_run: "gw_local (run_gw op g) = map_option (local_op op) (gw_local g)"
proof -
  have k: "keeps (loc (gw_local g)) m \<Longrightarrow> gw_local (state_of (m g)) = gw_local g" for m :: "'x gact"
    using keepsD [of "loc (gw_local g)" m g] by (simp add: loc_def)
  have "gw_local (snd (purge_messages g)) = gw_local g"
    by (simp add: purge_messages_def Let_def case_prod_unfold split: option.split)
  moreover have "gw_local (state_of (on_local f g)) = map_option f (gw_local g)" for f
    by (simp add: on_local_def thenA_def bindA_parts act_defs)
  ultimately show ?thesis
    by (cases op) (simp_all add: block_peer_def allow_peer_def reset_peer_def
        loc_start loc_on_frame loc_publish loc_coalition loc_rest k option.map_id0)
qed

definition refuses :: "string \<Rightarrow> gateway \<Rightarrow> bool" where
  "refuses peer g \<longleftrightarrow> (case gw_local g of None \<Rightarrow> False | Some p \<Rightarrow> \<not> matrix_allows_peer p peer)"

definition readmits :: "string \<Rightarrow> gateway_op \<Rightarrow> bool" where
  "readmits peer op \<longleftrightarrow> op = GAllow peer \<or> op = GReset peer"

lemma refuses_op: "refuses peer g \<Longrightarrow> \<not> readmits peer op \<Longrightarrow> refuses peer (run_gw op g)"
  by (cases op) (auto simp: refuses_def readmits_def local_run simp del: run_gw.simps split: option.splits)

lemma refuses_ops:
  "refuses peer g \<Longrightarrow> list_all (\<lambda>op. \<not> readmits peer op) ops \<Longrightarrow> refuses peer (fold run_gw ops g)"
  by (induction ops arbitrary: g) (simp_all add: refuses_op)

lemma gw_frame_calls:
  assumes "gw_inv g" and "gw_engine g = Some e"
  shows "accounted (deps_of W g) e raw (calls_of (gw_on_frame W raw g))"
proof -
  have "0 < window e" using assms by (simp add: gw_inv_def eng_ok_def AUTO_WINDOW_def)
  from accounted_frame [OF this] show ?thesis
    using assms(2) by (simp add: gw_on_frame_def on_engine_def calls_of_def case_prod_unfold)
qed

lemma gw_frame_admitted:
  assumes "gw_inv g" and "RecordReceived m \<in> set (calls_of (gw_on_frame W raw g)) \<or>
    Handle h m \<in> set (calls_of (gw_on_frame W raw g))"
  shows "gw_allows g m \<and> can_receive (gw_caps g) (msg_type m)"
proof (cases "gw_engine g")
  case None
  then show ?thesis using assms(2) by (simp add: gw_on_frame_def on_engine_def)
next
  case (Some e)
  from gw_frame_calls [OF assms(1) Some] assms(2) have "accepts (deps_of W g) e raw m"
    by (auto simp: accounted_def)
  then show ?thesis by (simp add: accepts_def deps_of_def)
qed

lemma refuses_not_allowed: "refuses (originator_id (header m)) g \<Longrightarrow> \<not> gw_allows g m"
  by (auto simp: refuses_def gw_allows_def effective_allows_def composite_allows_def matrix_allows_def split: option.splits)


section \<open>From the authority's operator to every member\<close>

lemma on_engine_run:
  "gw_engine g = Some e \<Longrightarrow> m (deps_of W g) e = (r, e', cs) \<Longrightarrow>
   on_engine W m g = (r, g\<lparr>gw_engine := Some e', gw_metrics := sink_all (w_env W) (w_now W) cs (gw_metrics g)\<rparr>, cs)"
  by (simp add: on_engine_def)

text \<open>An operator's change that returns was broadcast from the shared policies it left behind.\<close>

lemma coalition_op_run:
  assumes "bindA require_dist (\<lambda>d. thenA (on_dist W d (authority_op (w_ed W) (e_floats (w_env W)) change)) (getA coalition_snapshot)) a
      = (Inr v, a', cs)"
    and "gw_engine a = Some e"
    and "\<And>d. ds_node_id (change d) = ds_node_id d \<and> ds_authority (change d) = ds_authority d"
  obtains d e' d0 where "gw_dist a' = Some d" and "ds_policy d = ds_policy (change (shared_view a d0))" and "gw_config a' = gw_config a" and "d = shared_view a' d" and "is_authority d"
    and "publish_control (deps_of W a') KIND (update_data (w_ed W) (e_floats (w_env W)) d) e = (Inr (), e', cs)"
proof -
  obtain d0 where d0: "gw_dist a = Some d0"
    using assms(1) by (cases "gw_dist a") (simp_all add: require_dist_def bindA_def act_defs)
  let ?s = "shared_view a d0"
  let ?s' = "(change ?s)\<lparr>ds_version := ds_version (change ?s) + 1\<rparr>"
  let ?g = "put_dist ?s' a"
  have auth: "is_authority ?s"
    using assms(1) d0
    by (auto simp: require_dist_def bindA_def thenA_def act_defs on_dist_def authority_op_run split: if_splits)
  obtain r e' es where run: "publish_control (deps_of W ?g) KIND (update_data (w_ed W) (e_floats (w_env W)) ?s') e = (r, e', es)"
    by (cases "publish_control (deps_of W ?g) KIND (update_data (w_ed W) (e_floats (w_env W)) ?s') e")
  have g: "gw_engine ?g = Some e" using assms(2) by (simp add: put_dist_def)
  note eng = on_engine_run [OF g, where m = "\<lambda>D. publish_control D KIND (update_data (w_ed W) (e_floats (w_env W)) ?s')", OF run]
  let ?a = "?g\<lparr>gw_engine := Some e', gw_metrics := sink_all (w_env W) (w_now W) es (gw_metrics ?g)\<rparr>"
  have "on_dist W d0 (authority_op (w_ed W) (e_floats (w_env W)) change) a = (r, ?a, es)"
    using auth by (cases r) (simp_all add: on_dist_def authority_op_run Let_def thenA_def bindA_def act_defs eng)
  then have all: "r = Inr () \<and> cs = es \<and> a' = ?a"
    using assms(1) d0 by (cases r) (auto simp: require_dist_def bindA_def thenA_def act_defs)
  show thesis
  proof (rule that)
    show "gw_dist a' = Some ?s'" using all by (simp add: put_dist_def)
    show "ds_policy ?s' = ds_policy (change (shared_view a d0))" by simp
    show "gw_config a' = gw_config a" using all by (simp add: put_dist_def)
    show "?s' = shared_view a' ?s'" using all by (simp add: put_dist_def shared_view_def)
    show "is_authority ?s'" using auth assms(3) by (simp add: is_authority_def)
    have "deps_of W a' = deps_of W ?g" using all by (simp add: deps_of_def put_dist_def gw_allows_def)
    then show "publish_control (deps_of W a') KIND (update_data (w_ed W) (e_floats (w_env W)) ?s') e = (Inr (), e', cs)"
      using run all by simp
  qed
qed


lemma member_applies:
  assumes "on_frame (deps_of W r) fr e = (Inr (), e, [Control KIND (JDict (wire_data n (update_data (w_ed W) F d)))])"
    and "gw_engine r = Some e" and "gw_dist r = Some dr" and "ds_node_id d = n" and "F = e_floats (w_env W)"
    and "trusts (w_ed W) (shared_view r dr) d" and "ds_version dr < ds_version d"
    and "gw_inv r" and "pairs_wf (ds_pairs d)"
  shows "\<exists>d'. gw_dist (state_of (gw_on_frame W fr r)) = Some d' \<and> ds_version d' = ds_version d \<and>
    (\<forall>m. gw_allows (state_of (gw_on_frame W fr r)) m =
       effective_allows (gw_local r) (ds_policy d) ((ds_pairs d)\<lparr>pp_node_id := own_id (gw_config r)\<rparr>) m)"
proof -
  note eng = on_engine_run [OF assms(2), where m = "\<lambda>D. on_frame D fr", OF assms(1)]
  let ?d = "state_of (on_update (w_ed W) F (wire_data n (update_data (w_ed W) F d)) (shared_view r dr))"
  have u: "?d = (shared_view r dr)\<lparr>ds_version := ds_version d,
       ds_policy := matrix_replace (ms_default_action (matrix_snapshot (ds_policy d)))
         (ms_overrides (matrix_snapshot (ds_policy d))) (gw_coalition r),
       ds_pairs := pairs_replace (pairs_snapshot (ds_pairs d)) (gw_pairs r)\<rparr>"
    using update_applied [OF assms(6), of F] assms(4,7) by (simp add: shared_view_def)
  have id: "pp_node_id (gw_pairs r) = own_id (gw_config r)" using assms(8) by (simp add: gw_inv_def)
  have "gw_dist (state_of (gw_on_frame W fr r)) = Some ?d \<and> gw_local (state_of (gw_on_frame W fr r)) = gw_local r \<and>
    gw_coalition (state_of (gw_on_frame W fr r)) = ds_policy ?d \<and> gw_pairs (state_of (gw_on_frame W fr r)) = ds_pairs ?d"
    using assms(3,5) unfolding gw_on_frame_state eng outcome_simps
    by (simp add: put_dist_def shared_view_def)
  then show ?thesis
    using u snapshot_transfers [OF assms(9)] id by (simp add: gw_allows_def)
qed


section \<open>What a node publishes\<close>

lemma publish_result:
  assumes "publish D m s = (Inr m', s', cs)"
  shows "m' = set_sequence (seq s + 1) (set_originator (node_id s) m) \<and>
    (\<exists>fr. cs = replicate (repeat s) (Send fr) @ [RecordSent m'])"
  using assms
  by (auto simp: publish_def transmit_def Let_def thenA_def bindA_def act_defs for_send remember_def
      split: sum.splits prod.splits if_splits)

text \<open>Property C8: a node publishes only what it is permitted to emit and only under its own identity
  and marking: with the type's emission switched off \<open>publish\<close> raises \<open>CapabilityError\<close>, sends
  nothing and changes nothing; and whenever it returns, the message carries the node's id, its
  network, its configured classification and caveat, the next sequence number and the given
  body, was sent in the configured number of copies and counted once.\<close>

theorem publish_is_marked:
  assumes "gw_inv g" and "gw_engine g = Some e" and "classification_ok (cfg_classification (gw_config g))"
  shows "(can_emit (gw_caps g) (type_name (body_type b)) \<or>
      (\<exists>msg. gw_publish W mid b g = (Inl (PyExn CapabilityErr msg), g, []))) \<and>
    (\<forall>m g' cs. gw_publish W mid b g = (Inr m, g', cs) \<longrightarrow>
      header m = \<lparr> message_id = mid, originator_id = own_id (gw_config g),
        network_id = nc_network_id (cfg_network (gw_config g)), reporting_time = w_now W,
        sequence = seq e + 1, classification = cc_level (cfg_classification (gw_config g)),
        releasable_to = cc_releasable_to (cfg_classification (gw_config g)) \<rparr> \<and>
      body m = b \<and> (\<exists>fr. cs = replicate (repeat e) (Send fr) @ [RecordSent m]))"
proof -
  let ?cfg = "gw_config g"
  let ?h = "\<lparr> message_id = mid, originator_id = own_id ?cfg, network_id = nc_network_id (cfg_network ?cfg),
     reporting_time = w_now W, sequence = 0, classification = cc_level (cfg_classification ?cfg),
     releasable_to = cc_releasable_to (cfg_classification ?cfg) \<rparr>"
  let ?m = "\<lparr> header = ?h, body = b \<rparr>"
  have h: "gw_header W mid g = Inr ?h"
    using assms(3) by (simp add: gw_header_def mk_header_def Let_def classification_ok_def)
  have run: "gw_publish W mid b g =
    (if can_emit (gw_caps g) (type_name (body_type b)) then on_engine W (\<lambda>D. publish D ?m) g
     else (Inl (PyExn CapabilityErr (''emitting '' @ type_name (body_type b) @ '' is disabled on this node'')), g, []))"
    by (simp add: gw_publish_def bindA_def act_defs h Let_def msg_type_def split: prod.split sum.split)
  have "node_id e = own_id ?cfg" using assms(1,2) by (simp add: gw_inv_def eng_ok_def)
  then have m: "set_sequence (seq e + 1) (set_originator (node_id e) ?m) = \<lparr> header = ?h\<lparr>sequence := seq e + 1\<rparr>, body = b \<rparr>"
    by (simp add: set_sequence_def set_originator_def)
  have "m = \<lparr> header = ?h\<lparr>sequence := seq e + 1\<rparr>, body = b \<rparr> \<and> (\<exists>fr. cs = replicate (repeat e) (Send fr) @ [RecordSent m])"
    if "gw_publish W mid b g = (Inr m, g', cs)" for m g' cs
  proof -
    obtain r e' cs' where p: "publish (deps_of W g) ?m e = (r, e', cs')" by (cases "publish (deps_of W g) ?m e")
    have "r = Inr m" "cs' = cs"
      using that on_engine_run [OF assms(2), where m = "\<lambda>D. publish D ?m", OF p] run by (auto split: if_splits)
    with p have "publish (deps_of W g) ?m e = (Inr m, e', cs)" by simp
    from publish_result [OF this] show ?thesis unfolding m .
  qed
  then show ?thesis using run by auto
qed

section \<open>A concrete coalition\<close>

definition demo_cfg :: "string \<Rightarrow> gateway_config" where
  "demo_cfg nid = default_config\<lparr>
     cfg_identity := default_identity\<lparr>ni_node_id := nid\<rparr>,
     cfg_network := default_network\<lparr>nc_multicast_group := Some ''239.1.1.1'', nc_multicast_port := Some 5000\<rparr>,
     cfg_connections := default_connections\<lparr>co_policy_authority := Some ''hq''\<rparr>\<rparr>"

definition demo_world :: world where
  "demo_world = \<lparr> w_env = demo_env, w_ed = demo_ed, w_now = 0, w_transport_start = Inr () \<rparr>"

lemma create_builtin [simp]:
  "create (codec_eps E) ''codecs'' ''xml'' = Inr (xml_codec E)"
  "create (codec_eps E) ''codecs'' ''json'' = Inr (json_codec E)"
  "create (codec_eps E) ''codecs'' ''arrow'' = Inr (arrow_codec E)"
  "create security_eps ''security'' ''psk'' = Inr psk_security"
  "create security_eps ''security'' ''null'' = Inr (\<lambda>_. null_security)"
  "create allocator_eps ''allocators'' ''default'' = Inr default_allocator"
  "create bearer_eps ''bearers'' ''simulated'' = Inr radio_init"
  "create transport_eps ''transports'' ''udp'' = Inr UdpTransport"
  by (simp_all add: create_def registry_get_def registry_init_def discover_def GROUPS_def codec_eps_def
      security_eps_def allocator_eps_def bearer_eps_def transport_eps_def dict_get_def)

definition demo_gw0 :: "string \<Rightarrow> gateway" where
  "demo_gw0 nid =
     \<lparr> gw_config = demo_cfg nid, gw_group = ''239.1.1.1'', gw_port = 5000, gw_codec = xml_codec demo_env,
       gw_security = psk_security ''jdss-coalition-key'', gw_local = build_policy (demo_cfg nid),
       gw_coalition = build_coalition_policy (demo_cfg nid), gw_pairs = pairs_init nid [],
       gw_caps = capabilities_init [] [], gw_metrics = metrics_init nid 1000, gw_radio = radio_init nid,
       gw_engine = None, gw_up = False, gw_pending = [], gw_gossip = None, gw_dist = None,
       gw_started_at = None \<rparr>"

lemma demo_init: "gateway_init demo_world (demo_cfg nid) = Inr (demo_gw0 nid)"
  by (simp add: gateway_init_def demo_cfg_def default_config_def default_plugins_def default_network_def
      default_identity_def default_web_def resolve_endpoint_def build_security_def own_id_def demo_gw0_def demo_world_def)

theorem gateway_invariant_witness:
  "gateway_init demo_world (demo_cfg ''n'') = Inr (demo_gw0 ''n'') \<and>
   gw_inv (fold run_gw [GStart demo_world, GBlock ''x'', GStop, GPurge] (demo_gw0 ''n''))"
  by (intro conjI demo_init gateway_invariant [OF demo_init])

definition demo_started :: "string \<Rightarrow> gateway" where
  "demo_started nid = state_of (gw_start demo_world (demo_gw0 nid))"

definition demo_engine :: "string \<Rightarrow> engine" where
  "demo_engine nid = \<lparr> node_id = nid, repeat = 2, seq = 0, seen = {}, seen_order = [], window = 4096,
     handlers = [], control_kinds = [KIND, GOSSIP_KIND] \<rparr>"

definition demo_dist :: "string \<Rightarrow> distributor" where
  "demo_dist nid = distributor_init nid (build_coalition_policy (demo_cfg nid)) (pairs_init nid []) (Some ''hq'') None None"

lemma demo_started_fields:
  "gw_engine (demo_started nid) = Some (demo_engine nid) \<and> gw_dist (demo_started nid) = Some (demo_dist nid) \<and>
   gw_security (demo_started nid) = psk_security ''jdss-coalition-key'' \<and> gw_up (demo_started nid) \<and>
   gw_coalition (demo_started nid) = build_coalition_policy (demo_cfg nid) \<and>
   gw_pairs (demo_started nid) = pairs_init nid [] \<and> gw_config (demo_started nid) = demo_cfg nid \<and>
   gw_caps (demo_started nid) = capabilities_init [] [] \<and> gw_codec (demo_started nid) = xml_codec demo_env"
  by (simp add: demo_started_def gw_start_def gw_join_def radio_join_def transport_factory_def demo_gw0_def
      demo_cfg_def default_config_def default_plugins_def default_network_def default_identity_def
      default_gossip_def default_connections_def thenA_def bindA_def act_defs start_engine_def start_gossip_def
      start_dist_def attach_def own_id_def opt_key_def Let_def cfg_is_authority_def demo_world_def engine_init_def
      on_control_def demo_engine_def demo_dist_def AUTO_WINDOW_def GOSSIP_KIND_def KIND_def)

lemma demo_started_inv: "gw_inv (demo_started nid)"
  unfolding demo_started_def by (rule keepsD [OF keeps_gw_start gw_inv_init [OF demo_init]])

theorem publish_is_marked_witness:
  "\<exists>msg. gw_publish demo_world ''m1'' (ChatMessage \<lparr> ch_text = ''hi'', ch_recipient = ''all'' \<rparr>)
     ((demo_started ''n'')\<lparr>gw_caps := set_capability ''Chat'' ''emit'' False (capabilities_init [] [])\<rparr>) =
     (Inl (PyExn CapabilityErr msg), (demo_started ''n'')\<lparr>gw_caps := set_capability ''Chat'' ''emit'' False (capabilities_init [] [])\<rparr>, [])"
proof -
  let ?c = "set_capability ''Chat'' ''emit'' False (capabilities_init [] [])"
  let ?g = "(demo_started ''n'')\<lparr>gw_caps := ?c\<rparr>"
  have "gw_inv ?g" using demo_started_inv [of "''n''"] by (simp add: gw_inv_def)
  moreover have "gw_engine ?g = Some (demo_engine ''n'')" using demo_started_fields by simp
  moreover have "classification_ok (cfg_classification (gw_config ?g))"
    using demo_started_fields by (simp add: classification_ok_def demo_cfg_def default_config_def
        default_classification_def in_range_def)
  moreover have "\<not> can_emit (gw_caps ?g) (type_name (body_type (ChatMessage \<lparr> ch_text = ''hi'', ch_recipient = ''all'' \<rparr>)))"
    by (simp add: can_emit_def set_capability_def direction_of_def capabilities_init_def switch_def
        all_permitted_def MESSAGE_TYPES_def dict_update_def dict_get_def)
  ultimately show ?thesis
    using publish_is_marked [of ?g "demo_engine ''n''" "ChatMessage \<lparr> ch_text = ''hi'', ch_recipient = ''all'' \<rparr>" demo_world "''m1''"]
    by blast
qed


lemma publish_control_ok:
  assumes "length (utf8_encode (json_dumps (d_floats D) (control_body (node_id s) kind data))) < 1000"
    and "d_up D" and "d_security D = psk_security key"
  shows "\<exists>cs. publish_control D kind data s = (Inr (), s, cs)"
proof -
  let ?f = "\<lparr> codec_name = CONTROL_CODEC, security_name = ''psk'', payload = psk_protect (utf8_encode key)
     (utf8_encode (json_dumps (d_floats D) (control_body (node_id s) kind data))) \<rparr>"
  have "frame_ok ?f"
    using assms(1) by (simp add: frame_ok_def is_ascii_def psk_protect_def TAG_LEN_def CONTROL_CODEC_def)
  then have "to_bytes ?f = Inr (frame_text ?f)" by (simp add: to_bytes_iff)
  then show ?thesis
    using assms(2,3) by (simp add: publish_control_def bindA_def act_defs for_send psk_security_def)
qed

definition demo_changed :: distributor where
  "demo_changed = (on_policy (matrix_block ''x'') (demo_dist ''hq''))\<lparr>ds_version := 2\<rparr>"

lemma demo_changed_short:
  "length (utf8_encode (json_dumps (e_floats demo_env)
     (control_body ''hq'' KIND (update_data demo_ed (e_floats demo_env) demo_changed)))) < 1000"
  by code_simp

lemma demo_coalition_set:
  "\<exists>v a' cs. coalition_set demo_world ''x'' ''block'' (demo_started ''hq'') = (Inr v, a', cs) \<and>
     gw_dist a' = Some demo_changed \<and> gw_coalition a' = ds_policy demo_changed \<and> gw_pairs a' = pairs_init ''hq'' [] \<and>
     gw_security a' = psk_security ''jdss-coalition-key''"
proof -
  let ?g = "put_dist demo_changed (demo_started ''hq'')"
  have v: "shared_view (demo_started ''hq'') (demo_dist ''hq'') = demo_dist ''hq''"
    using demo_started_fields [of "''hq''"] by (simp add: shared_view_def demo_dist_def distributor_init_def)
  have auth: "is_authority (demo_dist ''hq'')" "ds_version (demo_dist ''hq'') = 1"
    by (simp_all add: demo_dist_def distributor_init_def is_authority_def)
  have w: "w_ed demo_world = demo_ed" "w_env demo_world = demo_env" by (simp_all add: demo_world_def)
  obtain cs where p: "publish_control (deps_of demo_world ?g) KIND (update_data demo_ed (e_floats demo_env) demo_changed)
      (demo_engine ''hq'') = (Inr (), demo_engine ''hq'', cs)"
    using publish_control_ok [of "deps_of demo_world ?g" "demo_engine ''hq''" KIND
        "update_data demo_ed (e_floats demo_env) demo_changed" "''jdss-coalition-key''"]
      demo_started_fields [of "''hq''"] demo_changed_short
    by (auto simp: deps_of_def put_dist_def w demo_engine_def)
  have e: "gw_engine ?g = Some (demo_engine ''hq'')" using demo_started_fields by (simp add: put_dist_def)
  note eng = on_engine_run [OF e, where m = "\<lambda>D. publish_control D KIND (update_data demo_ed (e_floats demo_env) demo_changed)", OF p]
  have "authority_op demo_ed (e_floats demo_env) (on_policy (matrix_block ''x'')) (demo_dist ''hq'') =
    (Inr (), demo_changed, [PublishControl KIND (update_data demo_ed (e_floats demo_env) demo_changed)])"
    using auth by (simp add: authority_op_run demo_changed_def Let_def on_policy_def)
  then show ?thesis
    using demo_started_fields [of "''hq''"] v eng
    by (simp add: coalition_set_def require_dist_def dist_block_def bindA_def thenA_def act_defs on_dist_def w
        put_dist_def demo_changed_def on_policy_def demo_dist_def distributor_init_def)
qed


end
