(* ===== verification/Cot.thy ===== *)
theory Cot
  imports Messages PyText
begin

text \<open>
  \<open>bridges/cot.py\<close>: the mapping between Cursor-on-Target events and JDSS messages. An event is a
  tree with attributes (\<open>cot\<close>). What the XML library, \<open>float\<close>, \<open>str\<close> of a float and
  \<open>datetime.fromisoformat\<close> do is a parameter (\<open>cot_lib\<close>); the time text of an event is the
  source's own and concrete.
\<close>

section \<open>Events\<close>

datatype cot = Cot (cot_tag: string) (cot_attrs: "(string, string) dict") (cot_text: "string option")
  (cot_children: "cot list")

record cot_lib =
  cl_parse :: "bytes \<Rightarrow> cot option"
  cl_tostring :: "cot \<Rightarrow> bytes"
  cl_float :: "string \<Rightarrow> pyfloat option"
  cl_str :: "rat \<Rightarrow> string"
  cl_fromiso :: "string \<Rightarrow> int option"

definition attr :: "cot \<Rightarrow> string \<Rightarrow> string option" where
  "attr e k = map_of (cot_attrs e) k"

definition attr_or :: "cot \<Rightarrow> string \<Rightarrow> string \<Rightarrow> string" where
  "attr_or e k dflt = dict_get (cot_attrs e) k dflt"

text \<open>\<open>e.find(tag)\<close>: the first child with the tag.\<close>

definition find_child :: "string \<Rightarrow> cot \<Rightarrow> cot option" where
  "find_child t e = List.find (\<lambda>c. cot_tag c = t) (cot_children e)"

definition BRIDGE_MARKER :: string where
  "BRIDGE_MARKER = ''__jdssbridge''"

definition starts_with :: "string \<Rightarrow> string \<Rightarrow> bool" where
  "starts_with s p \<longleftrightarrow> take (length p) s = p"

text \<open>\<open>b in raw\<close> on byte strings.\<close>

fun find_sub :: "'a list \<Rightarrow> 'a list \<Rightarrow> nat option" where
  "find_sub pat [] = (if pat = [] then Some 0 else None)"
| "find_sub pat (x # xs) =
     (if take (length pat) (x # xs) = pat then Some 0 else map_option Suc (find_sub pat xs))"

definition contains_sub :: "'a list \<Rightarrow> 'a list \<Rightarrow> bool" where
  "contains_sub raw pat \<longleftrightarrow> find_sub pat raw \<noteq> None"

definition has_marker :: "bytes \<Rightarrow> bool" where
  "has_marker raw \<longleftrightarrow> contains_sub raw (utf8_encode BRIDGE_MARKER)"

section \<open>Affiliation\<close>

definition AFF_TO_IDENTITY :: "(string, standard_identity) dict" where
  "AFF_TO_IDENTITY = [(''f'', FRIEND), (''h'', HOSTILE), (''n'', NEUTRAL), (''u'', UNKNOWN), (''p'', PENDING)]"

definition IDENTITY_TO_AFF :: "(standard_identity, string) dict" where
  "IDENTITY_TO_AFF = map (\<lambda>(k, v). (v, k)) AFF_TO_IDENTITY"

section \<open>CoT to JDSS\<close>

definition py_float :: "cot_lib \<Rightarrow> string \<Rightarrow> pyfloat result" where
  "py_float L s = (case cl_float L s of
     None \<Rightarrow> Inl (PyExn ValueErr (''could not convert string to float: '' @ py_repr s)) | Some x \<Rightarrow> Inr x)"

definition coordinate :: "cot_lib \<Rightarrow> cot \<Rightarrow> string \<Rightarrow> pyfloat result" where
  "coordinate L p k = (let v = attr_or p k ''0'' in if v = [] then Inr (Fin 0) else py_float L v)"

definition cot_point :: "cot_lib \<Rightarrow> cot \<Rightarrow> (pyfloat \<times> pyfloat) result" where
  "cot_point L ev =
     (case find_child ''point'' ev of
        None \<Rightarrow> Inr (Fin 0, Fin 0)
      | Some p \<Rightarrow> bindR (coordinate L p ''lat'') (\<lambda>lat. bindR (coordinate L p ''lon'') (\<lambda>lon. Inr (lat, lon))))"

definition cot_num :: "cot_lib \<Rightarrow> string option \<Rightarrow> rat option" where
  "cot_num L v = (case v of None \<Rightarrow> None
     | Some s \<Rightarrow> (case cl_float L s of Some (Fin x) \<Rightarrow> Some x | _ \<Rightarrow> None))"

definition cot_deg :: "cot_lib \<Rightarrow> string option \<Rightarrow> rat option" where
  "cot_deg L v = (case cot_num L v of None \<Rightarrow> None | Some n \<Rightarrow> if 0 \<le> n \<and> n \<le> 360 then Some n else None)"

definition cot_spd :: "cot_lib \<Rightarrow> string option \<Rightarrow> rat option" where
  "cot_spd L v = (case cot_num L v of None \<Rightarrow> None | Some n \<Rightarrow> if 0 \<le> n \<and> n < 1000000 then Some n else None)"

text \<open>\<open>Location(lat=..., lon=...)\<close>: a coordinate that is no number violates its bounds.\<close>

definition float_location :: "pyfloat \<Rightarrow> pyfloat \<Rightarrow> location result" where
  "float_location lat lon =
     (case (lat, lon) of (Fin a, Fin b) \<Rightarrow> mk_location a b None
      | (Fin a, _) \<Rightarrow> if in_range (-90) 90 a then invalid ''lon'' else invalid ''lat''
      | _ \<Rightarrow> invalid ''lat'')"

record cot_fields =
  cf_callsign :: string
  cf_remarks :: string
  cf_course :: "rat option"
  cf_speed :: "rat option"

definition cot_fields :: "cot_lib \<Rightarrow> cot \<Rightarrow> cot_fields" where
  "cot_fields L ev =
     (case find_child ''detail'' ev of
        None \<Rightarrow> \<lparr> cf_callsign = [], cf_remarks = [], cf_course = None, cf_speed = None \<rparr>
      | Some d \<Rightarrow>
          \<lparr> cf_callsign = (case find_child ''contact'' d of None \<Rightarrow> [] | Some c \<Rightarrow> attr_or c ''callsign'' []),
            cf_remarks = (case find_child ''remarks'' d of None \<Rightarrow> []
              | Some r \<Rightarrow> (case cot_text r of None \<Rightarrow> [] | Some t \<Rightarrow> t)),
            cf_course = (case find_child ''track'' d of None \<Rightarrow> None | Some t \<Rightarrow> cot_deg L (attr t ''course'')),
            cf_speed = (case find_child ''track'' d of None \<Rightarrow> None | Some t \<Rightarrow> cot_spd L (attr t ''speed'')) \<rparr>)"

definition or_else :: "string \<Rightarrow> string \<Rightarrow> string" where
  "or_else s t = (if s = [] then t else s)"

definition event_body :: "string \<Rightarrow> pyfloat \<Rightarrow> pyfloat \<Rightarrow> cot_fields \<Rightarrow> body option result" where
  "event_body cot_type lat lon f =
     (if starts_with cot_type ''b-t-f'' then
        Inr (Some (ChatMessage \<lparr> ch_text = or_else (cf_remarks f) (cf_callsign f), ch_recipient = ''all'' \<rparr>))
      else if starts_with cot_type ''b-r-f-h-c'' then
        bindR (float_location lat lon) (\<lambda>l.
        Inr (Some (CasevacRequest \<lparr> cv_location = l, cv_patients_urgent = 1, cv_patients_priority = 0,
          cv_patients_routine = 0, cv_special_equipment = ''none'', cv_security_at_pickup = ''no_enemy'',
          cv_sidc = sidc ''casualty'' FRIEND None PRESENT \<rparr>)))
      else if starts_with cot_type ''u-d'' \<or> starts_with cot_type ''b-m-p'' then
        bindR (float_location lat lon) (\<lambda>l.
        Inr (Some (Overlay \<lparr> ov_name = or_else (cf_callsign f) ''ATAK marker'',
          ov_graphics = [\<lparr> og_sidc = sidc ''control_point'' FRIEND None PRESENT, og_location = l,
            og_label = or_else (cf_remarks f) (or_else (cf_callsign f) ''marker'') \<rparr>] \<rparr>)))
      else if starts_with cot_type ''a-'' then
        (let parts = split_on (CHR ''-'') cot_type;
             aff = (if 1 < length parts then parts ! 1 else ''u'') in
         bindR (float_location lat lon) (\<lambda>l.
         if aff = ''f'' then
           bindR (mk_presence l (or_else (cf_callsign f) ''ATAK'') None (cf_course f) (cf_speed f) None)
             (\<lambda>p. Inr (Some (Presence p)))
         else
           bindR (mk_contact l (dict_get AFF_TO_IDENTITY aff UNKNOWN) PRESENT
               (or_else (cf_remarks f) (or_else (cf_callsign f) ''CoT track'')) None (cf_course f) (cf_speed f) None)
             (\<lambda>c. Inr (Some (ContactSighting c)))))
      else Inr None)"

definition tree_to_body :: "cot_lib \<Rightarrow> cot \<Rightarrow> body option result" where
  "tree_to_body L ev =
     (if cot_tag ev \<noteq> ''event'' then Inr None
      else bindR (cot_point L ev) (\<lambda>(lat, lon).
        event_body (attr_or ev ''type'' []) lat lon (cot_fields L ev)))"

text \<open>The header takes the class defaults; its id \<open>mid\<close> and time \<open>now\<close> are new.\<close>

definition cot_to_message :: "cot_lib \<Rightarrow> string \<Rightarrow> int \<Rightarrow> bytes \<Rightarrow> string \<Rightarrow> message option result" where
  "cot_to_message L mid now raw originator =
     (case cl_parse L raw of
        None \<Rightarrow> Inr None
      | Some ev \<Rightarrow>
          bindR (mk_header mid originator ''default'' now 0 0 ''ALL'') (\<lambda>h.
          bindR (tree_to_body L ev) (\<lambda>b.
          Inr (map_option (\<lambda>b. \<lparr> header = h, body = b \<rparr>) b))))"

section \<open>Time\<close>

fun pad :: "nat \<Rightarrow> nat \<Rightarrow> string" where
  "pad 0 n = []"
| "pad (Suc w) n = pad w (n div 10) @ [digit (n mod 10)]"

text \<open>The proleptic Gregorian date of a day number, day 0 being 1970-01-01.\<close>

definition civil :: "int \<Rightarrow> int \<times> int \<times> int" where
  "civil days =
     (let z = days + 719468;
          era = z div 146097;
          doe = z mod 146097;
          yoe = (doe - doe div 1460 + doe div 36524 - doe div 146096) div 365;
          doy = doe - (365 * yoe + yoe div 4 - yoe div 100);
          mp = (5 * doy + 2) div 153;
          d = doy - (153 * mp + 2) div 5 + 1;
          m = (if mp < 10 then mp + 3 else mp - 9)
      in (yoe + era * 400 + (if m \<le> 2 then 1 else 0), m, d))"

definition cot_time :: "int \<Rightarrow> string" where
  "cot_time us =
     (let ms = us div 1000; s = ms div 1000; (y, m, d) = civil (s div 86400); t = nat (s mod 86400) in
      pad 4 (nat y) @ ''-'' @ pad 2 (nat m) @ ''-'' @ pad 2 (nat d) @ ''T'' @
      pad 2 (t div 3600) @ '':'' @ pad 2 (t div 60 mod 60) @ '':'' @ pad 2 (t mod 60) @ ''.'' @
      pad 3 (nat (ms mod 1000)) @ ''Z'')"

lemma length_pad [simp]: "length (pad w n) = w"
  by (induction w arbitrary: n) simp_all

lemma length_cot_time: "length (cot_time us) = 24"
  by (simp add: cot_time_def Let_def split: prod.split)

section \<open>JDSS to CoT\<close>

record cot_view =
  vw_type :: string
  vw_lat :: rat
  vw_lon :: rat
  vw_callsign :: string
  vw_remarks :: string

fun view_of :: "body \<Rightarrow> cot_view option" where
  "view_of (Presence p) = Some \<lparr> vw_type = ''a-f-G-U-C'', vw_lat = loc_lat (pr_location p),
     vw_lon = loc_lon (pr_location p), vw_callsign = pr_callsign p, vw_remarks = [] \<rparr>"
| "view_of (ContactSighting c) = Some \<lparr>
     vw_type = ''a-'' @ dict_get IDENTITY_TO_AFF (ct_identity c) ''u'' @ ''-G'',
     vw_lat = loc_lat (ct_location c), vw_lon = loc_lon (ct_location c), vw_callsign = [],
     vw_remarks = ct_description c \<rparr>"
| "view_of (CasevacRequest v) = Some \<lparr> vw_type = ''b-r-f-h-c'', vw_lat = loc_lat (cv_location v),
     vw_lon = loc_lon (cv_location v), vw_callsign = [],
     vw_remarks = ''CASEVAC urgent='' @ show_int (cv_patients_urgent v) \<rparr>"
| "view_of (Overlay v) = (case ov_graphics v of [] \<Rightarrow> None
     | g # _ \<Rightarrow> Some \<lparr> vw_type = ''u-d-p'', vw_lat = loc_lat (og_location g), vw_lon = loc_lon (og_location g),
         vw_callsign = ov_name v, vw_remarks = og_label g \<rparr>)"
| "view_of (ChatMessage c) = Some \<lparr> vw_type = ''b-t-f'', vw_lat = 0, vw_lon = 0, vw_callsign = [],
     vw_remarks = ch_text c \<rparr>"
| "view_of (GeneralInfo g) = Some \<lparr> vw_type = ''b-t-f'',
     vw_lat = (case gi_location g of None \<Rightarrow> 0 | Some l \<Rightarrow> loc_lat l),
     vw_lon = (case gi_location g of None \<Rightarrow> 0 | Some l \<Rightarrow> loc_lon l), vw_callsign = [],
     vw_remarks = (if gi_subject g = [] then gi_text g else gi_subject g @ '': '' @ gi_text g) \<rparr>"
| "view_of _ = None"

fun body_track :: "body \<Rightarrow> rat option \<times> rat option" where
  "body_track (Presence p) = (pr_course_deg p, pr_speed_mps p)"
| "body_track (ContactSighting c) = (ct_course_deg c, ct_speed_mps c)"
| "body_track _ = (None, None)"

definition cot_uid :: "message \<Rightarrow> string" where
  "cot_uid m = (case body m of
     Presence _ \<Rightarrow> ''JDSS.'' @ originator_id (header m)
   | _ \<Rightarrow> ''JDSS.'' @ originator_id (header m) @ ''.'' @ take 8 (message_id (header m)))"

definition detail_of :: "cot_lib \<Rightarrow> cot_view \<Rightarrow> rat option \<times> rat option \<Rightarrow> cot" where
  "detail_of L v track =
     Cot ''detail'' [] None (
       [Cot BRIDGE_MARKER [] None []] @
       (if vw_callsign v \<noteq> [] then [Cot ''contact'' [(''callsign'', vw_callsign v)] None []] else []) @
       (if vw_remarks v \<noteq> [] then [Cot ''remarks'' [] (Some (vw_remarks v)) []] else []) @
       (case track of (None, None) \<Rightarrow> []
        | (course, speed) \<Rightarrow> [Cot ''track''
            [(''course'', cl_str L (case course of None \<Rightarrow> 0 | Some c \<Rightarrow> c)),
             (''speed'', cl_str L (case speed of None \<Rightarrow> 0 | Some s \<Rightarrow> s))] None []]))"

definition point_of :: "string \<Rightarrow> string \<Rightarrow> cot" where
  "point_of lat lon = Cot ''point'' [(''lat'', lat), (''lon'', lon), (''hae'', ''0''), (''ce'', ''9999999''),
     (''le'', ''9999999'')] None []"

definition event_of :: "cot_lib \<Rightarrow> int \<Rightarrow> message \<Rightarrow> cot option" where
  "event_of L stale_s m =
     (case view_of (body m) of
        None \<Rightarrow> None
      | Some v \<Rightarrow>
          (let t = reporting_time (header m) in
           Some (Cot ''event''
             [(''version'', ''2.0''), (''uid'', cot_uid m), (''type'', vw_type v), (''how'', ''m-g''),
              (''time'', cot_time t), (''start'', cot_time t), (''stale'', cot_time (t + stale_s * 1000000))]
             None
             [point_of (cl_str L (vw_lat v)) (cl_str L (vw_lon v)), detail_of L v (body_track (body m))])))"

definition message_to_cot :: "cot_lib \<Rightarrow> int \<Rightarrow> message \<Rightarrow> bytes option" where
  "message_to_cot L stale_s m = map_option (cl_tostring L) (event_of L stale_s m)"

definition replace_z :: "string \<Rightarrow> string" where
  "replace_z s = concat (map (\<lambda>c. if c = CHR ''Z'' then ''+00:00'' else [c]) s)"

text \<open>\<open>cl_fromiso\<close> is the instant of a text in microseconds, a time without zone read as UTC.\<close>

definition cot_is_stale :: "cot_lib \<Rightarrow> int \<Rightarrow> bytes \<Rightarrow> bool" where
  "cot_is_stale L now raw =
     (case cl_parse L raw of
        None \<Rightarrow> False
      | Some ev \<Rightarrow>
          (case attr ev ''stale'' of
             None \<Rightarrow> False
           | Some s \<Rightarrow> if s = [] then False
               else (case cl_fromiso L (replace_z s) of None \<Rightarrow> False | Some t \<Rightarrow> t < now)))"

definition delete_event :: "string \<Rightarrow> int \<Rightarrow> cot" where
  "delete_event uid now =
     Cot ''event''
       [(''version'', ''2.0''), (''uid'', uid @ ''.del''), (''type'', ''t-x-d-d''), (''how'', ''m-g''),
        (''time'', cot_time now), (''start'', cot_time now), (''stale'', cot_time now)] None
       [point_of ''0'' ''0'',
        Cot ''detail'' [] None [Cot BRIDGE_MARKER [] None [],
          Cot ''link'' [(''uid'', uid), (''relation'', ''p-p''), (''type'', ''none'')] None []]]"

definition cot_delete :: "cot_lib \<Rightarrow> string \<Rightarrow> int \<Rightarrow> bytes" where
  "cot_delete L uid now = cl_tostring L (delete_event uid now)"

section \<open>There and back\<close>

text \<open>What a body has become when its event is read back, written out per kind of body.\<close>

definition track_back :: "rat option \<times> rat option \<Rightarrow> rat option \<times> rat option" where
  "track_back tr = (case tr of (None, None) \<Rightarrow> (None, None)
     | (c, s) \<Rightarrow> (Some (case c of None \<Rightarrow> 0 | Some x \<Rightarrow> x),
         (let v = (case s of None \<Rightarrow> 0 | Some x \<Rightarrow> x) in if v < 1000000 then Some v else None)))"

definition flat :: "location \<Rightarrow> location" where
  "flat l = l\<lparr>loc_alt_m := None\<rparr>"

definition presence_back :: "location \<Rightarrow> string \<Rightarrow> rat option \<times> rat option \<Rightarrow> body" where
  "presence_back l cs tr = Presence \<lparr> pr_location = flat l, pr_callsign = or_else cs ''ATAK'',
     pr_battery_pct = None, pr_course_deg = fst (track_back tr), pr_speed_mps = snd (track_back tr),
     pr_sidc = sidc ''dismounted_infantry'' FRIEND None PRESENT \<rparr>"

fun identity_back :: "standard_identity \<Rightarrow> standard_identity" where
  "identity_back HOSTILE = HOSTILE"
| "identity_back NEUTRAL = NEUTRAL"
| "identity_back PENDING = PENDING"
| "identity_back FRIEND = FRIEND"
| "identity_back _ = UNKNOWN"

fun body_back :: "body \<Rightarrow> body option" where
  "body_back (Presence p) = Some (presence_back (pr_location p) (pr_callsign p) (pr_course_deg p, pr_speed_mps p))"
| "body_back (ContactSighting c) = Some (
     if ct_identity c = FRIEND then presence_back (ct_location c) [] (ct_course_deg c, ct_speed_mps c)
     else ContactSighting \<lparr> ct_location = flat (ct_location c), ct_identity = identity_back (ct_identity c),
       ct_status = PRESENT, ct_description = or_else (ct_description c) ''CoT track'', ct_strength = None,
       ct_course_deg = fst (track_back (ct_course_deg c, ct_speed_mps c)),
       ct_speed_mps = snd (track_back (ct_course_deg c, ct_speed_mps c)),
       ct_sidc = sync_symbol (sidc ''hostile_contact'' HOSTILE None PRESENT) (identity_back (ct_identity c)) PRESENT \<rparr>)"
| "body_back (CasevacRequest v) = Some (CasevacRequest \<lparr> cv_location = flat (cv_location v),
     cv_patients_urgent = 1, cv_patients_priority = 0, cv_patients_routine = 0, cv_special_equipment = ''none'',
     cv_security_at_pickup = ''no_enemy'', cv_sidc = sidc ''casualty'' FRIEND None PRESENT \<rparr>)"
| "body_back (Overlay v) = (case ov_graphics v of [] \<Rightarrow> None | g # _ \<Rightarrow>
     Some (Overlay \<lparr> ov_name = or_else (ov_name v) ''ATAK marker'',
       ov_graphics = [\<lparr> og_sidc = sidc ''control_point'' FRIEND None PRESENT, og_location = flat (og_location g),
         og_label = or_else (og_label g) (or_else (ov_name v) ''marker'') \<rparr>] \<rparr>))"
| "body_back (ChatMessage c) = Some (ChatMessage \<lparr> ch_text = ch_text c, ch_recipient = ''all'' \<rparr>)"
| "body_back (GeneralInfo g) = Some (ChatMessage \<lparr>
     ch_text = (if gi_subject g = [] then gi_text g else gi_subject g @ '': '' @ gi_text g), ch_recipient = ''all'' \<rparr>)"
| "body_back _ = None"

text \<open>The XML library reads back the event it wrote, and \<open>float\<close> reads back what \<open>str\<close> wrote.\<close>

definition cot_ok :: "cot_lib \<Rightarrow> cot \<Rightarrow> bool" where
  "cot_ok L e \<longleftrightarrow> cl_parse L (cl_tostring L e) = Some e \<and> (\<forall>x. cl_float L (cl_str L x) = Some (Fin x)) \<and>
     (\<forall>x. cl_str L x \<noteq> [])"

lemma find_child_Cons: "find_child t (Cot a b c (x # xs)) = (if cot_tag x = t then Some x else find_child t (Cot a b c xs))"
  by (simp add: find_child_def)

lemma find_child_Nil: "find_child t (Cot a b c []) = None"
  by (simp add: find_child_def)

lemma point_back:
  "\<forall>x. cl_float L (cl_str L x) = Some (Fin x) \<Longrightarrow> \<forall>x. cl_str L x \<noteq> [] \<Longrightarrow>
   cot_point L (Cot a b c (point_of (cl_str L lat) (cl_str L lon) # xs)) = Inr (Fin lat, Fin lon)"
  by (simp add: cot_point_def find_child_Cons point_of_def coordinate_def attr_or_def dict_get_def py_float_def)

lemma detail_back:
  assumes "\<forall>x. cl_float L (cl_str L x) = Some (Fin x)" and "opt_all (in_range 0 360) (fst tr)"
    and "opt_all (\<lambda>v. 0 \<le> v) (snd tr)"
  shows "cot_fields L (Cot a b c [point_of p q, detail_of L v tr]) =
    \<lparr> cf_callsign = vw_callsign v, cf_remarks = vw_remarks v, cf_course = fst (track_back tr),
      cf_speed = snd (track_back tr) \<rparr>"
proof -
  obtain co sp where tr: "tr = (co, sp)" by (cases tr)
  have d: "find_child ''detail'' (Cot a b c [point_of p q, detail_of L v tr]) = Some (detail_of L v tr)"
    by (simp add: find_child_def point_of_def detail_of_def)
  have c: "find_child ''contact'' (detail_of L v tr) =
      (if vw_callsign v = [] then None else Some (Cot ''contact'' [(''callsign'', vw_callsign v)] None []))"
    by (auto simp: find_child_def detail_of_def BRIDGE_MARKER_def split: prod.split option.split)
  have r: "find_child ''remarks'' (detail_of L v tr) =
      (if vw_remarks v = [] then None else Some (Cot ''remarks'' [] (Some (vw_remarks v)) []))"
    by (auto simp: find_child_def detail_of_def BRIDGE_MARKER_def split: prod.split option.split)
  have t: "find_child ''track'' (detail_of L v tr) =
      (if co = None \<and> sp = None then None
       else Some (Cot ''track'' [(''course'', cl_str L (case co of None \<Rightarrow> 0 | Some c \<Rightarrow> c)),
             (''speed'', cl_str L (case sp of None \<Rightarrow> 0 | Some s \<Rightarrow> s))] None []))"
    by (cases co; cases sp) (simp_all add: tr find_child_def detail_of_def BRIDGE_MARKER_def)
  have "cot_deg L (Some (cl_str L (case co of None \<Rightarrow> 0 | Some c \<Rightarrow> c))) = Some (case co of None \<Rightarrow> 0 | Some c \<Rightarrow> c)"
    using assms(1,2) by (cases co) (simp_all add: cot_deg_def cot_num_def tr opt_all_def in_range_def)
  moreover have "cot_spd L (Some (cl_str L (case sp of None \<Rightarrow> 0 | Some s \<Rightarrow> s))) =
      (let v = (case sp of None \<Rightarrow> 0 | Some x \<Rightarrow> x) in if v < 1000000 then Some v else None)"
    using assms(1,3) by (cases sp) (simp_all add: cot_spd_def cot_num_def tr opt_all_def)
  ultimately show ?thesis
    unfolding cot_fields_def d option.case c r t
    by (cases co; cases sp) (simp_all add: tr track_back_def attr_def attr_or_def dict_get_def)
qed

lemma valid_track:
  "valid_body b \<Longrightarrow> opt_all (in_range 0 360) (fst (body_track b)) \<and> opt_all (\<lambda>v. 0 \<le> v) (snd (body_track b))"
  by (cases b) (simp_all add: valid_presence_def valid_contact_def opt_all_def)

lemma track_back_valid:
  assumes "opt_all (in_range 0 360) (fst tr)" and "opt_all (\<lambda>v. 0 \<le> v) (snd tr)"
  shows "opt_all (in_range 0 360) (fst (track_back tr))" and "opt_all (\<lambda>v. 0 \<le> v) (snd (track_back tr))"
  using assms by (auto simp: track_back_def opt_all_def in_range_def Let_def split: option.splits prod.splits)

lemma float_location_valid: "valid_location l \<Longrightarrow> float_location (Fin (loc_lat l)) (Fin (loc_lon l)) = Inr (flat l)"
  by (simp add: float_location_def mk_location_def valid_location_def flat_def)

lemma contact_type:
  "split_on CHR ''-'' (''a-'' @ dict_get IDENTITY_TO_AFF i ''u'' @ ''-G'') = [''a'', dict_get IDENTITY_TO_AFF i ''u'', ''G'']"
  "dict_get IDENTITY_TO_AFF i ''u'' = ''f'' \<longleftrightarrow> i = FRIEND"
  "i \<noteq> FRIEND \<Longrightarrow> dict_get AFF_TO_IDENTITY (dict_get IDENTITY_TO_AFF i ''u'') UNKNOWN = identity_back i"
  by (cases i; simp add: IDENTITY_TO_AFF_def AFF_TO_IDENTITY_def dict_get_def)+

lemma contact_starts:
  "\<not> starts_with (''a-'' @ s) ''b-t-f''" "\<not> starts_with (''a-'' @ s) ''b-r-f-h-c''"
  "\<not> starts_with (''a-'' @ s) ''u-d''" "\<not> starts_with (''a-'' @ s) ''b-m-p''" "starts_with (''a-'' @ s) ''a-''"
  by (simp_all add: starts_with_def)

lemma presence_event:
  assumes "valid_location l" and "opt_all (in_range 0 360) (fst tr)" and "opt_all (\<lambda>v. 0 \<le> v) (snd tr)"
  shows "mk_presence (flat l) (or_else cs ''ATAK'') None (fst (track_back tr)) (snd (track_back tr)) None =
    Inr (case presence_back l cs tr of Presence p \<Rightarrow> p)"
  using track_back_valid [OF assms(2,3)] length_sidc
  by (simp add: mk_presence_def presence_back_def default_sidc_def opt_all_def [of _ "None :: int option"] normalize_20)

lemma contact_event:
  assumes "opt_all (in_range 0 360) (fst tr)" and "opt_all (\<lambda>v. 0 \<le> v) (snd tr)"
  shows "mk_contact l i PRESENT d None (fst (track_back tr)) (snd (track_back tr)) None =
    Inr \<lparr> ct_location = l, ct_identity = i, ct_status = PRESENT, ct_description = d, ct_strength = None,
       ct_course_deg = fst (track_back tr), ct_speed_mps = snd (track_back tr),
       ct_sidc = sync_symbol (sidc ''hostile_contact'' HOSTILE None PRESENT) i PRESENT \<rparr>"
  using track_back_valid [OF assms] by (simp add: mk_contact_def default_sidc_def)

lemma event_body_back:
  assumes "valid_body b" and "view_of b = Some v"
  shows "event_body (vw_type v) (Fin (vw_lat v)) (Fin (vw_lon v))
      \<lparr> cf_callsign = vw_callsign v, cf_remarks = vw_remarks v, cf_course = fst (track_back (body_track b)),
        cf_speed = snd (track_back (body_track b)) \<rparr> = Inr (body_back b)"
proof (cases b)
  case (Presence p)
  have "valid_location (pr_location p)" and tr: "opt_all (in_range 0 360) (fst (body_track b))"
    "opt_all (\<lambda>v. 0 \<le> v) (snd (body_track b))"
    using assms(1) valid_track [OF assms(1)] Presence by (simp_all add: valid_presence_def)
  with presence_event [OF this(1) tr, of "pr_callsign p"] assms(2) show ?thesis
    by (auto simp: Presence event_body_def starts_with_def float_location_valid presence_back_def)
next
  case (ContactSighting c)
  have l: "valid_location (ct_location c)" and tr: "opt_all (in_range 0 360) (fst (body_track b))"
    "opt_all (\<lambda>v. 0 \<le> v) (snd (body_track b))"
    using assms(1) valid_track [OF assms(1)] ContactSighting by (simp_all add: valid_contact_def)
  have v: "v = \<lparr> vw_type = ''a-'' @ dict_get IDENTITY_TO_AFF (ct_identity c) ''u'' @ ''-G'',
     vw_lat = loc_lat (ct_location c), vw_lon = loc_lon (ct_location c), vw_callsign = [],
     vw_remarks = ct_description c \<rparr>"
    using assms(2) ContactSighting by simp
  have parts: "(1::nat) < length [''a'', x, ''G'']" "[''a'', x, ''G''] ! 1 = x" for x :: string by simp_all
  note ev = event_body_def v cot_view.select_convs contact_starts if_False if_True contact_type(1) Let_def
    disj_not1 simp_thms parts float_location_valid [OF l] bindR_simps contact_type(2)
    cot_fields.select_convs
  show ?thesis
  proof (cases "ct_identity c = FRIEND")
    case True
    with presence_event [OF l tr, of "[]"] show ?thesis
      by (simp only: ev) (simp add: ContactSighting presence_back_def or_else_def)
  next
    case False
    with contact_event [OF tr, of "flat (ct_location c)" "identity_back (ct_identity c)" "or_else (ct_description c) ''CoT track''"]
    show ?thesis
      by (simp only: ev contact_type(3)) (simp add: ContactSighting or_else_def)
  qed
next
  case (CasevacRequest x)
  then show ?thesis using assms by (auto simp: event_body_def starts_with_def float_location_valid)
next
  case (Overlay x)
  then show ?thesis using assms by (auto simp: event_body_def starts_with_def float_location_valid split: list.splits)
next
  case (ChatMessage x)
  then show ?thesis using assms by (auto simp: event_body_def starts_with_def or_else_def)
next
  case (GeneralInfo x)
  then show ?thesis using assms by (auto simp: event_body_def starts_with_def or_else_def)
qed (use assms in simp_all)

lemma tree_back:
  assumes "event_of L stale_s m = Some e" and "cot_ok L e" and "valid_body (body m)"
  shows "tree_to_body L e = Inr (body_back (body m))"
proof -
  obtain v where v: "view_of (body m) = Some v"
    and e: "\<exists>atts. e = Cot ''event'' atts None [point_of (cl_str L (vw_lat v)) (cl_str L (vw_lon v)),
        detail_of L v (body_track (body m))] \<and> attr_or e ''type'' [] = vw_type v"
    using assms(1) by (cases "view_of (body m)") (auto simp: event_of_def Let_def attr_or_def dict_get_def)
  have c: "\<forall>x. cl_float L (cl_str L x) = Some (Fin x)" "\<forall>x. cl_str L x \<noteq> []"
    using assms(2) by (simp_all add: cot_ok_def)
  note tr = valid_track [OF assms(3)]
  from e obtain atts where e: "e = Cot ''event'' atts None [point_of (cl_str L (vw_lat v)) (cl_str L (vw_lon v)),
        detail_of L v (body_track (body m))]" and ty: "attr_or e ''type'' [] = vw_type v" by blast
  have "tree_to_body L e = event_body (vw_type v) (Fin (vw_lat v)) (Fin (vw_lon v))
      \<lparr> cf_callsign = vw_callsign v, cf_remarks = vw_remarks v, cf_course = fst (track_back (body_track (body m))),
        cf_speed = snd (track_back (body_track (body m))) \<rparr>"
    unfolding tree_to_body_def ty
    unfolding e point_back [OF c] detail_back [OF c(1) tr [THEN conjunct1] tr [THEN conjunct2]]
    by simp
  then show ?thesis using event_body_back [OF assms(3) v] by simp
qed

text \<open>Property C17: what crosses the CoT bridge: the event of a valid message reads back as exactly
  \<open>body_back\<close> of its body, under the reader's originator and a default header. Position, chat
  text, callsigns and hostile, neutral and pending affiliations survive; altitude, battery,
  strength, status and patient counts do not, a friendly contact comes back as a presence, a
  suspect or assumed friend as unknown, and where only one of course and speed is known the
  other comes back as 0.\<close>

theorem cot_roundtrip:
  assumes "event_of L stale_s m = Some e" and "cot_ok L e" and "valid_message m"
  shows "message_to_cot L stale_s m = Some (cl_tostring L e) \<and>
    cot_to_message L mid now (cl_tostring L e) originator =
      Inr (map_option (\<lambda>b. \<lparr> header = \<lparr> message_id = mid, originator_id = originator, network_id = ''default'',
          reporting_time = now, sequence = 0, classification = 0, releasable_to = ''ALL'' \<rparr>, body = b \<rparr>)
        (body_back (body m)))"
proof -
  have "cl_parse L (cl_tostring L e) = Some e" using assms(2) by (simp add: cot_ok_def)
  moreover have "tree_to_body L e = Inr (body_back (body m))"
    using tree_back [OF assms(1,2)] assms(3) by (simp add: valid_message_def)
  moreover have "mk_header mid originator ''default'' now 0 0 ''ALL'' = Inr \<lparr> message_id = mid,
      originator_id = originator, network_id = ''default'', reporting_time = now, sequence = 0,
      classification = 0, releasable_to = ''ALL'' \<rparr>"
    by (simp add: mk_header_def in_range_def)
  ultimately show ?thesis
    using assms(1) by (simp add: message_to_cot_def cot_to_message_def)
qed

definition demo_point :: location where
  "demo_point = \<lparr> loc_lat = 50, loc_lon = 4, loc_alt_m = None \<rparr>"

definition demo_presence :: message where
  "demo_presence = \<lparr> header = \<lparr> message_id = ''m1'', originator_id = ''a'', network_id = ''net'',
     reporting_time = 1783255112348000, sequence = 1, classification = 0, releasable_to = ''ALL'' \<rparr>,
     body = Presence \<lparr> pr_location = demo_point, pr_callsign = ''ALPHA'', pr_battery_pct = None,
       pr_course_deg = Some 90, pr_speed_mps = None,
       pr_sidc = sidc ''dismounted_infantry'' FRIEND None PRESENT \<rparr> \<rparr>"

text \<open>A library that reads back the one event and writes a number as a fraction.\<close>

definition rat_text :: "rat \<Rightarrow> string" where
  "rat_text x = show_int (fst (quotient_of x)) @ ''/'' @ show_int (snd (quotient_of x))"

definition int_back :: "string \<Rightarrow> int" where
  "int_back s = (case s of [] \<Rightarrow> 0 | c # cs \<Rightarrow> if c = CHR ''-'' then - int (nat_of_digits cs) else int (nat_of_digits s))"

definition rat_back :: "string \<Rightarrow> pyfloat option" where
  "rat_back s = (case split_on (CHR ''/'') s of [a, b] \<Rightarrow> Some (Fin (Fract (int_back a) (int_back b))) | _ \<Rightarrow> None)"

definition demo_lib :: "cot \<Rightarrow> cot_lib" where
  "demo_lib e = \<lparr> cl_parse = (\<lambda>_. Some e), cl_tostring = (\<lambda>_. []), cl_float = rat_back, cl_str = rat_text,
     cl_fromiso = (\<lambda>_. None) \<rparr>"

lemma show_int_chars: "c \<in> set (show_int i) \<Longrightarrow> c = CHR ''-'' \<or> is_digit c"
  using show_nat_digits [of "nat i"] show_nat_digits [of "nat (- i)"]
  by (auto simp: show_int_def list_all_iff split: if_splits)

lemma int_back_show: "int_back (show_int i) = i"
proof -
  obtain c cs where s: "show_nat (nat i) = c # cs" using show_nat_not_Nil [of "nat i"] by (cases "show_nat (nat i)") auto
  then have "is_digit c" using show_nat_digits [of "nat i"] by simp
  then have "c \<noteq> CHR ''-''" by (auto simp: is_digit_def)
  then show ?thesis
    using s nat_of_digits_show [of "nat i"] by (auto simp: int_back_def show_int_def)
qed

lemma split_on_word: "d \<notin> set s \<Longrightarrow> split_on d (s @ d # t) = s # split_on d t"
  by (induction s) auto

lemma split_on_none: "d \<notin> set s \<Longrightarrow> split_on d s = [s]"
  by (induction s) auto

lemma rat_back_text: "rat_back (rat_text x) = Some (Fin x)"
proof -
  have n: "CHR ''/'' \<notin> set (show_int i)" for i
    using show_int_chars by (force simp: is_digit_def)
  have "split_on CHR ''/'' (rat_text x) = [show_int (fst (quotient_of x)), show_int (snd (quotient_of x))]"
    using split_on_word [OF n] split_on_none [OF n] by (simp add: rat_text_def)
  moreover have "Fract (fst (quotient_of x)) (snd (quotient_of x)) = x"
    using quotient_of_div [of x] by (cases "quotient_of x") (simp add: Fract_of_int_quotient)
  ultimately show ?thesis by (simp add: rat_back_def int_back_show)
qed

lemma demo_lib_ok: "cot_ok (demo_lib e) e"
  by (simp add: cot_ok_def demo_lib_def rat_back_text) (simp add: rat_text_def)

definition demo_tree :: cot where
  "demo_tree = Cot [] [] None []"

theorem cot_roundtrip_witness:
  "\<exists>e. cot_to_message (demo_lib e) ''m2'' 7 (cl_tostring (demo_lib e) e) ''b'' =
     Inr (Some \<lparr> header = \<lparr> message_id = ''m2'', originator_id = ''b'', network_id = ''default'',
          reporting_time = 7, sequence = 0, classification = 0, releasable_to = ''ALL'' \<rparr>,
        body = presence_back demo_point ''ALPHA'' (Some 90, None) \<rparr>)"
proof -
  have "event_of (demo_lib e) 60 demo_presence = event_of (demo_lib e') 60 demo_presence" for e e'
    by (simp add: event_of_def detail_of_def demo_lib_def demo_presence_def)
  then have same: "event_of (demo_lib e) 60 demo_presence = event_of (demo_lib demo_tree) 60 demo_presence" for e .
  have "event_of (demo_lib demo_tree) 60 demo_presence \<noteq> None"
    by (simp add: event_of_def demo_presence_def Let_def)
  then obtain e where e: "event_of (demo_lib e) 60 demo_presence = Some e" using same by auto
  have "valid_message demo_presence"
    by (simp add: demo_presence_def valid_message_def valid_header_def valid_presence_def valid_location_def
        demo_point_def opt_all_def in_range_def length_sidc)
  from cot_roundtrip [OF e demo_lib_ok this, of "''m2''" 7 "''b''"] show ?thesis
    by (intro exI [of _ e]) (simp add: demo_presence_def)
qed

end
