(* ===== verification/EventStream.thy ===== *)
theory EventStream
  imports Cot
begin

text \<open>
  The event stream of a CoT connection (\<open>bridges/takserver.py\<close> and the built-in server of
  \<open>web/eud_server.py\<close> read it with the same loop): bytes are buffered and every complete
  \<open><event ... </event>\<close> is cut out and dispatched.
\<close>

section \<open>Searching\<close>

definition occurs :: "'a list \<Rightarrow> 'a list \<Rightarrow> nat \<Rightarrow> bool" where
  "occurs pat xs i \<longleftrightarrow> take (length pat) (drop i xs) = pat"

lemma occurs_fits:
  assumes "pat \<noteq> []" and "occurs pat xs i"
  shows "i + length pat \<le> length xs"
proof -
  have "length (take (length pat) (drop i xs)) = length pat" using assms(2) by (simp add: occurs_def)
  then have "length pat \<le> length xs - i" by (simp add: min_def split: if_splits)
  moreover have "0 < length pat" using assms(1) by simp
  ultimately show ?thesis by linarith
qed

lemma occurs_nth:
  assumes "occurs pat xs i" and "k < length pat" and "i + k < length xs"
  shows "xs ! (i + k) = pat ! k"
proof -
  have "take (length pat) (drop i xs) ! k = drop i xs ! k" using assms(2) by simp
  also have "\<dots> = xs ! (i + k)" using assms(3) by simp
  finally show ?thesis using assms(1) by (simp add: occurs_def)
qed

lemma find_sub_Some:
  "find_sub pat xs = Some i \<longleftrightarrow> occurs pat xs i \<and> (\<forall>j < i. \<not> occurs pat xs j) \<and> i \<le> length xs"
proof (induction xs arbitrary: i)
  case Nil
  show ?case by (auto simp: occurs_def)
next
  case (Cons x xs)
  show ?case
  proof (cases i)
    case 0
    then show ?thesis by (auto simp: occurs_def)
  next
    case (Suc k)
    have "(\<forall>j < Suc k. \<not> occurs pat (x # xs) j) \<longleftrightarrow> \<not> occurs pat (x # xs) 0 \<and> (\<forall>j < k. \<not> occurs pat xs j)"
      by (auto simp: occurs_def less_Suc_eq_0_disj)
    then show ?thesis using Suc Cons.IH [of k] by (auto simp: occurs_def)
  qed
qed

lemma find_sub_None: "find_sub pat xs = None \<longleftrightarrow> (\<forall>j \<le> length xs. \<not> occurs pat xs j)"
proof (induction xs)
  case (Cons x xs)
  have all: "(\<forall>j \<le> Suc n. P j) \<longleftrightarrow> P 0 \<and> (\<forall>j \<le> n. P (Suc j))" for P n
    by (metis Suc_le_mono le0 not0_implies_Suc)
  have "occurs pat (x # xs) (Suc j) = occurs pat xs j" for j by (simp add: occurs_def)
  then have "(\<forall>j \<le> Suc (length xs). \<not> occurs pat (x # xs) j) \<longleftrightarrow> \<not> occurs pat (x # xs) 0 \<and> (\<forall>j \<le> length xs. \<not> occurs pat xs j)"
    by (simp only: all)
  then show ?case using Cons.IH by (simp add: occurs_def)
qed (simp add: occurs_def)

lemma occurs_append:
  assumes "i + length pat \<le> length xs"
  shows "occurs pat (xs @ ys) i = occurs pat xs i"
  using assms by (simp add: occurs_def)

lemma find_sub_append:
  assumes "find_sub pat xs = Some i" and "pat \<noteq> []"
  shows "find_sub pat (xs @ ys) = Some i"
proof -
  have i: "occurs pat xs i" "\<forall>j < i. \<not> occurs pat xs j" using assms(1) by (simp_all add: find_sub_Some)
  from occurs_fits [OF assms(2) i(1)] have fit: "i + length pat \<le> length xs" .
  then have "\<forall>j < i. \<not> occurs pat (xs @ ys) j" using i(2) occurs_append [of _ pat xs ys] by simp
  then show ?thesis using i(1) fit by (simp add: find_sub_Some occurs_append)
qed

section \<open>The read loop\<close>

definition EVENT_END :: bytes where
  "EVENT_END = map byte_of ''</event>''"

definition EVENT_START :: bytes where
  "EVENT_START = map byte_of ''<event''"

lemma event_lits:
  "length EVENT_END = 8" "length EVENT_START = 6" "EVENT_END \<noteq> []" "EVENT_START \<noteq> []"
  by (simp_all add: EVENT_END_def EVENT_START_def)

lemma find_end_fits: "find_sub EVENT_END buf = Some i \<Longrightarrow> i + 8 \<le> length buf"
  using occurs_fits [of EVENT_END buf i] by (simp add: find_sub_Some event_lits)

function drain :: "bytes \<Rightarrow> bytes list \<times> bytes" where
  "drain buf =
     (case find_sub EVENT_END buf of
        None \<Rightarrow> ([], buf)
      | Some i \<Rightarrow>
          (let end_pos = i + length EVENT_END; rest = drop end_pos buf in
           case find_sub EVENT_START buf of
             None \<Rightarrow> drain rest
           | Some start \<Rightarrow>
               if start > end_pos then drain rest
               else (let (docs, buf') = drain rest in (slice start end_pos buf # docs, buf'))))"
  by pat_completeness auto
termination
  by (relation "measure length") (auto dest!: find_end_fits simp: event_lits)

declare drain.simps [simp del]

text \<open>Reading chunk after chunk.\<close>

fun feed :: "bytes \<Rightarrow> bytes list \<Rightarrow> bytes list \<times> bytes" where
  "feed buf [] = ([], buf)"
| "feed buf (chunk # chunks) =
     (let (docs, buf') = drain (buf @ chunk); (more, buf'') = feed buf' chunks in (docs @ more, buf''))"

definition events :: "bytes list \<Rightarrow> bytes list" where
  "events docs = filter (\<lambda>d. d \<noteq> []) docs"

lemma drain_none: "find_sub EVENT_END buf = None \<Longrightarrow> drain buf = ([], buf)"
  by (subst drain.simps) simp

lemma drain_induct [case_names step]:
  assumes "\<And>b. (\<And>i. find_sub EVENT_END b = Some i \<Longrightarrow> P (drop (i + 8) b)) \<Longrightarrow> P b"
  shows "P b"
proof (induction b rule: measure_induct_rule [of length])
  case (less b)
  show ?case by (rule assms, rule less) (auto dest!: find_end_fits)
qed

text \<open>Where an opening tag that is complete only with the next chunk can begin: never inside a
  closing tag.\<close>

lemma end_has_no_bracket: "k \<in> {1, 2, 3, 4, 5, 6, 7} \<Longrightarrow> EVENT_END ! k \<noteq> EVENT_START ! 0"
  by (auto simp: EVENT_END_def EVENT_START_def byte_of_def)

lemma start_not_inside_end:
  assumes "occurs EVENT_END b i" and "occurs EVENT_START (b @ c) s" and "\<not> occurs EVENT_START b s"
    and "s \<le> i + 8"
  shows "s = i + 8"
proof (rule ccontr)
  assume "s \<noteq> i + 8"
  with assms(4) have lt: "s < i + 8" by simp
  have fit: "i + 8 \<le> length b" using occurs_fits [OF _ assms(1)] by (simp add: event_lits)
  have "\<not> s + 6 \<le> length b"
    using assms(2,3) occurs_append [of s EVENT_START b c] by (auto simp: event_lits)
  then have "i < s" using fit by simp
  have "(b @ c) ! (s + 0) = EVENT_START ! 0"
    by (rule occurs_nth [OF assms(2)]) (use lt fit in \<open>simp_all add: event_lits\<close>)
  moreover have "b ! (i + (s - i)) = EVENT_END ! (s - i)"
    by (rule occurs_nth [OF assms(1)]) (use lt fit \<open>i < s\<close> in \<open>simp_all add: event_lits\<close>)
  ultimately have "EVENT_END ! (s - i) = EVENT_START ! 0" using lt fit \<open>i < s\<close> by (simp add: nth_append)
  moreover have "s - i \<in> {1, 2, 3, 4, 5, 6, 7}" using lt \<open>i < s\<close> by auto
  ultimately show False using end_has_no_bracket by blast
qed

lemma drain_step:
  assumes "find_sub EVENT_END b = Some i"
  shows "drain b = (case find_sub EVENT_START b of
       None \<Rightarrow> drain (drop (i + 8) b)
     | Some s \<Rightarrow> if s > i + 8 then drain (drop (i + 8) b)
         else (slice s (i + 8) b # fst (drain (drop (i + 8) b)), snd (drain (drop (i + 8) b))))"
  using assms by (subst drain.simps) (auto simp: Let_def event_lits split: option.split prod.split)

lemma drain_rest: "find_sub EVENT_END (snd (drain b)) = None"
proof (induction b rule: drain_induct)
  case (step b)
  then show ?case
    by (cases "find_sub EVENT_END b") (simp_all add: drain_none drain_step split: option.split)
qed

lemma drain_append:
  "events (fst (drain (b @ c))) = events (fst (drain b)) @ events (fst (drain (snd (drain b) @ c))) \<and>
   snd (drain (b @ c)) = snd (drain (snd (drain b) @ c))"
proof (induction b rule: drain_induct)
  case (step b)
  show ?case
  proof (cases "find_sub EVENT_END b")
    case None
    then show ?thesis by (simp add: drain_none events_def)
  next
    case (Some i)
    have fit: "i + 8 \<le> length b" by (rule find_end_fits [OF Some])
    have more: "find_sub EVENT_END (b @ c) = Some i" by (rule find_sub_append [OF Some event_lits(3)])
    have rest: "drop (i + 8) (b @ c) = drop (i + 8) b @ c" using fit by simp
    note d = drain_step [OF Some] and d' = drain_step [OF more, unfolded rest] and IH = step [OF Some]
    show ?thesis
    proof (cases "find_sub EVENT_START b")
      case (Some s)
      have same: "find_sub EVENT_START (b @ c) = Some s" by (rule find_sub_append [OF Some event_lits(4)])
      have cut: "slice s (i + 8) (b @ c) = slice s (i + 8) b" if "s \<le> i + 8"
        using that fit by (simp add: slice_def)
      show ?thesis
        using IH cut unfolding d d' Some same by (simp add: events_def)
    next
      case None
      have "slice s (i + 8) (b @ c) = []" if "find_sub EVENT_START (b @ c) = Some s" "s \<le> i + 8" for s
      proof -
        have "s \<le> length b" using that(2) fit by simp
        then have "\<not> occurs EVENT_START b s" using None by (simp add: find_sub_None)
        moreover have "occurs EVENT_END b i" "occurs EVENT_START (b @ c) s"
          using \<open>find_sub EVENT_END b = Some i\<close> that(1) by (simp_all add: find_sub_Some)
        ultimately have "s = i + 8" using start_not_inside_end that(2) by blast
        then show ?thesis by (simp add: slice_def)
      qed
      then show ?thesis
        using IH unfolding d d' None by (auto simp: events_def split: option.split)
    qed
  qed
qed

lemma feed_drain:
  "find_sub EVENT_END b = None \<Longrightarrow>
   events (fst (feed b chunks)) = events (fst (drain (b @ concat chunks))) \<and>
   snd (feed b chunks) = snd (drain (b @ concat chunks))"
proof (induction chunks arbitrary: b)
  case Nil
  then show ?case by (simp add: drain_none)
next
  case (Cons c cs)
  have "find_sub EVENT_END (snd (drain (b @ c))) = None" by (rule drain_rest)
  from Cons.IH [OF this] drain_append [of "b @ c" "concat cs"] show ?case
    by (simp add: case_prod_unfold events_def Let_def)
qed

section \<open>What comes out\<close>

text \<open>One complete event and nothing behind it.\<close>

definition is_event :: "bytes \<Rightarrow> bool" where
  "is_event d \<longleftrightarrow> find_sub EVENT_START d = Some 0 \<and> find_sub EVENT_END d = Some (length d - 8) \<and> 8 \<le> length d"

text \<open>Bytes between events: no angle bracket.\<close>

definition is_junk :: "bytes \<Rightarrow> bool" where
  "is_junk j \<longleftrightarrow> byte_of (CHR ''<'') \<notin> set j"

lemma junk_skips:
  assumes "is_junk j" and "find_sub pat d = Some i" and "pat \<noteq> []" and "hd pat = byte_of (CHR ''<'')"
  shows "find_sub pat (j @ d) = Some (length j + i)"
  using assms(1)
proof (induction j)
  case (Cons x j)
  have "take (length pat) (x # j @ d) \<noteq> pat"
    using Cons.prems assms(3,4) by (cases pat) (auto simp: is_junk_def)
  then show ?case using Cons by (simp add: is_junk_def)
qed (use assms(2) in simp)

lemma drain_event:
  assumes "is_junk j" and "is_event d"
  shows "drain (j @ d @ rest) = (d # fst (drain rest), snd (drain rest))"
proof -
  have h: "hd EVENT_END = byte_of (CHR ''<'')" "hd EVENT_START = byte_of (CHR ''<'')"
    by (simp_all add: EVENT_END_def EVENT_START_def)
  have "find_sub EVENT_END (d @ rest) = Some (length d - 8)" "find_sub EVENT_START (d @ rest) = Some 0"
    using assms(2) find_sub_append event_lits(3,4) unfolding is_event_def by blast+
  then have e: "find_sub EVENT_END (j @ d @ rest) = Some (length j + (length d - 8))"
    "find_sub EVENT_START (j @ d @ rest) = Some (length j)"
    using junk_skips [OF assms(1)] event_lits(3,4) h by fastforce+
  moreover have "length j + (length d - 8) + 8 = length j + length d" using assms(2) by (simp add: is_event_def)
  ultimately show ?thesis
    by (subst drain_step [OF e(1)]) (simp add: slice_def)
qed


definition demo_event :: bytes where
  "demo_event = map byte_of ''<event a></event>''"

lemma demo_is_event: "is_event demo_event"
  by code_simp


text \<open>The off-by-one in the loop's guard: an opening tag right behind a closing tag that has none of its
  own makes it dispatch an empty document.\<close>

lemma empty_document_dispatched:
  "fst (drain (EVENT_END @ EVENT_START)) = [[]]" "fst (drain (EVENT_END @ [0] @ EVENT_START)) = []"
  by code_simp+

end
