(* ===== verification/TakServer.thy ===== *)
theory TakServer
  imports EventStream "HOL-Library.Multiset"
begin

text \<open>
  \<open>bridges/takserver.py\<close>: the connector that keeps a CoT stream to a TAK server up. The coroutine
  \<open>_run\<close> with the methods other tasks call is a step relation (\<open>tak_step\<close>): each step is what runs
  between two awaits, its label what the network or a caller did, its output the frames written
  and the documents dispatched. TLS contexts and sockets are outside.
\<close>

section \<open>State\<close>

datatype phase = Idle | Connecting | Reading | Sleeping | Halted

record connector =
  tc_host :: string
  tc_port :: int
  tc_tls :: bool
  tc_verify :: bool
  tc_certs :: "string option \<times> string option \<times> string option"
  tc_base :: rat
  tc_max :: rat
  tc_queue_max :: nat
  tc_queue :: "bytes list"
  tc_phase :: phase
  tc_stopped :: bool
  tc_backoff :: rat
  tc_buf :: bytes
  tc_connects :: nat
  tc_dropped :: nat
  tc_last_error :: "string option"

definition connector_init ::
  "string \<Rightarrow> int \<Rightarrow> bool \<Rightarrow> bool \<Rightarrow> string option \<times> string option \<times> string option \<Rightarrow> rat \<Rightarrow> rat \<Rightarrow> int \<Rightarrow> connector" where
  "connector_init host port tls verify certs base mx queue_max =
     \<lparr> tc_host = host, tc_port = port, tc_tls = tls, tc_verify = verify, tc_certs = certs, tc_base = base,
       tc_max = mx, tc_queue_max = nat (max 1 queue_max), tc_queue = [], tc_phase = Idle,
       tc_stopped = False, tc_backoff = base, tc_buf = [], tc_connects = 0, tc_dropped = 0,
       tc_last_error = None \<rparr>"

definition started :: "connector \<Rightarrow> connector" where
  "started c = c\<lparr>tc_stopped := False, tc_phase := Connecting, tc_backoff := tc_base c\<rparr>"

text \<open>A writer exists exactly while the read loop runs.\<close>

definition connected :: "connector \<Rightarrow> bool" where
  "connected c \<longleftrightarrow> tc_phase c = Reading"

definition reconnects :: "connector \<Rightarrow> nat" where
  "reconnects c = tc_connects c - 1"

definition queued :: "connector \<Rightarrow> nat" where
  "queued c = length (tc_queue c)"

section \<open>Sending\<close>

definition enqueue :: "bytes \<Rightarrow> connector \<Rightarrow> connector" where
  "enqueue frame c =
     (let c = (if tc_queue_max c \<le> length (tc_queue c) then c\<lparr>tc_dropped := tc_dropped c + 1\<rparr> else c)
      in c\<lparr>tc_queue := deque_append (tc_queue_max c) frame (tc_queue c)\<rparr>)"

definition with_newline :: "bytes \<Rightarrow> bytes" where
  "with_newline frame = (if frame \<noteq> [] \<and> last frame = 10 then frame else frame @ [10])"

text \<open>\<open>outcome\<close>: what writing and draining gives.\<close>

definition tak_send :: "unit result \<Rightarrow> bytes \<Rightarrow> connector \<Rightarrow> bytes list \<times> connector" where
  "tak_send outcome frame c =
     (if \<not> connected c then ([], enqueue frame c)
      else (case outcome of
              Inr _ \<Rightarrow> ([with_newline frame], c)
            | Inl e \<Rightarrow> ([], enqueue frame (c\<lparr>tc_last_error := Some (exn_str e)\<rparr>))))"

text \<open>\<open>outcomes n\<close> is that of the \<open>n\<close>-th write.\<close>

fun flush_from :: "nat \<Rightarrow> (nat \<Rightarrow> unit result) \<Rightarrow> bytes list \<Rightarrow> bytes list \<times> bytes list \<times> string option" where
  "flush_from n outcomes [] = ([], [], None)"
| "flush_from n outcomes (f # fs) =
     (case outcomes n of
        Inl e \<Rightarrow> ([], f # fs, Some (exn_str e))
      | Inr _ \<Rightarrow> (case flush_from (Suc n) outcomes fs of (w, q, e) \<Rightarrow> (with_newline f # w, q, e)))"

definition flush_queue :: "(nat \<Rightarrow> unit result) \<Rightarrow> connector \<Rightarrow> bytes list \<times> connector" where
  "flush_queue outcomes c =
     (case flush_from 0 outcomes (tc_queue c) of
        (w, q, e) \<Rightarrow> (w, c\<lparr>tc_queue := q, tc_last_error := (case e of None \<Rightarrow> tc_last_error c | Some _ \<Rightarrow> e)\<rparr>))"

section \<open>The supervisor\<close>

text \<open>After the \<open>finally\<close> block: stop if asked to, otherwise sleep.\<close>

definition link_down :: "string option \<Rightarrow> connector \<Rightarrow> connector" where
  "link_down err c =
     c\<lparr>tc_last_error := (case err of None \<Rightarrow> tc_last_error c | Some _ \<Rightarrow> err),
       tc_phase := (if tc_stopped c then Halted else Sleeping), tc_buf := []\<rparr>"

datatype tak_event =
    Start
  | ConnectOk "nat \<Rightarrow> unit result"
  | ConnectFail string
  | Chunk bytes
  | EndOfStream
  | ReadError string
  | HandlerError string
  | Wake
  | SendFrame bytes "unit result"
  | Stop

inductive tak_step :: "connector \<Rightarrow> tak_event \<Rightarrow> bytes list \<Rightarrow> bytes list \<Rightarrow> connector \<Rightarrow> bool" where
  start: "tc_phase c = Idle \<or> tc_phase c = Halted \<Longrightarrow>
    tak_step c Start [] [] (started c)"
| connect: "tc_phase c = Connecting \<Longrightarrow>
    flush_queue outcomes (c\<lparr>tc_connects := tc_connects c + 1, tc_phase := Reading, tc_backoff := tc_base c, tc_buf := []\<rparr>)
      = (w, c') \<Longrightarrow>
    tak_step c (ConnectOk outcomes) w [] c'"
| refused: "tc_phase c = Connecting \<Longrightarrow> tak_step c (ConnectFail e) [] [] (link_down (Some e) c)"
| chunk: "tc_phase c = Reading \<Longrightarrow> data \<noteq> [] \<Longrightarrow> drain (tc_buf c @ data) = (docs, buf) \<Longrightarrow>
    tak_step c (Chunk data) [] docs (c\<lparr>tc_buf := buf\<rparr>)"
| closed: "tc_phase c = Reading \<Longrightarrow> tak_step c EndOfStream [] [] (link_down None c)"
| broken: "tc_phase c = Reading \<Longrightarrow> tak_step c (ReadError e) [] [] (link_down (Some e) c)"
| handler_raised: "tc_phase c = Reading \<Longrightarrow> tak_step c (HandlerError e) [] [] (link_down (Some e) c)"
| wake: "tc_phase c = Sleeping \<Longrightarrow>
    tak_step c Wake [] [] (c\<lparr>tc_phase := Connecting, tc_backoff := min (tc_max c) (tc_backoff c * 2)\<rparr>)"
| send: "tak_send outcome frame c = (w, c') \<Longrightarrow> tak_step c (SendFrame frame outcome) w [] c'"
| stop: "tak_step c Stop [] [] (c\<lparr>tc_stopped := True, tc_buf := [],
    tc_phase := (if tc_phase c = Idle then Idle else Halted)\<rparr>)"

inductive_cases start_cases: "tak_step c Start w ds c'"
inductive_cases send_cases: "tak_step c (SendFrame f r) w ds c'"
inductive_cases wake_cases: "tak_step c Wake w ds c'"
inductive_cases chunk_cases: "tak_step c (Chunk b) w ds c'"
inductive_simps wake_simps: "tak_step c Wake w ds c'"
inductive_simps refused_simps: "tak_step c (ConnectFail e) w ds c'"

text \<open>A history: what callers offered, what was written, what was dispatched.\<close>

fun offered :: "tak_event \<Rightarrow> bytes list" where
  "offered (SendFrame f _) = [f]"
| "offered _ = []"

inductive tak_run :: "connector \<Rightarrow> bytes list \<Rightarrow> bytes list \<Rightarrow> connector \<Rightarrow> bool" where
  none: "tak_run c [] [] c"
| more: "tak_run c offs ws c' \<Longrightarrow> tak_step c' ev w ds c'' \<Longrightarrow> tak_run c (offs @ offered ev) (ws @ w) c''"

section \<open>No frame is lost unnoticed\<close>

definition accounts :: "bytes list \<Rightarrow> bytes list \<Rightarrow> connector \<Rightarrow> bool" where
  "accounts offs ws c \<longleftrightarrow>
     length offs = length ws + length (tc_queue c) + tc_dropped c \<and>
     mset ws + mset (map with_newline (tc_queue c)) \<subseteq># mset (map with_newline offs) \<and>
     length (tc_queue c) \<le> tc_queue_max c \<and> 1 \<le> tc_queue_max c"

lemma enqueue_accounts:
  assumes "accounts offs ws c"
  shows "accounts (offs @ [f]) ws (enqueue f c)"
proof -
  let ?q = "tc_queue c" and ?n = "with_newline"
  have a: "length offs = length ws + length ?q + tc_dropped c" "length ?q \<le> tc_queue_max c" "1 \<le> tc_queue_max c"
    and m: "mset ws + mset (map ?n ?q) \<subseteq># mset (map ?n offs)"
    using assms by (simp_all add: accounts_def)
  show ?thesis
  proof (cases "length ?q < tc_queue_max c")
    case True
    then show ?thesis using a m by (simp add: accounts_def enqueue_def deque_append_def Let_def)
  next
    case False
    then obtain x q where q: "?q = x # q" using a(2,3) by (cases ?q) auto
    have "mset ws + mset (map ?n q) \<subseteq># mset (map ?n offs)"
      using m q by (auto intro: subset_mset.order_trans [rotated])
    then show ?thesis using False a q by (simp add: accounts_def enqueue_def deque_append_def Let_def)
  qed
qed

lemma flush_from_keeps: "flush_from n outs q = (w, q', e) \<Longrightarrow> w @ map with_newline q' = map with_newline q"
  by (induction n outs q arbitrary: w q' e rule: flush_from.induct) (auto split: sum.splits prod.splits)

lemma flush_from_length: "flush_from n outs q = (w, q', e) \<Longrightarrow> length w + length q' = length q"
  by (induction n outs q arbitrary: w q' e rule: flush_from.induct) (auto split: sum.splits prod.splits)

lemma flush_accounts:
  assumes "accounts offs ws c" and "flush_queue outs c = (w, c')"
  shows "accounts offs (ws @ w) c'"
proof -
  obtain q e where f: "flush_from 0 outs (tc_queue c) = (w, q, e)"
    and c': "tc_queue c' = q" "tc_dropped c' = tc_dropped c" "tc_queue_max c' = tc_queue_max c"
    using assms(2) by (auto simp: flush_queue_def split: prod.splits)
  have "mset (map with_newline (tc_queue c)) = mset w + mset (map with_newline q)"
    by (metis flush_from_keeps [OF f] mset_append)
  then show ?thesis
    using assms(1) flush_from_length [OF f] by (simp add: accounts_def c' union_assoc)
qed

lemma accounts_cong:
  "accounts offs ws c \<Longrightarrow> tc_queue c' = tc_queue c \<Longrightarrow> tc_dropped c' = tc_dropped c \<Longrightarrow>
   tc_queue_max c' = tc_queue_max c \<Longrightarrow> accounts offs ws c'"
  by (simp add: accounts_def)

lemma send_accounts:
  assumes "accounts offs ws c" and "tak_send outcome f c = (w, c')"
  shows "accounts (offs @ [f]) (ws @ w) c'"
proof -
  have e: "accounts offs ws (c\<lparr>tc_last_error := x\<rparr>)" for x using assms(1) by (rule accounts_cong) simp_all
  have "accounts (offs @ [f]) (ws @ [with_newline f]) c" using assms(1) by (simp add: accounts_def)
  then show ?thesis
    using assms(2) enqueue_accounts [OF assms(1)] enqueue_accounts [OF e]
    by (auto simp: tak_send_def split: if_splits sum.splits)
qed

lemma step_accounts:
  "tak_step c ev w ds c' \<Longrightarrow> accounts offs ws c \<Longrightarrow> accounts (offs @ offered ev) (ws @ w) c'"
proof (induction rule: tak_step.induct)
  case (connect c outcomes w c')
  have "accounts offs ws (c\<lparr>tc_connects := tc_connects c + 1, tc_phase := Reading, tc_backoff := tc_base c, tc_buf := []\<rparr>)"
    using connect(3) by (rule accounts_cong) simp_all
  from flush_accounts [OF this connect(2)] show ?case by simp
next
  case (send outcome frame c w c')
  then show ?case using send_accounts by simp
qed (auto elim: accounts_cong simp: link_down_def started_def)

lemma run_accounts: "tak_run c offs ws c' \<Longrightarrow> accounts [] [] c \<Longrightarrow> accounts offs ws c'"
  by (induction rule: tak_run.induct) (simp_all add: step_accounts)

text \<open>Property C13: no frame disappears unnoticed: whatever the network does, the frames callers handed
  to a connector are those written, those still queued and those counted as dropped; what was
  written or is queued came from callers, each frame at most as often as it was offered; and
  the queue never exceeds its bound.\<close>

theorem frames_accounted:
  assumes "tak_run (connector_init host port tls verify certs base mx queue_max) offs ws c"
  shows "length offs = length ws + queued c + tc_dropped c \<and>
    mset ws + mset (map with_newline (tc_queue c)) \<subseteq># mset (map with_newline offs) \<and>
    queued c \<le> tc_queue_max c"
proof -
  have "accounts [] [] (connector_init host port tls verify certs base mx queue_max)"
    by (simp add: accounts_def connector_init_def)
  from run_accounts [OF assms this] show ?thesis by (simp add: accounts_def queued_def)
qed

section \<open>Reconnecting\<close>

text \<open>\<open>n\<close> attempts in a row that fail, each followed by its sleep.\<close>

inductive retries :: "connector \<Rightarrow> nat \<Rightarrow> connector \<Rightarrow> bool" where
  zero: "retries c 0 c"
| again: "retries c n c' \<Longrightarrow> tak_step c' (ConnectFail e) [] [] d \<Longrightarrow> tak_step d Wake [] [] d' \<Longrightarrow> retries c (Suc n) d'"

lemma retries_state:
  assumes "retries c n c'" and "tc_phase c = Connecting" and "\<not> tc_stopped c" and "tc_backoff c = tc_base c"
    and "tc_base c \<le> tc_max c" and "0 \<le> tc_base c"
  shows "tc_phase c' = Connecting \<and> \<not> tc_stopped c' \<and> tc_base c' = tc_base c \<and> tc_max c' = tc_max c \<and>
    tc_backoff c' = min (tc_max c) (tc_base c * 2 ^ n)"
  using assms
proof (induction rule: retries.induct)
  case (again c n c' e d d')
  let ?b = "tc_base c" and ?m = "tc_max c"
  have IH: "tc_base c' = ?b" "tc_max c' = ?m" "tc_backoff c' = min ?m (?b * 2 ^ n)" "\<not> tc_stopped c'"
    using again by simp_all
  have d: "d' = (link_down (Some e) c')\<lparr>tc_phase := Connecting, tc_backoff := min (tc_max c') (tc_backoff c' * 2)\<rparr>"
    using again(2,3) by (auto simp: wake_simps refused_simps link_down_def)
  have "min ?m (min ?m (?b * 2 ^ n) * 2) = min ?m (?b * 2 ^ Suc n)"
  proof -
    have "0 \<le> ?b * 2 ^ n" "0 \<le> ?m" using again.prems(4,5) by simp_all
    then show ?thesis by (auto simp: min_def)
  qed
  then show ?case using IH by (simp add: d link_down_def)
qed simp

text \<open>The reconnect delay doubles from its base with every failed attempt up to its
  maximum, never beyond, and the connector keeps trying until it is stopped; an attempt that
  succeeds at any point resets the delay to the base.\<close>

theorem backoff_doubles:
  assumes "retries c n c'" and "tc_phase c = Connecting" and "\<not> tc_stopped c" and "tc_backoff c = tc_base c"
    and "tc_base c \<le> tc_max c" and "0 \<le> tc_base c"
  shows "tc_backoff c' = min (tc_max c) (tc_base c * 2 ^ n) \<and>
    (\<exists>w c''. tak_step c' (ConnectOk outcomes) w [] c'' \<and> tc_phase c'' = Reading \<and> tc_backoff c'' = tc_base c) \<and>
    (\<exists>d. tak_step c' (ConnectFail e) [] [] d \<and> tc_phase d = Sleeping)"
proof -
  have s: "tc_phase c' = Connecting" "\<not> tc_stopped c'" "tc_base c' = tc_base c"
    "tc_backoff c' = min (tc_max c) (tc_base c * 2 ^ n)"
    using retries_state [OF assms] by simp_all
  let ?r = "c'\<lparr>tc_connects := tc_connects c' + 1, tc_phase := Reading, tc_backoff := tc_base c', tc_buf := []\<rparr>"
  obtain w c'' where f: "flush_queue outcomes ?r = (w, c'')" by (cases "flush_queue outcomes ?r")
  then have "tc_phase c'' = Reading" "tc_backoff c'' = tc_base c"
    using s(3) by (auto simp: flush_queue_def split: prod.splits)
  moreover have "tak_step c' (ConnectOk outcomes) w [] c''" by (rule tak_step.connect [OF s(1) f])
  moreover have "tak_step c' (ConnectFail e) [] [] (link_down (Some e) c')" by (rule tak_step.refused [OF s(1)])
  moreover have "tc_phase (link_down (Some e) c') = Sleeping" using s(2) by (simp add: link_down_def)
  ultimately show ?thesis using s(4) by blast
qed

definition demo_connector :: connector where
  "demo_connector = connector_init ''h'' 8089 False True (None, None, None) (1/2) 30 1"

theorem frames_accounted_witness:
  "queued (enqueue [2] (enqueue [1] demo_connector)) + tc_dropped (enqueue [2] (enqueue [1] demo_connector)) = 2"
proof -
  have "tak_run demo_connector ([] @ offered (SendFrame [1] (Inr ()))) ([] @ []) (enqueue [1] demo_connector)"
    by (rule tak_run.more [OF tak_run.none tak_step.send]) (simp add: tak_send_def connected_def demo_connector_def connector_init_def)
  from tak_run.more [OF this tak_step.send, of "Inr ()" "[2]" "[]" "enqueue [2] (enqueue [1] demo_connector)"]
  have "tak_run demo_connector [[1], [2]] [] (enqueue [2] (enqueue [1] demo_connector))"
    by (simp add: tak_send_def connected_def demo_connector_def connector_init_def enqueue_def)
  from frames_accounted [OF this [unfolded demo_connector_def]] show ?thesis
    by (simp add: demo_connector_def)
qed

theorem backoff_doubles_witness:
  "\<exists>c'. retries (demo_connector\<lparr>tc_phase := Connecting\<rparr>) 1 c' \<and> tc_backoff c' = min 30 (1/2 * 2 ^ 1)"
proof -
  let ?c = "demo_connector\<lparr>tc_phase := Connecting\<rparr>"
  have "tak_step ?c (ConnectFail ''refused'') [] [] (link_down (Some ''refused'') ?c)"
    by (rule tak_step.refused) simp
  moreover have "tc_phase (link_down (Some ''refused'') ?c) = Sleeping"
    by (simp add: link_down_def demo_connector_def connector_init_def)
  ultimately obtain c' where r: "retries ?c (Suc 0) c'"
    using retries.again [OF retries.zero _ tak_step.wake] by blast
  from backoff_doubles [OF r, of "\<lambda>_. Inr ()" "[]"] r show ?thesis
    by (auto simp: demo_connector_def connector_init_def)
qed

end
