(* ===== verification/CotLog.thy ===== *)
theory CotLog
  imports TakServer Metrics Config
begin

text \<open>
  \<open>web/cotlog.py\<close>: the bounded log of the CoT frames crossing the bridges, and what the two bridges
  of \<open>web/\<close> share: the outside world they run in (\<open>bridge_env\<close>), the calls they make (\<open>bcall\<close>) and
  the header they give a bridged message.
\<close>

section \<open>The outside\<close>

text \<open>\<open>be_text\<close> is \<open>bytes.decode("utf-8", "replace")\<close>; \<open>be_ids\<close> are the next two message ids;
  \<open>be_mkstemp\<close> is the path of a new temporary file for a suffix and a content.\<close>

record bridge_env =
  be_lib :: cot_lib
  be_text :: "bytes \<Rightarrow> string"
  be_now :: int
  be_ids :: "string \<times> string"
  be_mkstemp :: "string \<Rightarrow> string \<Rightarrow> string"

datatype bcall =
    Ingest message
  | SendTo string bytes
  | StartConn string
  | StopConn string
  | Unlink string
  | WriteTo nat bytes
  | CloseClient nat
  | Listen string int
  | CloseListener
  | Publish body
  | Multicast bytes

section \<open>The traffic log\<close>

definition MAX_RAW :: nat where
  "MAX_RAW = 8192"

record traffic_entry =
  te_ts :: int
  te_peer :: string
  te_direction :: string
  te_type :: "string option"
  te_uid :: "string option"
  te_callsign :: "string option"
  te_remarks :: "string option"
  te_size :: nat
  te_raw :: string

definition child_attr :: "string \<Rightarrow> string \<Rightarrow> cot option \<Rightarrow> string option" where
  "child_attr t k e = (case e of None \<Rightarrow> None
     | Some d \<Rightarrow> (case find_child t d of None \<Rightarrow> None | Some c \<Rightarrow> attr c k))"

definition child_text :: "string \<Rightarrow> cot option \<Rightarrow> string option" where
  "child_text t e = (case e of None \<Rightarrow> None
     | Some d \<Rightarrow> (case find_child t d of None \<Rightarrow> None
         | Some c \<Rightarrow> (case cot_text c of Some x \<Rightarrow> if x = [] then None else Some x | None \<Rightarrow> None)))"

definition parse_traffic :: "bridge_env \<Rightarrow> string \<Rightarrow> string \<Rightarrow> bytes \<Rightarrow> traffic_entry" where
  "parse_traffic B peer dir raw =
     (let ev = (case cl_parse (be_lib B) raw of None \<Rightarrow> None
                | Some e \<Rightarrow> if cot_tag e = ''event'' then Some e else None);
          d = (case ev of None \<Rightarrow> None | Some e \<Rightarrow> find_child ''detail'' e)
      in \<lparr> te_ts = be_now B, te_peer = peer, te_direction = dir,
           te_type = (case ev of None \<Rightarrow> None | Some e \<Rightarrow> attr e ''type''),
           te_uid = (case ev of None \<Rightarrow> None | Some e \<Rightarrow> attr e ''uid''),
           te_callsign = child_attr ''contact'' ''callsign'' d, te_remarks = child_text ''remarks'' d,
           te_size = length raw, te_raw = take MAX_RAW (be_text B raw) \<rparr>)"

record traffic_log =
  tl_buf :: "traffic_entry list"
  tl_capacity :: nat

definition traffic_init :: traffic_log where
  "traffic_init = \<lparr> tl_buf = [], tl_capacity = 500 \<rparr>"

definition traffic_add :: "traffic_entry \<Rightarrow> traffic_log \<Rightarrow> traffic_log" where
  "traffic_add e l = l\<lparr>tl_buf := deque_append (tl_capacity l) e (tl_buf l)\<rparr>"

definition traffic_record :: "bridge_env \<Rightarrow> string \<Rightarrow> string \<Rightarrow> bytes \<Rightarrow> traffic_log \<Rightarrow> traffic_log" where
  "traffic_record B peer dir raw l = traffic_add (parse_traffic B peer dir raw) l"

definition traffic_recent :: "int \<Rightarrow> string option \<Rightarrow> traffic_log \<Rightarrow> traffic_entry list" where
  "traffic_recent limit peer l =
     tail_slice limit (filter (\<lambda>e. case peer of None \<Rightarrow> True | Some p \<Rightarrow> te_peer e = p) (tl_buf l))"

definition traffic_counts :: "traffic_log \<Rightarrow> (string, nat) dict" where
  "traffic_counts l = foldl (\<lambda>c e. count_key (te_direction e) c) [(''in'', 0), (''out'', 0)] (tl_buf l)"

definition traffic_clear :: "traffic_log \<Rightarrow> nat \<times> traffic_log" where
  "traffic_clear l = (length (tl_buf l), l\<lparr>tl_buf := []\<rparr>)"

interpretation traffic: bounded_log traffic_add tl_buf tl_capacity
  by unfold_locales (simp_all add: traffic_add_def)

lemma traffic_recent_entries: "tl_buf (fold traffic_add es traffic_init) = last_n 500 es"
  using traffic.history [of traffic_init "[]" es] by (simp add: traffic_init_def last_n_def)

section \<open>Bridged messages\<close>

definition bridge_message :: "gateway_config \<Rightarrow> string \<Rightarrow> int \<Rightarrow> string \<Rightarrow> body \<Rightarrow> message result" where
  "bridge_message cfg mid now originator b =
     bindR (mk_header mid originator (nc_network_id (cfg_network cfg)) now 0
              (cc_level (cfg_classification cfg)) (cc_releasable_to (cfg_classification cfg)))
       (\<lambda>h. Inr \<lparr> header = h, body = b \<rparr>)"

text \<open>\<open>with suppress(Exception): await gateway.ingest_from_bridge(...)\<close>.\<close>

definition ingest :: "gateway_config \<Rightarrow> string \<Rightarrow> int \<Rightarrow> string \<Rightarrow> body \<Rightarrow> ('s, bcall, unit) act" where
  "ingest cfg mid now originator b =
     (case bridge_message cfg mid now originator b of Inl _ \<Rightarrow> retA () | Inr m \<Rightarrow> callA (Ingest m))"

lemma ingest_run:
  "ingest cfg mid now originator b s =
     (Inr (), s, case bridge_message cfg mid now originator b of Inl _ \<Rightarrow> [] | Inr m \<Rightarrow> [Ingest m])"
  by (simp add: ingest_def act_defs split: sum.split)

lemma bridge_message_originator: "bridge_message cfg mid now o' b = Inr m \<Longrightarrow> originator_id (header m) = o' \<and> body m = b"
  by (auto simp: bridge_message_def bindR_Inr_iff mk_header_def invalid_def split: if_splits)

text \<open>\<open>getattr(body, "callsign", None)\<close>, and the Identification announcing a bridged track.\<close>

fun body_callsign :: "body \<Rightarrow> string option" where
  "body_callsign (Presence p) = Some (pr_callsign p)"
| "body_callsign (Identification i) = Some (id_callsign i)"
| "body_callsign _ = None"

definition announcement :: "string \<Rightarrow> string \<Rightarrow> string \<Rightarrow> body" where
  "announcement callsign unit role = Identification (mk_identification callsign unit (Some role) (Some []) None)"

text \<open>TAK control messages: negotiation, deletes, bits.\<close>

definition tak_control :: "string \<Rightarrow> bool" where
  "tak_control ctype \<longleftrightarrow> starts_with ctype ''t-x'' \<or> starts_with ctype ''t-b''"

text \<open>The originator of a server's track, \<open>tak-{sid}-{uid or "track"}\<close>.\<close>

definition track_originator :: "string \<Rightarrow> cot \<Rightarrow> string" where
  "track_originator sid ev = ''tak-'' @ sid @ ''-'' @ or_else (attr_or ev ''uid'' []) ''track''"

section \<open>The interface of a bridge\<close>

text \<open>
  What every CoT bridge of the program promises, whatever its peers \<open>'p\<close> are: a message it took from
  a peer it remembers as sourced there (\<open>taken\<close>), goes on doing so while it bridges (\<open>step\<close>), and
  sends a peer nothing sourced there (\<open>sent\<close>).
\<close>

locale cot_bridge =
  fixes step :: "'p \<Rightarrow> 's \<Rightarrow> 's \<Rightarrow> bool"
    and taken :: "'p \<Rightarrow> message \<Rightarrow> 's \<Rightarrow> 's \<Rightarrow> bool"
    and sent :: "'p \<Rightarrow> message \<Rightarrow> 's \<Rightarrow> bool"
    and from_peer :: "'p \<Rightarrow> string \<Rightarrow> 's \<Rightarrow> bool"
  assumes taken_from: "taken p m s s' \<Longrightarrow> from_peer p (originator_id (header m)) s'"
    and step_from: "step p s s' \<Longrightarrow> from_peer p orig s \<Longrightarrow> from_peer p orig s'"
    and sent_foreign: "sent p m s \<Longrightarrow> \<not> from_peer p (originator_id (header m)) s"
begin

lemma steps_from: "(step p)\<^sup>*\<^sup>* s s' \<Longrightarrow> from_peer p orig s \<Longrightarrow> from_peer p orig s'"
  by (induction rule: rtranclp_induct) (auto intro: step_from)

lemma never_echoed:
  "taken p m s s' \<Longrightarrow> (step p)\<^sup>*\<^sup>* s' s'' \<Longrightarrow> originator_id (header m') = originator_id (header m) \<Longrightarrow> \<not> sent p m' s''"
  using taken_from steps_from sent_foreign by metis

end

fun ingests_from :: "string \<Rightarrow> bcall \<Rightarrow> bool" where
  "ingests_from orig (Ingest m) = (originator_id (header m) = orig)"
| "ingests_from orig _ = True"

lemma ingest_from: "ensures I (ingests_from orig) (ingest cfg mid now orig b)"
  by (auto simp: ensures_def ingest_run dest: bridge_message_originator split: sum.split)

lemma ingest_keeps: "keeps I (ingest cfg mid now o' b)"
  by (simp add: keeps_def ingest_run)

end
