(* ===== verification/Servers.thy ===== *)
theory Servers
  imports CotLog
begin

text \<open>
  \<open>web/servers.py\<close>: the manager of the CoT/TAK server connections, one connector per enabled server
  of the configuration, bridged to the node's gateway. The coroutine \<open>reconcile\<close> is one
  operation; connectors go on by themselves between operations (\<open>tak_step\<close>).
\<close>

section \<open>State\<close>

record servers =
  sm_stale :: int
  sm_defs :: "(string, server_connection) dict"
  sm_conns :: "(string, connector) dict"
  sm_gateway :: "gateway_config option"
  sm_relays :: "nat set"
  sm_tmp :: "(string, string list) dict"
  sm_origins :: "(string, string set) dict"
  sm_identified :: "string set"
  sm_traffic :: traffic_log

type_synonym 'a server_act = "(servers, bcall, 'a) act"

definition servers_init :: "int \<Rightarrow> servers" where
  "servers_init stale = \<lparr> sm_stale = stale, sm_defs = [], sm_conns = [], sm_gateway = None, sm_relays = {},
     sm_tmp = [], sm_origins = [], sm_identified = {}, sm_traffic = traffic_init \<rparr>"

text \<open>Whether \<open>attach\<close> adds a relay to the node: once per node.\<close>

definition sm_attach :: "nat \<Rightarrow> gateway_config \<Rightarrow> servers \<Rightarrow> bool \<times> servers" where
  "sm_attach node cfg s = (node \<notin> sm_relays s, s\<lparr>sm_gateway := Some cfg, sm_relays := insert node (sm_relays s)\<rparr>)"

definition sm_node_id :: "servers \<Rightarrow> string" where
  "sm_node_id s = (case sm_gateway s of None \<Rightarrow> [] | Some c \<Rightarrow> own_id c)"

section \<open>Certificates\<close>

definition resolve_cert :: "bridge_env \<Rightarrow> string option \<Rightarrow> string \<Rightarrow> string option \<times> string list" where
  "resolve_cert B v suffix =
     (case v of
        None \<Rightarrow> (None, [])
      | Some value \<Rightarrow>
          if value = [] then (None, [])
          else if starts_with (dropWhile py_space value) ''-----BEGIN''
            then (Some (be_mkstemp B suffix value), [be_mkstemp B suffix value])
          else (Some value, []))"

definition materialize_certs ::
  "bridge_env \<Rightarrow> server_connection \<Rightarrow> (string option \<times> string option \<times> string option) \<times> string list" where
  "materialize_certs B s =
     (let (cert, t1) = resolve_cert B (sv_client_cert s) ''.pem'';
          (key, t2) = resolve_cert B (sv_client_key s) ''.key'';
          (ca, t3) = resolve_cert B (sv_cacert s) ''.pem''
      in ((cert, key, ca), t1 @ t2 @ t3))"

definition cleanup_temp :: "string list \<Rightarrow> unit server_act" where
  "cleanup_temp paths = forA paths (\<lambda>p. callA (Unlink p))"

section \<open>Reconciling\<close>

definition connect_fields where
  "connect_fields s = (sv_host s, sv_port s, sv_tls s, sv_verify s, sv_client_cert s, sv_client_key s, sv_cacert s)"

definition connect_changed :: "server_connection option \<Rightarrow> server_connection \<Rightarrow> bool" where
  "connect_changed old new = (case old of None \<Rightarrow> True | Some o' \<Rightarrow> connect_fields o' \<noteq> connect_fields new)"

definition new_connector :: "bridge_env \<Rightarrow> server_connection \<Rightarrow> connector" where
  "new_connector B d = connector_init (sv_host d) (sv_port d) (sv_tls d) (sv_verify d)
     (fst (materialize_certs B d)) (1/2) 30 1000"

definition start_one :: "bridge_env \<Rightarrow> server_connection \<Rightarrow> unit server_act" where
  "start_one B d =
     thenA (modifyA (\<lambda>s. s\<lparr>sm_tmp := AList.update (sv_id d) (snd (materialize_certs B d)) (sm_tmp s)\<rparr>))
     (thenA (modifyA (\<lambda>s. s\<lparr>sm_conns := AList.update (sv_id d) (started (new_connector B d)) (sm_conns s)\<rparr>))
     (callA (StartConn (sv_id d))))"

definition stop_one :: "string \<Rightarrow> unit server_act" where
  "stop_one sid =
     bindA (getA (\<lambda>s. map_of (sm_conns s) sid)) (\<lambda>conn.
     thenA (modifyA (\<lambda>s. s\<lparr>sm_conns := AList.delete sid (sm_conns s)\<rparr>))
     (thenA (case conn of None \<Rightarrow> retA () | Some _ \<Rightarrow> callA (StopConn sid))
     (thenA (modifyA (\<lambda>s. s\<lparr>sm_origins := AList.delete sid (sm_origins s)\<rparr>))
     (bindA (getA (\<lambda>s. dict_get (sm_tmp s) sid [])) (\<lambda>paths.
      thenA (modifyA (\<lambda>s. s\<lparr>sm_tmp := AList.delete sid (sm_tmp s)\<rparr>))
      (cleanup_temp paths))))))"

definition desired_of :: "server_connection list \<Rightarrow> (string, server_connection) dict" where
  "desired_of l = foldl (\<lambda>d s. AList.update (sv_id s) s d) [] l"

definition must_stop :: "(string, server_connection) dict \<Rightarrow> servers \<Rightarrow> string \<Rightarrow> bool" where
  "must_stop desired s sid =
     (case map_of desired sid of None \<Rightarrow> True
      | Some new \<Rightarrow> \<not> sv_enabled new \<or> connect_changed (map_of (sm_defs s) sid) new)"

definition reconcile :: "bridge_env \<Rightarrow> server_connection list \<Rightarrow> unit server_act" where
  "reconcile B l =
     (let desired = desired_of l in
      bindA (getA (\<lambda>s. map fst (sm_conns s))) (\<lambda>live.
      thenA (forA live (\<lambda>sid. bindA (getA (\<lambda>s. must_stop desired s sid)) (\<lambda>b. if b then stop_one sid else retA ())))
      (thenA (forA desired (\<lambda>(sid, d). bindA (getA (\<lambda>s. map_of (sm_conns s) sid)) (\<lambda>c.
          if sv_enabled d \<and> c = None then start_one B d else retA ())))
      (modifyA (\<lambda>s. s\<lparr>sm_defs := desired\<rparr>)))))"

definition sm_stop :: "unit server_act" where
  "sm_stop = bindA (getA (\<lambda>s. map fst (sm_conns s))) (\<lambda>live. forA live stop_one)"

section \<open>Bridging\<close>

definition sm_traffic_record :: "bridge_env \<Rightarrow> string \<Rightarrow> string \<Rightarrow> bytes \<Rightarrow> unit server_act" where
  "sm_traffic_record B peer dir raw = modifyA (\<lambda>s. s\<lparr>sm_traffic := traffic_record B peer dir raw (sm_traffic s)\<rparr>)"

definition sm_bridge :: "bridge_env \<Rightarrow> gateway_config \<Rightarrow> string \<Rightarrow> string \<Rightarrow> body \<Rightarrow> unit server_act" where
  "sm_bridge B cfg sid orig b =
     thenA (modifyA (\<lambda>s. s\<lparr>sm_origins := AList.update sid (insert orig (dict_get (sm_origins s) sid {})) (sm_origins s)\<rparr>))
     (bindA (getA sm_identified) (\<lambda>known.
      thenA (case body_callsign b of
          None \<Rightarrow> retA ()
        | Some cs \<Rightarrow> if cs = [] \<or> orig \<in> known then retA ()
            else thenA (modifyA (\<lambda>s. s\<lparr>sm_identified := insert orig (sm_identified s)\<rparr>))
              (ingest cfg (fst (be_ids B)) (be_now B) orig (announcement cs (''TAK/'' @ sid) ''tak'')))
      (ingest cfg (snd (be_ids B)) (be_now B) orig b)))"

text \<open>The id of the parsed message is not used; only its body goes on.\<close>

definition sm_on_cot :: "bridge_env \<Rightarrow> string \<Rightarrow> bytes \<Rightarrow> unit server_act" where
  "sm_on_cot B sid raw =
     (if has_marker raw then retA ()
      else if cot_is_stale (be_lib B) (be_now B) raw then retA ()
      else bindA (getA sm_gateway) (\<lambda>gw.
        case gw of None \<Rightarrow> retA ()
        | Some cfg \<Rightarrow>
            thenA (sm_traffic_record B sid ''in'' raw)
            (case cl_parse (be_lib B) raw of None \<Rightarrow> retA ()
             | Some ev \<Rightarrow>
                 if tak_control (attr_or ev ''type'' []) then retA ()
                 else bindA (liftA (cot_to_message (be_lib B) [] (be_now B) raw (track_originator sid ev))) (\<lambda>m.
                   case m of None \<Rightarrow> retA ()
                   | Some m \<Rightarrow> sm_bridge B cfg sid (track_originator sid ev) (body m)))))"

text \<open>\<open>outcome sid\<close>: what writing to the server's socket gives, if it is connected.\<close>

definition sm_send :: "(string \<Rightarrow> unit result) \<Rightarrow> string \<Rightarrow> bytes \<Rightarrow> unit server_act" where
  "sm_send outcome sid frame =
     thenA (modifyA (\<lambda>s. s\<lparr>sm_conns := (case map_of (sm_conns s) sid of None \<Rightarrow> sm_conns s
        | Some c \<Rightarrow> AList.update sid (snd (tak_send (outcome sid) frame c)) (sm_conns s))\<rparr>))
     (callA (SendTo sid frame))"

definition sm_emit :: "bridge_env \<Rightarrow> (string \<Rightarrow> unit result) \<Rightarrow> message \<Rightarrow> unit server_act" where
  "sm_emit B outcome m =
     bindA (getA (\<lambda>s. s)) (\<lambda>s0.
     if sm_conns s0 = [] then retA ()
     else if originator_id (header m) = sm_node_id s0 then retA ()
     else (case message_to_cot (be_lib B) (sm_stale s0) m of
         None \<Rightarrow> retA ()
       | Some frame \<Rightarrow> forA (map fst (sm_conns s0)) (\<lambda>sid.
           bindA (getA (\<lambda>s. dict_get (sm_origins s) sid {})) (\<lambda>os.
           if originator_id (header m) \<in> os then retA ()
           else thenA (sm_traffic_record B sid ''out'' frame) (sm_send outcome sid frame)))))"

section \<open>Status\<close>

record server_status =
  ss_def :: server_connection
  ss_state :: string
  ss_connected :: bool
  ss_connects :: nat
  ss_reconnects :: nat
  ss_queued :: nat
  ss_dropped :: nat
  ss_last_error :: "string option"

definition server_state :: "server_connection \<Rightarrow> connector option \<Rightarrow> string" where
  "server_state d c =
     (if \<not> sv_enabled d then ''disabled''
      else (case c of None \<Rightarrow> ''stopped''
        | Some c \<Rightarrow> if connected c then ''connected'' else ''connecting''))"

definition sm_status :: "servers \<Rightarrow> server_status list" where
  "sm_status s = map (\<lambda>(sid, d).
     (let c = map_of (sm_conns s) sid; val = (\<lambda>f. case c of None \<Rightarrow> 0 | Some c \<Rightarrow> f c) in
      \<lparr> ss_def = d, ss_state = server_state d c, ss_connected = (case c of None \<Rightarrow> False | Some c \<Rightarrow> connected c),
        ss_connects = val tc_connects, ss_reconnects = val reconnects, ss_queued = val queued,
        ss_dropped = val tc_dropped, ss_last_error = (case c of None \<Rightarrow> None | Some c \<Rightarrow> tc_last_error c) \<rparr>)) (sm_defs s)"

section \<open>The live connectors follow the configuration\<close>

definition stop_state :: "string \<Rightarrow> servers \<Rightarrow> servers" where
  "stop_state sid s = s\<lparr>sm_conns := AList.delete sid (sm_conns s), sm_origins := AList.delete sid (sm_origins s),
     sm_tmp := AList.delete sid (sm_tmp s)\<rparr>"

definition start_state :: "bridge_env \<Rightarrow> server_connection \<Rightarrow> servers \<Rightarrow> servers" where
  "start_state B d s = s\<lparr>sm_tmp := AList.update (sv_id d) (snd (materialize_certs B d)) (sm_tmp s),
     sm_conns := AList.update (sv_id d) (started (new_connector B d)) (sm_conns s)\<rparr>"

lemma cleanup_run: "value_of (cleanup_temp ps s) = Inr ()" "state_of (cleanup_temp ps s) = s"
  by (induction ps arbitrary: s) (simp_all add: cleanup_temp_def thenA_parts act_defs)

lemma stop_one_run: "value_of (stop_one sid s) = Inr ()" "state_of (stop_one sid s) = stop_state sid s"
  by (cases "map_of (sm_conns s) sid";
      simp add: stop_one_def bindA_parts thenA_parts cleanup_run act_defs stop_state_def)+

lemma start_one_run: "value_of (start_one B d s) = Inr ()" "state_of (start_one B d s) = start_state B d s"
  by (simp_all add: start_one_def thenA_parts act_defs start_state_def)

definition stop_phase :: "(string, server_connection) dict \<Rightarrow> string list \<Rightarrow> servers \<Rightarrow> servers" where
  "stop_phase desired = fold (\<lambda>sid s. if must_stop desired s sid then stop_state sid s else s)"

definition start_phase :: "bridge_env \<Rightarrow> (string, server_connection) dict \<Rightarrow> servers \<Rightarrow> servers" where
  "start_phase B = fold (\<lambda>(sid, d) s. if sv_enabled d \<and> map_of (sm_conns s) sid = None then start_state B d s else s)"

lemma reconcile_run:
  "value_of (reconcile B l s) = Inr ()"
  "state_of (reconcile B l s) =
     (start_phase B (desired_of l) (stop_phase (desired_of l) (map fst (sm_conns s)) s))\<lparr>sm_defs := desired_of l\<rparr>"
proof -
  let ?f = "\<lambda>sid. bindA (getA (\<lambda>s. must_stop (desired_of l) s sid)) (\<lambda>b. if b then stop_one sid else retA ())"
  let ?g = "\<lambda>(sid, d). bindA (getA (\<lambda>s. map_of (sm_conns s) sid)) (\<lambda>c.
          if sv_enabled d \<and> c = None then start_one B d else retA ())"
  have f: "value_of (?f sid s) = Inr ()" "state_of (?f sid s) = (if must_stop (desired_of l) s sid then stop_state sid s else s)"
    for sid s
    by (simp_all add: bindA_parts getA_def retA_def stop_one_run)
  have g: "value_of (?g p s) = Inr ()" "state_of (?g p s) =
      (case p of (sid, d) \<Rightarrow> if sv_enabled d \<and> map_of (sm_conns s) sid = None then start_state B d s else s)" for p s
    by (cases p; simp add: bindA_parts getA_def retA_def start_one_run)+
  have F: "value_of (forA xs ?f s) = Inr ()" "state_of (forA xs ?f s) = stop_phase (desired_of l) xs s" for xs s
    using forA_fold [of ?f, OF f(1)] by (simp_all only: stop_phase_def f(2))
  have G: "value_of (forA xs ?g s) = Inr ()" "state_of (forA xs ?g s) = start_phase B xs s" for xs s
    using forA_fold [of ?g, OF g(1)] by (simp_all only: start_phase_def g(2)) (simp add: case_prod_unfold)
  show "value_of (reconcile B l s) = Inr ()"
    by (simp add: reconcile_def Let_def bindA_parts thenA_parts F G getA_def modifyA_def)
  show "state_of (reconcile B l s) =
     (start_phase B (desired_of l) (stop_phase (desired_of l) (map fst (sm_conns s)) s))\<lparr>sm_defs := desired_of l\<rparr>"
    by (simp add: reconcile_def Let_def bindA_parts thenA_parts F G getA_def modifyA_def)
qed

lemma must_stop_cong: "sm_defs s = sm_defs s' \<Longrightarrow> must_stop desired s = must_stop desired s'"
  by (rule ext) (simp add: must_stop_def split: option.split)

lemma stop_phase_result:
  "map_of (sm_conns (stop_phase desired xs s)) k =
     (if k \<in> set xs \<and> must_stop desired s k then None else map_of (sm_conns s) k)"
  "map_of (sm_tmp (stop_phase desired xs s)) k =
     (if k \<in> set xs \<and> must_stop desired s k then None else map_of (sm_tmp s) k)"
  "sm_defs (stop_phase desired xs s) = sm_defs s"
  "dict_ok (sm_conns s) \<Longrightarrow> dict_ok (sm_conns (stop_phase desired xs s))"
proof (induction xs arbitrary: s)
  case (Cons x xs)
  define nxt where "nxt s = (if must_stop desired s x then stop_state x s else s)" for s
  have d: "sm_defs (nxt s) = sm_defs s" for s by (simp add: nxt_def stop_state_def)
  have e: "stop_phase desired (x # xs) s = stop_phase desired xs (nxt s)" for s
    by (simp add: stop_phase_def nxt_def)
  note m = must_stop_cong [OF d, of desired]
  { case (1 s) show ?case unfolding e Cons.IH(1) m by (auto simp: nxt_def stop_state_def) }
  { case (2 s) show ?case unfolding e Cons.IH(2) m by (auto simp: nxt_def stop_state_def) }
  { case (3 s) show ?case unfolding e Cons.IH(3) by (rule d) }
  { case (4 s) then show ?case unfolding e by (intro Cons.IH(4)) (simp add: nxt_def stop_state_def) }
qed (simp_all add: stop_phase_def)

definition keyed :: "(string, server_connection) dict \<Rightarrow> bool" where
  "keyed ds \<longleftrightarrow> list_all (\<lambda>(k, d). sv_id d = k) ds"

lemma start_phase_result:
  assumes "keyed ds" and "dict_ok ds"
  shows "map_of (sm_conns (start_phase B ds s)) k = (case map_of (sm_conns s) k of Some c \<Rightarrow> Some c
      | None \<Rightarrow> (case map_of ds k of None \<Rightarrow> None
          | Some d \<Rightarrow> if sv_enabled d then Some (started (new_connector B d)) else None))"
    and "dom (map_of (sm_tmp s)) = dom (map_of (sm_conns s)) \<Longrightarrow>
      dom (map_of (sm_tmp (start_phase B ds s))) = dom (map_of (sm_conns (start_phase B ds s)))"
    and "dict_ok (sm_conns s) \<Longrightarrow> dict_ok (sm_conns (start_phase B ds s))"
  using assms
proof (induction ds arbitrary: s)
  case (Cons p ds)
  obtain i d where p: "p = (i, d)" by (cases p)
  define nxt where "nxt s = (if sv_enabled d \<and> map_of (sm_conns s) i = None then start_state B d s else s)" for s
  have e: "start_phase B (p # ds) s = start_phase B ds (nxt s)" for s by (simp add: start_phase_def p nxt_def)
  have ds: "keyed ds" "dict_ok ds" "map_of ds i = None" "sv_id d = i" if "keyed (p # ds)" "dict_ok (p # ds)"
    using that by (auto simp: keyed_def p map_of_eq_None_iff)
  { case (1 s)
    then show ?case unfolding e using ds [OF 1]
      by (subst Cons.IH(1)) (auto simp: nxt_def start_state_def p split: option.splits) }
  { case (2 s)
    then show ?case unfolding e using ds [OF 2(2,3)] by (intro Cons.IH(2)) (simp_all add: nxt_def start_state_def del: fun_upd_apply) }
  { case (3 s)
    then show ?case unfolding e using ds [OF 3(2,3)] by (intro Cons.IH(3)) (simp_all add: nxt_def start_state_def) }
qed (simp_all add: start_phase_def split: option.split)

lemma desired_of_ok: "dict_ok (desired_of l)" "keyed (desired_of l)"
proof -
  have "dict_ok d \<and> keyed d \<Longrightarrow>
      dict_ok (foldl (\<lambda>d s. AList.update (sv_id s) s d) d l) \<and> keyed (foldl (\<lambda>d s. AList.update (sv_id s) s d) d l)" for d
  proof (induction l arbitrary: d)
    case (Cons x l)
    have "keyed d \<Longrightarrow> keyed (AList.update (sv_id x) x d)" for d
      by (induction d) (auto simp: keyed_def)
    with Cons show ?case by simp
  qed simp
  from this [of "[]"] show "dict_ok (desired_of l)" "keyed (desired_of l)" by (simp_all add: desired_of_def keyed_def)
qed

text \<open>The life of a manager: its own operations, and the steps of its live connectors.\<close>

definition link_of where
  "link_of c = (tc_host c, tc_port c, tc_tls c, tc_verify c)"

definition server_link where
  "server_link d = (sv_host d, sv_port d, sv_tls d, sv_verify d)"

inductive servers_step :: "servers \<Rightarrow> servers \<Rightarrow> bool" where
  attach: "servers_step s (snd (sm_attach node cfg s))"
| reconciled: "servers_step s (state_of (reconcile B l s))"
| inbound: "servers_step s (state_of (sm_on_cot B sid raw s))"
| outbound: "servers_step s (state_of (sm_emit B outcome m s))"
| stopped: "servers_step s (state_of (sm_stop s))"
| link: "map_of (sm_conns s) sid = Some c \<Longrightarrow> tak_step c ev w ds c' \<Longrightarrow>
    servers_step s (s\<lparr>sm_conns := AList.update sid c' (sm_conns s)\<rparr>)"

definition servers_reach :: "int \<Rightarrow> servers \<Rightarrow> bool" where
  "servers_reach stale s \<longleftrightarrow> servers_step\<^sup>*\<^sup>* (servers_init stale) s"

definition servers_inv :: "servers \<Rightarrow> bool" where
  "servers_inv s \<longleftrightarrow>
     (\<forall>sid c. map_of (sm_conns s) sid = Some c \<longrightarrow>
        (\<exists>d. map_of (sm_defs s) sid = Some d \<and> sv_enabled d \<and> link_of c = server_link d)) \<and>
     dom (map_of (sm_tmp s)) = dom (map_of (sm_conns s)) \<and> dict_ok (sm_conns s)"

lemma started_link [simp]: "link_of (started (new_connector B d)) = server_link d"
  by (simp add: link_of_def started_def new_connector_def connector_init_def server_link_def)

lemma step_link: "tak_step c ev w ds c' \<Longrightarrow> link_of c' = link_of c"
  by (induction rule: tak_step.induct)
    (auto simp: link_of_def started_def flush_queue_def tak_send_def enqueue_def link_down_def Let_def
      split: prod.splits if_splits sum.splits)

lemma connect_fields_link: "connect_fields d = connect_fields d' \<Longrightarrow> server_link d = server_link d'"
  by (simp add: connect_fields_def server_link_def)

text \<open>The state after \<open>reconcile\<close>, by cases.\<close>

lemma reconcile_conns:
  assumes "servers_inv s" and "s' = state_of (reconcile B l s)"
  shows "map_of (sm_conns s') sid =
    (case map_of (desired_of l) sid of
       None \<Rightarrow> None
     | Some d \<Rightarrow> if \<not> sv_enabled d then None
         else (case map_of (sm_conns s) sid of
             Some c \<Rightarrow> if connect_changed (map_of (sm_defs s) sid) d then Some (started (new_connector B d)) else Some c
           | None \<Rightarrow> Some (started (new_connector B d))))"
    and "sm_defs s' = desired_of l"
    and "dom (map_of (sm_tmp s')) = dom (map_of (sm_conns s'))"
    and "dict_ok (sm_conns s')"
proof -
  let ?t = "stop_phase (desired_of l) (map fst (sm_conns s)) s"
  have s': "s' = (start_phase B (desired_of l) ?t)\<lparr>sm_defs := desired_of l\<rparr>"
    by (simp add: assms(2) reconcile_run)
  have live: "k \<in> set (map fst (sm_conns s)) \<longleftrightarrow> map_of (sm_conns s) k \<noteq> None" for k
    by (simp add: map_of_eq_None_iff)
  have t: "map_of (sm_conns ?t) k = (if must_stop (desired_of l) s k then None else map_of (sm_conns s) k)" for k
    by (simp only: stop_phase_result(1) live) simp
  have "map_of (sm_tmp ?t) k \<noteq> None \<longleftrightarrow> map_of (sm_conns ?t) k \<noteq> None" for k
    using assms(1) live unfolding stop_phase_result(1,2) servers_inv_def by (auto simp: dom_def set_eq_iff)
  then have tmp: "dom (map_of (sm_tmp ?t)) = dom (map_of (sm_conns ?t))" by (auto simp: dom_def)
  note sp = start_phase_result [OF desired_of_ok(2,1), where B = B and s = ?t]
  show "map_of (sm_conns s') sid =
    (case map_of (desired_of l) sid of
       None \<Rightarrow> None
     | Some d \<Rightarrow> if \<not> sv_enabled d then None
         else (case map_of (sm_conns s) sid of
             Some c \<Rightarrow> if connect_changed (map_of (sm_defs s) sid) d then Some (started (new_connector B d)) else Some c
           | None \<Rightarrow> Some (started (new_connector B d))))"
    unfolding s' by (simp add: sp(1) t must_stop_def split: option.split)
  show "sm_defs s' = desired_of l" by (simp add: s')
  show "dom (map_of (sm_tmp s')) = dom (map_of (sm_conns s'))" using sp(2) [OF tmp] by (simp add: s')
  show "dict_ok (sm_conns s')"
    using sp(3) [OF stop_phase_result(4)] assms(1) by (simp add: s' servers_inv_def)
qed

lemma reconcile_inv:
  assumes "servers_inv s"
  shows "servers_inv (state_of (reconcile B l s))"
proof -
  note r = reconcile_conns [OF assms refl, of B l]
  have "\<exists>d. map_of (desired_of l) sid = Some d \<and> sv_enabled d \<and> link_of c = server_link d"
    if c: "map_of (sm_conns (state_of (reconcile B l s))) sid = Some c" for sid c
  proof -
    have old: "map_of (sm_conns s) sid = Some c' \<Longrightarrow> \<exists>o'. map_of (sm_defs s) sid = Some o' \<and> link_of c' = server_link o'" for c'
      using assms unfolding servers_inv_def by blast
    show ?thesis
      using c old unfolding r(1)
      by (auto simp: connect_changed_def dest: connect_fields_link split: option.splits if_splits)
  qed
  then show ?thesis using r(2-4) by (simp add: servers_inv_def)
qed

lemma servers_inv_other [simp]:
  "servers_inv (s\<lparr>sm_traffic := x\<rparr>) = servers_inv s" "servers_inv (s\<lparr>sm_origins := y\<rparr>) = servers_inv s"
  "servers_inv (s\<lparr>sm_identified := z\<rparr>) = servers_inv s"
  "servers_inv (s\<lparr>sm_gateway := g, sm_relays := r\<rparr>) = servers_inv s"
  by (simp_all add: servers_inv_def)

lemma servers_inv_conn:
  assumes "servers_inv s" and "map_of (sm_conns s) sid = Some c" and "link_of c' = link_of c"
  shows "servers_inv (s\<lparr>sm_conns := AList.update sid c' (sm_conns s)\<rparr>)"
proof -
  have a: "map_of (sm_conns s) i = Some e \<Longrightarrow> \<exists>d. map_of (sm_defs s) i = Some d \<and> sv_enabled d \<and> link_of e = server_link d" for i e
    using assms(1) unfolding servers_inv_def by blast
  have doms: "dom (map_of (sm_tmp s)) = dom (map_of (sm_conns s))" and keys: "dict_ok (sm_conns s)"
    using assms(1) unfolding servers_inv_def by blast+
  have "dom ((map_of (sm_conns s))(sid \<mapsto> c')) = dom (map_of (sm_conns s))" using assms(2) by auto
  moreover have "\<exists>d. map_of (sm_defs s) i = Some d \<and> sv_enabled d \<and> link_of e = server_link d"
    if "((map_of (sm_conns s))(sid \<mapsto> c')) i = Some e" for i e
    using that a [of i] a [OF assms(2)] assms(3) by (cases "i = sid") simp_all
  ultimately show ?thesis using doms keys by (simp add: servers_inv_def del: fun_upd_apply)
qed

lemma tak_send_link: "link_of (snd (tak_send r f c)) = link_of c"
  by (simp add: tak_send_def enqueue_def link_of_def Let_def split: sum.split)

lemma on_cot_inv: "keeps servers_inv (sm_on_cot B sid raw)"
  unfolding sm_on_cot_def sm_bridge_def sm_traffic_record_def
  by (auto intro!: keeps_bind keeps_then keeps_basic keeps_modify ingest_keeps split: option.split)

lemma sm_send_inv: "keeps servers_inv (sm_send outcome sid f)"
  unfolding sm_send_def
  by (intro keeps_then keeps_basic keeps_modify)
    (auto split: option.split intro: servers_inv_conn [OF _ _ tak_send_link])

lemma emit_inv: "keeps servers_inv (sm_emit B outcome m)"
  unfolding sm_emit_def sm_traffic_record_def
  by (auto intro!: keeps_bind keeps_then keeps_for keeps_basic keeps_modify sm_send_inv
      split: option.split)

lemma stop_state_inv: "servers_inv s \<Longrightarrow> servers_inv (stop_state sid s)"
  unfolding servers_inv_def stop_state_def by (auto simp del: map_of_eq_Some_iff split: if_splits)

lemma sm_stop_inv: "keeps servers_inv sm_stop"
  unfolding sm_stop_def
  by (intro keeps_bind keeps_basic keeps_for) (simp add: keeps_def stop_one_run stop_state_inv)

lemma step_inv: "servers_step s s' \<Longrightarrow> servers_inv s \<Longrightarrow> servers_inv s'"
  by (induction rule: servers_step.induct)
    (auto simp: sm_attach_def reconcile_inv step_link intro: servers_inv_conn
      dest: keepsD [OF on_cot_inv] keepsD [OF emit_inv] keepsD [OF sm_stop_inv])

lemma reach_inv: "servers_reach stale s \<Longrightarrow> servers_inv s"
  unfolding servers_reach_def
proof (induction rule: rtranclp_induct)
  case base
  show ?case by (simp add: servers_init_def servers_inv_def)
qed (rule step_inv)

text \<open>The specification of reconciling: which server is linked with which parameters.\<close>

definition live_links :: "servers \<Rightarrow> string \<Rightarrow> (string \<times> int \<times> bool \<times> bool) option" where
  "live_links s sid = map_option link_of (map_of (sm_conns s) sid)"

definition wanted_links :: "server_connection list \<Rightarrow> string \<Rightarrow> (string \<times> int \<times> bool \<times> bool) option" where
  "wanted_links l sid = (case map_of (desired_of l) sid of None \<Rightarrow> None
     | Some d \<Rightarrow> if sv_enabled d then Some (server_link d) else None)"

lemma reconcile_live:
  assumes "servers_inv s"
  shows "live_links (state_of (reconcile B l s)) = wanted_links l"
proof
  fix sid
  note r = reconcile_conns [OF assms refl, of B l]
  have old: "link_of c = server_link d" if "map_of (sm_conns s) sid = Some c" "map_of (sm_defs s) sid = Some d" for c d
    using assms that unfolding servers_inv_def by fastforce
  show "live_links (state_of (reconcile B l s)) sid = wanted_links l sid"
    using old unfolding live_links_def wanted_links_def r(1)
    by (auto simp: connect_changed_def dest: connect_fields_link split: option.split)
qed


section \<open>No echo\<close>

definition sourced :: "string \<Rightarrow> string \<Rightarrow> servers \<Rightarrow> bool" where
  "sourced sid orig s \<longleftrightarrow> orig \<in> dict_get (sm_origins s) sid {}"

lemma sourced_other [simp]:
  "sourced sid orig (s\<lparr>sm_traffic := x\<rparr>) = sourced sid orig s"
  "sourced sid orig (s\<lparr>sm_identified := y\<rparr>) = sourced sid orig s"
  "sourced sid orig (s\<lparr>sm_conns := z\<rparr>) = sourced sid orig s"
  by (simp_all add: sourced_def)

text \<open>What a manager hands to the gateway it remembers as coming from that server.\<close>

lemma bridge_ingests: "ensures (\<lambda>_. True) (ingests_from orig) (sm_bridge B cfg sid orig b)"
  unfolding sm_bridge_def
proof (intro ensures_then ensures_bind)
  fix known
  show "ensures (\<lambda>_. True) (ingests_from orig) (case body_callsign b of None \<Rightarrow> retA ()
      | Some cs \<Rightarrow> if cs = [] \<or> orig \<in> known then retA ()
          else thenA (modifyA (\<lambda>s. s\<lparr>sm_identified := insert orig (sm_identified s)\<rparr>))
            (ingest cfg (fst (be_ids B)) (be_now B) orig (announcement cs (''TAK/'' @ sid) ''tak'')))"
    by (cases "body_callsign b") (auto intro: ensures_then ingest_from ensures_basic)
qed (simp_all add: ingest_from ensures_basic)

lemma bridge_records: "leads (\<lambda>_. True) (sm_bridge B cfg sid orig b) (sourced sid orig)"
  unfolding sm_bridge_def
proof (rule leads_then_last)
  show "leads (\<lambda>_. True) (modifyA (\<lambda>s. s\<lparr>sm_origins := AList.update sid (insert orig (dict_get (sm_origins s) sid {})) (sm_origins s)\<rparr>))
      (sourced sid orig)"
    by (simp add: leads_def modifyA_def sourced_def)
qed (auto intro!: keeps_bind keeps_then keeps_basic keeps_modify ingest_keeps split: option.split)

lemma bridge_sources:
  assumes "Ingest m \<in> set (calls_of (sm_bridge B cfg sid orig b s))"
  shows "originator_id (header m) = orig" and "sourced sid orig (state_of (sm_bridge B cfg sid orig b s))"
proof -
  have "list_all (ingests_from orig) (calls_of (sm_bridge B cfg sid orig b s))"
    using ensuresD [OF bridge_ingests] by blast
  then have "ingests_from orig (Ingest m)" using assms unfolding list_all_iff by blast
  then show "originator_id (header m) = orig" by simp
  show "sourced sid orig (state_of (sm_bridge B cfg sid orig b s))" using leadsD [OF bridge_records] by blast
qed

lemma on_cot_sources:
  assumes "Ingest m \<in> set (calls_of (sm_on_cot B sid raw s))"
  shows "sourced sid (originator_id (header m)) (state_of (sm_on_cot B sid raw s))"
proof -
  obtain cfg where 1: "\<not> has_marker raw" "\<not> cot_is_stale (be_lib B) (be_now B) raw" "sm_gateway s = Some cfg"
    using assms by (auto simp: sm_on_cot_def bindA_parts act_defs split: if_splits option.splits)
  let ?s = "s\<lparr>sm_traffic := traffic_record B sid ''in'' raw (sm_traffic s)\<rparr>"
  obtain ev where 2: "cl_parse (be_lib B) raw = Some ev" "\<not> tak_control (attr_or ev ''type'' [])"
    using assms 1
    by (auto simp: sm_on_cot_def sm_traffic_record_def bindA_parts thenA_parts act_defs split: if_splits option.splits)
  obtain n where 3: "cot_to_message (be_lib B) [] (be_now B) raw (track_originator sid ev) = Inr (Some n)"
    using assms 1 2
    by (cases "cot_to_message (be_lib B) [] (be_now B) raw (track_originator sid ev)")
      (auto simp: sm_on_cot_def sm_traffic_record_def bindA_parts thenA_parts act_defs split: option.splits)
  let ?b = "sm_bridge B cfg sid (track_originator sid ev) (body n)"
  have run: "state_of (sm_on_cot B sid raw s) = state_of (?b ?s)" "calls_of (sm_on_cot B sid raw s) = calls_of (?b ?s)"
    using 1 2 3 by (simp_all add: sm_on_cot_def sm_traffic_record_def bindA_parts thenA_parts act_defs)
  note b = bridge_sources [OF assms [unfolded run]]
  show ?thesis using b(2) unfolding run b(1) .
qed

text \<open>Bridging goes on: frames in, messages out, nothing reconciled.\<close>

inductive bridging :: "string \<Rightarrow> servers \<Rightarrow> servers \<Rightarrow> bool" where
  inbound: "bridging sid s (state_of (sm_on_cot B i raw s))"
| outbound: "bridging sid s (state_of (sm_emit B outcome m s))"

lemma sourced_update:
  "sourced sid orig s \<Longrightarrow> sourced sid orig (s\<lparr>sm_origins := AList.update i (insert x (dict_get (sm_origins s) i {})) (sm_origins s)\<rparr>)"
  by (cases "sid = i") (simp_all add: sourced_def)

lemma on_cot_keeps_sourced: "keeps (sourced sid orig) (sm_on_cot B sid' raw)"
  unfolding sm_on_cot_def sm_bridge_def sm_traffic_record_def
  by (auto intro!: keeps_bind keeps_then keeps_basic keeps_modify ingest_keeps sourced_update split: option.split)

lemma emit_ensures:
  "ensures (\<lambda>s. sm_origins s = os \<and> sm_gateway s = gw)
     (\<lambda>c. case c of SendTo sid f \<Rightarrow> originator_id (header m) \<notin> dict_get os sid {} | _ \<Rightarrow> True) (sm_emit B outcome m)"
  unfolding sm_emit_def sm_send_def sm_traffic_record_def
  by (auto intro!: ensures_get ensures_then ensures_for ensures_basic split: option.split)

lemma bridging_sourced: "bridging sid s s' \<Longrightarrow> sourced i orig s \<Longrightarrow> sourced i orig s'"
proof (induction rule: bridging.induct)
  case inbound
  then show ?case using keepsD [OF on_cot_keeps_sourced] by blast
next
  case (outbound sid s B outcome m)
  then show ?case using ensuresD [OF emit_ensures, of s "sm_origins s" "sm_gateway s" B outcome m]
    by (simp add: sourced_def)
qed

definition sm_taken :: "string \<Rightarrow> message \<Rightarrow> servers \<Rightarrow> servers \<Rightarrow> bool" where
  "sm_taken sid m s s' \<longleftrightarrow> (\<exists>B raw. Ingest m \<in> set (calls_of (sm_on_cot B sid raw s)) \<and> s' = state_of (sm_on_cot B sid raw s))"

definition sm_sent :: "string \<Rightarrow> message \<Rightarrow> servers \<Rightarrow> bool" where
  "sm_sent sid m s \<longleftrightarrow> (\<exists>B outcome f. SendTo sid f \<in> set (calls_of (sm_emit B outcome m s)))"

lemma sourced_not_sent: "sm_sent sid m s \<Longrightarrow> \<not> sourced sid (originator_id (header m)) s"
proof -
  assume "sm_sent sid m s"
  then obtain B outcome f where f: "SendTo sid f \<in> set (calls_of (sm_emit B outcome m s))" unfolding sm_sent_def by blast
  have "list_all (\<lambda>c. case c of SendTo sid f \<Rightarrow> originator_id (header m) \<notin> dict_get (sm_origins s) sid {} | _ \<Rightarrow> True)
      (calls_of (sm_emit B outcome m s))"
    using ensuresD [OF emit_ensures, of s "sm_origins s" "sm_gateway s" B outcome m] by blast
  from bspec [OF this [unfolded list_all_iff] f] show ?thesis by (simp add: sourced_def)
qed

interpretation server_bridge: cot_bridge bridging sm_taken sm_sent sourced
proof
  fix sid m s s' orig
  show "sm_taken sid m s s' \<Longrightarrow> sourced sid (originator_id (header m)) s'"
    unfolding sm_taken_def using on_cot_sources by blast
  show "bridging sid s s' \<Longrightarrow> sourced sid orig s \<Longrightarrow> sourced sid orig s'" by (rule bridging_sourced)
  show "sm_sent sid m s \<Longrightarrow> \<not> sourced sid (originator_id (header m)) s" by (rule sourced_not_sent)
qed


section \<open>Witnesses\<close>

definition demo_server :: server_connection where
  "demo_server = default_server ''s1''"

definition demo_env :: "cot \<Rightarrow> bridge_env" where
  "demo_env e = \<lparr> be_lib = demo_lib e, be_text = (\<lambda>_. []), be_now = 0, be_ids = (''i1'', ''i2''),
     be_mkstemp = (\<lambda>s _. ''/tmp/x'' @ s) \<rparr>"


definition demo_chat_event :: cot where
  "demo_chat_event = Cot ''event'' [(''type'', ''b-t-f''), (''uid'', ''u1'')] None []"

definition attached :: servers where
  "attached = snd (sm_attach 0 default_config (servers_init 120))"

definition demo_ingested :: message where
  "demo_ingested = \<lparr> header = \<lparr> message_id = ''i2'', originator_id = ''tak-s1-u1'', network_id = ''default'',
      reporting_time = 0, sequence = 0, classification = 0, releasable_to = ''ALL'' \<rparr>,
     body = ChatMessage \<lparr> ch_text = [], ch_recipient = ''all'' \<rparr> \<rparr>"

lemma demo_on_cot: "calls_of (sm_on_cot (demo_env demo_chat_event) ''s1'' [] attached) = [Ingest demo_ingested]"
  by (simp add: sm_on_cot_def has_marker_def contains_sub_def BRIDGE_MARKER_def utf8_encode_def utf8_char_def
      cot_is_stale_def demo_env_def demo_lib_def demo_chat_event_def attr_def attached_def sm_attach_def
      bindA_parts thenA_parts act_defs sm_traffic_record_def attr_or_def dict_get_def tak_control_def starts_with_def
      track_originator_def or_else_def cot_to_message_def mk_header_def in_range_def tree_to_body_def cot_point_def
      find_child_def cot_fields_def event_body_def sm_bridge_def ingest_run bridge_message_def
      default_config_def default_network_def default_classification_def demo_ingested_def)


end
