(* ===== verification/Eud.thy ===== *)
theory Eud
  imports CotLog
begin

text \<open>
  \<open>web/eud_server.py\<close>: the built-in TAK server that EUDs connect to. The manager's fields, the local
  variables of the coroutine that serves each client (\<open>em_tasks\<close>) and its operations: the listener's
  life cycle, the events of a client's connection and the fan-out of JDSS messages.
\<close>

section \<open>State\<close>

record eud_task =
  et_originator :: string
  et_identified :: "string set"
  et_buf :: bytes

record eud =
  em_stale :: int
  em_cfg :: "eud_server_config option"
  em_server :: "(string \<times> int) option"
  em_clients :: "(nat, string) dict"
  em_origins :: "(nat, string set) dict"
  em_tasks :: "(nat, eud_task) dict"
  em_traffic :: traffic_log
  em_gateway :: "gateway_config option"
  em_relays :: "nat set"
  em_last_error :: "string option"

type_synonym 'a eud_act = "(eud, bcall, 'a) act"

definition eud_init :: "int \<Rightarrow> eud" where
  "eud_init stale = \<lparr> em_stale = stale, em_cfg = None, em_server = None, em_clients = [], em_origins = [],
     em_tasks = [], em_traffic = traffic_init, em_gateway = None, em_relays = {}, em_last_error = None \<rparr>"

definition eud_attach :: "nat \<Rightarrow> gateway_config \<Rightarrow> eud \<Rightarrow> bool \<times> eud" where
  "eud_attach node cfg s = (node \<notin> em_relays s, s\<lparr>em_gateway := Some cfg, em_relays := insert node (em_relays s)\<rparr>)"

definition eud_node_id :: "eud \<Rightarrow> string" where
  "eud_node_id s = (case em_gateway s of None \<Rightarrow> [] | Some c \<Rightarrow> own_id c)"

section \<open>The listener\<close>

text \<open>\<open>bind\<close> is what \<open>asyncio.start_server\<close> gives for the address: nothing, or an \<open>OSError\<close>.\<close>

definition start_server :: "(string \<Rightarrow> int \<Rightarrow> string option) \<Rightarrow> eud_server_config \<Rightarrow> unit eud_act" where
  "start_server bind cfg =
     (case bind (eu_host cfg) (eu_port cfg) of
        None \<Rightarrow> thenA (callA (Listen (eu_host cfg) (eu_port cfg)))
          (modifyA (\<lambda>s. s\<lparr>em_server := Some (eu_host cfg, eu_port cfg), em_last_error := None\<rparr>))
      | Some err \<Rightarrow> modifyA (\<lambda>s. s\<lparr>em_server := None, em_last_error := Some err\<rparr>))"

definition stop_server :: "unit eud_act" where
  "stop_server =
     bindA (getA em_server) (\<lambda>server.
     thenA (modifyA (\<lambda>s. s\<lparr>em_server := None\<rparr>))
     (bindA (getA em_clients) (\<lambda>cs.
      thenA (forA cs (\<lambda>(cid, _). callA (CloseClient cid)))
      (thenA (modifyA (\<lambda>s. s\<lparr>em_clients := [], em_origins := []\<rparr>))
      (if server \<noteq> None then callA CloseListener else retA ())))))"

definition must_rebind :: "eud_server_config \<Rightarrow> eud \<Rightarrow> bool" where
  "must_rebind cfg s = (case em_cfg s of None \<Rightarrow> True | Some c \<Rightarrow> eu_port cfg \<noteq> eu_port c \<or> eu_host cfg \<noteq> eu_host c)"

definition eud_reconfigure :: "(string \<Rightarrow> int \<Rightarrow> string option) \<Rightarrow> eud_server_config \<Rightarrow> unit eud_act" where
  "eud_reconfigure bind cfg =
     bindA (getA (\<lambda>s. em_server s \<noteq> None \<and> (\<not> eu_enabled cfg \<or> must_rebind cfg s))) (\<lambda>down.
     thenA (if down then stop_server else retA ())
     (thenA (modifyA (\<lambda>s. s\<lparr>em_cfg := Some cfg\<rparr>))
     (bindA (getA em_server) (\<lambda>server.
      if eu_enabled cfg \<and> server = None then start_server bind cfg else retA ()))))"

section \<open>A client's connection\<close>

definition fmt_peer :: "(string \<times> int) option \<Rightarrow> string" where
  "fmt_peer p = (case p of None \<Rightarrow> ''None'' | Some (h, n) \<Rightarrow> h @ '':'' @ show_int n)"

definition eud_connect :: "nat \<Rightarrow> (string \<times> int) option \<Rightarrow> unit eud_act" where
  "eud_connect cid p = modifyA (\<lambda>s. s\<lparr>em_clients := AList.update cid (fmt_peer p) (em_clients s),
     em_origins := AList.update cid {} (em_origins s),
     em_tasks := AList.update cid \<lparr> et_originator = ''atak-'' @ show_nat cid, et_identified = {}, et_buf = [] \<rparr> (em_tasks s)\<rparr>)"

definition eud_disconnect :: "nat \<Rightarrow> unit eud_act" where
  "eud_disconnect cid =
     thenA (modifyA (\<lambda>s. s\<lparr>em_clients := AList.delete cid (em_clients s), em_origins := AList.delete cid (em_origins s),
       em_tasks := AList.delete cid (em_tasks s)\<rparr>))
     (callA (CloseClient cid))"

text \<open>\<open>datetime.isoformat()\<close> in UTC.\<close>

definition iso_utc :: "int \<Rightarrow> string" where
  "iso_utc us =
     (let s = us div 1000000; f = us mod 1000000; (y, m, d) = civil (s div 86400); t = nat (s mod 86400) in
      pad 4 (nat y) @ ''-'' @ pad 2 (nat m) @ ''-'' @ pad 2 (nat d) @ ''T'' @
      pad 2 (t div 3600) @ '':'' @ pad 2 (t div 60 mod 60) @ '':'' @ pad 2 (t mod 60) @
      (if f = 0 then [] else ''.'' @ pad 6 (nat f)) @ ''+00:00'')"

definition quoted :: "string \<Rightarrow> string" where
  "quoted s = CHR 0x22 # s @ [CHR 0x22]"

definition pong :: "int \<Rightarrow> bytes" where
  "pong now =
     (let iso = iso_utc now; stale = iso_utc (now + 20000000) in
      utf8_encode (''<event version='' @ quoted ''2.0'' @ '' uid='' @ quoted ''takPong'' @ '' type='' @ quoted ''t-x-c-t-r''
        @ '' how='' @ quoted ''m-g'' @ '' time='' @ quoted iso @ '' start='' @ quoted iso @ '' stale='' @ quoted stale
        @ ''><point lat='' @ quoted ''0'' @ '' lon='' @ quoted ''0'' @ '' hae='' @ quoted ''0''
        @ '' ce='' @ quoted ''9999999'' @ '' le='' @ quoted ''9999999'' @ ''/></event>'' @ [CHR 0x0A]))"

definition set_task :: "nat \<Rightarrow> (eud_task \<Rightarrow> eud_task) \<Rightarrow> unit eud_act" where
  "set_task cid f = modifyA (\<lambda>s. s\<lparr>em_tasks := (case map_of (em_tasks s) cid of None \<Rightarrow> em_tasks s
     | Some t \<Rightarrow> AList.update cid (f t) (em_tasks s))\<rparr>)"

definition eud_traffic_record :: "bridge_env \<Rightarrow> string \<Rightarrow> string \<Rightarrow> bytes \<Rightarrow> unit eud_act" where
  "eud_traffic_record B peer dir raw = modifyA (\<lambda>s. s\<lparr>em_traffic := traffic_record B peer dir raw (em_traffic s)\<rparr>)"

text \<open>\<open>self._origins[cid].add(originator)\<close> raises \<open>KeyError\<close> for a client no longer listed.\<close>

definition note_origin :: "nat \<Rightarrow> string \<Rightarrow> unit eud_act" where
  "note_origin cid orig =
     bindA (getA (\<lambda>s. map_of (em_origins s) cid)) (\<lambda>os.
     case os of None \<Rightarrow> raiseA (PyExn KeyErr (show_nat cid))
     | Some os \<Rightarrow> modifyA (\<lambda>s. s\<lparr>em_origins := AList.update cid (insert orig os) (em_origins s)\<rparr>))"

definition adopted :: "cot \<Rightarrow> eud_task \<Rightarrow> eud_task" where
  "adopted ev t = (let uid = attr_or ev ''uid'' [] in
     if uid \<noteq> [] \<and> starts_with (attr_or ev ''type'' []) ''a-f'' then t\<lparr>et_originator := ''atak-'' @ uid\<rparr> else t)"

definition eud_bridge :: "bridge_env \<Rightarrow> gateway_config \<Rightarrow> nat \<Rightarrow> string \<Rightarrow> string set \<Rightarrow> body \<Rightarrow> unit eud_act" where
  "eud_bridge B cfg cid orig known b =
     thenA (note_origin cid orig)
     (thenA (case body_callsign b of
          None \<Rightarrow> retA ()
        | Some cs \<Rightarrow> if cs = [] \<or> orig \<in> known then retA ()
            else thenA (set_task cid (\<lambda>t. t\<lparr>et_identified := insert orig (et_identified t)\<rparr>))
              (ingest cfg (fst (be_ids B)) (be_now B) orig (announcement cs ''ATAK EUD'' ''atak'')))
      (ingest cfg (snd (be_ids B)) (be_now B) orig b))"

definition eud_event :: "bridge_env \<Rightarrow> nat \<Rightarrow> eud_task \<Rightarrow> gateway_config \<Rightarrow> bytes \<Rightarrow> cot \<Rightarrow> unit eud_act" where
  "eud_event B cid t cfg raw ev =
     thenA (set_task cid (adopted ev))
     (let orig = et_originator (adopted ev t) in
      bindA (liftA (cot_to_message (be_lib B) [] (be_now B) raw orig)) (\<lambda>m.
      case m of None \<Rightarrow> retA ()
      | Some m \<Rightarrow> eud_bridge B cfg cid orig (et_identified t) (body m)))"

definition eud_ingest :: "bridge_env \<Rightarrow> nat \<Rightarrow> bytes \<Rightarrow> unit eud_act" where
  "eud_ingest B cid raw =
     (if has_marker raw then retA ()
      else bindA (getA (\<lambda>s. s)) (\<lambda>s.
        thenA (eud_traffic_record B (dict_get (em_clients s) cid (''eud-'' @ show_nat cid)) ''in'' raw)
        (case cl_parse (be_lib B) raw of None \<Rightarrow> retA ()
         | Some ev \<Rightarrow>
             let ctype = attr_or ev ''type'' [] in
             if ctype = ''t-x-c-t'' then callA (WriteTo cid (pong (be_now B)))
             else if tak_control ctype then retA ()
             else if cot_is_stale (be_lib B) (be_now B) raw then retA ()
             else (case (em_gateway s, map_of (em_tasks s) cid) of
                 (Some cfg, Some t) \<Rightarrow> eud_event B cid t cfg raw ev
               | _ \<Rightarrow> retA ()))))"

text \<open>A chunk of the stream: every complete document is handled in turn; an exception other than a
  connection error leaves the loop, the client is dropped and the exception goes on.\<close>

definition eud_chunk :: "bridge_env \<Rightarrow> nat \<Rightarrow> bytes \<Rightarrow> unit eud_act" where
  "eud_chunk B cid data =
     bindA (getA (\<lambda>s. map_of (em_tasks s) cid)) (\<lambda>t.
     case t of None \<Rightarrow> retA ()
     | Some t \<Rightarrow>
         (case drain (et_buf t @ data) of (docs, buf) \<Rightarrow>
            thenA (set_task cid (\<lambda>t. t\<lparr>et_buf := buf\<rparr>))
            (catchA (forA docs (eud_ingest B cid)) (\<lambda>e. thenA (eud_disconnect cid) (raiseA e)))))"

section \<open>Fan-out\<close>

text \<open>\<open>outcome cid\<close>: what writing to the client gives.\<close>

definition eud_write :: "(nat \<Rightarrow> unit result) \<Rightarrow> nat \<Rightarrow> bytes \<Rightarrow> unit eud_act" where
  "eud_write outcome cid frame =
     thenA (callA (WriteTo cid frame))
     (case outcome cid of
        Inr _ \<Rightarrow> retA ()
      | Inl _ \<Rightarrow>
          thenA (modifyA (\<lambda>s. s\<lparr>em_clients := AList.delete cid (em_clients s), em_origins := AList.delete cid (em_origins s)\<rparr>))
          (callA (CloseClient cid)))"

definition eud_emit :: "bridge_env \<Rightarrow> (nat \<Rightarrow> unit result) \<Rightarrow> message \<Rightarrow> unit eud_act" where
  "eud_emit B outcome m =
     bindA (getA (\<lambda>s. s)) (\<lambda>s0.
     if em_clients s0 = [] then retA ()
     else if originator_id (header m) = eud_node_id s0 then retA ()
     else (case message_to_cot (be_lib B) (em_stale s0) m of
         None \<Rightarrow> retA ()
       | Some ev \<Rightarrow> forA (em_clients s0) (\<lambda>(cid, peer).
           bindA (getA (\<lambda>s. dict_get (em_origins s) cid {})) (\<lambda>os.
           if originator_id (header m) \<in> os then retA ()
           else thenA (eud_traffic_record B peer ''out'' ev) (eud_write outcome cid (with_newline ev))))))"

section \<open>Status\<close>

record eud_status =
  es_enabled :: bool
  es_listening :: bool
  es_host :: string
  es_port :: int
  es_advertised_host :: "string option"
  es_clients :: "string list"
  es_client_count :: nat
  es_last_error :: "string option"

definition eud_status_of :: "eud \<Rightarrow> eud_status" where
  "eud_status_of s =
     \<lparr> es_enabled = (case em_cfg s of None \<Rightarrow> False | Some c \<Rightarrow> eu_enabled c), es_listening = (em_server s \<noteq> None),
       es_host = (case em_cfg s of None \<Rightarrow> ''0.0.0.0'' | Some c \<Rightarrow> eu_host c),
       es_port = (case em_cfg s of None \<Rightarrow> 8087 | Some c \<Rightarrow> eu_port c),
       es_advertised_host = (case em_cfg s of None \<Rightarrow> None | Some c \<Rightarrow> eu_advertised_host c),
       es_clients = map snd (em_clients s), es_client_count = length (em_clients s), es_last_error = em_last_error s \<rparr>"

section \<open>The listener follows the configuration\<close>

inductive eud_step :: "eud \<Rightarrow> eud \<Rightarrow> bool" where
  attach: "eud_step s (snd (eud_attach node cfg s))"
| configured: "eud_step s (state_of (eud_reconfigure bind ecfg s))"
| halted: "eud_step s (state_of (stop_server s))"
| joined: "eud_step s (state_of (eud_connect cid p s))"
| left: "eud_step s (state_of (eud_disconnect cid s))"
| received: "eud_step s (state_of (eud_chunk B cid data s))"
| outbound: "eud_step s (state_of (eud_emit B outcome m s))"

definition eud_reach :: "int \<Rightarrow> eud \<Rightarrow> bool" where
  "eud_reach stale s \<longleftrightarrow> eud_step\<^sup>*\<^sup>* (eud_init stale) s"

text \<open>The listener is bound where the last configuration says, which enabled it; and every
  listed client has its set of originators.\<close>

definition eud_inv :: "eud \<Rightarrow> bool" where
  "eud_inv s \<longleftrightarrow>
     (case em_server s of None \<Rightarrow> True
      | Some b \<Rightarrow> (case em_cfg s of None \<Rightarrow> False | Some c \<Rightarrow> eu_enabled c \<and> b = (eu_host c, eu_port c))) \<and>
     dom (map_of (em_origins s)) = dom (map_of (em_clients s))"

lemma eud_inv_other [simp]:
  "eud_inv (s\<lparr>em_traffic := x\<rparr>) = eud_inv s" "eud_inv (s\<lparr>em_tasks := y\<rparr>) = eud_inv s"
  "eud_inv (s\<lparr>em_gateway := g, em_relays := r\<rparr>) = eud_inv s"
  by (simp_all add: eud_inv_def split: option.split)

lemma close_all_run: "value_of (forA cs (\<lambda>(cid, _). callA (CloseClient cid)) s) = Inr ()"
  "state_of (forA cs (\<lambda>(cid, _). callA (CloseClient cid)) s) = s"
proof (induction cs arbitrary: s)
  case (Cons p cs)
  { case (1 s) then show ?case using Cons by (cases p) (simp add: thenA_parts callA_def) }
  { case (2 s) then show ?case using Cons by (cases p) (simp add: thenA_parts callA_def) }
qed (simp_all add: act_defs)

lemma stop_server_run: "value_of (stop_server s) = Inr ()"
  "state_of (stop_server s) = s\<lparr>em_server := None, em_clients := [], em_origins := []\<rparr>"
  by (cases "em_server s"; simp add: stop_server_def bindA_parts thenA_parts act_defs close_all_run)+

lemma start_server_run: "value_of (start_server bind cfg s) = Inr ()"
  "state_of (start_server bind cfg s) = (case bind (eu_host cfg) (eu_port cfg) of
     None \<Rightarrow> s\<lparr>em_server := Some (eu_host cfg, eu_port cfg), em_last_error := None\<rparr>
   | Some err \<Rightarrow> s\<lparr>em_server := None, em_last_error := Some err\<rparr>)"
  by (simp_all add: start_server_def thenA_parts act_defs split: option.split)

lemma eud_reconfigure_state:
  "state_of (eud_reconfigure bind cfg s) =
     (let down = (em_server s \<noteq> None \<and> (\<not> eu_enabled cfg \<or> must_rebind cfg s));
          t = (if down then s\<lparr>em_server := None, em_clients := [], em_origins := [], em_cfg := Some cfg\<rparr>
               else s\<lparr>em_cfg := Some cfg\<rparr>)
      in if eu_enabled cfg \<and> em_server t = None then state_of (start_server bind cfg t) else t)"
  by (simp add: eud_reconfigure_def bindA_parts thenA_parts act_defs stop_server_run start_server_run Let_def)

lemma eud_reconfigure_server:
  assumes "eud_inv s"
  shows "em_server (state_of (eud_reconfigure bind cfg s)) =
      (if \<not> eu_enabled cfg then None
       else if em_server s = Some (eu_host cfg, eu_port cfg) then em_server s
       else if bind (eu_host cfg) (eu_port cfg) = None then Some (eu_host cfg, eu_port cfg) else None)"
    and "em_clients (state_of (eud_reconfigure bind cfg s)) =
      (if em_server s = None \<or> eu_enabled cfg \<and> em_server s = Some (eu_host cfg, eu_port cfg) then em_clients s else [])"
    and "em_cfg (state_of (eud_reconfigure bind cfg s)) = Some cfg"
    and "eud_inv (state_of (eud_reconfigure bind cfg s))"
  using assms
  by (auto simp: eud_reconfigure_state start_server_run Let_def must_rebind_def eud_inv_def split: option.splits)

text \<open>Removing a client and its originators, adding one with none, adding to an originator set.\<close>

lemma eud_inv_clients:
  "eud_inv s \<Longrightarrow> eud_inv (s\<lparr>em_clients := AList.delete cid (em_clients s), em_origins := AList.delete cid (em_origins s)\<rparr>)"
  "eud_inv s \<Longrightarrow> eud_inv (s\<lparr>em_clients := AList.update cid p (em_clients s), em_origins := AList.update cid {} (em_origins s)\<rparr>)"
  "eud_inv s \<Longrightarrow> map_of (em_origins s) cid = Some os \<Longrightarrow>
     eud_inv (s\<lparr>em_origins := AList.update cid (insert orig os) (em_origins s)\<rparr>)"
  by (auto simp: eud_inv_def simp del: fun_upd_apply split: option.splits)

lemma set_task_keeps: "(\<And>s t. I s \<Longrightarrow> I (s\<lparr>em_tasks := t\<rparr>)) \<Longrightarrow> keeps I (set_task cid f)"
  by (simp add: set_task_def keeps_modify)

lemma eud_traffic_keeps: "(\<And>s t. I s \<Longrightarrow> I (s\<lparr>em_traffic := t\<rparr>)) \<Longrightarrow> keeps I (eud_traffic_record B p d raw)"
  by (simp add: eud_traffic_record_def keeps_modify)

text \<open>An invariant that survives a client's departure and a new originator of a client survives
  whatever a client sends and whatever is sent to clients.\<close>

locale client_inv =
  fixes I :: "eud \<Rightarrow> bool"
  assumes I_task: "I s \<Longrightarrow> I (s\<lparr>em_tasks := t\<rparr>)"
    and I_traffic: "I s \<Longrightarrow> I (s\<lparr>em_traffic := l\<rparr>)"
    and I_origin: "I s \<Longrightarrow> map_of (em_origins s) cid = Some os \<Longrightarrow>
      I (s\<lparr>em_origins := AList.update cid (insert orig os) (em_origins s)\<rparr>)"
    and I_left: "I s \<Longrightarrow> I (s\<lparr>em_clients := AList.delete cid (em_clients s), em_origins := AList.delete cid (em_origins s)\<rparr>)"
begin

lemma note_origin_I: "keeps I (note_origin cid orig)"
  by (auto simp: keeps_def note_origin_def bindA_parts act_defs I_origin split: option.split)

lemma eud_bridge_I: "keeps I (eud_bridge B cfg cid orig known b)"
  unfolding eud_bridge_def
  by (auto intro!: keeps_then keeps_basic note_origin_I set_task_keeps ingest_keeps I_task split: option.split)

lemma eud_event_I: "keeps I (eud_event B cid t cfg raw ev)"
  unfolding eud_event_def Let_def
  by (auto intro!: keeps_then keeps_bind keeps_basic eud_bridge_I set_task_keeps I_task split: option.split)

lemma eud_ingest_I: "keeps I (eud_ingest B cid raw)"
  unfolding eud_ingest_def Let_def
  by (auto intro!: keeps_then keeps_bind keeps_basic eud_event_I eud_traffic_keeps I_traffic split: option.split)

lemma eud_disconnect_I: "keeps I (eud_disconnect cid)"
proof -
  have "I (s\<lparr>em_clients := AList.delete cid (em_clients s), em_origins := AList.delete cid (em_origins s), em_tasks := t\<rparr>)"
    if "I s" for s t
    using I_task [OF I_left [OF that]] by simp
  then show ?thesis unfolding eud_disconnect_def by (intro keeps_then keeps_basic keeps_modify)
qed

lemma eud_chunk_I: "keeps I (eud_chunk B cid data)"
  unfolding eud_chunk_def
  by (auto intro!: keeps_then keeps_bind keeps_catch keeps_for keeps_basic eud_ingest_I eud_disconnect_I set_task_keeps I_task
      split: option.split prod.split)

lemma eud_write_I: "keeps I (eud_write outcome cid frame)"
  unfolding eud_write_def by (auto intro!: keeps_then keeps_basic keeps_modify I_left split: sum.split)

lemma eud_emit_I: "keeps I (eud_emit B outcome m)"
  unfolding eud_emit_def
  by (auto intro!: keeps_then keeps_bind keeps_for keeps_basic eud_write_I eud_traffic_keeps I_traffic
      split: option.split prod.split)

end

interpretation inv_kept: client_inv eud_inv
  by unfold_locales (simp_all add: eud_inv_clients)

lemma eud_connect_inv: "keeps eud_inv (eud_connect cid p)"
proof -
  have "eud_inv (s\<lparr>em_clients := AList.update cid q (em_clients s), em_origins := AList.update cid {} (em_origins s), em_tasks := t\<rparr>)"
    if "eud_inv s" for s q t
    using eud_inv_clients(2) [OF that, of cid q] by (simp add: eud_inv_def split: option.splits)
  then show ?thesis unfolding eud_connect_def by (intro keeps_modify)
qed

lemma eud_step_inv: "eud_step s s' \<Longrightarrow> eud_inv s \<Longrightarrow> eud_inv s'"
proof (induction rule: eud_step.induct)
  case (halted s)
  then show ?case by (simp add: stop_server_run eud_inv_def)
qed (auto simp: eud_attach_def eud_reconfigure_server dest: keepsD [OF inv_kept.eud_chunk_I] keepsD [OF inv_kept.eud_emit_I]
    keepsD [OF inv_kept.eud_disconnect_I] keepsD [OF eud_connect_inv])

lemma eud_reach_inv: "eud_reach stale s \<Longrightarrow> eud_inv s"
  unfolding eud_reach_def
proof (induction rule: rtranclp_induct)
  case base
  show ?case by (simp add: eud_init_def eud_inv_def)
qed (rule eud_step_inv)

text \<open>In every state the EUD server can reach, a configuration brings the listener where it
  says: no listener when disabled; an unchanged address keeps the listener and its clients; any
  other address is bound anew, or, when binding fails, nothing listens and the error is shown;
  and moving or closing the listener drops all clients.\<close>

theorem eud_listener:
  assumes "eud_reach stale s" and "s' = state_of (eud_reconfigure bind cfg s)"
  shows "em_server s' =
      (if \<not> eu_enabled cfg then None
       else if em_server s = Some (eu_host cfg, eu_port cfg) then em_server s
       else if bind (eu_host cfg) (eu_port cfg) = None then Some (eu_host cfg, eu_port cfg) else None) \<and>
    em_clients s' =
      (if em_server s = None \<or> eu_enabled cfg \<and> em_server s = Some (eu_host cfg, eu_port cfg) then em_clients s else []) \<and>
    es_listening (eud_status_of s') = (em_server s' \<noteq> None) \<and> es_port (eud_status_of s') = eu_port cfg"
  using eud_reconfigure_server [OF eud_reach_inv [OF assms(1)], of bind cfg]
  by (simp add: assms(2) eud_status_of_def)

section \<open>No echo\<close>

text \<open>A client that has left gets nothing; of a listed one the originators are remembered.\<close>

definition from_client :: "nat \<Rightarrow> string \<Rightarrow> eud \<Rightarrow> bool" where
  "from_client cid orig s \<longleftrightarrow> map_of (em_clients s) cid = None \<or> orig \<in> dict_get (em_origins s) cid {}"

interpretation from_kept: client_inv "from_client cid orig" for cid orig
  by unfold_locales (auto simp: from_client_def dict_get_def)

inductive eud_bridging :: "nat \<Rightarrow> eud \<Rightarrow> eud \<Rightarrow> bool" where
  attach: "eud_bridging cid s (snd (eud_attach node cfg s))"
| configured: "eud_bridging cid s (state_of (eud_reconfigure bind ecfg s))"
| joined: "i \<noteq> cid \<Longrightarrow> eud_bridging cid s (state_of (eud_connect i p s))"
| left: "eud_bridging cid s (state_of (eud_disconnect i s))"
| received: "eud_bridging cid s (state_of (eud_chunk B i data s))"
| outbound: "eud_bridging cid s (state_of (eud_emit B outcome m s))"

lemma start_server_from: "from_client cid orig (state_of (start_server bind cfg s)) = from_client cid orig s"
  by (simp add: start_server_run from_client_def split: option.split)

lemma eud_bridging_from: "eud_bridging cid s s' \<Longrightarrow> from_client cid orig s \<Longrightarrow> from_client cid orig s'"
proof (induction rule: eud_bridging.induct)
  case (configured cid s bind ecfg)
  then show ?case
    by (simp add: eud_reconfigure_state Let_def start_server_from) (simp add: from_client_def)
next
  case (joined i cid s p)
  then show ?case by (simp add: eud_connect_def act_defs from_client_def)
qed (auto simp: eud_attach_def from_client_def [of _ _ "_\<lparr>em_gateway := _, em_relays := _\<rparr>"] from_client_def [symmetric]
    dest: keepsD [OF from_kept.eud_chunk_I] keepsD [OF from_kept.eud_emit_I] keepsD [OF from_kept.eud_disconnect_I])

text \<open>Whatever a chunk of a client's stream made the node take in, it is remembered for that client.\<close>

definition remembered :: "nat \<Rightarrow> bcall \<Rightarrow> eud \<Rightarrow> bool" where
  "remembered cid c s = (case c of Ingest m \<Rightarrow> from_client cid (originator_id (header m)) s | _ \<Rightarrow> True)"

interpretation remembered_kept: client_inv "remembered cid c" for cid c
  by unfold_locales (auto simp: remembered_def from_kept.I_task from_kept.I_traffic from_kept.I_origin from_kept.I_left
      split: bcall.split)

lemma eud_bridge_marks: "marks (remembered cid) (eud_bridge B cfg cid orig known b)"
proof -
  let ?n = "thenA (case body_callsign b of None \<Rightarrow> retA ()
      | Some cs \<Rightarrow> if cs = [] \<or> orig \<in> known then retA ()
          else thenA (set_task cid (\<lambda>t. t\<lparr>et_identified := insert orig (et_identified t)\<rparr>))
            (ingest cfg (fst (be_ids B)) (be_now B) orig (announcement cs ''ATAK EUD'' ''atak'')))
      (ingest cfg (snd (be_ids B)) (be_now B) orig b)"
  have task: "ensures (from_client cid orig) (ingests_from orig) (set_task cid f)" for f
    unfolding set_task_def by (intro ensures_basic from_kept.I_task)
  have n: "ensures (from_client cid orig) (ingests_from orig) ?n"
  proof (rule ensures_then [OF _ ingest_from])
    show "ensures (from_client cid orig) (ingests_from orig) (case body_callsign b of None \<Rightarrow> retA ()
      | Some cs \<Rightarrow> if cs = [] \<or> orig \<in> known then retA ()
          else thenA (set_task cid (\<lambda>t. t\<lparr>et_identified := insert orig (et_identified t)\<rparr>))
            (ingest cfg (fst (be_ids B)) (be_now B) orig (announcement cs ''ATAK EUD'' ''atak'')))"
      by (cases "body_callsign b") (auto intro: ensures_then [OF task ingest_from] ensures_basic)
  qed
  have o: "calls_of (note_origin cid orig s) = []" "value_of (note_origin cid orig s) = Inr x \<Longrightarrow>
      from_client cid orig (state_of (note_origin cid orig s))" for s x
    by (cases "map_of (em_origins s) cid"; simp add: note_origin_def bindA_parts act_defs from_client_def)+
  show ?thesis
    unfolding marks_def
  proof
    fix s
    show "list_all (\<lambda>c. remembered cid c (state_of (eud_bridge B cfg cid orig known b s))) (calls_of (eud_bridge B cfg cid orig known b s))"
    proof (cases "value_of (note_origin cid orig s)")
      case (Inl e)
      then show ?thesis by (simp add: eud_bridge_def thenA_parts o)
    next
      case (Inr u)
      let ?t = "state_of (note_origin cid orig s)"
      have run: "state_of (eud_bridge B cfg cid orig known b s) = state_of (?n ?t)"
        "calls_of (eud_bridge B cfg cid orig known b s) = calls_of (?n ?t)"
        unfolding eud_bridge_def thenA_parts(2,3) [of "note_origin cid orig"] by (simp_all add: Inr o)
      have "from_client cid orig (state_of (?n ?t)) \<and> list_all (ingests_from orig) (calls_of (?n ?t))"
        by (rule ensuresD [OF n o(2) [OF Inr]])
      then show ?thesis
        unfolding run list_all_iff remembered_def by (auto split: bcall.split)
    qed
  qed
qed

lemma set_task_marks: "marks R (set_task cid f)"
  by (simp add: set_task_def marks_basic)

lemma eud_event_marks: "marks (remembered cid) (eud_event B cid t cfg raw ev)"
  unfolding eud_event_def Let_def
  by (auto intro!: marks_then marks_bind marks_basic set_task_marks eud_bridge_marks keeps_bind keeps_basic
      remembered_kept.eud_bridge_I split: option.split)

lemma eud_ingest_marks: "marks (remembered cid) (eud_ingest B cid raw)"
proof -
  have w: "marks (remembered cid) (callA (WriteTo i f))" for i f
    by (intro marks_basic) (simp add: remembered_def)
  have k: "keeps (remembered cid c) (eud_event B cid t cfg raw ev)" for c t cfg ev
    by (rule remembered_kept.eud_event_I)
  show ?thesis
    unfolding eud_ingest_def Let_def eud_traffic_record_def
    by (auto intro!: marks_then marks_bind marks_basic(1,2,3,5) w eud_event_marks keeps_then keeps_modify keeps_basic k
        remembered_kept.I_traffic split: option.split)
qed

lemma eud_chunk_marks: "marks (remembered cid) (eud_chunk B cid data)"
proof -
  have close: "marks (remembered cid) (eud_disconnect cid)"
    unfolding eud_disconnect_def
    by (intro marks_then marks_basic keeps_basic) (simp add: remembered_def)
  show ?thesis
    unfolding eud_chunk_def
    by (auto intro!: marks_then marks_bind marks_catch marks_for marks_basic(1,2,3,5) set_task_marks eud_ingest_marks close
        keeps_then keeps_bind keeps_catch keeps_for keeps_basic remembered_kept.eud_ingest_I remembered_kept.eud_disconnect_I
        set_task_keeps remembered_kept.I_task split: option.split prod.split)
qed

fun not_to :: "nat \<Rightarrow> bcall \<Rightarrow> bool" where
  "not_to cid (WriteTo i _) = (i \<noteq> cid)"
| "not_to cid _ = True"

lemma eud_write_not_to:
  "i \<noteq> cid \<Longrightarrow> ensures (\<lambda>s. orig \<in> dict_get (em_origins s) cid {}) (not_to cid) (eud_write outcome i f)"
  "i \<noteq> cid \<Longrightarrow> ensures (\<lambda>s. True) (not_to cid) (eud_write outcome i f)"
  unfolding eud_write_def by (auto intro!: ensures_then ensures_basic simp: dict_get_def split: sum.split)

text \<open>The loop of \<open>_emit\<close>.\<close>

definition emit_one where
  "emit_one B outcome orig frame = (\<lambda>(cid, peer).
     bindA (getA (\<lambda>s. dict_get (em_origins s) cid {})) (\<lambda>os.
     if orig \<in> os then retA ()
     else thenA (eud_traffic_record B peer ''out'' frame) (eud_write outcome cid (with_newline frame))))"

lemma emit_one_not_to:
  "ensures (\<lambda>s. orig \<in> dict_get (em_origins s) cid {}) (not_to cid) (emit_one B outcome orig frame x)"
  "fst x \<noteq> cid \<Longrightarrow> ensures (\<lambda>s. True) (not_to cid) (emit_one B outcome orig frame x)"
  unfolding emit_one_def eud_traffic_record_def
  by (cases x; cases "fst x = cid";
      auto intro!: ensures_get ensures_then ensures_basic eud_write_not_to)+

lemma from_client_not_sent:
  assumes "from_client cid (originator_id (header m)) s"
  shows "WriteTo cid f \<notin> set (calls_of (eud_emit B outcome m s))"
proof -
  let ?o = "originator_id (header m)"
  have "list_all (not_to cid) (calls_of (forA (em_clients s) (emit_one B outcome ?o frame) s))" for frame
  proof (cases "map_of (em_clients s) cid")
    case None
    then have "\<And>x. x \<in> set (em_clients s) \<Longrightarrow> fst x \<noteq> cid" by (auto simp: map_of_eq_None_iff)
    then have "ensures (\<lambda>s. True) (not_to cid) (forA (em_clients s) (emit_one B outcome ?o frame))"
      by (intro ensures_for_in emit_one_not_to)
    from ensuresD [OF this] show ?thesis by blast
  next
    case (Some p)
    then have o: "?o \<in> dict_get (em_origins s) cid {}" using assms by (simp add: from_client_def)
    have "ensures (\<lambda>s. ?o \<in> dict_get (em_origins s) cid {}) (not_to cid) (forA (em_clients s) (emit_one B outcome ?o frame))"
      by (intro ensures_for emit_one_not_to)
    from ensuresD [OF this o] show ?thesis by blast
  qed
  then have "list_all (not_to cid) (calls_of (eud_emit B outcome m s))"
    by (simp add: eud_emit_def emit_one_def bindA_parts getA_def retA_def split: option.split)
  then show ?thesis by (auto simp: list_all_iff)
qed

definition eud_taken :: "nat \<Rightarrow> message \<Rightarrow> eud \<Rightarrow> eud \<Rightarrow> bool" where
  "eud_taken cid m s s' \<longleftrightarrow> (\<exists>B data. Ingest m \<in> set (calls_of (eud_chunk B cid data s)) \<and> s' = state_of (eud_chunk B cid data s))"

definition eud_sent :: "nat \<Rightarrow> message \<Rightarrow> eud \<Rightarrow> bool" where
  "eud_sent cid m s \<longleftrightarrow> (\<exists>B outcome f. WriteTo cid f \<in> set (calls_of (eud_emit B outcome m s)))"

interpretation eud_side: cot_bridge eud_bridging eud_taken eud_sent from_client
proof
  fix cid m s s' orig
  show "eud_taken cid m s s' \<Longrightarrow> from_client cid (originator_id (header m)) s'"
    unfolding eud_taken_def using marksD [OF eud_chunk_marks] by (fastforce simp: remembered_def)
  show "eud_bridging cid s s' \<Longrightarrow> from_client cid orig s \<Longrightarrow> from_client cid orig s'" by (rule eud_bridging_from)
  show "eud_sent cid m s \<Longrightarrow> \<not> from_client cid (originator_id (header m)) s"
    unfolding eud_sent_def using from_client_not_sent by blast
qed

text \<open>Property C15: what an EUD's stream brought into the network is never streamed back to that EUD,
  however the stream was cut into chunks and whatever happens to the server meanwhile: other
  clients coming, going or sending, failed writes, a listener moved or closed.\<close>

theorem eud_no_echo:
  assumes "Ingest m \<in> set (calls_of (eud_chunk B cid data s))"
    and "(eud_bridging cid)\<^sup>*\<^sup>* (state_of (eud_chunk B cid data s)) s'"
    and "originator_id (header m') = originator_id (header m)"
  shows "WriteTo cid f \<notin> set (calls_of (eud_emit B' outcome m' s'))"
proof -
  have "eud_taken cid m s (state_of (eud_chunk B cid data s))" using assms(1) unfolding eud_taken_def by blast
  from eud_side.never_echoed [OF this assms(2,3)] show ?thesis unfolding eud_sent_def by blast
qed

section \<open>A coordinate that is no number\<close>

lemma coordinate_raises:
  assumes "cl_parse L raw = Some ev" and "cot_tag ev = ''event''" and "find_child ''point'' ev = Some p"
    and "attr p ''lat'' = Some x" and "x \<noteq> []" and "cl_float L x = None"
  shows "\<exists>e. cot_to_message L mid now raw orig = Inl e \<and> exn_kind e = ValueErr"
  using assms
  by (simp add: cot_to_message_def mk_header_def in_range_def tree_to_body_def cot_point_def coordinate_def
      attr_or_def attr_def dict_get_def py_float_def)

text \<open>One event whose latitude is not a number costs an EUD its connection: the exception
  leaves the read loop, no later document of the chunk is handled, nothing reaches the network
  and the client is closed and forgotten.\<close>

theorem bad_coordinate_disconnects:
  assumes "map_of (em_tasks s) cid = Some t" and "em_gateway s = Some cfg" and "drain (et_buf t @ data) = (raw # docs, buf)"
    and "\<not> has_marker raw" and "cl_parse (be_lib B) raw = Some ev" and "cot_tag ev = ''event''"
    and "\<not> tak_control (attr_or ev ''type'' [])" and "\<not> cot_is_stale (be_lib B) (be_now B) raw"
    and "find_child ''point'' ev = Some p" and "attr p ''lat'' = Some x" and "x \<noteq> []" and "cl_float (be_lib B) x = None"
  shows "(\<exists>e. value_of (eud_chunk B cid data s) = Inl e \<and> exn_kind e = ValueErr) \<and>
    calls_of (eud_chunk B cid data s) = [CloseClient cid] \<and> map_of (em_clients (state_of (eud_chunk B cid data s))) cid = None"
proof -
  let ?orig = "et_originator (adopted ev (t\<lparr>et_buf := buf\<rparr>))"
  obtain e where e: "cot_to_message (be_lib B) [] (be_now B) raw ?orig = Inl e" "exn_kind e = ValueErr"
    using coordinate_raises [OF assms(5,6,9-12)] by blast
  have ty: "attr_or ev ''type'' [] \<noteq> ''t-x-c-t''" using assms(7) by (auto simp: tak_control_def starts_with_def)
  have "\<exists>s'. eud_ingest B cid raw (s\<lparr>em_tasks := AList.update cid (t\<lparr>et_buf := buf\<rparr>) (em_tasks s)\<rparr>) = (Inl e, s', [])"
    by (rule exI, subst outcome_eq)
      (simp add: eud_ingest_def eud_event_def set_task_def eud_traffic_record_def bindA_parts thenA_parts act_defs
        Let_def assms ty e)
  then obtain s' where i: "eud_ingest B cid raw (s\<lparr>em_tasks := AList.update cid (t\<lparr>et_buf := buf\<rparr>) (em_tasks s)\<rparr>) = (Inl e, s', [])"
    by blast
  show ?thesis
    using e(2)
    by (simp add: eud_chunk_def eud_disconnect_def set_task_def bindA_parts thenA_parts catchA_parts act_defs assms i)
qed

section \<open>Witnesses\<close>

theorem eud_listener_witness:
  "em_server (state_of (eud_reconfigure (\<lambda>_ _. None) (default_eud_server\<lparr>eu_enabled := True\<rparr>) (eud_init 60))) =
     Some (''0.0.0.0'', 8087)"
proof -
  have "eud_reach 60 (eud_init 60)" by (simp add: eud_reach_def)
  from eud_listener [OF this refl, of "\<lambda>_ _. None" "default_eud_server\<lparr>eu_enabled := True\<rparr>"] show ?thesis
    by (simp add: default_eud_server_def eud_init_def)
qed

text \<open>A chat event from client 7, in one chunk.\<close>

definition demo_eud :: eud where
  "demo_eud = state_of (eud_connect 7 None (snd (eud_attach 0 default_config (eud_init 60))))"

definition demo_eud_event :: cot where
  "demo_eud_event = Cot ''event'' [(''type'', ''b-t-f'')] None []"

definition demo_eud_env :: bridge_env where
  "demo_eud_env = \<lparr> be_lib = demo_lib demo_eud_event, be_text = (\<lambda>_. []), be_now = 0, be_ids = (''i1'', ''i2''),
     be_mkstemp = (\<lambda>s _. ''/tmp/x'' @ s) \<rparr>"

definition demo_chunk :: bytes where
  "demo_chunk = EVENT_START @ EVENT_END"

definition demo_eud_message :: message where
  "demo_eud_message = \<lparr> header = \<lparr> message_id = ''i2'', originator_id = ''atak-7'', network_id = ''default'',
      reporting_time = 0, sequence = 0, classification = 0, releasable_to = ''ALL'' \<rparr>,
     body = ChatMessage \<lparr> ch_text = [], ch_recipient = ''all'' \<rparr> \<rparr>"

lemma demo_drain: "drain demo_chunk = ([demo_chunk], [])"
  by code_simp

lemma demo_no_marker: "\<not> has_marker demo_chunk"
  by code_simp

lemma digit_7: "digit 7 = CHR ''7''"
  by code_simp

lemma demo_eud_state: "demo_eud = (eud_init 60)\<lparr>em_gateway := Some default_config, em_relays := {0},
    em_clients := [(7, ''None'')], em_origins := [(7, {})],
    em_tasks := [(7, \<lparr> et_originator = ''atak-7'', et_identified = {}, et_buf = [] \<rparr>)]\<rparr>"
  by (simp add: demo_eud_def eud_connect_def eud_attach_def eud_init_def act_defs fmt_peer_def digit_7)

lemma demo_eud_run: "calls_of (eud_chunk demo_eud_env 7 demo_chunk demo_eud) = [Ingest demo_eud_message]"
  by (simp add: eud_chunk_def demo_eud_state eud_init_def demo_drain bindA_parts thenA_parts catchA_parts act_defs
      set_task_def eud_ingest_def demo_no_marker eud_traffic_record_def demo_eud_env_def demo_lib_def demo_eud_event_def
      attr_or_def attr_def dict_get_def tak_control_def starts_with_def cot_is_stale_def eud_event_def adopted_def Let_def
      cot_to_message_def mk_header_def in_range_def tree_to_body_def cot_point_def find_child_def cot_fields_def
      event_body_def or_else_def eud_bridge_def note_origin_def ingest_run bridge_message_def
      default_config_def default_network_def default_classification_def demo_eud_message_def)

theorem eud_no_echo_witness:
  "WriteTo 7 [] \<notin> set (calls_of (eud_emit demo_eud_env (\<lambda>_. Inr ()) demo_eud_message
     (state_of (eud_chunk demo_eud_env 7 demo_chunk demo_eud))))"
proof -
  have "Ingest demo_eud_message \<in> set (calls_of (eud_chunk demo_eud_env 7 demo_chunk demo_eud))"
    by (simp add: demo_eud_run)
  from eud_no_echo [OF this rtranclp.rtrancl_refl refl] show ?thesis .
qed

definition demo_bad_event :: cot where
  "demo_bad_event = Cot ''event'' [(''type'', ''a-f-G'')] None [Cot ''point'' [(''lat'', ''north'')] None []]"

theorem bad_coordinate_disconnects_witness:
  "calls_of (eud_chunk (demo_eud_env\<lparr>be_lib := demo_lib demo_bad_event\<rparr>) 7 demo_chunk demo_eud) = [CloseClient 7]"
proof -
  let ?t = "\<lparr> et_originator = ''atak-7'', et_identified = {}, et_buf = [] \<rparr>"
  have "map_of (em_tasks demo_eud) 7 = Some ?t" "em_gateway demo_eud = Some default_config"
    by (simp_all add: demo_eud_state)
  moreover have "drain (et_buf ?t @ demo_chunk) = (demo_chunk # [], [])" by (simp add: demo_drain)
  ultimately show ?thesis
    using bad_coordinate_disconnects [of demo_eud 7 ?t default_config demo_chunk demo_chunk "[]" "[]"
        "demo_eud_env\<lparr>be_lib := demo_lib demo_bad_event\<rparr>" demo_bad_event "Cot ''point'' [(''lat'', ''north'')] None []" "''north''"]
      demo_no_marker
    by (simp add: demo_bad_event_def demo_lib_def demo_eud_env_def tak_control_def starts_with_def attr_or_def attr_def
        dict_get_def cot_is_stale_def find_child_def rat_back_def)
qed

end
