(* ===== verification/Atak.thy ===== *)
theory Atak
  imports CotLog
begin

text \<open>
  \<open>bridges/atak.py\<close>: the bridge between the node and ATAK's CoT multicast group. Everything read from
  the group is published under the node's own identity; messages of other nodes are sent to the
  group; and a node whose presence stopped is deleted there.
\<close>

section \<open>State and operations\<close>

record atak =
  ab_node_id :: string
  ab_stale :: int
  ab_drop_stale :: bool
  ab_last_seen :: "(string, int) dict"
  ab_cot_in :: nat
  ab_jdss_out :: nat
  ab_jdss_in :: nat
  ab_cot_out :: nat
  ab_stale_dropped :: nat
  ab_cot_deleted :: nat

type_synonym 'a atak_act = "(atak, bcall, 'a) act"

definition atak_init :: "gateway_config \<Rightarrow> int \<Rightarrow> bool \<Rightarrow> atak" where
  "atak_init cfg stale drop_stale = \<lparr> ab_node_id = own_id cfg, ab_stale = max 5 stale, ab_drop_stale = drop_stale,
     ab_last_seen = [], ab_cot_in = 0, ab_jdss_out = 0, ab_jdss_in = 0, ab_cot_out = 0, ab_stale_dropped = 0,
     ab_cot_deleted = 0 \<rparr>"

text \<open>\<open>published\<close> and \<open>sent\<close>: what the gateway's \<open>publish\<close> and the transport's \<open>send\<close> give.\<close>

definition atak_on_cot :: "bridge_env \<Rightarrow> unit result \<Rightarrow> bytes \<Rightarrow> unit atak_act" where
  "atak_on_cot B published raw =
     (if has_marker raw then retA ()
      else bindA (getA (\<lambda>s. s)) (\<lambda>s.
        if ab_drop_stale s \<and> cot_is_stale (be_lib B) (be_now B) raw
          then modifyA (\<lambda>s. s\<lparr>ab_stale_dropped := ab_stale_dropped s + 1\<rparr>)
        else bindA (liftA (cot_to_message (be_lib B) (fst (be_ids B)) (be_now B) raw (ab_node_id s))) (\<lambda>m.
          case m of None \<Rightarrow> retA ()
          | Some m \<Rightarrow>
              thenA (modifyA (\<lambda>s. s\<lparr>ab_cot_in := ab_cot_in s + 1\<rparr>))
              (thenA (callA (Publish (body m)))
              (thenA (liftA published)
              (modifyA (\<lambda>s. s\<lparr>ab_jdss_out := ab_jdss_out s + 1\<rparr>)))))))"

definition atak_emit :: "bridge_env \<Rightarrow> unit result \<Rightarrow> message \<Rightarrow> unit atak_act" where
  "atak_emit B sent m =
     bindA (getA (\<lambda>s. s)) (\<lambda>s.
     if originator_id (header m) = ab_node_id s then retA ()
     else
       thenA (if body_type (body m) = PRESENCE
           then modifyA (\<lambda>s. s\<lparr>ab_last_seen := AList.update (originator_id (header m)) (be_now B) (ab_last_seen s)\<rparr>)
           else retA ())
       (case message_to_cot (be_lib B) (ab_stale s) m of
          None \<Rightarrow> retA ()
        | Some frame \<Rightarrow>
            thenA (modifyA (\<lambda>s. s\<lparr>ab_jdss_in := ab_jdss_in s + 1\<rparr>))
            (thenA (callA (Multicast frame))
            (thenA (liftA sent)
            (modifyA (\<lambda>s. s\<lparr>ab_cot_out := ab_cot_out s + 1\<rparr>))))))"

text \<open>Nodes whose last presence is older than the window, in the order they were first seen.\<close>

definition dead_nodes :: "int \<Rightarrow> atak \<Rightarrow> string list" where
  "dead_nodes now s = map fst (filter (\<lambda>(_, ts). now - ts > ab_stale s * 1000000) (ab_last_seen s))"

definition sweep_one :: "bridge_env \<Rightarrow> (string \<Rightarrow> unit result) \<Rightarrow> string \<Rightarrow> unit atak_act" where
  "sweep_one B sent orig =
     thenA (callA (Multicast (cot_delete (be_lib B) (''JDSS.'' @ orig) (be_now B))))
       (thenA (liftA (sent orig))
       (thenA (modifyA (\<lambda>s. s\<lparr>ab_last_seen := AList.delete orig (ab_last_seen s)\<rparr>))
       (modifyA (\<lambda>s. s\<lparr>ab_cot_deleted := ab_cot_deleted s + 1\<rparr>))))"

definition atak_sweep :: "bridge_env \<Rightarrow> (string \<Rightarrow> unit result) \<Rightarrow> int \<Rightarrow> unit atak_act" where
  "atak_sweep B sent now = bindA (getA (dead_nodes now)) (\<lambda>dead. forA dead (sweep_one B sent))"

text \<open>One round of \<open>_sweep_loop\<close>, with \<open>suppress(Exception)\<close>.\<close>

definition sweep_round :: "bridge_env \<Rightarrow> (string \<Rightarrow> unit result) \<Rightarrow> unit atak_act" where
  "sweep_round B sent = catchA (atak_sweep B sent (be_now B)) (\<lambda>_. retA ())"

section \<open>No echo\<close>

text \<open>What comes from the group is published under the node's own identity, and nothing of that
  identity goes back.\<close>

inductive atak_step :: "unit \<Rightarrow> atak \<Rightarrow> atak \<Rightarrow> bool" where
  inbound: "atak_step u s (state_of (atak_on_cot B r raw s))"
| outbound: "atak_step u s (state_of (atak_emit B r m s))"
| swept: "atak_step u s (state_of (sweep_round B sent s))"

definition atak_taken :: "unit \<Rightarrow> message \<Rightarrow> atak \<Rightarrow> atak \<Rightarrow> bool" where
  "atak_taken u m s s' \<longleftrightarrow> (\<exists>B r raw. Publish (body m) \<in> set (calls_of (atak_on_cot B r raw s)) \<and>
     s' = state_of (atak_on_cot B r raw s)) \<and> originator_id (header m) = ab_node_id s"

definition atak_sent :: "unit \<Rightarrow> message \<Rightarrow> atak \<Rightarrow> bool" where
  "atak_sent u m s \<longleftrightarrow> (\<exists>B r. calls_of (atak_emit B r m s) \<noteq> [])"

lemma atak_id_kept:
  "keeps (\<lambda>s. ab_node_id s = i) (atak_on_cot B r raw)" "keeps (\<lambda>s. ab_node_id s = i) (atak_emit B r m)"
  "keeps (\<lambda>s. ab_node_id s = i) (sweep_round B sent)"
  unfolding atak_on_cot_def atak_emit_def sweep_round_def atak_sweep_def sweep_one_def
  by (auto intro!: keeps_bind keeps_then keeps_for keeps_catch keeps_basic keeps_modify split: option.split)

interpretation atak_side: cot_bridge atak_step atak_taken atak_sent "\<lambda>_ orig s. orig = ab_node_id s"
proof
  fix u m s s' orig
  show "atak_taken u m s s' \<Longrightarrow> originator_id (header m) = ab_node_id s'"
    unfolding atak_taken_def using keepsD [OF atak_id_kept(1), of s "ab_node_id s"] by auto
  show "atak_step u s s' \<Longrightarrow> orig = ab_node_id s \<Longrightarrow> orig = ab_node_id s'"
    by (induction rule: atak_step.induct) (simp_all add: keepsD [OF atak_id_kept(1) refl] keepsD [OF atak_id_kept(2) refl]
        keepsD [OF atak_id_kept(3) refl])
  show "atak_sent u m s \<Longrightarrow> originator_id (header m) \<noteq> ab_node_id s"
    by (auto simp: atak_sent_def atak_emit_def bindA_parts act_defs)
qed

section \<open>The sweep\<close>

lemma sweep_loop:
  defines "ok \<equiv> \<lambda>(sent :: string \<Rightarrow> unit result) orig. is_ok (sent orig)"
  shows "ab_last_seen (state_of (forA ds (sweep_one B sent) s)) =
      filter (\<lambda>(k, _). k \<notin> set (takeWhile (ok sent) ds)) (ab_last_seen s)"
    and "calls_of (forA ds (sweep_one B sent) s) =
      map (\<lambda>orig. Multicast (cot_delete (be_lib B) (''JDSS.'' @ orig) (be_now B))) (take (Suc (length (takeWhile (ok sent) ds))) ds)"
    and "ab_cot_deleted (state_of (forA ds (sweep_one B sent) s)) = ab_cot_deleted s + length (takeWhile (ok sent) ds)"
    and "ab_stale (state_of (forA ds (sweep_one B sent) s)) = ab_stale s"
proof (induction ds arbitrary: s)
  case (Cons d ds)
  have r: "state_of (sweep_one B sent d s) = (if is_ok (sent d) then s\<lparr>ab_last_seen := AList.delete d (ab_last_seen s),
      ab_cot_deleted := ab_cot_deleted s + 1\<rparr> else s)"
    "calls_of (sweep_one B sent d s) = [Multicast (cot_delete (be_lib B) (''JDSS.'' @ d) (be_now B))]"
    "value_of (sweep_one B sent d s) = sent d" for s
    by (cases "sent d"; simp add: sweep_one_def thenA_parts act_defs)+
  { case (1 s) show ?case
      by (cases "sent d") (simp_all add: thenA_parts r ok_def Cons [unfolded ok_def] AList.delete_eq split_def, auto intro: filter_cong) }
  { case (2 s) show ?case by (cases "sent d") (simp_all add: thenA_parts r ok_def Cons [unfolded ok_def]) }
  { case (3 s) show ?case by (cases "sent d") (simp_all add: thenA_parts r ok_def Cons [unfolded ok_def]) }
  { case (4 s) show ?case by (cases "sent d") (simp_all add: thenA_parts r ok_def Cons [unfolded ok_def]) }
qed (simp_all add: act_defs)

lemma sweep_run:
  "state_of (sweep_round B sent s) = state_of (forA (dead_nodes (be_now B) s) (sweep_one B sent) s)"
  "calls_of (sweep_round B sent s) = calls_of (forA (dead_nodes (be_now B) s) (sweep_one B sent) s)"
  by (simp_all add: sweep_round_def atak_sweep_def catchA_parts bindA_parts act_defs split: sum.split)

lemma dead_filter:
  "ab_last_seen s' = filter (\<lambda>(k, _). k \<notin> D) (ab_last_seen s) \<Longrightarrow> ab_stale s' = ab_stale s \<Longrightarrow>
    dead_nodes now s' = filter (\<lambda>k. k \<notin> D) (dead_nodes now s)"
  by (simp add: dead_nodes_def filter_map comp_def split_def conj_commute)

text \<open>A round of the sweep sends a delete for every node silent for longer than the
  window, in order, up to the first send that fails; exactly the nodes whose delete went out are
  forgotten, so the others are tried again in the next round, and a node heard from within
  the window is neither deleted nor forgotten.\<close>

theorem sweep_deletes_dead:
  shows "calls_of (sweep_round B sent s) =
      map (\<lambda>orig. Multicast (cot_delete (be_lib B) (''JDSS.'' @ orig) (be_now B)))
        (take (Suc (length (takeWhile (\<lambda>orig. is_ok (sent orig)) (dead_nodes (be_now B) s)))) (dead_nodes (be_now B) s)) \<and>
    ab_last_seen (state_of (sweep_round B sent s)) =
      filter (\<lambda>(k, _). k \<notin> set (takeWhile (\<lambda>orig. is_ok (sent orig)) (dead_nodes (be_now B) s))) (ab_last_seen s) \<and>
    dead_nodes (be_now B) (state_of (sweep_round B sent s)) =
      filter (\<lambda>k. k \<notin> set (takeWhile (\<lambda>orig. is_ok (sent orig)) (dead_nodes (be_now B) s))) (dead_nodes (be_now B) s) \<and>
    ab_cot_deleted (state_of (sweep_round B sent s)) =
      ab_cot_deleted s + length (takeWhile (\<lambda>orig. is_ok (sent orig)) (dead_nodes (be_now B) s))"
  using sweep_loop [of "dead_nodes (be_now B) s" B sent s] dead_filter [of _ _ s "be_now B"]
  by (simp only: sweep_run)

end
