(* ===== verification/Users.thy ===== *)
theory Users
  imports Act Distributor
begin

text \<open>
  \<open>auth/users.py\<close> and \<open>web/routers/auth.py\<close>: the credentials file of the dashboard, its salted
  password hashes and its signed session tokens. The file is what \<open>json.loads\<close> makes of it; the
  random tokens, the clock and the environment variables are parameters.
\<close>

section \<open>Passwords\<close>

definition DEFAULT_USER :: string where
  "DEFAULT_USER = ''warrior''"

definition DEFAULT_PASSWORD :: string where
  "DEFAULT_PASSWORD = ''warrior1401''"

definition ITERATIONS :: nat where
  "ITERATIONS = 200000"

definition SESSION_TTL :: int where
  "SESSION_TTL = 12 * 60 * 60"

definition password_hash :: "string \<Rightarrow> string \<Rightarrow> string result" where
  "password_hash password salt =
     (case from_hex salt of
        None \<Rightarrow> Inl (PyExn ValueErr ''non-hexadecimal number found in fromhex() arg'')
      | Some s \<Rightarrow> Inr (hex_of_bytes (pbkdf2_sha256 (utf8_encode password) s ITERATIONS)))"

text \<open>\<open>hmac.compare_digest\<close> on two texts.\<close>

definition compare_digest :: "string \<Rightarrow> string \<Rightarrow> bool result" where
  "compare_digest a b =
     (if list_all is_ascii a \<and> list_all is_ascii b then Inr (a = b)
      else Inl (PyExn TypeErr ''comparing strings with non-ASCII characters is not supported''))"

section \<open>The credentials file\<close>

datatype cred_file = NoFile | Unreadable | Holds json

record auth_env =
  ae_hex :: "nat \<Rightarrow> nat \<Rightarrow> string"
  ae_secret :: "string option"
  ae_disabled :: "string option"

record auth_world =
  aw_file :: cred_file
  aw_backup :: cred_file
  aw_draws :: nat

type_synonym 'a auth_act = "(auth_world, unit, 'a) act"
type_synonym credentials = "(string, json) dict"

text \<open>\<open>secrets.token_hex(k)\<close>: \<open>ae_hex n k\<close> is what the \<open>n\<close>-th call gives.\<close>

definition token_hex :: "auth_env \<Rightarrow> nat \<Rightarrow> string auth_act" where
  "token_hex E k = bindA (getA aw_draws) (\<lambda>n. thenA (modifyA (\<lambda>w. w\<lparr>aw_draws := Suc n\<rparr>)) (retA (ae_hex E n k)))"

definition make_record :: "auth_env \<Rightarrow> json \<Rightarrow> json auth_act" where
  "make_record E password =
     bindA (token_hex E 16) (\<lambda>salt.
     case password of
       JStr p \<Rightarrow> bindA (liftA (password_hash p salt)) (\<lambda>h.
         retA (JDict [(''salt'', JStr salt), (''hash'', JStr h)]))
     | _ \<Rightarrow> raiseA (PyExn AttributeErr ''encode''))"

definition save_credentials :: "credentials \<Rightarrow> unit auth_act" where
  "save_credentials data = modifyA (\<lambda>w. w\<lparr>aw_file := Holds (JDict data)\<rparr>)"

definition seed_credentials :: "auth_env \<Rightarrow> credentials auth_act" where
  "seed_credentials E =
     bindA (token_hex E 32) (\<lambda>secret.
     bindA (make_record E (JStr DEFAULT_PASSWORD)) (\<lambda>r.
     let data = [(''secret'', JStr secret), (''users'', JDict [(DEFAULT_USER, r)])] in
     thenA (save_credentials data) (retA data)))"

text \<open>The entries of the file in order; \<open>users\<close> is the dictionary being updated.\<close>

definition plaintext :: "json \<Rightarrow> json option" where
  "plaintext rec = (case rec of JStr p \<Rightarrow> Some (JStr p) | JDict d \<Rightarrow> map_of d ''password'' | _ \<Rightarrow> None)"

fun migrate :: "auth_env \<Rightarrow> (string \<times> json) list \<Rightarrow> credentials \<Rightarrow> bool \<Rightarrow> (credentials \<times> bool) auth_act" where
  "migrate E [] users dirty = retA (users, dirty)"
| "migrate E ((name, rec) # rs) users dirty =
     (case plaintext rec of
        None \<Rightarrow> migrate E rs users dirty
      | Some p \<Rightarrow> bindA (make_record E p) (\<lambda>r. migrate E rs (AList.update name r users) True))"

definition finish_load :: "auth_env \<Rightarrow> credentials \<Rightarrow> credentials \<times> bool \<Rightarrow> credentials auth_act" where
  "finish_load E data = (\<lambda>(users, dirty).
     bindA (if users = [] then bindA (make_record E (JStr DEFAULT_PASSWORD)) (\<lambda>r. retA ([(DEFAULT_USER, r)], True))
            else retA (users, dirty)) (\<lambda>(users, dirty).
     let data = AList.update ''users'' (JDict users) data in
     thenA (if dirty then save_credentials data else retA ()) (retA data)))"

definition load_or_seed :: "auth_env \<Rightarrow> credentials auth_act" where
  "load_or_seed E =
     bindA (getA aw_file) (\<lambda>file.
     case file of
       NoFile \<Rightarrow> seed_credentials E
     | Holds (JDict data) \<Rightarrow>
         bindA (token_hex E 32) (\<lambda>secret.
         let dirty = (map_of data ''secret'' = None);
             data = (if dirty then AList.update ''secret'' (JStr secret) data else data) in
         (case map_of data ''users'' of
            None \<Rightarrow> finish_load E data ([], dirty)
          | Some (JDict users) \<Rightarrow> bindA (migrate E users users dirty) (finish_load E data)
          | Some _ \<Rightarrow> raiseA (PyExn AttributeErr ''items'')))
     | _ \<Rightarrow> thenA (modifyA (\<lambda>w. w\<lparr>aw_backup := file, aw_file := NoFile\<rparr>)) (seed_credentials E))"

section \<open>Checking\<close>

definition users_of :: "credentials \<Rightarrow> credentials result" where
  "users_of data = (case map_of data ''users'' of
     None \<Rightarrow> Inl (PyExn KeyErr ''users'') | Some (JDict us) \<Rightarrow> Inr us | Some _ \<Rightarrow> Inl (PyExn AttributeErr ''get''))"

definition verify_password :: "credentials \<Rightarrow> string \<Rightarrow> string \<Rightarrow> bool result" where
  "verify_password data username password =
     bindR (users_of data) (\<lambda>us.
     case map_of us username of
       Some (JDict rec) \<Rightarrow>
         (case (map_of rec ''salt'', map_of rec ''hash'') of
            (Some (JStr salt), Some h) \<Rightarrow> bindR (password_hash password salt) (\<lambda>d.
              (case h of JStr h \<Rightarrow> compare_digest d h | _ \<Rightarrow> Inl (PyExn TypeErr ''compare_digest'')))
          | (Some _, Some _) \<Rightarrow> Inl (PyExn TypeErr ''fromhex() argument must be str'')
          | _ \<Rightarrow> Inr False)
     | _ \<Rightarrow> Inr False)"

definition session_secret :: "auth_env \<Rightarrow> credentials \<Rightarrow> bytes result" where
  "session_secret E data =
     (let from_data = (case map_of data ''secret'' of
        Some (JStr s) \<Rightarrow> Inr (utf8_encode s)
      | Some _ \<Rightarrow> Inl (PyExn AttributeErr ''encode'')
      | None \<Rightarrow> Inl (PyExn KeyErr ''secret''))
      in case ae_secret E of None \<Rightarrow> from_data | Some s \<Rightarrow> if s = [] then from_data else Inr (utf8_encode s))"

definition token_payload :: "string \<Rightarrow> string \<Rightarrow> string" where
  "token_payload username expires = username @ CHR ''|'' # expires"

definition token_sig :: "bytes \<Rightarrow> string \<Rightarrow> string" where
  "token_sig secret pl = hex_of_bytes (hmac_sha256 secret (utf8_encode pl))"

text \<open>\<open>now\<close> is the clock in microseconds.\<close>

definition make_token :: "auth_env \<Rightarrow> credentials \<Rightarrow> int \<Rightarrow> string \<Rightarrow> int \<Rightarrow> string result" where
  "make_token E data now username ttl =
     bindR (session_secret E data) (\<lambda>secret.
     let pl = token_payload username (show_int (now div 1000000 + ttl)) in
     Inr (pl @ CHR ''|'' # token_sig secret pl))"

text \<open>\<open>int(text)\<close>: surrounding space, a sign, digits with single underscores between them, and at
  most 4300 of them.\<close>

definition unsigned_text :: "string \<Rightarrow> string" where
  "unsigned_text t = (case t of [] \<Rightarrow> [] | c # cs \<Rightarrow> if c = CHR ''-'' \<or> c = CHR ''+'' then cs else t)"

definition py_int :: "string \<Rightarrow> int option" where
  "py_int s =
     (let t = py_strip s;
          parts = split_on (CHR ''_'') (unsigned_text t);
          n = int (nat_of_digits (concat parts))
      in if list_all (\<lambda>p. p \<noteq> [] \<and> list_all is_digit p) parts \<and> length (concat parts) \<le> 4300
         then Some (if take 1 t = ''-'' then - n else n) else None)"

definition rsplit2 :: "char \<Rightarrow> string \<Rightarrow> (string \<times> string \<times> string) option" where
  "rsplit2 c s = (case rsplit1 c s of None \<Rightarrow> None
     | Some (p, z) \<Rightarrow> (case rsplit1 c p of None \<Rightarrow> None | Some (x, y) \<Rightarrow> Some (x, y, z)))"

definition verify_token :: "auth_env \<Rightarrow> credentials \<Rightarrow> int \<Rightarrow> string option \<Rightarrow> string option result" where
  "verify_token E data now token =
     (case token of
        None \<Rightarrow> Inr None
      | Some t \<Rightarrow>
          if t = [] then Inr None
          else (case rsplit2 (CHR ''|'') t of
              None \<Rightarrow> Inr None
            | Some (username, expires, sig) \<Rightarrow>
                bindR (session_secret E data) (\<lambda>secret.
                bindR (compare_digest (token_sig secret (token_payload username expires)) sig) (\<lambda>same.
                if \<not> same then Inr None
                else (case py_int expires of
                    None \<Rightarrow> Inr None
                  | Some n \<Rightarrow>
                      if n * 1000000 < now then Inr None
                      else (case map_of data ''users'' of
                          None \<Rightarrow> Inl (PyExn KeyErr ''users'')
                        | Some (JDict us) \<Rightarrow> Inr (if map_of us username = None then None else Some username)
                        | Some _ \<Rightarrow> Inl (PyExn TypeErr ''argument is not iterable'')))))))"

section \<open>The endpoints\<close>

definition auth_disabled :: "auth_env \<Rightarrow> bool" where
  "auth_disabled E = (py_lower (py_strip (case ae_disabled E of None \<Rightarrow> [] | Some s \<Rightarrow> s))
     \<in> {''1'', ''true'', ''yes'', ''on''})"

text \<open>\<open>login\<close> gives the cookie it sets.\<close>

definition login :: "auth_env \<Rightarrow> credentials \<Rightarrow> int \<Rightarrow> string \<Rightarrow> string \<Rightarrow> string result" where
  "login E data now username password =
     bindR (verify_password data username password) (\<lambda>ok.
     if ok then make_token E data now username SESSION_TTL
     else Inl (PyExn (HttpErr 401) ''invalid username or password''))"

definition who_am_i :: "auth_env \<Rightarrow> credentials \<Rightarrow> int \<Rightarrow> string option \<Rightarrow> string result" where
  "who_am_i E data now cookie =
     (if auth_disabled E then Inr ''operator''
      else bindR (verify_token E data now cookie) (\<lambda>u.
        case u of Some n \<Rightarrow> if n = [] then Inl (PyExn (HttpErr 401) ''not authenticated'') else Inr n
        | None \<Rightarrow> Inl (PyExn (HttpErr 401) ''not authenticated'')))"

section \<open>Session tokens\<close>

lemma hex_of_bytes_chars: "c \<in> set (hex_of_bytes bs) \<Longrightarrow> \<exists>n < 16. c = hex_lower n"
proof -
  assume "c \<in> set (hex_of_bytes bs)"
  then obtain b :: byte where "c = hex_lower (unat b div 16) \<or> c = hex_lower (unat b mod 16)"
    by (auto simp: hex_of_bytes_def)
  moreover have "unat b div 16 < 16" using unsigned_less [of b, where 'a = nat] by (simp add: less_mult_imp_div_less)
  moreover have "unat b mod 16 < 16" by simp
  ultimately show ?thesis by blast
qed

lemma hex_lower_ascii: "n < 16 \<Longrightarrow> is_ascii (hex_lower n)"
  by (simp add: hex_lower_def is_ascii_def)

lemma token_sig_chars: "CHR ''|'' \<notin> set (token_sig k pl)" "list_all is_ascii (token_sig k pl)"
  using hex_of_bytes_chars hex_lower_not_bar hex_lower_ascii
  by (fastforce simp: token_sig_def list_all_iff)+

lemma digit_not_space: "is_digit c \<Longrightarrow> \<not> py_space c"
  by (auto simp: is_digit_def py_space_def Let_def)

lemma strip_id: "list_all (\<lambda>c. \<not> py_space c) s \<Longrightarrow> py_strip s = s"
proof -
  have d: "list_all (\<lambda>c. \<not> py_space c) t \<Longrightarrow> dropWhile py_space t = t" for t
    by (cases t) simp_all
  assume "list_all (\<lambda>c. \<not> py_space c) s"
  then show ?thesis by (simp add: py_strip_def d)
qed

lemma set_strip: "\<not> py_space c \<Longrightarrow> c \<in> set s \<Longrightarrow> c \<in> set (py_strip s)"
proof -
  assume c: "\<not> py_space c"
  have d: "c \<in> set t \<Longrightarrow> c \<in> set (dropWhile py_space t)" for t
    using c by (induction t) auto
  assume "c \<in> set s"
  then show ?thesis using d by (simp add: py_strip_def)
qed

lemma split_on_chars: "x \<in> set s \<Longrightarrow> x \<noteq> c \<Longrightarrow> \<exists>p \<in> set (split_on c s). x \<in> set p"
  by (induction s) (auto split: list.splits)

lemma py_int_parts:
  "py_int e = Some n \<Longrightarrow> list_all (\<lambda>p. p \<noteq> [] \<and> list_all is_digit p) (split_on (CHR ''_'') (unsigned_text (py_strip e)))"
proof (rule ccontr)
  assume e: "py_int e = Some n" and l: "\<not> list_all (\<lambda>p. p \<noteq> [] \<and> list_all is_digit p) (split_on (CHR ''_'') (unsigned_text (py_strip e)))"
  have "py_int e = None" unfolding py_int_def Let_def using l by (simp only: simp_thms if_False)
  with e show False by simp
qed

lemma py_int_no_bar: "py_int e = Some n \<Longrightarrow> CHR ''|'' \<notin> set e"
proof
  assume e: "py_int e = Some n" and b: "CHR ''|'' \<in> set e"
  have "CHR ''|'' \<in> set (py_strip e)" using b by (rule set_strip [rotated]) (simp add: py_space_def)
  then have "CHR ''|'' \<in> set (unsigned_text (py_strip e))" by (cases "py_strip e") (auto simp: unsigned_text_def)
  moreover have "CHR ''|'' \<noteq> CHR ''_''" by simp
  ultimately obtain p where p: "p \<in> set (split_on CHR ''_'' (unsigned_text (py_strip e)))" "CHR ''|'' \<in> set p"
    using split_on_chars by metis
  have "list_all is_digit p" using py_int_parts [OF e] p(1) unfolding list_all_iff by blast
  then have "is_digit CHR ''|''" using p(2) unfolding list_all_iff by blast
  then show False by (simp add: is_digit_def)
qed

lemma split_on_single: "c \<notin> set s \<Longrightarrow> split_on c s = [s]"
  by (induction s) auto

lemma py_int_show: "length (show_int i) \<le> 4300 \<Longrightarrow> py_int (show_int i) = Some i"
proof -
  assume l: "length (show_int i) \<le> 4300"
  define d where "d = show_nat (nat (abs i))"
  have d: "list_all is_digit d" "d \<noteq> []" "nat_of_digits d = nat (abs i)"
    by (simp_all add: d_def show_nat_digits del: show_nat.simps)
  then have ns: "list_all (\<lambda>c. \<not> py_space c) d" using digit_not_space by (auto simp: list_all_iff)
  have us: "split_on CHR ''_'' d = [d]"
    by (rule split_on_single) (use d(1) in \<open>auto simp: list_all_iff is_digit_def\<close>)
  obtain c cs where c: "d = c # cs" using d(2) by (cases d) auto
  then have h: "hd d \<noteq> CHR ''-''" "hd d \<noteq> CHR ''+''" using d(1) by (auto simp: is_digit_def)
  show ?thesis
  proof (cases "i < 0")
    case True
    then have s: "show_int i = CHR ''-'' # d" by (simp add: show_int_def d_def del: show_nat.simps)
    have "\<not> py_space CHR ''-''" by (simp add: py_space_def)
    with ns have "py_strip (CHR ''-'' # d) = CHR ''-'' # d" by (intro strip_id) simp
    then show ?thesis using True l d us unfolding s by (simp add: py_int_def unsigned_text_def)
  next
    case False
    then have s: "show_int i = d" by (simp add: show_int_def d_def del: show_nat.simps)
    have "unsigned_text d = d" "take 1 d \<noteq> ''-''" using c h by (auto simp: unsigned_text_def)
    then show ?thesis using False l d us unfolding s py_int_def strip_id [OF ns] Let_def by simp
  qed
qed

lemma rsplit2_token:
  assumes "CHR ''|'' \<notin> set e" and "CHR ''|'' \<notin> set z"
  shows "rsplit2 CHR ''|'' (token_payload u e @ CHR ''|'' # z) = Some (u, e, z)"
  using rsplit1_append [OF assms(2), of "token_payload u e"] assms(1) by (simp add: rsplit2_def token_payload_def)

lemma rsplit2_Some: "rsplit2 c s = Some (x, y, z) \<Longrightarrow> s = (x @ c # y) @ c # z"
  by (auto simp: rsplit2_def dest!: rsplit1_Some split: option.splits prod.splits)

lemma token_accepted:
  assumes "users_of data = Inr us" and "session_secret E data = Inr k"
  shows "verify_token E data now (Some t) = Inr (Some u) \<longleftrightarrow>
    (\<exists>e n. t = token_payload u e @ CHR ''|'' # token_sig k (token_payload u e) \<and> py_int e = Some n \<and>
       now \<le> n * 1000000 \<and> map_of us u \<noteq> None)"
    (is "?l \<longleftrightarrow> ?r")
proof
  have us: "map_of data ''users'' = Some (JDict us)"
    using assms(1) by (auto simp: users_of_def split: option.splits json.splits)
  { assume l: ?l
    then have "t \<noteq> []" by (auto simp: verify_token_def)
    then obtain v e z where r: "rsplit2 CHR ''|'' t = Some (v, e, z)"
      using l by (auto simp: verify_token_def split: option.splits)
    have c: "compare_digest (token_sig k (token_payload v e)) z = Inr True"
      using l \<open>t \<noteq> []\<close> r assms(2) by (auto simp: verify_token_def bindR_Inr_iff split: if_splits)
    then have z: "z = token_sig k (token_payload v e)" by (auto simp: compare_digest_def split: if_splits)
    obtain n where n: "py_int e = Some n" using l \<open>t \<noteq> []\<close> r assms(2) c
      by (cases "py_int e") (auto simp: verify_token_def)
    have "now \<le> n * 1000000 \<and> map_of us u \<noteq> None \<and> v = u"
      using l \<open>t \<noteq> []\<close> r assms(2) c n us by (auto simp: verify_token_def split: if_splits)
    then show ?r using rsplit2_Some [OF r] z n by (auto simp: token_payload_def) }
  { assume ?r
    then obtain e n where r: "t = token_payload u e @ CHR ''|'' # token_sig k (token_payload u e)"
      "py_int e = Some n" "now \<le> n * 1000000" "map_of us u \<noteq> None" by blast
    have s: "rsplit2 CHR ''|'' t = Some (u, e, token_sig k (token_payload u e))"
      unfolding r(1) by (rule rsplit2_token [OF py_int_no_bar [OF r(2)] token_sig_chars(1)])
    have "compare_digest (token_sig k (token_payload u e)) (token_sig k (token_payload u e)) = Inr True"
      by (simp add: compare_digest_def token_sig_chars(2))
    then show ?l using s r(2-4) assms(2) us by (simp add: verify_token_def) (simp add: r(1)) }
qed

text \<open>Property C18: a session token is accepted for a user exactly when it is the user's name, an expiry
  that has not passed and the HMAC of the two under the session secret, and the user still exists:
  without the secret nobody makes a token, and no other name or expiry fits a signature, whatever
  bars the name contains.\<close>

theorem session_tokens:
  assumes "users_of data = Inr us" and "session_secret E data = Inr k"
  shows "verify_token E data now (Some t) = Inr (Some u) \<longleftrightarrow>
    (\<exists>e n. t = token_payload u e @ CHR ''|'' # token_sig k (token_payload u e) \<and> py_int e = Some n \<and>
       now \<le> n * 1000000 \<and> map_of us u \<noteq> None)"
  by (rule token_accepted [OF assms])

text \<open>A token made for an existing user signs that user in until its expiry and not a
  moment longer.\<close>

theorem session_until_expiry:
  assumes "users_of data = Inr us" and "session_secret E data = Inr k" and "map_of us u \<noteq> None"
    and "make_token E data now u ttl = Inr t" and "length (show_int (now div 1000000 + ttl)) \<le> 4300"
  shows "verify_token E data now' (Some t) = Inr (if (now div 1000000 + ttl) * 1000000 < now' then None else Some u)"
proof -
  let ?e = "show_int (now div 1000000 + ttl)"
  have us: "map_of data ''users'' = Some (JDict us)"
    using assms(1) by (auto simp: users_of_def split: option.splits json.splits)
  have t: "t = token_payload u ?e @ CHR ''|'' # token_sig k (token_payload u ?e)"
    using assms(2,4) by (simp add: make_token_def Let_def)
  note i = py_int_show [OF assms(5)]
  have s: "rsplit2 CHR ''|'' t = Some (u, ?e, token_sig k (token_payload u ?e))"
    unfolding t by (rule rsplit2_token [OF py_int_no_bar [OF i] token_sig_chars(1)])
  have c: "compare_digest (token_sig k (token_payload u ?e)) (token_sig k (token_payload u ?e)) = Inr True"
    by (simp add: compare_digest_def token_sig_chars(2))
  obtain r where r: "map_of us u = Some r" using assms(3) by blast
  have "t \<noteq> []" by (simp add: t)
  then show ?thesis using s c i us assms(2) r by (simp add: verify_token_def)
qed

section \<open>Loading\<close>

definition is_record :: "json \<Rightarrow> string \<Rightarrow> bool" where
  "is_record r p \<longleftrightarrow> (\<exists>salt h. r = JDict [(''salt'', JStr salt), (''hash'', JStr h)] \<and> password_hash p salt = Inr h)"

lemma is_record_hashed: "is_record r p \<Longrightarrow> plaintext r = None"
  by (auto simp: is_record_def plaintext_def)

lemma make_record_ok:
  "value_of (make_record E j w) = Inr r \<Longrightarrow> \<exists>p. j = JStr p \<and> is_record r p"
  "aw_file (state_of (make_record E j w)) = aw_file w"
  by (auto simp: make_record_def token_hex_def bindA_parts thenA_parts act_defs is_record_def
      split: json.splits sum.splits)

text \<open>What the migration leaves: no plaintext, the other entries as they were, every plaintext password
  hashed under its user's name, and the dirty flag when anything changed.\<close>

lemma migrate_ok:
  assumes "value_of (migrate E rs users dirty w) = Inr (users', dirty')" and "dict_ok rs"
    and "\<And>n r. map_of users n = Some r \<Longrightarrow> plaintext r \<noteq> None \<Longrightarrow> map_of rs n = Some r"
  shows "aw_file (state_of (migrate E rs users dirty w)) = aw_file w \<and>
    (\<forall>n r. map_of users' n = Some r \<longrightarrow> plaintext r = None) \<and> (users \<noteq> [] \<longrightarrow> users' \<noteq> []) \<and>
    (dirty \<longrightarrow> dirty') \<and> (\<not> dirty' \<longrightarrow> users' = users) \<and>
    (\<forall>n r p. map_of rs n = Some r \<and> plaintext r = Some (JStr p) \<longrightarrow> (\<exists>r'. map_of users' n = Some r' \<and> is_record r' p)) \<and>
    (\<forall>n. map_of rs n = None \<longrightarrow> map_of users' n = map_of users n) \<and> (dict_ok users \<longrightarrow> dict_ok users')"
  using assms
proof (induction E rs users dirty arbitrary: w rule: migrate.induct)
  case (1 E users dirty)
  have "plaintext r = None" if "map_of users n = Some r" for n r
    using "1.prems"(3) [OF that] by (cases "plaintext r") auto
  with 1 show ?case by (auto simp: act_defs)
next
  case (2 E name rec rs users dirty)
  have rs: "dict_ok rs" "map_of rs name = None" using "2.prems"(2) by (auto simp: map_of_eq_None_iff)
  show ?case
  proof (cases "plaintext rec")
    case None
    have "map_of rs n = Some r" if "map_of users n = Some r" "plaintext r \<noteq> None" for n r
      using "2.prems"(3) [OF that] that(2) None by (auto split: if_splits)
    from "2.IH"(1) [OF None _ rs(1) this] "2.prems"(1) None rs(2) show ?thesis by auto
  next
    case (Some j)
    obtain r where r: "value_of (make_record E j w) = Inr r"
      and run: "value_of (migrate E rs (AList.update name r users) True (state_of (make_record E j w))) = Inr (users', dirty')"
        "state_of (migrate E ((name, rec) # rs) users dirty w) =
          state_of (migrate E rs (AList.update name r users) True (state_of (make_record E j w)))"
      using "2.prems"(1) Some by (auto simp: bindA_parts split: sum.splits)
    obtain p where p: "j = JStr p" "is_record r p" using make_record_ok(1) [OF r] by blast
    have u: "map_of rs n = Some q" if "map_of (AList.update name r users) n = Some q" "plaintext q \<noteq> None" for n q
    proof (cases "n = name")
      case True
      then show ?thesis using that is_record_hashed [OF p(2)] by simp
    next
      case False
      then show ?thesis using that "2.prems"(3) [of n q] by simp
    qed
    have ne: "AList.update name r users \<noteq> []" by (cases users) (auto split: if_splits)
    note k = "2.IH"(2) [OF Some run(1) rs(1) u]
    have "\<exists>r'. map_of users' n = Some r' \<and> is_record r' p'"
      if "map_of ((name, rec) # rs) n = Some q" "plaintext q = Some (JStr p')" for n q p'
    proof (cases "n = name")
      case True
      then have "p' = p" using that Some p(1) by simp
      moreover have "map_of users' n = Some r" using k rs(2) True by simp
      ultimately show ?thesis using p(2) by blast
    next
      case False
      then show ?thesis using k that by auto
    qed
    moreover have "\<forall>n. map_of ((name, rec) # rs) n = None \<longrightarrow> map_of users' n = map_of users n"
      using k by (auto split: if_splits)
    moreover have "aw_file (state_of (make_record E j w)) = aw_file w" by (rule make_record_ok(2))
    ultimately show ?thesis using k ne unfolding run(2) by auto
  qed
qed

definition settled :: "credentials \<Rightarrow> bool" where
  "settled data \<longleftrightarrow> map_of data ''secret'' \<noteq> None \<and>
     (\<exists>us. map_of data ''users'' = Some (JDict us) \<and> us \<noteq> [] \<and> dict_ok us \<and> (\<forall>n r. map_of us n = Some r \<longrightarrow> plaintext r = None))"

lemma update_same: "map_of al k = Some v \<Longrightarrow> AList.update k v al = al"
  by (induction al) auto

lemma finish_load_ok:
  assumes "value_of (finish_load E data (users, dirty) w) = Inr data'" and "map_of data ''secret'' \<noteq> None"
    and "\<And>n r. map_of users n = Some r \<Longrightarrow> plaintext r = None" and "dict_ok users"
    and "\<not> dirty \<Longrightarrow> aw_file w = Holds (JDict data) \<and> (users \<noteq> [] \<longrightarrow> map_of data ''users'' = Some (JDict users))"
  shows "settled data' \<and> aw_file (state_of (finish_load E data (users, dirty) w)) = Holds (JDict data') \<and>
    (users \<noteq> [] \<longrightarrow> users_of data' = Inr users)"
proof (cases "users = []")
  case True
  obtain r where r: "value_of (make_record E (JStr DEFAULT_PASSWORD) w) = Inr r"
    using assms(1) True by (auto simp: finish_load_def bindA_parts split: sum.splits)
  then have "data' = AList.update ''users'' (JDict [(DEFAULT_USER, r)]) data"
    "aw_file (state_of (finish_load E data (users, dirty) w)) = Holds (JDict data')"
    using assms(1) True by (auto simp: finish_load_def bindA_parts thenA_parts act_defs save_credentials_def Let_def)
  then show ?thesis
    using assms(2) True make_record_ok(1) [OF r] is_record_hashed by (auto simp: settled_def)
next
  case False
  have d: "data' = AList.update ''users'' (JDict users) data"
    using assms(1) False by (auto simp: finish_load_def bindA_parts thenA_parts act_defs save_credentials_def Let_def split: if_splits)
  have "aw_file (state_of (finish_load E data (users, dirty) w)) = Holds (JDict data')"
    using False assms(5) by (cases dirty)
      (simp_all add: d finish_load_def bindA_parts thenA_parts act_defs save_credentials_def Let_def update_same)
  then show ?thesis using assms(2-4) False by (auto simp: d settled_def users_of_def)
qed

lemma seed_ok:
  assumes "value_of (seed_credentials E w) = Inr data"
  shows "settled data \<and> aw_file (state_of (seed_credentials E w)) = Holds (JDict data)"
proof -
  let ?w = "state_of (token_hex E 32 w)"
  obtain r where r: "value_of (make_record E (JStr DEFAULT_PASSWORD) ?w) = Inr r"
    using assms by (auto simp: seed_credentials_def token_hex_def bindA_parts thenA_parts act_defs split: sum.splits)
  obtain secret where "data = [(''secret'', JStr secret), (''users'', JDict [(DEFAULT_USER, r)])]"
    "aw_file (state_of (seed_credentials E w)) = Holds (JDict data)"
    using assms r by (auto simp: seed_credentials_def token_hex_def bindA_parts thenA_parts act_defs Let_def save_credentials_def)
  then show ?thesis using make_record_ok(1) [OF r] is_record_hashed by (auto simp: settled_def)
qed

lemma bindA_quiet: "m s = (Inr x, s', []) \<Longrightarrow> bindA m f s = f x s'"
  by (simp add: bindA_def split: prod.split)

lemma token_hex_run: "token_hex E k w = (Inr (ae_hex E (aw_draws w) k), w\<lparr>aw_draws := Suc (aw_draws w)\<rparr>, [])"
  by (simp add: token_hex_def bindA_def thenA_def act_defs)

text \<open>Reading a file that holds credentials.\<close>

lemma load_dict:
  assumes "aw_file w = Holds (JDict d)" and "value_of (load_or_seed E w) = Inr data"
    and "\<And>us. map_of d ''users'' = Some (JDict us) \<Longrightarrow> dict_ok us"
  shows "settled data \<and> aw_file (state_of (load_or_seed E w)) = Holds (JDict data) \<and>
    (\<forall>us u r p. map_of d ''users'' = Some (JDict us) \<and> map_of us u = Some r \<and> plaintext r = Some (JStr p) \<longrightarrow>
       (\<exists>us' r'. users_of data = Inr us' \<and> map_of us' u = Some r' \<and> is_record r' p))"
proof -
  define w1 where "w1 = w\<lparr>aw_draws := Suc (aw_draws w)\<rparr>"
  define secret where "secret = ae_hex E (aw_draws w) 32"
  have w1: "aw_file w1 = Holds (JDict d)" using assms(1) by (simp add: w1_def)
  have t: "token_hex E 32 w = (Inr secret, w1, [])" by (simp add: token_hex_run w1_def secret_def)
  have g: "getA aw_file w = (Inr (Holds (JDict d)), w, [])" using assms(1) by (simp add: getA_def)
  define dirty where "dirty = (map_of d ''secret'' = None)"
  define d1 where "d1 = (if dirty then AList.update ''secret'' (JStr secret) d else d)"
  have s1: "map_of d1 ''secret'' \<noteq> None" "map_of d1 ''users'' = map_of d ''users''" "\<not> dirty \<Longrightarrow> d1 = d"
    by (auto simp: d1_def dirty_def)
  have run: "load_or_seed E w = (case map_of d1 ''users'' of
            None \<Rightarrow> finish_load E d1 ([], dirty) w1
          | Some (JDict users) \<Rightarrow> bindA (migrate E users users dirty) (finish_load E d1) w1
          | Some _ \<Rightarrow> raiseA (PyExn AttributeErr ''items'') w1)"
    unfolding load_or_seed_def bindA_quiet [where m = "getA aw_file" and s = w, OF g] cred_file.case json.case bindA_quiet [where m = "token_hex E 32" and s = w, OF t] Let_def dirty_def [symmetric]
      d1_def [symmetric]
    by (simp split: option.split json.split)
  show ?thesis
  proof (cases "map_of d ''users''")
    case None
    then show ?thesis
      using finish_load_ok [of E d1 "[]" dirty w1 data] assms(2) s1 w1 unfolding run by auto
  next
    case (Some v)
    show ?thesis
    proof (cases "\<exists>users. v = JDict users")
      case False
      then show ?thesis using assms(2) Some s1(2) unfolding run by (cases v) (auto simp: act_defs)
    next
      case True
      then obtain users where v: "map_of d ''users'' = Some (JDict users)" using Some by auto
      have ok: "dict_ok users" using assms(3) [OF v] .
      obtain users' dirty' where m: "value_of (migrate E users users dirty w1) = Inr (users', dirty')"
        and f: "value_of (finish_load E d1 (users', dirty') (state_of (migrate E users users dirty w1))) = Inr data"
          "state_of (load_or_seed E w) = state_of (finish_load E d1 (users', dirty') (state_of (migrate E users users dirty w1)))"
        using assms(2) v s1(2) unfolding run by (auto simp: bindA_parts split: sum.splits)
      note k = migrate_ok [OF m ok]
      have "\<not> dirty' \<Longrightarrow> \<not> dirty \<and> users' = users" using k by blast
      then have nd: "\<not> dirty' \<Longrightarrow> aw_file (state_of (migrate E users users dirty w1)) = Holds (JDict d1) \<and>
          (users' \<noteq> [] \<longrightarrow> map_of d1 ''users'' = Some (JDict users'))"
        using k w1 s1 v by auto
      have "settled data \<and> aw_file (state_of (load_or_seed E w)) = Holds (JDict data) \<and> (users' \<noteq> [] \<longrightarrow> users_of data = Inr users')"
        unfolding f(2) using finish_load_ok [OF f(1) s1(1) _ _ nd] k ok by auto
      moreover have "\<exists>r'. map_of users' u = Some r' \<and> is_record r' p" if "map_of users u = Some r" "plaintext r = Some (JStr p)" for u r p
        using k that by blast
      ultimately show ?thesis using v by fastforce
    qed
  qed
qed

lemma migrate_none:
  "(\<And>n r. (n, r) \<in> set rs \<Longrightarrow> plaintext r = None) \<Longrightarrow> migrate E rs users dirty w = (Inr (users, dirty), w, [])"
proof (induction rs)
  case (Cons x rs)
  obtain n r where x: "x = (n, r)" by (cases x)
  have "plaintext r = None" using Cons.prems [of n r] by (simp add: x)
  moreover have "migrate E rs users dirty w = (Inr (users, dirty), w, [])"
    by (rule Cons.IH) (use Cons.prems in auto)
  ultimately show ?case by (simp add: x)
qed (simp add: act_defs)

lemma load_settled:
  assumes "settled data" and "aw_file w = Holds (JDict data)"
  shows "value_of (load_or_seed E w) = Inr data \<and> aw_file (state_of (load_or_seed E w)) = Holds (JDict data)"
proof -
  obtain us where us: "map_of data ''users'' = Some (JDict us)" "us \<noteq> []" "dict_ok us"
    "\<And>n r. map_of us n = Some r \<Longrightarrow> plaintext r = None"
    using assms(1) unfolding settled_def by blast
  obtain v where sec: "map_of data ''secret'' = Some v" using assms(1) unfolding settled_def by blast
  let ?w = "w\<lparr>aw_draws := Suc (aw_draws w)\<rparr>"
  have m: "migrate E us us False ?w = (Inr (us, False), ?w, [])"
    by (rule migrate_none) (use us(3,4) in auto)
  have g: "getA aw_file w = (Inr (Holds (JDict data)), w, [])" using assms(2) by (simp add: getA_def)
  have "load_or_seed E w = finish_load E data (us, False) ?w"
    using sec us(1)
    unfolding load_or_seed_def bindA_quiet [where m = "getA aw_file" and s = w, OF g] cred_file.case json.case
      bindA_quiet [where m = "token_hex E 32" and s = w, OF token_hex_run] Let_def
    by (simp add: bindA_quiet [where m = "migrate E us us False" and s = "?w", OF m])
  then show ?thesis
    using us(1,2) assms(2) by (simp add: finish_load_def bindA_parts thenA_parts act_defs Let_def update_same)
qed

lemma load_fresh:
  assumes "value_of (load_or_seed E w) = Inr data" and "\<And>d. aw_file w \<noteq> Holds (JDict d)"
  shows "settled data \<and> aw_file (state_of (load_or_seed E w)) = Holds (JDict data)"
proof -
  have "\<exists>w'. load_or_seed E w = seed_credentials E w'"
  proof (cases "aw_file w = NoFile")
    case True
    then show ?thesis by (intro exI [of _ w]) (simp add: load_or_seed_def bindA_def getA_def split: prod.split)
  next
    case False
    then show ?thesis
      using assms(2)
      by (intro exI [of _ "w\<lparr>aw_backup := aw_file w, aw_file := NoFile\<rparr>"])
        (auto simp: load_or_seed_def bindA_def getA_def thenA_def modifyA_def split: prod.split cred_file.split json.split)
  qed
  then show ?thesis using seed_ok assms(1) by metis
qed

lemma hex_of_bytes_ascii: "list_all is_ascii (hex_of_bytes bs)"
  unfolding list_all_iff
proof
  fix c
  assume "c \<in> set (hex_of_bytes bs)"
  then obtain n where "n < 16" "c = hex_lower n" using hex_of_bytes_chars by blast
  then show "is_ascii c" by (simp add: hex_lower_ascii)
qed

lemma password_hash_ascii: "password_hash p salt = Inr h \<Longrightarrow> list_all is_ascii h"
  by (cases "from_hex salt") (auto simp: password_hash_def hex_of_bytes_ascii)

lemma record_accepts: "users_of data = Inr us \<Longrightarrow> map_of us u = Some r \<Longrightarrow> is_record r p \<Longrightarrow> verify_password data u p = Inr True"
  by (auto simp: verify_password_def is_record_def compare_digest_def password_hash_ascii)


section \<open>Witnesses\<close>

definition demo_auth :: auth_env where
  "demo_auth = \<lparr> ae_hex = (\<lambda>_ _. ''00''), ae_secret = None, ae_disabled = None \<rparr>"

definition demo_world :: auth_world where
  "demo_world = \<lparr> aw_file = Holds (JDict [(''users'', JDict [(''scout'', JStr ''hunter2'')])]), aw_backup = NoFile, aw_draws = 0 \<rparr>"

definition demo_credentials :: credentials where
  "demo_credentials = [(''secret'', JStr ''s''), (''users'', JDict [(''a|b'', JDict [])])]"

lemma demo_credentials_users: "users_of demo_credentials = Inr [(''a|b'', JDict [])]"
  by (simp add: users_of_def demo_credentials_def)

lemma demo_credentials_secret: "session_secret demo_auth demo_credentials = Inr (utf8_encode ''s'')"
  by (simp add: session_secret_def demo_credentials_def demo_auth_def)

theorem session_tokens_witness:
  "verify_token demo_auth demo_credentials 5 (Some ''a|b|9|00'') \<noteq> Inr (Some ''x'')"
  by (subst session_tokens [OF demo_credentials_users demo_credentials_secret]) simp

theorem session_until_expiry_witness:
  "\<exists>t. make_token demo_auth demo_credentials 0 ''a|b'' 60 = Inr t \<and>
     verify_token demo_auth demo_credentials 59000000 (Some t) = Inr (Some ''a|b'') \<and>
     verify_token demo_auth demo_credentials 61000000 (Some t) = Inr None"
proof -
  obtain t where t: "make_token demo_auth demo_credentials 0 ''a|b'' 60 = Inr t"
    by (simp add: make_token_def demo_credentials_secret Let_def)
  have "length (show_int (0 div 1000000 + 60)) \<le> 4300" by code_simp
  from session_until_expiry [OF demo_credentials_users demo_credentials_secret _ t this] t show ?thesis by simp
qed


end
