(* ===== verification/Runtime.thy ===== *)
theory Runtime
  imports Gateway Servers Eud
begin

text \<open>
  The web node around a gateway: \<open>web/runtime.py\<close> (building a node, merging a configuration patch, the
  hot reconfiguration) and the endpoints of \<open>web/routers/\<close> that change it: the CRUD of the server
  connections, the EUD server, connections, coalition policy, capabilities and the purge. What
  pydantic makes of a configuration is a parameter (\<open>config_io\<close>).
\<close>

section \<open>The application\<close>

record config_io =
  ci_dump :: "gateway_config \<Rightarrow> (string, json) dict"
  ci_build :: "(string, json) dict \<Rightarrow> gateway_config result"

record app =
  ap_gateway :: gateway
  ap_node :: nat
  ap_servers :: servers
  ap_eud :: eud
  ap_store :: "(string, json) dict option"

type_synonym 'a app_act = "(app, bcall, 'a) act"

definition on_servers :: "'a server_act \<Rightarrow> 'a app_act" where
  "on_servers m s = (case m (ap_servers s) of (r, x, cs) \<Rightarrow> (r, s\<lparr>ap_servers := x\<rparr>, cs))"

definition on_eud :: "'a eud_act \<Rightarrow> 'a app_act" where
  "on_eud m s = (case m (ap_eud s) of (r, x, cs) \<Rightarrow> (r, s\<lparr>ap_eud := x\<rparr>, cs))"

text \<open>The frames the gateway sends on an operation are its own business here.\<close>

definition on_gateway :: "'a gact \<Rightarrow> 'a app_act" where
  "on_gateway m s = (case m (ap_gateway s) of (r, g, _) \<Rightarrow> (r, s\<lparr>ap_gateway := g\<rparr>, []))"

definition collect_handler :: handler where
  "collect_handler = \<lparr> h_id = 0, h_subs = [''*''], h_raises = (\<lambda>_. None) \<rparr>"

definition build_and_start :: "world \<Rightarrow> string \<Rightarrow> gateway_config \<Rightarrow> gateway result" where
  "build_and_start W mid cfg =
     bindR (gateway_init W cfg) (\<lambda>g.
     (case thenA (gw_add_handler collect_handler) (thenA (gw_start W) (node_identify W mid)) g of
        (r, g', _) \<Rightarrow> bindR r (\<lambda>_. Inr g')))"

definition persist_section :: "string \<Rightarrow> json \<Rightarrow> bool app_act" where
  "persist_section section data =
     bindA (getA ap_store) (\<lambda>store.
     case store of None \<Rightarrow> retA False
     | Some d \<Rightarrow> thenA (modifyA (\<lambda>s. s\<lparr>ap_store := Some (AList.update section data d)\<rparr>)) (retA True))"

section \<open>Patches\<close>

function deep_merge :: "(string, json) dict \<Rightarrow> (string \<times> json) list \<Rightarrow> (string, json) dict" where
  "deep_merge out [] = out"
| "deep_merge out ((k, v) # patch) =
     deep_merge (AList.update k
       (case v of
          JDict p \<Rightarrow> (case map_of out k of Some (JDict b) \<Rightarrow> JDict (deep_merge b p) | _ \<Rightarrow> v)
        | _ \<Rightarrow> v) out) patch"
  by pat_completeness auto
termination
  by (relation "measure (\<lambda>(out, patch). size_list (size_prod (\<lambda>_. 0) size) patch)") auto

section \<open>Hot reconfiguration\<close>

text \<open>\<open>rt_bind\<close> is what binding the EUD listener gives.\<close>

record runtime_env =
  rt_world :: world
  rt_bridge :: bridge_env
  rt_io :: config_io
  rt_bind :: "string \<Rightarrow> int \<Rightarrow> string option"
  rt_mid :: string

definition attach_servers :: "nat \<Rightarrow> gateway_config \<Rightarrow> unit server_act" where
  "attach_servers node cfg = modifyA (\<lambda>s. snd (sm_attach node cfg s))"

definition attach_eud :: "nat \<Rightarrow> gateway_config \<Rightarrow> unit eud_act" where
  "attach_eud node cfg = modifyA (\<lambda>s. snd (eud_attach node cfg s))"

definition save_store :: "(string, json) dict \<Rightarrow> unit app_act" where
  "save_store d = modifyA (\<lambda>s. s\<lparr>ap_store := map_option (\<lambda>_. d) (ap_store s)\<rparr>)"

definition switch_node :: "runtime_env \<Rightarrow> gateway \<Rightarrow> unit app_act" where
  "switch_node R g =
     thenA (modifyA (\<lambda>s. s\<lparr>ap_gateway := g, ap_node := Suc (ap_node s)\<rparr>))
     (bindA (getA ap_node) (\<lambda>node.
      thenA (on_servers (thenA (attach_servers node (gw_config g)) (reconcile (rt_bridge R) (cfg_servers (gw_config g)))))
      (thenA (on_eud (thenA (attach_eud node (gw_config g)) (eud_reconfigure (rt_bind R) (cfg_eud_server (gw_config g)))))
      (save_store (ci_dump (rt_io R) (gw_config g))))))"

definition reconfigure :: "runtime_env \<Rightarrow> (string, json) dict \<Rightarrow> gateway_config app_act" where
  "reconfigure R patch =
     bindA (getA (\<lambda>s. ci_build (rt_io R) (deep_merge (ci_dump (rt_io R) (gw_config (ap_gateway s))) patch))) (\<lambda>built.
     bindA (liftA built) (\<lambda>cfg.
     thenA (on_gateway gw_stop)
     (bindA (liftA (build_and_start (rt_world R) (rt_mid R) cfg)) (\<lambda>g.
     thenA (switch_node R g) (retA cfg)))))"

section \<open>Server connections\<close>

record server_input =
  si_name :: string
  si_host :: string
  si_port :: int
  si_tls :: bool
  si_verify :: bool
  si_client_cert :: "string option"
  si_client_key :: "string option"
  si_cacert :: "string option"
  si_enabled :: bool

definition mk_server :: "string \<Rightarrow> server_input \<Rightarrow> server_connection result" where
  "mk_server sid i =
     (if in_range 1 65535 (si_port i)
      then Inr \<lparr> sv_id = sid, sv_name = si_name i, sv_host = si_host i, sv_port = si_port i, sv_tls = si_tls i,
        sv_verify = si_verify i, sv_client_cert = si_client_cert i, sv_client_key = si_client_key i,
        sv_cacert = si_cacert i, sv_enabled = si_enabled i \<rparr>
      else invalid ''port'')"

text \<open>\<open>re.sub(r"[^a-z0-9]+", "-", text.lower()).strip("-")\<close>.\<close>

definition slug_char :: "char \<Rightarrow> bool" where
  "slug_char c \<longleftrightarrow> (let n = (of_char c :: nat) in (97 \<le> n \<and> n \<le> 122) \<or> (48 \<le> n \<and> n \<le> 57))"

fun dashed :: "bool \<Rightarrow> string \<Rightarrow> string" where
  "dashed inside [] = []"
| "dashed inside (c # cs) =
     (if slug_char c then c # dashed False cs
      else if inside then dashed True cs
      else CHR ''-'' # dashed True cs)"

definition strip_dashes :: "string \<Rightarrow> string" where
  "strip_dashes s = rev (dropWhile (\<lambda>c. c = CHR ''-'') (rev (dropWhile (\<lambda>c. c = CHR ''-'') s)))"

definition slug :: "string \<Rightarrow> string" where
  "slug text = or_else (strip_dashes (dashed False (py_lower text))) ''server''"

text \<open>\<open>base\<close>, \<open>base-2\<close>, \<open>base-3\<close>, ... until one is free.\<close>

definition nth_id :: "string \<Rightarrow> nat \<Rightarrow> string" where
  "nth_id base n = base @ CHR ''-'' # show_nat n"

lemma nth_id_inject: "nth_id base m = nth_id base n \<longleftrightarrow> m = n"
  by (simp add: nth_id_def del: show_nat.simps)

function free_id :: "string \<Rightarrow> string list \<Rightarrow> nat \<Rightarrow> string" where
  "free_id base existing n =
     (if nth_id base n \<in> set existing then free_id base existing (Suc n) else nth_id base n)"
  by pat_completeness auto
termination
proof (relation "measure (\<lambda>(base, existing, n). card {m. n \<le> m \<and> nth_id base m \<in> set existing})")
  fix base existing n
  assume n: "nth_id base n \<in> set existing"
  let ?T = "\<lambda>n. {m. n \<le> m \<and> nth_id base m \<in> set existing}"
  have "finite (nth_id base -` set existing)"
    by (rule finite_vimageI) (simp_all add: inj_def nth_id_inject)
  then have "finite (?T n)" by (rule finite_subset [rotated]) auto
  moreover have "?T (Suc n) \<subset> ?T n"
  proof (rule psubsetI)
    show "?T (Suc n) \<subseteq> ?T n" by auto
    have "n \<in> ?T n" "n \<notin> ?T (Suc n)" using n by auto
    then show "?T (Suc n) \<noteq> ?T n" by blast
  qed
  ultimately have "card (?T (Suc n)) < card (?T n)" by (rule psubset_card_mono)
  then show "((base, existing, Suc n), base, existing, n) \<in> measure (\<lambda>(base, existing, n). card {m. n \<le> m \<and> nth_id base m \<in> set existing})"
    by simp
qed simp

declare free_id.simps [simp del]

definition unique_id :: "string \<Rightarrow> string list \<Rightarrow> string" where
  "unique_id base existing = (if base \<in> set existing then free_id base existing 2 else base)"

definition opt_json :: "string option \<Rightarrow> json" where
  "opt_json v = (case v of None \<Rightarrow> JNull | Some s \<Rightarrow> JStr s)"

definition server_json :: "server_connection \<Rightarrow> json" where
  "server_json s = JDict [(''id'', JStr (sv_id s)), (''name'', JStr (sv_name s)), (''host'', JStr (sv_host s)),
     (''port'', JInt (sv_port s)), (''tls'', JBool (sv_tls s)), (''verify'', JBool (sv_verify s)),
     (''client_cert'', opt_json (sv_client_cert s)), (''client_key'', opt_json (sv_client_key s)),
     (''cacert'', opt_json (sv_cacert s)), (''enabled'', JBool (sv_enabled s))]"

definition app_servers :: "app \<Rightarrow> server_connection list" where
  "app_servers s = cfg_servers (gw_config (ap_gateway s))"

definition apply_servers :: "runtime_env \<Rightarrow> server_connection list \<Rightarrow> unit app_act" where
  "apply_servers R l =
     thenA (on_gateway (modifyA (\<lambda>g. g\<lparr>gw_config := (gw_config g)\<lparr>cfg_servers := l\<rparr>\<rparr>)))
     (thenA (on_servers (reconcile (rt_bridge R) l))
     (bindA (persist_section ''servers'' (JList (map server_json l))) (\<lambda>_. retA ())))"

definition create_server :: "runtime_env \<Rightarrow> server_input \<Rightarrow> string app_act" where
  "create_server R i =
     bindA (getA app_servers) (\<lambda>l.
     let sid = unique_id (slug (or_else (si_name i) (si_host i))) (map sv_id l) in
     bindA (liftA (mk_server sid i)) (\<lambda>d. thenA (apply_servers R (l @ [d])) (retA sid)))"

definition update_server :: "runtime_env \<Rightarrow> string \<Rightarrow> server_input \<Rightarrow> unit app_act" where
  "update_server R sid i =
     bindA (getA app_servers) (\<lambda>l.
     if sid \<notin> sv_id ` set l then raiseA (PyExn (HttpErr 404) (''no server '' @ [CHR 0x27] @ sid @ [CHR 0x27]))
     else bindA (liftA (mk_server sid i)) (\<lambda>d. apply_servers R (map (\<lambda>s. if sv_id s = sid then d else s) l)))"

definition delete_server :: "runtime_env \<Rightarrow> string \<Rightarrow> unit app_act" where
  "delete_server R sid =
     bindA (getA app_servers) (\<lambda>l.
     let remaining = filter (\<lambda>s. sv_id s \<noteq> sid) l in
     if length remaining = length l then raiseA (PyExn (HttpErr 404) (''no server '' @ [CHR 0x27] @ sid @ [CHR 0x27]))
     else apply_servers R remaining)"

section \<open>Other endpoints\<close>

definition eud_json :: "eud_server_config \<Rightarrow> json" where
  "eud_json c = JDict [(''enabled'', JBool (eu_enabled c)), (''host'', JStr (eu_host c)), (''port'', JInt (eu_port c)),
     (''advertised_host'', opt_json (eu_advertised_host c))]"

text \<open>The endpoint's own model has the same constraint on the port, checked before it runs.\<close>

definition update_eud :: "runtime_env \<Rightarrow> eud_server_config \<Rightarrow> eud_status app_act" where
  "update_eud R cfg =
     (if \<not> eud_server_ok cfg then raiseA (PyExn (HttpErr 422) ''port'')
      else
        thenA (on_gateway (modifyA (\<lambda>g. g\<lparr>gw_config := (gw_config g)\<lparr>cfg_eud_server := cfg\<rparr>\<rparr>)))
        (thenA (on_eud (eud_reconfigure (rt_bind R) cfg))
        (bindA (persist_section ''eud_server'' (eud_json cfg)) (\<lambda>_.
         getA (\<lambda>s. eud_status_of (ap_eud s))))))"

definition set_connection :: "string \<Rightarrow> string \<Rightarrow> policy_view app_act" where
  "set_connection peer action =
     (if action = ''block'' then on_gateway (block_peer peer)
      else if action = ''allow'' then on_gateway (allow_peer peer)
      else if action = ''reset'' then on_gateway (reset_peer peer)
      else raiseA (PyExn (HttpErr 400) ''action must be allow, block or reset''))"

text \<open>\<open>PermissionError\<close> and \<open>ValueError\<close> become responses 403 and 400.\<close>

definition http_errors :: "pyexn \<Rightarrow> pyexn" where
  "http_errors e = (if exn_kind e = PermissionErr then PyExn (HttpErr 403) (exn_str e)
     else if exn_kind e = ValueErr then PyExn (HttpErr 400) (exn_str e) else e)"

definition set_coalition :: "world \<Rightarrow> string \<Rightarrow> string \<Rightarrow> coalition_view app_act" where
  "set_coalition W peer action = catchA (on_gateway (coalition_set W peer action)) (\<lambda>e. raiseA (http_errors e))"

definition set_coalition_pair :: "world \<Rightarrow> string \<Rightarrow> string \<Rightarrow> string \<Rightarrow> coalition_view app_act" where
  "set_coalition_pair W observer originator action =
     catchA (on_gateway (coalition_set_pair W observer originator action)) (\<lambda>e. raiseA (http_errors e))"

definition flags_json :: "(string, bool) dict \<Rightarrow> json" where
  "flags_json d = JDict (dict_map JBool d)"

definition set_capability_endpoint :: "string \<Rightarrow> string \<Rightarrow> bool \<Rightarrow> bool app_act" where
  "set_capability_endpoint t direction allowed =
     (if direction \<noteq> ''receive'' \<and> direction \<noteq> ''emit''
      then raiseA (PyExn (HttpErr 400) ''direction must be receive or emit'')
      else bindA (on_gateway (gw_set_capability t direction allowed)) (\<lambda>(_, recv, emit).
        persist_section ''capabilities'' (JDict [(''receive'', flags_json recv), (''emit'', flags_json emit)])))"

record purge_view =
  pv_gateway :: purged
  pv_server_log :: nat
  pv_eud_log :: nat
  pv_total :: nat

definition purge_endpoint :: "purge_view app_act" where
  "purge_endpoint s =
     (let (p, g) = purge_messages (ap_gateway s);
          (ns, ts) = traffic_clear (sm_traffic (ap_servers s));
          (ne, te) = traffic_clear (em_traffic (ap_eud s))
      in (Inr \<lparr> pv_gateway = p, pv_server_log = ns, pv_eud_log = ne,
            pv_total = pu_audit_log p + pu_telemetry p + (case pu_dedup_cache p of None \<Rightarrow> 0 | Some n \<Rightarrow> n) + ns + ne \<rparr>,
          s\<lparr>ap_gateway := g, ap_servers := (ap_servers s)\<lparr>sm_traffic := ts\<rparr>, ap_eud := (ap_eud s)\<lparr>em_traffic := te\<rparr>\<rparr>, []))"

record connect_view =
  cn_network_id :: string
  cn_group :: string
  cn_port :: int
  cn_codec :: string
  cn_security :: string
  cn_psk :: string
  cn_repeat :: int
  cn_classification :: int
  cn_releasable_to :: string
  cn_message_types :: "string list"
  cn_policy_authority :: "string option"
  cn_authority_public_key :: "string option"

definition connect_info :: "app \<Rightarrow> connect_view" where
  "connect_info s =
     (let g = ap_gateway s; c = gw_config g in
      \<lparr> cn_network_id = nc_network_id (cfg_network c), cn_group = gw_group g, cn_port = gw_port g,
        cn_codec = pl_codec (cfg_plugins c), cn_security = pl_security (cfg_plugins c), cn_psk = nc_psk (cfg_network c),
        cn_repeat = nc_repeat (cfg_network c), cn_classification = cc_level (cfg_classification c),
        cn_releasable_to = cc_releasable_to (cfg_classification c), cn_message_types = MESSAGE_TYPES,
        cn_policy_authority = co_policy_authority (cfg_connections c),
        cn_authority_public_key = co_authority_public_key (cfg_connections c) \<rparr>)"

section \<open>A fresh node\<close>

lemma config_kept_run:
  "keeps (\<lambda>g. gw_config g = c) (on_engine W m)" "keeps (\<lambda>g. gw_config g = c) gw_join"
  by (auto simp: keeps_def on_engine_def gw_join_def state_of_def split: option.splits prod.splits)

lemma config_kept:
  "keeps (\<lambda>g. gw_config g = c) (gw_add_handler h)" "keeps (\<lambda>g. gw_config g = c) (start_engine W)"
  "keeps (\<lambda>g. gw_config g = c) start_gossip" "keeps (\<lambda>g. gw_config g = c) start_dist"
  "keeps (\<lambda>g. gw_config g = c) (node_identify W mid)" "keeps (\<lambda>g. gw_config g = c) (gw_start W)"
proof -
  show a: "keeps (\<lambda>g. gw_config g = c) (gw_add_handler h)" "keeps (\<lambda>g. gw_config g = c) (start_engine W)"
    unfolding gw_add_handler_def start_engine_def
    by (intro keeps_modify; simp add: Let_def split: option.split)+
  show b: "keeps (\<lambda>g. gw_config g = c) start_gossip" "keeps (\<lambda>g. gw_config g = c) start_dist"
    unfolding start_gossip_def start_dist_def attach_def Let_def
    by (auto intro!: keeps_bind keeps_then keeps_basic keeps_modify)
  show "keeps (\<lambda>g. gw_config g = c) (node_identify W mid)"
    unfolding node_identify_def gw_publish_def Let_def
    by (auto intro!: keeps_bind keeps_then keeps_basic config_kept_run)
  show "keeps (\<lambda>g. gw_config g = c) (gw_start W)"
    unfolding gw_start_def by (intro keeps_then keeps_basic keeps_modify config_kept_run(2) a(2) b) simp
qed

lemma gateway_init_config: "gateway_init W cfg = Inr g \<Longrightarrow> gw_config g = cfg"
  by (auto simp: gateway_init_def bindR_Inr_iff split: prod.splits)

definition up :: "gateway \<Rightarrow> bool" where
  "up g \<longleftrightarrow> gw_engine g \<noteq> None"

lemma up_kept_run: "keeps up (on_engine W m)"
  by (auto simp: keeps_def up_def on_engine_def state_of_def split: option.splits prod.splits)

lemma up_kept: "keeps up start_gossip" "keeps up start_dist" "keeps up (node_identify W mid)" "keeps up (liftA r)"
  "(\<And>g. gw_engine (f g) = gw_engine g) \<Longrightarrow> keeps up (modifyA f)"
proof -
  show "keeps up start_gossip" "keeps up start_dist"
    unfolding start_gossip_def start_dist_def attach_def Let_def
    by (auto intro!: keeps_bind keeps_then keeps_basic keeps_modify simp: up_def)
  show "keeps up (node_identify W mid)"
    unfolding node_identify_def gw_publish_def Let_def
    by (auto intro!: keeps_bind keeps_then keeps_basic up_kept_run)
  show "(\<And>g. gw_engine (f g) = gw_engine g) \<Longrightarrow> keeps up (modifyA f)" by (intro keeps_modify) (simp add: up_def)
qed (rule keeps_basic)

lemma gw_start_up: "value_of (gw_start W g) = Inr u \<Longrightarrow> up (state_of (gw_start W g))"
proof -
  define R where "R = thenA start_gossip (thenA start_dist (thenA (liftA (w_transport_start W))
     (modifyA (\<lambda>g. g\<lparr>gw_up := True, gw_started_at := Some (w_now W)\<rparr>))))"
  have k: "keeps up R" unfolding R_def by (intro keeps_then up_kept) simp
  have e: "up (state_of (start_engine W h))" "value_of (start_engine W h) = Inr ()" for h
    by (simp_all add: start_engine_def act_defs Let_def up_def)
  have s: "gw_start W = thenA gw_join (thenA (start_engine W) R)" by (simp add: gw_start_def R_def)
  assume "value_of (gw_start W g) = Inr u"
  then have "value_of (gw_join g) = Inr ()" by (simp add: s thenA_parts split: sum.splits)
  then show ?thesis using keepsD [OF k e(1)] by (simp add: s thenA_parts e(2))
qed

lemma built_node:
  assumes "build_and_start W mid cfg = Inr g"
  shows "gw_config g = cfg" and "gw_running g"
proof -
  obtain g0 where g0: "gateway_init W cfg = Inr g0" using assms by (auto simp: build_and_start_def bindR_Inr_iff)
  let ?m = "thenA (gw_add_handler collect_handler) (thenA (gw_start W) (node_identify W mid))"
  obtain r g' cs where m: "?m g0 = (r, g', cs)" by (cases "?m g0") auto
  then have r: "\<exists>u. r = Inr u" "g' = g" using assms g0 by (auto simp: build_and_start_def bindR_Inr_iff)
  have st: "g = state_of (?m g0)" and v: "\<exists>u. value_of (?m g0) = Inr u" using m r by (simp_all add: state_of_def value_of_def)
  have "keeps (\<lambda>g. gw_config g = cfg) ?m" by (intro keeps_then config_kept)
  then show "gw_config g = cfg" unfolding st using gateway_init_config [OF g0] by (rule keepsD)
  let ?g1 = "state_of (gw_add_handler collect_handler g0)"
  have h: "value_of (gw_add_handler collect_handler g0) = Inr ()" by (simp add: gw_add_handler_def act_defs)
  obtain u where u: "value_of (gw_start W ?g1) = Inr u" using v by (auto simp: thenA_parts h split: sum.splits)
  have "g = state_of (node_identify W mid (state_of (gw_start W ?g1)))" by (simp add: st thenA_parts h u)
  then show "gw_running g" using keepsD [OF up_kept(3) gw_start_up [OF u]] by (simp add: gw_running_def up_def)
qed

section \<open>What a patch does\<close>

lemma on_servers_run: "value_of (on_servers m s) = value_of (m (ap_servers s))"
  "state_of (on_servers m s) = s\<lparr>ap_servers := state_of (m (ap_servers s))\<rparr>"
  by (simp_all add: on_servers_def value_of_def state_of_def case_prod_unfold)

lemma on_eud_run: "value_of (on_eud m s) = value_of (m (ap_eud s))"
  "state_of (on_eud m s) = s\<lparr>ap_eud := state_of (m (ap_eud s))\<rparr>"
  by (simp_all add: on_eud_def value_of_def state_of_def case_prod_unfold)

lemma on_gateway_run: "value_of (on_gateway m s) = value_of (m (ap_gateway s))"
  "state_of (on_gateway m s) = s\<lparr>ap_gateway := state_of (m (ap_gateway s))\<rparr>"
  by (simp_all add: on_gateway_def value_of_def state_of_def case_prod_unfold)

lemma eud_reconfigure_value: "value_of (eud_reconfigure bind cfg s) = Inr ()"
  by (simp add: eud_reconfigure_def bindA_parts thenA_parts act_defs stop_server_run start_server_run)

definition servers_after :: "runtime_env \<Rightarrow> nat \<Rightarrow> gateway_config \<Rightarrow> servers \<Rightarrow> servers" where
  "servers_after R node cfg s = state_of (reconcile (rt_bridge R) (cfg_servers cfg) (snd (sm_attach node cfg s)))"

definition eud_after :: "runtime_env \<Rightarrow> nat \<Rightarrow> gateway_config \<Rightarrow> eud \<Rightarrow> eud" where
  "eud_after R node cfg s = state_of (eud_reconfigure (rt_bind R) (cfg_eud_server cfg) (snd (eud_attach node cfg s)))"

lemma switch_node_run:
  "value_of (switch_node R g s) = Inr ()"
  "state_of (switch_node R g s) = s\<lparr>ap_gateway := g, ap_node := Suc (ap_node s),
     ap_servers := servers_after R (Suc (ap_node s)) (gw_config g) (ap_servers s),
     ap_eud := eud_after R (Suc (ap_node s)) (gw_config g) (ap_eud s),
     ap_store := map_option (\<lambda>_. ci_dump (rt_io R) (gw_config g)) (ap_store s)\<rparr>"
  by (simp_all add: switch_node_def bindA_parts thenA_parts act_defs on_servers_run on_eud_run reconcile_run(1)
      eud_reconfigure_value attach_servers_def attach_eud_def save_store_def servers_after_def eud_after_def)

lemma reconfigure_cases:
  fixes R patch s
  defines "built \<equiv> ci_build (rt_io R) (deep_merge (ci_dump (rt_io R) (gw_config (ap_gateway s))) patch)"
    and "stopped \<equiv> s\<lparr>ap_gateway := state_of (gw_stop (ap_gateway s))\<rparr>"
  shows "built = Inl e \<Longrightarrow> reconfigure R patch s = (Inl e, s, [])"
    and "built = Inr cfg \<Longrightarrow> build_and_start (rt_world R) (rt_mid R) cfg = Inl e \<Longrightarrow>
      reconfigure R patch s = (Inl e, stopped, [])"
    and "built = Inr cfg \<Longrightarrow> build_and_start (rt_world R) (rt_mid R) cfg = Inr g \<Longrightarrow>
      value_of (reconfigure R patch s) = Inr cfg \<and> state_of (reconfigure R patch s) = state_of (switch_node R g stopped)"
proof -
  have st: "on_gateway gw_stop s = (Inr (), stopped, [])"
    by (simp add: on_gateway_def gw_stop_def modifyA_def stopped_def)
  { assume "built = Inl e"
    then show "reconfigure R patch s = (Inl e, s, [])"
      by (simp add: reconfigure_def bindA_def act_defs built_def) }
  { assume "built = Inr cfg" "build_and_start (rt_world R) (rt_mid R) cfg = Inl e"
    then show "reconfigure R patch s = (Inl e, stopped, [])"
      by (simp add: reconfigure_def bindA_def thenA_def act_defs built_def st) }
  { assume "built = Inr cfg" "build_and_start (rt_world R) (rt_mid R) cfg = Inr g"
    then show "value_of (reconfigure R patch s) = Inr cfg \<and> state_of (reconfigure R patch s) = state_of (switch_node R g stopped)"
      by (simp add: reconfigure_def bindA_parts thenA_parts act_defs built_def st switch_node_run(1)) }
qed


text \<open>A patch that validates but names a plugin nobody provides, or a node that does not
  start, takes the node down: the old gateway is already stopped, keeps being the application's
  gateway, and nothing restarts it.\<close>

theorem bad_plugin_takes_node_down:
  assumes "ci_build (rt_io R) (deep_merge (ci_dump (rt_io R) (gw_config (ap_gateway s))) patch) = Inr cfg"
    and "build_and_start (rt_world R) (rt_mid R) cfg = Inl e"
  shows "value_of (reconfigure R patch s) = Inl e \<and>
    gw_config (ap_gateway (state_of (reconfigure R patch s))) = gw_config (ap_gateway s) \<and>
    \<not> gw_running (ap_gateway (state_of (reconfigure R patch s)))"
  using reconfigure_cases(2) [OF assms] by (simp add: gw_stop_def modifyA_def gw_running_def)

section \<open>Server ids\<close>

lemma free_id_spec:
  "\<exists>n. k \<le> n \<and> free_id base existing k = nth_id base n \<and> nth_id base n \<notin> set existing \<and>
     (\<forall>m. k \<le> m \<and> m < n \<longrightarrow> nth_id base m \<in> set existing)"
proof (induction base existing k rule: free_id.induct)
  case (1 base existing k)
  show ?case
  proof (cases "nth_id base k \<in> set existing")
    case True
    then obtain n where n: "Suc k \<le> n" "free_id base existing (Suc k) = nth_id base n" "nth_id base n \<notin> set existing"
      "\<forall>m. Suc k \<le> m \<and> m < n \<longrightarrow> nth_id base m \<in> set existing"
      using 1 by blast
    moreover have "\<forall>m. k \<le> m \<and> m < n \<longrightarrow> nth_id base m \<in> set existing"
      using n(4) True by (metis Suc_leI le_neq_implies_less)
    ultimately show ?thesis using True by (intro exI [of _ n]) (simp add: free_id.simps [of base existing k])
  next
    case False
    then show ?thesis by (intro exI [of _ k]) (auto simp: free_id.simps [of base existing k])
  qed
qed

lemma unique_id_fresh': "unique_id base existing \<notin> set existing"
  using free_id_spec [of 2 base existing] by (auto simp: unique_id_def)

text \<open>Property C23: however many ids are taken, the search for a server's id ends: it gives the name's slug,
  or the slug with the smallest number from 2 on that makes it free.\<close>

theorem unique_id_fresh:
  "unique_id base existing \<notin> set existing \<and>
   (unique_id base existing = base \<or>
    (\<exists>n \<ge> 2. unique_id base existing = nth_id base n \<and> base \<in> set existing \<and>
      {nth_id base m | m. 2 \<le> m \<and> m < n} \<subseteq> set existing))"
  using free_id_spec [of 2 base existing] by (auto simp: unique_id_def)

section \<open>The connections stay in step with the configuration\<close>

definition synced :: "app \<Rightarrow> bool" where
  "synced s \<longleftrightarrow> distinct (map sv_id (app_servers s)) \<and> list_all server_ok (app_servers s) \<and>
     servers_inv (ap_servers s) \<and> live_links (ap_servers s) = wanted_links (app_servers s) \<and>
     (case ap_store s of None \<Rightarrow> True
      | Some d \<Rightarrow> map_of d ''servers'' = Some (JList (map server_json (app_servers s))))"

lemma persist_run: "value_of (persist_section k v s) = Inr (ap_store s \<noteq> None)"
  "state_of (persist_section k v s) = s\<lparr>ap_store := map_option (AList.update k v) (ap_store s)\<rparr>"
  by (cases "ap_store s"; simp add: persist_section_def bindA_parts thenA_parts act_defs)+

lemma apply_servers_run:
  "value_of (apply_servers R l s) = Inr ()"
  "state_of (apply_servers R l s) = s\<lparr>ap_gateway := (ap_gateway s)\<lparr>gw_config := (gw_config (ap_gateway s))\<lparr>cfg_servers := l\<rparr>\<rparr>,
     ap_servers := state_of (reconcile (rt_bridge R) l (ap_servers s)),
     ap_store := map_option (AList.update ''servers'' (JList (map server_json l))) (ap_store s)\<rparr>"
  by (simp_all add: apply_servers_def bindA_parts thenA_parts on_gateway_run on_servers_run reconcile_run(1) persist_run act_defs)

lemma apply_servers_synced:
  assumes "synced s" and "distinct (map sv_id l)" and "list_all server_ok l"
  shows "synced (state_of (apply_servers R l s))"
proof -
  have "servers_inv (ap_servers s)" using assms(1) by (simp add: synced_def)
  then show ?thesis
    using assms(2,3) reconcile_inv [of "ap_servers s" "rt_bridge R" l] reconcile_live [of "ap_servers s" "rt_bridge R" l]
    by (cases "ap_store s") (simp_all add: synced_def apply_servers_run app_servers_def)
qed

lemma mk_server_ok: "mk_server sid i = Inr d \<Longrightarrow> sv_id d = sid \<and> server_ok d"
  by (auto simp: mk_server_def invalid_def server_ok_def split: if_splits)

lemma create_synced:
  assumes "synced s"
  shows "synced (state_of (create_server R i s))"
proof -
  let ?l = "app_servers s"
  let ?sid = "unique_id (slug (or_else (si_name i) (si_host i))) (map sv_id ?l)"
  show ?thesis
  proof (cases "mk_server ?sid i")
    case (Inl e)
    then show ?thesis using assms by (simp add: create_server_def bindA_parts act_defs)
  next
    case (Inr d)
    note d = mk_server_ok [OF Inr]
    have "?sid \<notin> set (map sv_id ?l)" by (rule unique_id_fresh')
    then have "distinct (map sv_id (?l @ [d]))" "list_all server_ok (?l @ [d])"
      using assms d by (auto simp: synced_def)
    from apply_servers_synced [OF assms this, of R] Inr show ?thesis
      by (simp add: create_server_def bindA_parts thenA_parts act_defs apply_servers_run(1))
  qed
qed

lemma update_synced:
  assumes "synced s"
  shows "synced (state_of (update_server R sid i s))"
proof (cases "sid \<in> sv_id ` set (app_servers s)")
  case False
  then show ?thesis using assms by (simp add: update_server_def bindA_parts act_defs)
next
  case True
  show ?thesis
  proof (cases "mk_server sid i")
    case (Inl e)
    then show ?thesis using assms True by (simp add: update_server_def bindA_parts act_defs)
  next
    case (Inr d)
    note d = mk_server_ok [OF Inr]
    let ?l = "map (\<lambda>s. if sv_id s = sid then d else s) (app_servers s)"
    have e: "map sv_id ?l = map sv_id (app_servers s)" using d by (induction "app_servers s") auto
    have "distinct (map sv_id ?l)" unfolding e using assms by (simp add: synced_def)
    moreover have "list_all server_ok ?l" using assms d by (auto simp: synced_def list_all_iff)
    ultimately show ?thesis using apply_servers_synced [OF assms, of ?l R] True Inr
      by (simp add: update_server_def bindA_parts act_defs)
  qed
qed

lemma delete_synced:
  assumes "synced s"
  shows "synced (state_of (delete_server R sid s))"
proof -
  let ?l = "filter (\<lambda>s. sv_id s \<noteq> sid) (app_servers s)"
  have "distinct (map sv_id ?l)" "list_all server_ok ?l"
    using assms by (auto simp: synced_def distinct_map list_all_iff inj_on_def)
  from apply_servers_synced [OF assms this, of R] assms show ?thesis
    by (simp add: delete_server_def bindA_parts act_defs Let_def)
qed

lemma links_conn:
  "map_of (sm_conns s) sid = Some c \<Longrightarrow> link_of c' = link_of c \<Longrightarrow>
    live_links (s\<lparr>sm_conns := AList.update sid c' (sm_conns s)\<rparr>) = live_links s"
  by (rule ext) (simp add: live_links_def)

lemma links_other [simp]:
  "live_links (s\<lparr>sm_traffic := x\<rparr>) = live_links s" "live_links (s\<lparr>sm_origins := y\<rparr>) = live_links s"
  "live_links (s\<lparr>sm_identified := z\<rparr>) = live_links s"
  by (rule ext, simp add: live_links_def)+

lemma links_kept:
  "keeps (\<lambda>s. live_links s = L) (sm_on_cot B sid raw)" "keeps (\<lambda>s. live_links s = L) (sm_emit B outcome m)"
proof -
  show "keeps (\<lambda>s. live_links s = L) (sm_on_cot B sid raw)"
    unfolding sm_on_cot_def sm_bridge_def sm_traffic_record_def
    by (auto intro!: keeps_bind keeps_then keeps_basic keeps_modify ingest_keeps split: option.split)
  have "keeps (\<lambda>s. live_links s = L) (sm_send outcome sid f)" for sid f
    unfolding sm_send_def
    by (intro keeps_then keeps_basic keeps_modify) (auto simp: links_conn tak_send_link split: option.split)
  then show "keeps (\<lambda>s. live_links s = L) (sm_emit B outcome m)"
    unfolding sm_emit_def sm_traffic_record_def
    by (auto intro!: keeps_bind keeps_then keeps_for keeps_basic keeps_modify split: option.split)
qed

inductive app_step :: "app \<Rightarrow> app \<Rightarrow> bool" where
  created: "app_step s (state_of (create_server R i s))"
| updated: "app_step s (state_of (update_server R sid i s))"
| deleted: "app_step s (state_of (delete_server R sid s))"
| inbound: "app_step s (state_of (on_servers (sm_on_cot B sid raw) s))"
| outbound: "app_step s (state_of (on_servers (sm_emit B outcome m) s))"
| link: "map_of (sm_conns (ap_servers s)) sid = Some c \<Longrightarrow> tak_step c ev w ds c' \<Longrightarrow>
    app_step s (s\<lparr>ap_servers := (ap_servers s)\<lparr>sm_conns := AList.update sid c' (sm_conns (ap_servers s))\<rparr>\<rparr>)"



lemma synced_servers:
  "synced s \<Longrightarrow> servers_inv x \<Longrightarrow> live_links x = live_links (ap_servers s) \<Longrightarrow> synced (s\<lparr>ap_servers := x\<rparr>)"
  by (cases "ap_store s") (simp_all add: synced_def app_servers_def)

lemma app_step_synced: "app_step s s' \<Longrightarrow> synced s \<Longrightarrow> synced s'"
proof (induction rule: app_step.induct)
  case (inbound s B sid raw)
  then have "servers_inv (ap_servers s)" by (simp add: synced_def)
  then show ?case unfolding on_servers_run
    using inbound by (intro synced_servers keepsD [OF on_cot_inv] keepsD [OF links_kept(1)] refl)
next
  case (outbound s B outcome m)
  then have "servers_inv (ap_servers s)" by (simp add: synced_def)
  then show ?case unfolding on_servers_run
    using outbound by (intro synced_servers keepsD [OF emit_inv] keepsD [OF links_kept(2)] refl)
next
  case (link s sid c ev w ds c')
  then have "servers_inv (ap_servers s)" by (simp add: synced_def)
  then show ?case
    using link by (intro synced_servers servers_inv_conn links_conn) (auto simp: step_link)
qed (simp_all add: create_synced update_synced delete_synced)


section \<open>Witnesses\<close>

lemma remember_value: "window s \<noteq> 0 \<Longrightarrow> value_of (remember m s) = Inr ()"
  by (auto simp: remember_def Let_def)

lemma demo_publish:
  assumes "gw_engine g = Some e" and "gw_up g" and "gw_codec g = xml_codec Exchange.demo_env" and "gw_security g = psk_security k"
    and "window e \<noteq> 0"
  shows "is_ok (value_of (on_engine W (\<lambda>D. publish D m) g))"
proof -
  let ?D = "deps_of W g"
  let ?f = "\<lparr> codec_name = ''xml'', security_name = ''psk'', payload = psk_protect (utf8_encode k) [] \<rparr>"
  have "frame_ok ?f" by (simp add: frame_ok_def is_ascii_def psk_protect_def TAG_LEN_def)
  then have d: "data_frame ?D [] = Inr (frame_text ?f)"
    using assms(3,4) by (simp add: data_frame_def to_bytes_iff deps_of_def xml_codec_def psk_security_def)
  have c: "c_encode (d_codec ?D) m = Inr []" for m
    using assms(3) by (simp add: deps_of_def xml_codec_def xml_encode_def Exchange.demo_env_def demo_env0_def)
  have u: "d_up ?D" using assms(2) by (simp add: deps_of_def)
  have "is_ok (value_of (publish ?D m e))"
    by (simp add: publish_def transmit_def bindA_parts thenA_parts act_defs c d u for_send remember_value assms(5) Let_def)
  then show ?thesis by (simp add: on_engine_def assms(1) value_of_def case_prod_unfold)
qed

definition demo_collected :: gateway where
  "demo_collected = state_of (gw_start Gateway.demo_world ((demo_gw0 ''n'')\<lparr>gw_pending := [collect_handler]\<rparr>))"

lemma demo_collected_fields:
  "value_of (gw_start Gateway.demo_world ((demo_gw0 ''n'')\<lparr>gw_pending := [collect_handler]\<rparr>)) = Inr () \<and>
   gw_engine demo_collected = Some ((demo_engine ''n'')\<lparr>handlers := [collect_handler]\<rparr>) \<and>
   gw_security demo_collected = psk_security ''jdss-coalition-key'' \<and> gw_up demo_collected \<and>
   gw_config demo_collected = demo_cfg ''n'' \<and> gw_caps demo_collected = capabilities_init [] [] \<and>
   gw_codec demo_collected = xml_codec Exchange.demo_env"
  by (simp add: demo_collected_def gw_start_def gw_join_def radio_join_def transport_factory_def demo_gw0_def
      demo_cfg_def default_config_def default_plugins_def default_network_def default_identity_def
      default_gossip_def default_connections_def thenA_def bindA_def act_defs start_engine_def start_gossip_def
      start_dist_def attach_def own_id_def opt_key_def Let_def cfg_is_authority_def Gateway.demo_world_def engine_init_def
      on_control_def demo_engine_def AUTO_WINDOW_def GOSSIP_KIND_def KIND_def)

lemma demo_built: "\<exists>g. build_and_start Gateway.demo_world ''m'' (demo_cfg ''n'') = Inr g"
proof -
  have w: "window ((demo_engine ''n'')\<lparr>handlers := [collect_handler]\<rparr>) \<noteq> 0" by (simp add: demo_engine_def)
  note f = demo_collected_fields
  have p: "is_ok (value_of (on_engine Gateway.demo_world (\<lambda>D. publish D m) demo_collected))" for m
    by (rule demo_publish [OF _ _ _ _ w]) (use f in simp_all)
  have "is_ok (value_of (node_identify Gateway.demo_world ''m'' demo_collected))"
    using f p
    by (simp add: node_identify_def gw_publish_def bindA_parts act_defs gw_header_def mk_header_def demo_cfg_def
        default_config_def default_classification_def in_range_def Let_def can_emit_def capabilities_init_def
        all_permitted_def MESSAGE_TYPES_def dict_update_def dict_get_def)
  then obtain m where m: "value_of (node_identify Gateway.demo_world ''m'' demo_collected) = Inr m" by (auto simp: is_ok_iff)
  have g: "gw_add_handler collect_handler (demo_gw0 ''n'') = (Inr (), (demo_gw0 ''n'')\<lparr>gw_pending := [collect_handler]\<rparr>, [])"
    by (simp add: gw_add_handler_def demo_gw0_def act_defs)
  have "is_ok (value_of (thenA (gw_add_handler collect_handler) (thenA (gw_start Gateway.demo_world) (node_identify Gateway.demo_world ''m'')) (demo_gw0 ''n'')))"
    using f m by (simp add: thenA_parts g demo_collected_def [symmetric])
  then show ?thesis
    by (cases "thenA (gw_add_handler collect_handler) (thenA (gw_start Gateway.demo_world) (node_identify Gateway.demo_world ''m'')) (demo_gw0 ''n'')")
      (auto simp: build_and_start_def demo_init value_of_def is_ok_iff)
qed

definition demo_app :: app where
  "demo_app = \<lparr> ap_gateway = demo_gw0 ''n'', ap_node = 0, ap_servers = servers_init 120, ap_eud = eud_init 120,
     ap_store = Some [(''servers'', JList [])] \<rparr>"

definition demo_runtime :: "gateway_config \<Rightarrow> runtime_env" where
  "demo_runtime cfg = \<lparr> rt_world = Gateway.demo_world, rt_bridge = Servers.demo_env demo_tree,
     rt_io = \<lparr> ci_dump = (\<lambda>_. []), ci_build = (\<lambda>_. Inr cfg) \<rparr>, rt_bind = (\<lambda>_ _. None), rt_mid = ''m'' \<rparr>"

lemma demo_app_reach: "servers_reach 120 (ap_servers demo_app)" "eud_reach 120 (ap_eud demo_app)"
  by (simp_all add: demo_app_def servers_reach_def eud_reach_def)


definition unknown_codec :: gateway_config where
  "unknown_codec = (demo_cfg ''n'')\<lparr>cfg_plugins := default_plugins\<lparr>pl_codec := ''nosuch''\<rparr>\<rparr>"

lemma unknown_codec_fails: "\<exists>e. build_and_start Gateway.demo_world ''m'' unknown_codec = Inl e"
  by (simp add: build_and_start_def gateway_init_def unknown_codec_def demo_cfg_def default_config_def default_plugins_def
      default_network_def resolve_endpoint_def build_security_def)
    (simp add: create_def registry_get_def registry_init_def discover_def GROUPS_def codec_eps_def dict_get_def
      split: prod.split sum.split)

theorem bad_plugin_takes_node_down_witness:
  "\<not> gw_running (ap_gateway (state_of (reconfigure (demo_runtime unknown_codec) [] demo_app)))"
proof -
  let ?R = "demo_runtime unknown_codec"
  obtain e where e: "build_and_start (rt_world ?R) (rt_mid ?R) unknown_codec = Inl e"
    using unknown_codec_fails by (auto simp: demo_runtime_def)
  have "ci_build (rt_io ?R) (deep_merge (ci_dump (rt_io ?R) (gw_config (ap_gateway demo_app))) []) = Inr unknown_codec"
    by (simp add: demo_runtime_def)
  from bad_plugin_takes_node_down [OF this e] show ?thesis by blast
qed

definition demo_input :: server_input where
  "demo_input = \<lparr> si_name = ''Main TAK'', si_host = ''tak'', si_port = 8089, si_tls = False, si_verify = True,
     si_client_cert = None, si_client_key = None, si_cacert = None, si_enabled = True \<rparr>"


end
