(* ===== verification/Inject.thy ===== *)
theory Inject
  imports Gateway Cot
begin

text \<open>
  The message endpoints of \<open>web/routers/monitor.py\<close>: publishing under the node's own identity and
  injecting a message under another originator. A literal em dash stands outside the code points
  the model's texts have, so the text the endpoint falls back on is an argument \<open>dash\<close>.
\<close>

section \<open>Requests\<close>

record presence_in =
  pi_lat :: rat
  pi_lon :: rat
  pi_callsign :: string
  pi_battery_pct :: "int option"
  pi_identity :: "int option"
  pi_sidc :: "string option"

record chat_in =
  ci_text :: string
  ci_recipient :: string

record contact_in =
  ki_lat :: rat
  ki_lon :: rat
  ki_description :: string
  ki_identity :: "int option"
  ki_sidc :: "string option"
  ki_strength :: "int option"

record inject_in =
  in_originator :: string
  in_type :: string
  in_callsign :: "string option"
  in_lat :: "rat option"
  in_lon :: "rat option"
  in_course_deg :: "rat option"
  in_speed_mps :: "rat option"
  in_battery_pct :: "int option"
  in_identity :: "int option"
  in_sidc :: "string option"
  in_description :: "string option"
  in_strength :: "int option"
  in_text :: "string option"
  in_recipient :: string
  in_unit :: "string option"
  in_role :: "string option"
  in_nation :: "string option"
  in_classification :: "int option"
  in_releasable_to :: "string option"
  in_ack_message_id :: "string option"

text \<open>A request with only the required fields.\<close>

definition inject_request :: "string \<Rightarrow> string \<Rightarrow> inject_in" where
  "inject_request originator type =
     \<lparr> in_originator = originator, in_type = type, in_callsign = None, in_lat = None, in_lon = None,
       in_course_deg = None, in_speed_mps = None, in_battery_pct = None, in_identity = None, in_sidc = None,
       in_description = None, in_strength = None, in_text = None, in_recipient = ''all'', in_unit = None,
       in_role = None, in_nation = None, in_classification = None, in_releasable_to = None,
       in_ack_message_id = None \<rparr>"

text \<open>\<open>value or default\<close>: what is absent and what is empty or zero is the default.\<close>

definition text_or :: "string option \<Rightarrow> string \<Rightarrow> string" where
  "text_or v d = or_else (coerce_str v) d"

definition int_or :: "int option \<Rightarrow> int \<Rightarrow> int" where
  "int_or v d = (case v of None \<Rightarrow> d | Some n \<Rightarrow> if n = 0 then d else n)"

definition num_or_0 :: "rat option \<Rightarrow> rat" where
  "num_or_0 v = (case v of None \<Rightarrow> 0 | Some x \<Rightarrow> x)"

definition in_identity_of :: "int option \<Rightarrow> standard_identity \<Rightarrow> standard_identity" where
  "in_identity_of v d = (case v of None \<Rightarrow> d | Some n \<Rightarrow> (case identity_of_int n of None \<Rightarrow> d | Some i \<Rightarrow> i))"

definition compliant_sidc :: "string option \<Rightarrow> standard_identity \<Rightarrow> string \<Rightarrow> string result" where
  "compliant_sidc raw identity entity =
     (case raw of None \<Rightarrow> Inr (sidc entity identity None PRESENT)
      | Some r \<Rightarrow>
          if r = [] then Inr (sidc entity identity None PRESENT)
          else bindR (is_valid_sidc r) (\<lambda>ok.
            Inr (if ok then with_identity r identity else sidc entity identity None PRESENT)))"

section \<open>Publishing\<close>

definition publish_presence :: "world \<Rightarrow> string \<Rightarrow> presence_in \<Rightarrow> string gact" where
  "publish_presence W mid b =
     (let identity = in_identity_of (pi_identity b) FRIEND in
      bindA (liftA (mk_location (pi_lat b) (pi_lon b) None)) (\<lambda>place.
      bindA (liftA (compliant_sidc (pi_sidc b) identity ''dismounted_infantry'')) (\<lambda>code.
      bindA (liftA (mk_presence place (pi_callsign b) (pi_battery_pct b) None None (Some code))) (\<lambda>p.
      bindA (gw_publish W mid (Presence p)) (\<lambda>m. retA (message_id (header m)))))))"

definition publish_chat :: "world \<Rightarrow> string \<Rightarrow> chat_in \<Rightarrow> string gact" where
  "publish_chat W mid b =
     bindA (gw_publish W mid (ChatMessage \<lparr> ch_text = ci_text b, ch_recipient = ci_recipient b \<rparr>)) (\<lambda>m.
     retA (message_id (header m)))"

definition publish_contact :: "world \<Rightarrow> string \<Rightarrow> contact_in \<Rightarrow> string gact" where
  "publish_contact W mid b =
     (let identity = in_identity_of (ki_identity b) HOSTILE in
      bindA (liftA (mk_location (ki_lat b) (ki_lon b) None)) (\<lambda>place.
      bindA (liftA (compliant_sidc (ki_sidc b) identity ''hostile_contact'')) (\<lambda>code.
      bindA (liftA (mk_contact place identity PRESENT (ki_description b) (ki_strength b) None None (Some code))) (\<lambda>c.
      bindA (gw_publish W mid (ContactSighting c)) (\<lambda>m. retA (message_id (header m)))))))"

section \<open>Injecting\<close>

definition room_names :: "string \<Rightarrow> string list" where
  "room_names text = filter (\<lambda>n. n \<noteq> []) (map py_strip (split_on CHR '','' text))"

definition inject_presence :: "location \<Rightarrow> inject_in \<Rightarrow> body result" where
  "inject_presence place b =
     bindR (compliant_sidc (in_sidc b) (in_identity_of (in_identity b) FRIEND) ''dismounted_infantry'') (\<lambda>code.
     bindR (mk_presence place (text_or (in_callsign b) (in_originator b)) (in_battery_pct b) (in_course_deg b)
       (in_speed_mps b) (Some code)) (\<lambda>p. Inr (Presence p)))"

definition inject_contact :: "location \<Rightarrow> inject_in \<Rightarrow> body result" where
  "inject_contact place b =
     (let identity = in_identity_of (in_identity b) HOSTILE in
      bindR (compliant_sidc (in_sidc b) identity ''hostile_contact'') (\<lambda>code.
      bindR (mk_contact place identity PRESENT (text_or (in_description b) ''contact'') (in_strength b)
        (in_course_deg b) (in_speed_mps b) (Some code)) (\<lambda>c. Inr (ContactSighting c))))"

definition inject_body :: "string \<Rightarrow> inject_in \<Rightarrow> body result" where
  "inject_body dash b =
     bindR (mk_location (num_or_0 (in_lat b)) (num_or_0 (in_lon b)) None) (\<lambda>place.
     if in_type b = ''Presence'' then inject_presence place b
     else if in_type b = ''ContactSighting'' then inject_contact place b
     else if in_type b = ''Identification'' then
       Inr (Identification (mk_identification (text_or (in_callsign b) (in_originator b))
         (text_or (in_unit b) (text_or (in_callsign b) (in_originator b)))
         (Some (text_or (in_role b) ''rifleman'')) (Some (text_or (in_nation b) ''XXX'')) None))
     else if in_type b = ''CasevacRequest'' then
       Inr (CasevacRequest \<lparr> cv_location = place, cv_patients_urgent = int_or (in_strength b) 1,
         cv_patients_priority = 0, cv_patients_routine = 0, cv_special_equipment = ''none'',
         cv_security_at_pickup = ''no_enemy'', cv_sidc = sidc ''casualty'' FRIEND None PRESENT \<rparr>)
     else if in_type b = ''Chat'' then
       Inr (ChatMessage \<lparr> ch_text = text_or (in_text b) dash, ch_recipient = in_recipient b \<rparr>)
     else if in_type b = ''Overlay'' then
       Inr (Overlay \<lparr> ov_name = text_or (in_description b) ''overlay'',
         ov_graphics = [\<lparr> og_sidc = sidc ''control_point'' FRIEND None PRESENT, og_location = place,
           og_label = text_or (in_callsign b) ''OBJ'' \<rparr>] \<rparr>)
     else if in_type b = ''GenInfo'' then
       Inr (GeneralInfo (mk_geninfo (Some (coerce_str (in_description b))) (Some (text_or (in_text b) dash))
         (if in_lat b \<noteq> None \<and> in_lon b \<noteq> None then Some place else None)))
     else if in_type b = ''Receipt'' then
       Inr (Receipt (mk_receipt (text_or (in_ack_message_id b) (coerce_str (in_text b))) Received
         (Some (coerce_str (in_description b)))))
     else if in_type b = ''Chatrooms'' then
       Inr (Chatrooms (mk_chatrooms (Some (map (\<lambda>n. mk_chatroom n (Some n) None)
         (room_names (coerce_str (in_text b)))))))
     else Inl (PyExn (HttpErr 400) (''unknown message type '' @ [CHR 0x27] @ in_type b @ [CHR 0x27])))"

definition inject_header :: "world \<Rightarrow> string \<Rightarrow> inject_in \<Rightarrow> gateway \<Rightarrow> header result" where
  "inject_header W mid b g =
     (let c = gw_config g in
      mk_header mid (in_originator b) (nc_network_id (cfg_network c)) (w_now W) 0
        (case in_classification b of None \<Rightarrow> cc_level (cfg_classification c) | Some n \<Rightarrow> n)
        (text_or (in_releasable_to b) (cc_releasable_to (cfg_classification c))))"

definition inject :: "world \<Rightarrow> string \<Rightarrow> string \<Rightarrow> inject_in \<Rightarrow> message gact" where
  "inject W dash mid b =
     bindA (getA (inject_header W mid b)) (\<lambda>hr.
     bindA (liftA hr) (\<lambda>h.
     bindA (liftA (inject_body dash b)) (\<lambda>bd.
     let m = \<lparr> header = h, body = bd \<rparr> in
     thenA (gw_ingest W m) (retA m))))"

section \<open>What an injected message is\<close>

lemma compliant_sidc_conforms:
  assumes "compliant_sidc raw i e = Inr code"
  shows "conforms code \<and> code ! 3 = digit (identity_int i)"
proof -
  have d: "conforms (sidc e i None PRESENT) \<and> sidc e i None PRESENT ! 3 = digit (identity_int i)"
  proof -
    obtain a b ec where "sidc e i None PRESENT =
        ''100'' @ [digit (identity_int i), a, b, digit (status_int PRESENT)] @ ''000'' @ ec @ ''0000''"
      using sidc_eq by blast
    then show ?thesis using conforms_sidc [of e i None PRESENT] by simp
  qed
  have w: "conforms (with_identity r i) \<and> with_identity r i ! 3 = digit (identity_int i)" if "is_valid_sidc r = Inr True" for r
  proof -
    have c: "conforms r" using that by (simp add: is_valid_sidc_def bindR_Inr_iff validate_ok_iff [symmetric])
    then have "length r = 20" by (simp add: conforms_def)
    then show ?thesis using conforms_with_identity [OF c, of i] by (simp add: with_identity_20(2))
  qed
  show ?thesis
  proof (cases "raw = None \<or> raw = Some []")
    case True
    then show ?thesis using assms d by (auto simp: compliant_sidc_def)
  next
    case False
    then obtain r where r: "raw = Some r" "r \<noteq> []" by auto
    then obtain ok where ok: "is_valid_sidc r = Inr ok"
      and code: "code = (if ok then with_identity r i else sidc e i None PRESENT)"
      using assms by (auto simp: compliant_sidc_def bindR_Inr_iff)
    show ?thesis using d w [of r] ok code by (cases ok) auto
  qed
qed

lemma inject_presence_valid:
  "valid_location place \<Longrightarrow> inject_presence place b = Inr bd \<Longrightarrow> \<exists>p. bd = Presence p \<and> valid_presence p"
  by (auto simp: inject_presence_def bindR_Inr_iff dest: mk_presence_valid)

lemma inject_contact_valid:
  "valid_location place \<Longrightarrow> inject_contact place b = Inr bd \<Longrightarrow> \<exists>c. bd = ContactSighting c \<and> valid_contact c"
  by (auto simp: inject_contact_def Let_def bindR_Inr_iff dest: mk_contact_valid)

lemma inject_body_typed:
  assumes "inject_body dash b = Inr bd"
  shows "type_name (body_type bd) = in_type b \<and> valid_body bd"
proof -
  obtain place where "mk_location (num_or_0 (in_lat b)) (num_or_0 (in_lon b)) None = Inr place"
    using assms by (auto simp: inject_body_def bindR_Inr_iff)
  note pl = this
  have v: "valid_location place" using pl by (auto simp: mk_location_iff)
  consider (p) "in_type b = ''Presence''" | (c) "in_type b = ''ContactSighting''"
    | (o') "in_type b \<noteq> ''Presence''" "in_type b \<noteq> ''ContactSighting''" by blast
  then show ?thesis
  proof cases
    case p
    then show ?thesis using assms pl v by (auto simp: inject_body_def dest: inject_presence_valid)
  next
    case c
    then show ?thesis using assms pl v by (auto simp: inject_body_def dest: inject_contact_valid)
  next
    case o'
    then show ?thesis
      using assms pl v by (auto simp: inject_body_def mk_geninfo_def opt_all_def split: if_splits)
  qed
qed

lemma inject_run:
  "inject W dash mid b g =
     (case inject_header W mid b g of Inl e \<Rightarrow> (Inl e, g, [])
      | Inr h \<Rightarrow> (case inject_body dash b of Inl e \<Rightarrow> (Inl e, g, [])
          | Inr bd \<Rightarrow> thenA (gw_ingest W \<lparr> header = h, body = bd \<rparr>) (retA \<lparr> header = h, body = bd \<rparr>) g))"
  by (simp add: inject_def bindA_def act_defs Let_def case_prod_unfold split: sum.split)

lemma relay_Inr:
  assumes "relay_from_bridge D m s = (Inr (), s', cs)"
  shows "\<exists>fr hs. cs = replicate (repeat s) (Send fr) @ NodeSeen (originator_id (header m)) #
    RecordReceived (set_sequence (seq s + 1) m) # hs \<and> list_all is_handle hs"
proof -
  obtain m' s1 cs1 where t: "transmit D m s = (Inr m', s1, cs1)"
    using assms by (auto simp: relay_from_bridge_def bindA_def split: prod.splits sum.splits)
  then have "cs = cs1 @ calls_of (deliver_local m' s1)"
    using assms by (auto simp: relay_from_bridge_def bindA_def split: prod.splits)
  then have "cs = cs1 @ NodeSeen (originator_id (header m')) # RecordReceived m' # calls_of (dispatch m' s1)"
    by (simp add: deliver_run)
  moreover from transmit_Inr [OF t] obtain fr where "m' = set_sequence (seq s + 1) m" "cs1 = replicate (repeat s) (Send fr)"
    by blast
  ultimately show ?thesis using calls_dispatch [of m' s1] by (auto simp: set_sequence_def)
qed

text \<open>Property C24: an injected message is one of the asked kind, satisfies every constraint of the data
  model, carries the originator the request names, the node's network and the requested or else
  the node's marking; it is sent in the configured number of copies, recorded once as received
  and handled. A request whose header or body does not validate changes and sends nothing.\<close>

theorem inject_under_originator:
  assumes "gw_engine g = Some e"
  shows "(\<forall>m g' cs. inject W dash mid b g = (Inr m, g', cs) \<longrightarrow>
      valid_message m \<and> msg_type m = in_type b \<and> inject_body dash b = Inr (body m) \<and>
      header m = \<lparr> message_id = mid, originator_id = in_originator b,
        network_id = nc_network_id (cfg_network (gw_config g)), reporting_time = w_now W, sequence = 0,
        classification = (case in_classification b of None \<Rightarrow> cc_level (cfg_classification (gw_config g)) | Some n \<Rightarrow> n),
        releasable_to = text_or (in_releasable_to b) (cc_releasable_to (cfg_classification (gw_config g))) \<rparr> \<and>
      (\<exists>fr hs. cs = replicate (repeat e) (Send fr) @ NodeSeen (in_originator b) #
         RecordReceived (set_sequence (seq e + 1) m) # hs \<and> list_all is_handle hs)) \<and>
    (\<forall>x. bindR (inject_header W mid b g) (\<lambda>_. inject_body dash b) = Inl x \<longrightarrow>
       inject W dash mid b g = (Inl x, g, []))"
proof (intro conjI allI impI)
  fix m g' cs
  assume r: "inject W dash mid b g = (Inr m, g', cs)"
  obtain h bd where h: "inject_header W mid b g = Inr h" and bd: "inject_body dash b = Inr bd"
    using r by (auto simp: inject_run split: sum.splits)
  note run = r [unfolded inject_run h bd sum.case]
  obtain g1 cs1 where i: "gw_ingest W \<lparr> header = h, body = bd \<rparr> g = (Inr (), g1, cs1)"
    using run by (cases "gw_ingest W \<lparr> header = h, body = bd \<rparr> g") (auto simp: thenA_def bindA_def split: sum.splits)
  have m: "m = \<lparr> header = h, body = bd \<rparr>" and cs: "cs = cs1"
    using run by (simp_all add: thenA_Inr [where m = "gw_ingest W \<lparr> header = h, body = bd \<rparr>", OF i] act_defs)
  obtain e1 where "relay_from_bridge (deps_of W g) m e = (Inr (), e1, cs)"
    using i assms unfolding m cs gw_ingest_def on_engine_def by (auto split: prod.splits)
  from relay_Inr [OF this]
  have sent: "\<exists>fr hs. cs = replicate (repeat e) (Send fr) @ NodeSeen (originator_id (header m)) #
      RecordReceived (set_sequence (seq e + 1) m) # hs \<and> list_all is_handle hs" .
  have hdr: "header m = h" "body m = bd" by (simp_all add: m)
  have hv: "valid_header h" and hf: "h = \<lparr> message_id = mid, originator_id = in_originator b,
        network_id = nc_network_id (cfg_network (gw_config g)), reporting_time = w_now W, sequence = 0,
        classification = (case in_classification b of None \<Rightarrow> cc_level (cfg_classification (gw_config g)) | Some n \<Rightarrow> n),
        releasable_to = text_or (in_releasable_to b) (cc_releasable_to (cfg_classification (gw_config g))) \<rparr>"
    using h mk_header_valid by (auto simp: inject_header_def Let_def mk_header_def invalid_def split: if_splits)
  have o': "originator_id h = in_originator b" using hf by simp
  show "valid_message m" using hv inject_body_typed [OF bd] by (simp add: valid_message_def hdr)
  show "msg_type m = in_type b" using inject_body_typed [OF bd] by (simp add: msg_type_def hdr)
  show "inject_body dash b = Inr (body m)" using bd by (simp add: hdr)
  show "header m = \<lparr> message_id = mid, originator_id = in_originator b,
        network_id = nc_network_id (cfg_network (gw_config g)), reporting_time = w_now W, sequence = 0,
        classification = (case in_classification b of None \<Rightarrow> cc_level (cfg_classification (gw_config g)) | Some n \<Rightarrow> n),
        releasable_to = text_or (in_releasable_to b) (cc_releasable_to (cfg_classification (gw_config g))) \<rparr>"
    unfolding hdr by (rule hf)
  show "\<exists>fr hs. cs = replicate (repeat e) (Send fr) @ NodeSeen (in_originator b) #
         RecordReceived (set_sequence (seq e + 1) m) # hs \<and> list_all is_handle hs"
    using sent unfolding hdr o' .
next
  fix x
  assume "bindR (inject_header W mid b g) (\<lambda>_. inject_body dash b) = Inl x"
  then show "inject W dash mid b g = (Inl x, g, [])"
    by (auto simp: inject_run bindR_def split: sum.splits)
qed

theorem inject_under_originator_witness:
  "inject Gateway.demo_world ''-'' ''m1'' (inject_request ''alice'' ''Video'') (demo_started ''n'') =
     (Inl (PyExn (HttpErr 400) (''unknown message type '' @ [CHR 0x27] @ ''Video'' @ [CHR 0x27])), demo_started ''n'', [])"
proof -
  have e: "gw_engine (demo_started ''n'') = Some (demo_engine ''n'')" using demo_started_fields by simp
  have "gw_config (demo_started ''n'') = demo_cfg ''n''" using demo_started_fields by simp
  then have "is_ok (inject_header Gateway.demo_world ''m1'' (inject_request ''alice'' ''Video'') (demo_started ''n''))"
    by (simp add: inject_header_def Let_def mk_header_def inject_request_def demo_cfg_def default_config_def
        default_classification_def in_range_def)
  then obtain h where h: "inject_header Gateway.demo_world ''m1'' (inject_request ''alice'' ''Video'') (demo_started ''n'') = Inr h"
    by (auto simp: is_ok_iff)
  have "inject_body ''-'' (inject_request ''alice'' ''Video'') =
      Inl (PyExn (HttpErr 400) (''unknown message type '' @ [CHR 0x27] @ ''Video'' @ [CHR 0x27]))"
    by (simp add: inject_body_def inject_request_def mk_location_def num_or_0_def in_range_def)
  then have "bindR (inject_header Gateway.demo_world ''m1'' (inject_request ''alice'' ''Video'') (demo_started ''n''))
      (\<lambda>_. inject_body ''-'' (inject_request ''alice'' ''Video'')) =
      Inl (PyExn (HttpErr 400) (''unknown message type '' @ [CHR 0x27] @ ''Video'' @ [CHR 0x27]))"
    by (simp add: h)
  then show ?thesis using inject_under_originator [OF e] by blast
qed

end
