(* ===== verification/Geo.thy ===== *)
theory Geo
  imports Messages
begin

text \<open>
  \<open>simulator/geo.py\<close>: great-circle distance, bearing and destination in floating point. A float is
  the rational it stands for; every arithmetic operation rounds its exact result (\<open>fl\<close>), and the
  functions of Python's \<open>math\<close> module are parameters with the documented facts the code relies on.
  A call outside the domain of a square root or an arc sine raises \<open>ValueError\<close>.
\<close>

section \<open>Floating point\<close>

record fenv =
  fl :: "rat \<Rightarrow> rat"
  m_sin :: "rat \<Rightarrow> rat"
  m_cos :: "rat \<Rightarrow> rat"
  m_asin :: "rat \<Rightarrow> rat"
  m_atan2 :: "rat \<Rightarrow> rat \<Rightarrow> rat"
  m_sqrt :: "rat \<Rightarrow> rat"
  m_radians :: "rat \<Rightarrow> rat"
  m_degrees :: "rat \<Rightarrow> rat"

text \<open>Rounding is monotone, leaves small integers alone and errs by little; an arc sine is at most a
  quarter turn.\<close>

definition fenv_ok :: "fenv \<Rightarrow> bool" where
  "fenv_ok F \<longleftrightarrow> (\<forall>x y. x \<le> y \<longrightarrow> fl F x \<le> fl F y) \<and> (\<forall>n. \<bar>n\<bar> \<le> 1024 \<longrightarrow> fl F (of_int n) = of_int n) \<and>
     (\<forall>x. \<bar>fl F x - x\<bar> \<le> (\<bar>x\<bar> + 1) / 2 ^ 52) \<and>
     (\<forall>x. in_range (-1) 1 x \<longrightarrow> in_range (-90) 90 (m_degrees F (m_asin F x)))"

definition domain_error :: "'a result" where
  "domain_error = Inl (PyExn ValueErr ''math domain error'')"

definition py_asin :: "fenv \<Rightarrow> rat \<Rightarrow> rat result" where
  "py_asin F x = (if in_range (-1) 1 x then Inr (m_asin F x) else domain_error)"

definition py_sqrt :: "fenv \<Rightarrow> rat \<Rightarrow> rat result" where
  "py_sqrt F x = (if x < 0 then domain_error else Inr (m_sqrt F x))"

text \<open>\<open>x % y\<close> on floats for \<open>y > 0\<close>: \<open>fmod\<close> is exact, adding the divisor to a negative remainder rounds.\<close>

definition float_mod :: "fenv \<Rightarrow> rat \<Rightarrow> rat \<Rightarrow> rat" where
  "float_mod F x y =
     (let r = x - y * of_int (if 0 \<le> x then \<lfloor>x / y\<rfloor> else \<lceil>x / y\<rceil>) in if r < 0 then fl F (r + y) else r)"

text \<open>\<open>round(x, n)\<close>: the exact value rounded half to even at the digit, then to a float.\<close>

definition half_even :: "rat \<Rightarrow> int" where
  "half_even x =
     (let n = \<lfloor>x\<rfloor>; r = x - of_int n in
      if r < 1 / 2 then n else if 1 / 2 < r then n + 1 else if even n then n else n + 1)"

definition py_round :: "fenv \<Rightarrow> nat \<Rightarrow> rat \<Rightarrow> rat" where
  "py_round F n x = fl F (of_int (half_even (x * 10 ^ n)) / 10 ^ n)"

section \<open>Great circles\<close>

type_synonym point = "rat \<times> rat"

definition earth_radius :: rat where
  "earth_radius = 6371000"

definition haversine :: "fenv \<Rightarrow> point \<Rightarrow> point \<Rightarrow> rat result" where
  "haversine F a b =
     (case (a, b) of ((lat1, lon1), (lat2, lon2)) \<Rightarrow>
      let p1 = m_radians F lat1; p2 = m_radians F lat2;
          dp = m_radians F (fl F (lat2 - lat1)); dl = m_radians F (fl F (lon2 - lon1));
          sp = m_sin F (fl F (dp / 2)); sl = m_sin F (fl F (dl / 2));
          h = fl F (fl F (sp * sp) + fl F (fl F (m_cos F p1 * m_cos F p2) * fl F (sl * sl)))
      in bindR (py_sqrt F h) (\<lambda>s. bindR (py_asin F (min 1 s)) (\<lambda>a. Inr (fl F (fl F (2 * earth_radius) * a)))))"

definition bearing :: "fenv \<Rightarrow> point \<Rightarrow> point \<Rightarrow> rat" where
  "bearing F a b =
     (case (a, b) of ((lat1, lon1), (lat2, lon2)) \<Rightarrow>
      let p1 = m_radians F lat1; p2 = m_radians F lat2; dl = m_radians F (fl F (lon2 - lon1));
          y = fl F (m_sin F dl * m_cos F p2);
          x = fl F (fl F (m_cos F p1 * m_sin F p2) - fl F (fl F (m_sin F p1 * m_cos F p2) * m_cos F dl))
      in float_mod F (fl F (m_degrees F (m_atan2 F y x) + 360)) 360)"

definition dest_point :: "fenv \<Rightarrow> point \<Rightarrow> rat \<Rightarrow> rat \<Rightarrow> point result" where
  "dest_point F a bearing_deg dist_m =
     (case a of (lat1, lon1) \<Rightarrow>
      let br = m_radians F bearing_deg; d = fl F (dist_m / earth_radius);
          p1 = m_radians F lat1; l1 = m_radians F lon1
      in bindR (py_asin F (fl F (fl F (m_sin F p1 * m_cos F d) + fl F (fl F (m_cos F p1 * m_sin F d) * m_cos F br)))) (\<lambda>p2.
         let l2 = fl F (l1 + m_atan2 F (fl F (fl F (m_sin F br * m_sin F d) * m_cos F p1))
                (fl F (m_cos F d - fl F (m_sin F p1 * m_sin F p2))))
         in Inr (m_degrees F p2, fl F (float_mod F (fl F (m_degrees F l2 + 540)) 360 - 180))))"

section \<open>Ranges\<close>

lemma fl_mono: "fenv_ok F \<Longrightarrow> x \<le> y \<Longrightarrow> fl F x \<le> fl F y"
  by (simp add: fenv_ok_def)

lemma fl_int: "fenv_ok F \<Longrightarrow> \<bar>n\<bar> \<le> 1024 \<Longrightarrow> fl F (of_int n) = of_int n"
  by (simp add: fenv_ok_def)

lemma fl_between:
  assumes "fenv_ok F" and "of_int a \<le> x" and "x \<le> of_int b" and "\<bar>a\<bar> \<le> 1024" and "\<bar>b\<bar> \<le> 1024"
  shows "of_int a \<le> fl F x \<and> fl F x \<le> of_int b"
  using fl_mono [OF assms(1,2)] fl_mono [OF assms(1,3)] fl_int [OF assms(1)] assms(4,5) by simp

lemma float_mod_range:
  assumes "fenv_ok F" and "0 < k" and "k \<le> 1024"
  shows "0 \<le> float_mod F x (of_int k) \<and> float_mod F x (of_int k) \<le> of_int k"
proof -
  let ?y = "of_int k :: rat"
  let ?n = "if 0 \<le> x then \<lfloor>x / ?y\<rfloor> else \<lceil>x / ?y\<rceil>"
  let ?r = "x - ?y * of_int ?n"
  have y: "0 < ?y" using assms(2) by simp
  have "- ?y \<le> ?r \<and> ?r \<le> ?y"
  proof (cases "0 \<le> x")
    case True
    have "?y * of_int \<lfloor>x / ?y\<rfloor> \<le> ?y * (x / ?y)" "?y * (x / ?y) \<le> ?y * (of_int \<lfloor>x / ?y\<rfloor> + 1)"
      using y by (intro mult_left_mono; linarith)+
    then show ?thesis using True y by (simp add: algebra_simps)
  next
    case False
    have "?y * (of_int \<lceil>x / ?y\<rceil> - 1) \<le> ?y * (x / ?y)" "?y * (x / ?y) \<le> ?y * of_int \<lceil>x / ?y\<rceil>"
      using y by (intro mult_left_mono; linarith)+
    then show ?thesis using False y by (simp add: algebra_simps)
  qed
  then show ?thesis
    using fl_between [OF assms(1), of 0 "?r + ?y" k] assms(2,3) by (simp add: float_mod_def Let_def)
qed

lemma bearing_range: "fenv_ok F \<Longrightarrow> in_range 0 360 (bearing F a b)"
  using float_mod_range [of F 360] by (simp add: bearing_def Let_def in_range_def split: prod.split)

lemma dest_point_range:
  assumes "fenv_ok F" and "dest_point F a br d = Inr p"
  shows "in_range (-90) 90 (fst p) \<and> in_range (-180) 180 (snd p)"
proof -
  have "in_range (-180) 180 (fl F (float_mod F x 360 - 180))" for x
    using fl_between [OF assms(1), of "-180" "float_mod F x 360 - 180" 180] float_mod_range [OF assms(1), of 360 x]
    by (simp add: in_range_def)
  then show ?thesis
    using assms by (auto simp: dest_point_def Let_def bindR_Inr_iff py_asin_def domain_error_def fenv_ok_def
        split: prod.splits if_splits)
qed

lemma half_even_range: "of_int a \<le> x \<Longrightarrow> x \<le> of_int b \<Longrightarrow> a \<le> half_even x \<and> half_even x \<le> b"
proof -
  assume a: "of_int a \<le> x" and b: "x \<le> of_int b"
  have f: "a \<le> \<lfloor>x\<rfloor>" "\<lfloor>x\<rfloor> \<le> b" using a b by linarith+
  have "\<lfloor>x\<rfloor> + 1 \<le> b" if "1 / 2 \<le> x - of_int \<lfloor>x\<rfloor>"
    using that b by linarith
  then show ?thesis using f by (auto simp: half_even_def Let_def)
qed

lemma py_round_range:
  assumes "fenv_ok F" and "of_int a \<le> x" and "x \<le> of_int b" and "\<bar>a\<bar> \<le> 1024" and "\<bar>b\<bar> \<le> 1024"
  shows "of_int a \<le> py_round F n x \<and> py_round F n x \<le> of_int b"
proof -
  have "of_int (a * 10 ^ n) \<le> x * 10 ^ n" "x * 10 ^ n \<le> of_int (b * 10 ^ n)"
    using assms(2,3) by (simp_all add: mult_right_mono)
  note h = half_even_range [OF this]
  have "of_int a \<le> of_int (half_even (x * 10 ^ n)) / (10 ^ n :: rat)"
    "of_int (half_even (x * 10 ^ n)) / (10 ^ n :: rat) \<le> of_int b"
    using h by (simp_all add: le_divide_eq divide_le_eq) (metis of_int_le_iff of_int_mult of_int_power of_int_numeral)+
  then show ?thesis
    using fl_between [OF assms(1)] assms(4,5) by (simp add: py_round_def)
qed

lemma py_round_nonneg: "fenv_ok F \<Longrightarrow> 0 \<le> x \<Longrightarrow> 0 \<le> py_round F n x"
proof -
  assume F: "fenv_ok F" and x: "0 \<le> x"
  then have "0 \<le> \<lfloor>x * 10 ^ n\<rfloor>" by simp
  then have "0 \<le> half_even (x * 10 ^ n)" by (simp add: half_even_def Let_def)
  then have "0 \<le> of_int (half_even (x * 10 ^ n)) / (10 ^ n :: rat)" by simp
  then show ?thesis using fl_mono [OF F] fl_int [OF F, of 0] by (fastforce simp: py_round_def)
qed

end
