(* ===== verification/Scenarios.thy ===== *)
theory Scenarios
  imports Geo
begin

text \<open>
  \<open>simulator/scenarios.py\<close>: what a scenario of the external simulator is, the three scenarios it
  ships and the expansion of one to any number of synthetic operators. Decimal literals are the
  floats nearest to them; they are written in units of 1/10000 degree and 1/10 m/s. The random
  generator is Python's, a parameter with the ranges it documents. An em dash is outside the code
  points the model's texts have and stands as an argument.
\<close>

section \<open>Scenarios\<close>

record unit_spec =
  us_node_id :: string
  us_callsign :: string
  us_nation :: string
  us_role :: string
  us_entity :: string
  us_route :: "point list"
  us_speed_mps :: rat
  us_behaviors :: "string list"
  us_unit :: string

record enemy =
  en_name :: string
  en_lat :: rat
  en_lon :: rat

record scenario =
  sn_key :: string
  sn_name :: string
  sn_description :: string
  sn_network_id :: string
  sn_center :: point
  sn_units :: "unit_spec list"
  sn_enemies :: "enemy list"
  sn_orders :: "string list"

definition point :: "fenv \<Rightarrow> int \<times> int \<Rightarrow> point" where
  "point F p = (fl F (of_int (fst p) / 10000), fl F (of_int (snd p) / 10000))"

definition unit ::
  "fenv \<Rightarrow> string \<Rightarrow> string \<Rightarrow> string \<Rightarrow> string \<Rightarrow> string \<Rightarrow> (int \<times> int) list \<Rightarrow> int \<Rightarrow> string list \<Rightarrow> string \<Rightarrow> unit_spec"
where
  "unit F node_id callsign nation role entity route speed behaviors unit_name =
     \<lparr> us_node_id = node_id, us_callsign = callsign, us_nation = nation, us_role = role, us_entity = entity,
       us_route = map (point F) route, us_speed_mps = fl F (of_int speed / 10), us_behaviors = behaviors,
       us_unit = unit_name \<rparr>"

definition enemy_at :: "fenv \<Rightarrow> string \<Rightarrow> int \<Rightarrow> int \<Rightarrow> enemy" where
  "enemy_at F name lat lon = \<lparr> en_name = name, en_lat = fst (point F (lat, lon)), en_lon = snd (point F (lat, lon)) \<rparr>"

section \<open>The shipped scenarios\<close>

definition eben_emael_units :: "fenv \<Rightarrow> unit_spec list" where
  "eben_emael_units F =
     [unit F ''granit-1'' ''GRANIT-1'' ''DEU'' ''assault_pioneer'' ''dismounted_infantry''
        [(507968, 56790), (507980, 56805), (507992, 56788), (507979, 56772)]
        20 [''presence'', ''contact'', ''casevac'']
        ''Sturmgruppe Granit'',
      unit F ''granit-2'' ''GRANIT-2'' ''DEU'' ''engineer'' ''dismounted_infantry''
        [(507975, 56792), (507985, 56810), (507998, 56795), (507986, 56778)]
        16 [''presence'', ''contact'']
        ''Sturmgruppe Granit'',
      unit F ''granit-cp'' ''GRANIT-CP'' ''DEU'' ''commandpost'' ''control_point''
        [(507962, 56800), (507966, 56812), (507958, 56812), (507955, 56799)]
        8 [''presence'', ''chat'', ''overlay'']
        ''Sturmgruppe Granit'',
      unit F ''granit-med'' ''GRANIT-MED'' ''DEU'' ''medic'' ''medic''
        [(507970, 56795), (507978, 56807), (507969, 56810), (507963, 56797)]
        14 [''presence'', ''casevac'']
        ''Sturmgruppe Granit'',
      unit F ''beton-1'' ''BETON-1'' ''DEU'' ''assault_pioneer'' ''dismounted_infantry''
        [(508419, 56389), (508431, 56402), (508440, 56380), (508425, 56370)]
        24 [''presence'', ''contact'']
        ''Sturmgruppe Beton (Vroenhoven)'',
      unit F ''stahl-1'' ''STAHL-1'' ''DEU'' ''assault_pioneer'' ''dismounted_infantry''
        [(508647, 56169), (508660, 56185), (508672, 56160), (508655, 56150)]
        24 [''presence'', ''contact'', ''casevac'']
        ''Sturmgruppe Stahl (Veldwezelt)'',
      unit F ''eisen-1'' ''EISEN-1'' ''DEU'' ''assault_pioneer'' ''dismounted_infantry''
        [(507836, 56803), (507848, 56818), (507858, 56795), (507842, 56786)]
        22 [''presence'', ''contact'']
        ''Sturmgruppe Eisen (Kanne)'']"

definition eben_emael_enemies :: "fenv \<Rightarrow> enemy list" where
  "eben_emael_enemies F =
     [enemy_at F ''Coupole Nord (Bloc B I)'' 508005 56810,
      enemy_at F ''Mi-Nord cupola'' 507995 56775,
      enemy_at F ''Bloc II casemate'' 507952 56802,
      enemy_at F ''Maastricht 1 cupola'' 507988 56760,
      enemy_at F ''Canal AA position'' 508420 56402]"

definition eben_emael :: "fenv \<Rightarrow> string \<Rightarrow> scenario" where
  "eben_emael F dash =
     \<lparr> sn_key = ''eben_emael'', sn_name = ''Airborne assault on Fort Eben-Emael'',
       sn_description = ''Glider-borne assault on the fort and the Albert Canal bridges, 10 May 1940.'',
       sn_network_id = ''exercise-granit'', sn_center = point F (507975, 56792), sn_units = eben_emael_units F, sn_enemies = eben_emael_enemies F,
       sn_orders =
         [''GRANIT: neutralise cupoles 12, 18 and 23 '' @ dash @ '' charges on the domes.'',
          ''BETON: seize Vroenhoven bridge intact, hold the west bank.'',
          ''STAHL: Veldwezelt bridge secured, expect counter-attack from Lanaken.'',
          ''All Sturmgruppen: consolidate, await 51. Pionier-Bataillon relief.''] \<rparr>"

definition narvik_units :: "fenv \<Rightarrow> unit_spec list" where
  "narvik_units F =
     [unit F ''naval-1'' ''WARSPITE'' ''GBR'' ''fire_support'' ''control_point''
        [(684400, 172400), (684450, 172900), (684380, 173300), (684360, 172700)]
        60 [''presence'', ''overlay'']
        ''Naval gunfire support (Ofotfjord)'',
      unit F ''alpin-1'' ''ALPIN-1'' ''FRA'' ''mountain_infantry'' ''dismounted_infantry''
        [(685300, 175500), (685100, 175200), (684800, 174800), (685050, 175250)]
        18 [''presence'', ''contact'', ''casevac'']
        ''13e DBLE (Bjerkvik)'',
      unit F ''alpin-2'' ''ALPIN-2'' ''FRA'' ''mountain_infantry'' ''dismounted_infantry''
        [(684200, 173800), (684300, 174100), (684380, 174270), (684250, 173900)]
        18 [''presence'', ''contact'']
        ''Chasseurs Alpins (Ankenes)'',
      unit F ''polska-1'' ''POLSKA-1'' ''POL'' ''mountain_infantry'' ''dismounted_infantry''
        [(684000, 175000), (684150, 174700), (684300, 174400), (684100, 174850)]
        17 [''presence'', ''contact'', ''casevac'']
        ''Polish Highland Brigade'',
      unit F ''nor-1'' ''NORGE-1'' ''NOR'' ''mountain_infantry'' ''dismounted_infantry''
        [(684700, 174700), (684600, 174500), (684500, 174400), (684650, 174650)]
        16 [''presence'', ''contact'']
        (''6. Divisjon ('' @ [CHR 0xD8] @ ''yjord)''),
      unit F ''med-1'' ''NARVIK-MED'' ''GBR'' ''medic'' ''medic''
        [(684300, 174000), (684350, 174150), (684280, 174200), (684260, 174050)]
        12 [''presence'', ''casevac'']
        ''Field ambulance'',
      unit F ''hq-1'' ''NARVIK-HQ'' ''GBR'' ''commandpost'' ''control_point''
        [(684380, 173900), (684400, 174000), (684360, 174020), (684350, 173920)]
        6 [''presence'', ''chat'', ''overlay'']
        ''24th Guards Bde HQ'']"

definition narvik_enemies :: "fenv \<Rightarrow> enemy list" where
  "narvik_enemies F =
     [enemy_at F (''Gebirgsj'' @ [CHR 0xE4] @ ''ger, Narvik town'') 684385 174272,
      enemy_at F ''Mountain gun, Framnes'' 684330 174450,
      enemy_at F ''MG nest, Ankenes ridge'' 684180 173850,
      enemy_at F (''Gebirgsj'' @ [CHR 0xE4] @ ''ger, Beisfjord'') 684050 175000,
      enemy_at F ''Naval landing party, harbour'' 684360 174300]"

definition narvik :: "fenv \<Rightarrow> string \<Rightarrow> scenario" where
  "narvik F dash =
     \<lparr> sn_key = ''narvik'', sn_name = ''Beach landing at Narvik'',
       sn_description = ''Allied amphibious landings around Narvik with naval gunfire support, 1940.'',
       sn_network_id = ''exercise-narvik'', sn_center = point F (684385, 174272), sn_units = narvik_units F, sn_enemies = narvik_enemies F,
       sn_orders =
         [''ALPIN: land Bjerkvik, clear the beach, advance on '' @ [CHR 0xD8] @ ''yjord.'',
          ''POLSKA: press from Ankenes toward Beisfjord, screen the southern flank.'',
          ''WARSPITE: suppress the harbour batteries on call, danger-close to friendly troops.'',
          ''All callsigns: converge on Narvik, report enemy mountain positions.''] \<rparr>"

definition luxembourg_units :: "fenv \<Rightarrow> unit_spec list" where
  "luxembourg_units F =
     [unit F ''jtf-hq'' ''JTF-HQ'' ''BEL'' ''commandpost'' ''control_point''
        [(495520, 59520), (495560, 59600), (495490, 59640), (495470, 59560)]
        7 [''presence'', ''chat'', ''overlay'']
        ''Joint Task Force HQ'',
      unit F ''bde1-inf'' ''BISON-1'' ''BEL'' ''mechanised_infantry'' ''dismounted_infantry''
        [(495486, 58814), (495620, 59100), (495750, 59350), (495600, 59000)]
        32 [''presence'', ''contact'', ''casevac'']
        (''1st Mechanised Brigade (west axis, via P'' @ [CHR 0xE9] @ ''tange)''),
      unit F ''bde1-med'' ''BISON-MED'' ''BEL'' ''medic'' ''medic''
        [(495560, 58950), (495610, 59050), (495540, 59120), (495500, 59020)]
        14 [''presence'', ''casevac'']
        ''1st Mechanised Brigade'',
      unit F ''bde2-inf'' ''WALLON-1'' ''FRA'' ''mechanised_infantry'' ''dismounted_infantry''
        [(494958, 59806), (495100, 60200), (495320, 60450), (495150, 60050)]
        32 [''presence'', ''contact'', ''casevac'']
        ''2nd Mechanised Brigade (south axis, via Esch-sur-Alzette)'',
      unit F ''bde2-med'' ''WALLON-MED'' ''FRA'' ''medic'' ''medic''
        [(495050, 60100), (495100, 60180), (495030, 60230), (494990, 60150)]
        14 [''presence'', ''casevac'']
        ''2nd Mechanised Brigade'',
      unit F ''sor-1'' ''SOR-1'' ''BEL'' ''air_assault_infantry'' ''dismounted_infantry''
        [(496233, 62044), (496255, 62090), (496210, 62110), (496195, 62060)]
        45 [''presence'', ''contact'', ''casevac'']
        ''Special Operations Regiment (Findel airport)'',
      unit F ''sor-2'' ''SOR-2'' ''BEL'' ''air_assault_infantry'' ''dismounted_infantry''
        [(496106, 61296), (496120, 61315), (496098, 61335), (496088, 61305)]
        45 [''presence'', ''contact'', ''chat'']
        ''Special Operations Regiment (government quarter)'']"

definition luxembourg_enemies :: "fenv \<Rightarrow> enemy list" where
  "luxembourg_enemies F =
     [enemy_at F ''Grand Ducal Guard detachment, Palace'' 496106 61296,
      enemy_at F ''Gendarmerie post, Findel'' 496233 62044,
      enemy_at F (''Arm'' @ [CHR 0xE9] @ ''e luxembourgeoise piquet, Sanem'') 495460 59440,
      enemy_at F (''Arm'' @ [CHR 0xE9] @ ''e luxembourgeoise piquet, Hesperange'') 495750 61500]"

definition luxembourg :: "fenv \<Rightarrow> string \<Rightarrow> scenario" where
  "luxembourg F dash =
     \<lparr> sn_key = ''luxembourg'', sn_name = ''Combined-arms exercise: seizure of Luxembourg City'',
       sn_description = ''Fictional NATO training vignette '' @ dash @ '' two mechanised brigades converge on Luxembourg City from Belgium and France while the Special Operations Regiment (SOR) air-assaults Findel airport and the government quarter ahead of the link-up.'',
       sn_network_id = ''exercise-lion'', sn_center = point F (496116, 61319), sn_units = luxembourg_units F, sn_enemies = luxembourg_enemies F,
       sn_orders =
         [''SOR: heliborne assault on Findel, secure the runway and terminal for follow-on lift.'',
          ''SOR: simultaneous lift onto the government quarter, secure the Palace and key ministries.'',
          ''BISON: cross at P'' @ [CHR 0xE9] @ ''tange, advance via Differdange/Bascharage, converge on Luxembourg City.'',
          ''WALLON: cross at Esch-sur-Alzette, advance via Dudelange, screen the southern approach.'',
          ''JTF-HQ: coordinate link-up in Luxembourg City centre, report SOR objectives secured.''] \<rparr>"

definition SCENARIOS :: "fenv \<Rightarrow> string \<Rightarrow> (string, scenario) dict" where
  "SCENARIOS F dash = [(''eben_emael'', eben_emael F dash), (''narvik'', narvik F dash), (''luxembourg'', luxembourg F dash)]"

section \<open>Expansion\<close>

text \<open>Python's generator as a function of its internal state: \<open>randint\<close>, \<open>random\<close>, \<open>choice\<close> and \<open>uniform\<close>.\<close>

record rng =
  rg_seed :: "int \<Rightarrow> int"
  rg_randint :: "int \<Rightarrow> int \<Rightarrow> int \<Rightarrow> int \<times> int"
  rg_random :: "int \<Rightarrow> rat \<times> int"
  rg_choice :: "nat \<Rightarrow> int \<Rightarrow> nat \<times> int"
  rg_uniform :: "rat \<Rightarrow> rat \<Rightarrow> int \<Rightarrow> rat \<times> int"

definition rng_ok :: "rng \<Rightarrow> bool" where
  "rng_ok G \<longleftrightarrow> (\<forall>a b s. a \<le> b \<longrightarrow> in_range a b (fst (rg_randint G a b s))) \<and>
     (\<forall>n s. 0 < n \<longrightarrow> fst (rg_choice G n s) < n) \<and>
     (\<forall>a b s. a \<le> b \<longrightarrow> in_range a b (fst (rg_uniform G a b s)))"

definition patrol_loop :: "fenv \<Rightarrow> rng \<Rightarrow> rat \<Rightarrow> rat \<Rightarrow> int \<Rightarrow> point list \<times> int" where
  "patrol_loop F G lat lon s =
     (let (d, s) = rg_uniform G (fl F (2 / 1000)) (fl F (5 / 1000)) s;
          part = (\<lambda>k. fl F (d * fl F (of_int k / 10)))
      in ([(lat, lon), (fl F (lat + d), fl F (lon + part 6)), (fl F (lat + part 4), fl F (lon - d)),
           (fl F (lat - d), fl F (lon + part 3))], s))"

definition pad4 :: "nat \<Rightarrow> string" where
  "pad4 n = replicate (4 - length (show_nat n)) CHR ''0'' @ show_nat n"

definition operator_unit :: "scenario \<Rightarrow> nat \<Rightarrow> point list \<Rightarrow> unit_spec" where
  "operator_unit S i route =
     (let base = sn_units S; proto = base ! (i mod length base) in
      \<lparr> us_node_id = ''stress-'' @ pad4 (i + 1), us_callsign = ''OP-'' @ pad4 (i + 1), us_nation = us_nation proto,
        us_role = us_role proto, us_entity = us_entity proto, us_route = route, us_speed_mps = us_speed_mps proto,
        us_behaviors = us_behaviors proto, us_unit = ''Stress cohort '' @ show_nat (i div length base + 1) \<rparr>)"

definition span_lat :: "fenv \<Rightarrow> rat" where
  "span_lat F = fl F (45 / 1000)"

definition span_lon :: "fenv \<Rightarrow> rat \<Rightarrow> rat" where
  "span_lon F clat = fl F (span_lat F / max (fl F (2 / 10)) (m_cos F (m_radians F clat)))"

fun stress_units :: "fenv \<Rightarrow> rng \<Rightarrow> scenario \<Rightarrow> nat \<Rightarrow> nat \<Rightarrow> int \<Rightarrow> unit_spec list" where
  "stress_units F G S i 0 s = []"
| "stress_units F G S i (Suc n) s =
     (let (clat, clon) = sn_center S;
          (dlat, s) = rg_uniform G (- span_lat F) (span_lat F) s;
          (dlon, s) = rg_uniform G (- span_lon F clat) (span_lon F clat) s;
          (route, s) = patrol_loop F G (fl F (clat + dlat)) (fl F (clon + dlon)) s
      in operator_unit S i route # stress_units F G S (Suc i) n s)"

definition expand_scenario :: "fenv \<Rightarrow> rng \<Rightarrow> string \<Rightarrow> scenario \<Rightarrow> nat \<Rightarrow> int \<Rightarrow> scenario" where
  "expand_scenario F G dash S k seed =
     (if sn_units S = [] \<or> k \<le> length (sn_units S) then S
      else S\<lparr>sn_key := sn_key S @ ''__stress'' @ show_nat k,
             sn_name := sn_name S @ '' '' @ dash @ '' STRESS '' @ show_nat k @ '' operators'',
             sn_description := ''Load test: '' @ show_nat k @ '' synthetic operators derived from '' @ sn_name S @ ''.'',
             sn_units := stress_units F G S 0 k (rg_seed G seed),
             sn_orders := sn_orders S\<rparr>)"

section \<open>Sound scenarios\<close>

definition valid_point :: "point \<Rightarrow> bool" where
  "valid_point p \<longleftrightarrow> in_range (-90) 90 (fst p) \<and> in_range (-180) 180 (snd p)"

definition unit_ok :: "unit_spec \<Rightarrow> bool" where
  "unit_ok u \<longleftrightarrow> us_route u \<noteq> [] \<and> list_all valid_point (us_route u) \<and> 0 \<le> us_speed_mps u"

definition scenario_ok :: "scenario \<Rightarrow> bool" where
  "scenario_ok S \<longleftrightarrow> distinct (map us_node_id (sn_units S)) \<and> list_all unit_ok (sn_units S) \<and>
     list_all (\<lambda>e. valid_point (en_lat e, en_lon e)) (sn_enemies S) \<and> valid_point (sn_center S)"

definition BEHAVIORS :: "string list" where
  "BEHAVIORS = [''presence'', ''contact'', ''casevac'', ''chat'', ''overlay'']"

definition unit_known :: "unit_spec \<Rightarrow> bool" where
  "unit_known u \<longleftrightarrow> 2 \<le> length (us_route u) \<and> us_entity u \<in> fst ` set ENTITIES \<and>
     set (us_behaviors u) \<subseteq> set BEHAVIORS"

lemma valid_decimals:
  assumes "fenv_ok F" and "\<bar>fst p\<bar> \<le> 900000" and "\<bar>snd p\<bar> \<le> 1800000"
  shows "valid_point (point F p)"
proof -
  have "(-90 :: rat) \<le> of_int (fst p) / 10000" "of_int (fst p) / 10000 \<le> (90 :: rat)"
    "(-180 :: rat) \<le> of_int (snd p) / 10000" "of_int (snd p) / 10000 \<le> (180 :: rat)"
    using assms(2,3) by (simp_all add: le_divide_eq divide_le_eq abs_le_iff)
  then show ?thesis
    using fl_between [OF assms(1), of "-90" "of_int (fst p) / 10000" 90]
      fl_between [OF assms(1), of "-180" "of_int (snd p) / 10000" 180]
    by (simp add: valid_point_def point_def in_range_def)
qed

lemma unit_is_ok:
  assumes "fenv_ok F" and "0 \<le> speed" and "route \<noteq> []"
    and "list_all (\<lambda>p. \<bar>fst p\<bar> \<le> 900000 \<and> \<bar>snd p\<bar> \<le> 1800000) route"
  shows "unit_ok (unit F nid cs nation role entity route speed behaviors un)"
proof -
  have "(0 :: rat) \<le> fl F (of_int speed / 10)"
    using fl_mono [OF assms(1), of 0 "of_int speed / 10"] fl_int [OF assms(1), of 0] assms(2) by simp
  moreover have "list_all valid_point (map (point F) route)"
    using assms(4) valid_decimals [OF assms(1)] by (auto simp: list_all_iff)
  ultimately show ?thesis using assms(3) by (simp add: unit_ok_def unit_def)
qed

lemma enemy_is_ok:
  "fenv_ok F \<Longrightarrow> \<bar>lat\<bar> \<le> 900000 \<Longrightarrow> \<bar>lon\<bar> \<le> 1800000 \<Longrightarrow>
   valid_point (en_lat (enemy_at F name lat lon), en_lon (enemy_at F name lat lon))"
  using valid_decimals [of F "(lat, lon)"] by (simp add: enemy_at_def)

lemma unit_fields [simp]:
  "us_node_id (unit F nid cs nation role entity route speed behaviors un) = nid"
  "us_entity (unit F nid cs nation role entity route speed behaviors un) = entity"
  "us_behaviors (unit F nid cs nation role entity route speed behaviors un) = behaviors"
  "us_route (unit F nid cs nation role entity route speed behaviors un) = map (point F) route"
  by (simp_all add: unit_def)

lemma eben_emael_ok: "fenv_ok F \<Longrightarrow> scenario_ok (eben_emael F dash)"
  by (simp add: scenario_ok_def eben_emael_def eben_emael_units_def eben_emael_enemies_def unit_is_ok enemy_is_ok valid_decimals)

lemma narvik_ok: "fenv_ok F \<Longrightarrow> scenario_ok (narvik F dash)"
  by (simp add: scenario_ok_def narvik_def narvik_units_def narvik_enemies_def unit_is_ok enemy_is_ok valid_decimals)

lemma luxembourg_ok: "fenv_ok F \<Longrightarrow> scenario_ok (luxembourg F dash)"
  by (simp add: scenario_ok_def luxembourg_def luxembourg_units_def luxembourg_enemies_def unit_is_ok enemy_is_ok valid_decimals)

lemma units_known:
  "list_all unit_known (eben_emael_units F)" "list_all unit_known (narvik_units F)" "list_all unit_known (luxembourg_units F)"
  by (simp_all add: unit_known_def eben_emael_units_def narvik_units_def luxembourg_units_def ENTITIES_def BEHAVIORS_def)

lemma some_unit_answers:
  "\<exists>u \<in> set (eben_emael_units F). ''chat'' \<in> set (us_behaviors u)" "\<exists>u \<in> set (narvik_units F). ''chat'' \<in> set (us_behaviors u)"
  "\<exists>u \<in> set (luxembourg_units F). ''chat'' \<in> set (us_behaviors u)"
  by (simp_all add: eben_emael_units_def narvik_units_def luxembourg_units_def)

lemma shipped_ok:
  "fenv_ok F \<Longrightarrow> (k, S) \<in> set (SCENARIOS F dash) \<Longrightarrow>
   scenario_ok S \<and> k = sn_key S \<and> list_all unit_known (sn_units S) \<and> (\<exists>u \<in> set (sn_units S). ''chat'' \<in> set (us_behaviors u))"
  using eben_emael_ok narvik_ok luxembourg_ok units_known some_unit_answers
  by (auto simp: SCENARIOS_def eben_emael_def narvik_def luxembourg_def)

section \<open>The expansion is sound\<close>

lemma pad4_inject: "pad4 m = pad4 n \<longleftrightarrow> m = n"
proof -
  have "nat_of_digits (replicate k CHR ''0'' @ s) = nat_of_digits s" for k s
    by (induction k) (simp_all add: nat_of_digits_def digit_val_def)
  then have "nat_of_digits (pad4 n) = n" for n by (simp add: pad4_def del: show_nat.simps)
  then show ?thesis by metis
qed

lemma stress_ids:
  "map us_node_id (stress_units F G S i n s) = map (\<lambda>j. ''stress-'' @ pad4 (j + 1)) [i..<i + n]"
proof (induction n arbitrary: i s)
  case (Suc n)
  have "[i..<i + Suc n] = i # [Suc i..<Suc i + n]" by (simp add: upt_rec)
  then show ?case
    by (simp add: Suc.IH operator_unit_def Let_def del: upt_Suc split: prod.split)
qed simp

lemma fl_unit: "fenv_ok F \<Longrightarrow> in_range 0 1 x \<Longrightarrow> in_range 0 1 (fl F x)"
  using fl_between [of F 0 x 1] by (simp add: in_range_def)

lemma small_floats:
  assumes "fenv_ok F"
  shows "in_range 0 1 (span_lat F)" and "in_range 0 1 (span_lon F clat)"
    and "in_range 0 1 (fl F (2 / 1000))" and "in_range 0 1 (fl F (5 / 1000))" and "fl F (2 / 1000) \<le> fl F (5 / 1000)"
proof -
  show "in_range 0 1 (span_lat F)" "in_range 0 1 (fl F (2 / 1000))" "in_range 0 1 (fl F (5 / 1000))"
    by (simp_all add: span_lat_def in_range_def fl_unit [OF assms, unfolded in_range_def])
  show "fl F (2 / 1000) \<le> fl F (5 / 1000)" by (rule fl_mono [OF assms]) simp
  have e: "\<bar>fl F x - x\<bar> \<le> (\<bar>x\<bar> + 1) / 2 ^ 52" for x using assms by (simp add: fenv_ok_def)
  have "fl F (45 / 1000) \<le> 1 / 10" using abs_le_D1 [OF e [of "45 / 1000"]] by simp
  moreover have "1 / 10 \<le> fl F (2 / 10)" using abs_le_D2 [OF e [of "2 / 10"]] by simp
  moreover have "0 \<le> fl F (45 / 1000)" using fl_unit [OF assms, of "45 / 1000"] by (simp add: in_range_def)
  ultimately have "in_range 0 1 (fl F (45 / 1000) / max (fl F (2 / 10)) (m_cos F (m_radians F clat)))"
    by (auto simp: in_range_def divide_le_eq le_max_iff_disj)
  then show "in_range 0 1 (span_lon F clat)"
    unfolding span_lon_def span_lat_def by (rule fl_unit [OF assms])
qed

lemma fl_add:
  assumes "fenv_ok F" and "in_range (of_int a) (of_int b) x" and "in_range (- 1) 1 y" and "\<bar>a\<bar> \<le> 1000" and "\<bar>b\<bar> \<le> 1000"
  shows "in_range (of_int a - 1) (of_int b + 1) (fl F (x + y))"
  using fl_between [OF assms(1), of "a - 1" "x + y" "b + 1"] assms(2-5) by (simp add: in_range_def)

lemma patrol_loop_ok:
  assumes F: "fenv_ok F" and G: "rng_ok G" and "in_range (-89) 89 lat" and "in_range (-179) 179 lon"
  shows "fst (patrol_loop F G lat lon s) \<noteq> [] \<and> list_all valid_point (fst (patrol_loop F G lat lon s))"
proof -
  obtain d s' where d: "rg_uniform G (fl F (2 / 1000)) (fl F (5 / 1000)) s = (d, s')" by fastforce
  have "in_range (fl F (2 / 1000)) (fl F (5 / 1000)) (fst (rg_uniform G (fl F (2 / 1000)) (fl F (5 / 1000)) s))"
    using G small_floats(5) [OF F] unfolding rng_ok_def by blast
  then have d1: "in_range 0 1 d" using small_floats(3,4) [OF F] unfolding d fst_conv in_range_def by linarith
  have p: "in_range 0 1 (fl F (d * fl F (of_int k / 10)))" if "0 \<le> k" "k \<le> 10" for k
  proof (rule fl_unit [OF F])
    have "in_range 0 1 (fl F (of_int k / 10))" using that by (intro fl_unit [OF F]) (simp add: in_range_def)
    then show "in_range 0 1 (d * fl F (of_int k / 10))" using d1 by (auto simp: in_range_def mult_le_one)
  qed
  have la: "in_range (-90) 90 (fl F (lat + y))" if "in_range (-1) 1 y" for y
    using fl_add [OF F, of "-89" 89 lat y] assms(3) that by simp
  have lo: "in_range (-180) 180 (fl F (lon + y))" if "in_range (-1) 1 y" for y
    using fl_add [OF F, of "-179" 179 lon y] assms(4) that by simp
  have r: "in_range (-1) 1 y" "in_range (-1) 1 (- y)" if "in_range 0 1 y" for y :: rat
    using that by (simp_all add: in_range_def)
  note q = la [OF r(1)] lo [OF r(1)] la [OF r(2), simplified] lo [OF r(2), simplified]
  have "valid_point (lat, lon)" using assms(3,4) by (simp add: valid_point_def in_range_def)
  then show ?thesis
    using q [OF d1] q(2) [OF p [of 6]] q(1) [OF p [of 4]] q(2) [OF p [of 3]]
    unfolding patrol_loop_def d Let_def prod.case by (simp add: valid_point_def)
qed

lemma stress_units_ok:
  assumes F: "fenv_ok F" and G: "rng_ok G" and S: "sn_units S \<noteq> []" "list_all unit_ok (sn_units S)"
    and c: "in_range (-88) 88 (fst (sn_center S))" "in_range (-178) 178 (snd (sn_center S))"
  shows "list_all unit_ok (stress_units F G S i n s)"
proof (induction n arbitrary: i s)
  case (Suc n)
  obtain clat clon where cc: "sn_center S = (clat, clon)" by fastforce
  obtain dlat s1 where d1: "rg_uniform G (- span_lat F) (span_lat F) s = (dlat, s1)" by fastforce
  obtain dlon s2 where d2: "rg_uniform G (- span_lon F clat) (span_lon F clat) s1 = (dlon, s2)" by fastforce
  obtain route s3 where rt: "patrol_loop F G (fl F (clat + dlat)) (fl F (clon + dlon)) s2 = (route, s3)" by fastforce
  have u: "in_range a b (fst (rg_uniform G a b t))" if "a \<le> b" for a b t
    using G that by (simp add: rng_ok_def)
  have "in_range (- span_lat F) (span_lat F) dlat" using u [of "- span_lat F" "span_lat F" s] small_floats(1) [OF F] d1
    by (simp add: in_range_def)
  then have "in_range (-1) 1 dlat" using small_floats(1) [OF F] by (auto simp: in_range_def)
  then have a: "in_range (-89) 89 (fl F (clat + dlat))"
    using fl_add [OF F, of "-88" 88 clat dlat] c cc by simp
  have "in_range (- span_lon F clat) (span_lon F clat) dlon"
    using u [of "- span_lon F clat" "span_lon F clat" s1] small_floats(2) [OF F, of clat] d2 by (simp add: in_range_def)
  then have "in_range (-1) 1 dlon" using small_floats(2) [OF F, of clat] by (auto simp: in_range_def)
  then have b: "in_range (-179) 179 (fl F (clon + dlon))"
    using fl_add [OF F, of "-178" 178 clon dlon] c cc by simp
  have "0 \<le> us_speed_mps (sn_units S ! (i mod length (sn_units S)))"
    using S nth_mem [of "i mod length (sn_units S)" "sn_units S"] by (auto simp: list_all_iff unit_ok_def)
  then have "unit_ok (operator_unit S i route)"
    using patrol_loop_ok [OF F G a b, of s2] rt by (simp add: unit_ok_def operator_unit_def Let_def)
  then show ?case using Suc.IH by (simp add: cc d1 d2 rt)
qed simp

lemma expand_ok:
  assumes "fenv_ok F" and "rng_ok G" and "scenario_ok S"
    and "in_range (-88) 88 (fst (sn_center S))" and "in_range (-178) 178 (snd (sn_center S))"
  shows "scenario_ok (expand_scenario F G dash S k seed)"
proof (cases "sn_units S = [] \<or> k \<le> length (sn_units S)")
  case True
  then show ?thesis using assms(3) by (auto simp: expand_scenario_def)
next
  case False
  then have "list_all unit_ok (stress_units F G S 0 k (rg_seed G seed))"
    using assms by (intro stress_units_ok) (auto simp: scenario_ok_def)
  moreover have "distinct (map us_node_id (stress_units F G S 0 k (rg_seed G seed)))"
    unfolding stress_ids by (simp add: distinct_map inj_on_def pad4_inject)
  ultimately show ?thesis
    using assms(3) False by (simp add: expand_scenario_def scenario_ok_def)
qed

text \<open>Property C25: a scenario expanded to more operators than it has units has exactly that many, all with
  different ids whatever their number, each with the nation, role, entity, speed and behaviours of
  the base units in turn and a patrol loop of points on the globe; the rest of the scenario is kept.\<close>

theorem expansion_sound:
  assumes "fenv_ok F" and "rng_ok G" and "scenario_ok S" and "sn_units S \<noteq> []" and "length (sn_units S) < k"
    and "in_range (-88) 88 (fst (sn_center S))" and "in_range (-178) 178 (snd (sn_center S))"
  shows "scenario_ok (expand_scenario F G dash S k seed) \<and>
    map us_node_id (sn_units (expand_scenario F G dash S k seed)) = map (\<lambda>j. ''stress-'' @ pad4 (j + 1)) [0..<k] \<and>
    (\<forall>j < k. us_behaviors (sn_units (expand_scenario F G dash S k seed) ! j) =
       us_behaviors (sn_units S ! (j mod length (sn_units S)))) \<and>
    sn_enemies (expand_scenario F G dash S k seed) = sn_enemies S \<and>
    sn_network_id (expand_scenario F G dash S k seed) = sn_network_id S"
proof -
  have b: "j < n \<Longrightarrow> us_behaviors (stress_units F G S i n s ! j) = us_behaviors (sn_units S ! ((i + j) mod length (sn_units S)))"
    for i j n s
  proof (induction n arbitrary: i j s)
    case (Suc n)
    then show ?case
      by (cases j) (simp_all add: operator_unit_def Let_def split: prod.split)
  qed simp
  have e: "expand_scenario F G dash S k seed = S\<lparr>sn_key := sn_key S @ ''__stress'' @ show_nat k,
             sn_name := sn_name S @ '' '' @ dash @ '' STRESS '' @ show_nat k @ '' operators'',
             sn_description := ''Load test: '' @ show_nat k @ '' synthetic operators derived from '' @ sn_name S @ ''.'',
             sn_units := stress_units F G S 0 k (rg_seed G seed),
             sn_orders := sn_orders S\<rparr>"
    using assms(4,5) by (simp add: expand_scenario_def del: show_nat.simps)
  show ?thesis
    using expand_ok [OF assms(1-3,6,7), where dash = dash and k = k and seed = seed] unfolding e by (simp add: stress_ids b del: show_nat.simps)
qed

section \<open>Witnesses\<close>

definition demo_fenv :: fenv where
  "demo_fenv = \<lparr> fl = (\<lambda>x. x), m_sin = (\<lambda>x. x), m_cos = (\<lambda>x. 1), m_asin = (\<lambda>x. x), m_atan2 = (\<lambda>y x. y),
     m_sqrt = (\<lambda>x. x), m_radians = (\<lambda>x. x / 60), m_degrees = (\<lambda>x. 60 * x) \<rparr>"

definition demo_rng :: rng where
  "demo_rng = \<lparr> rg_seed = (\<lambda>s. s), rg_randint = (\<lambda>a b s. (a, s + 1)), rg_random = (\<lambda>s. (1 / 100, s + 1)),
     rg_choice = (\<lambda>n s. (0, s + 1)), rg_uniform = (\<lambda>a b s. ((a + b) / 2, s + 1)) \<rparr>"

lemma demo_envs: "fenv_ok demo_fenv" "rng_ok demo_rng"
  by (auto simp: fenv_ok_def demo_fenv_def in_range_def rng_ok_def demo_rng_def field_simps)

theorem expansion_sound_witness:
  "map us_node_id (sn_units (expand_scenario demo_fenv demo_rng ''-'' (narvik demo_fenv ''-'') 9 1)) =
     map (\<lambda>j. ''stress-'' @ pad4 (j + 1)) [0..<9] \<and> pad4 9 = ''0009''"
proof
  have "sn_units (narvik demo_fenv ''-'') \<noteq> []" "length (sn_units (narvik demo_fenv ''-'')) < 9"
    by (simp_all add: narvik_def narvik_units_def)
  moreover have "in_range (-88) 88 (fst (sn_center (narvik demo_fenv ''-'')))" "in_range (-178) 178 (snd (sn_center (narvik demo_fenv ''-'')))"
    by (simp_all add: narvik_def point_def demo_fenv_def in_range_def)
  ultimately show "map us_node_id (sn_units (expand_scenario demo_fenv demo_rng ''-'' (narvik demo_fenv ''-'') 9 1)) =
     map (\<lambda>j. ''stress-'' @ pad4 (j + 1)) [0..<9]"
    using expansion_sound [OF demo_envs narvik_ok [OF demo_envs(1)]] by blast
  show "pad4 9 = ''0009''" by code_simp
qed

end
