(* ===== verification/Patrol.thy ===== *)
theory Patrol
  imports Gateway Scenarios
begin

text \<open>
  The moving units of \<open>simulator/engine.py\<close>: a unit's track (\<open>LiveUnit\<close>) and its advance along its
  closed route (\<open>SimulatorEngine._advance\<close>).
\<close>

section \<open>Tracks\<close>

record live_unit =
  lu_spec :: unit_spec
  lu_gateway :: "gateway option"
  lu_lat :: rat
  lu_lon :: rat
  lu_wp :: nat
  lu_course :: rat
  lu_speed :: rat
  lu_sent :: nat
  lu_cycles :: nat
  lu_idx :: nat

definition live_unit_init :: "unit_spec \<Rightarrow> gateway option \<Rightarrow> point \<Rightarrow> nat \<Rightarrow> live_unit" where
  "live_unit_init spec g p idx =
     \<lparr> lu_spec = spec, lu_gateway = g, lu_lat = fst p, lu_lon = snd p, lu_wp = 1, lu_course = 0, lu_speed = 0,
       lu_sent = 0, lu_cycles = 0, lu_idx = idx \<rparr>"

definition next_waypoint :: "live_unit \<Rightarrow> live_unit" where
  "next_waypoint u =
     (let wp = (lu_wp u + 1) mod length (us_route (lu_spec u)) in
      u\<lparr>lu_wp := wp, lu_cycles := (if wp = 0 then lu_cycles u + 1 else lu_cycles u)\<rparr>)"

definition move_to :: "point \<Rightarrow> live_unit \<Rightarrow> live_unit" where
  "move_to p u = u\<lparr>lu_lat := fst p, lu_lon := snd p\<rparr>"

definition lu_pos :: "live_unit \<Rightarrow> point" where
  "lu_pos u = (lu_lat u, lu_lon u)"

text \<open>A track makes no calls.\<close>

type_synonym 'a track_act = "(live_unit, unit, 'a) act"

text \<open>The loop; its first argument is how many more rounds the guard allows.\<close>

fun advance_loop :: "fenv \<Rightarrow> nat \<Rightarrow> rat \<Rightarrow> unit track_act" where
  "advance_loop F 0 remaining = retA ()"
| "advance_loop F (Suc k) remaining =
     (if \<not> 0 < remaining then retA ()
      else
        bindA (getA (\<lambda>u. us_route (lu_spec u) ! lu_wp u)) (\<lambda>target.
        bindA (getA (\<lambda>u. haversine F (lu_pos u) target)) (\<lambda>r.
        bindA (liftA r) (\<lambda>d.
        if d \<le> fl F (1 / 1000000) then thenA (modifyA next_waypoint) (advance_loop F k remaining)
        else if d \<le> remaining then
          thenA (modifyA (\<lambda>u. next_waypoint (move_to target u))) (advance_loop F k (fl F (remaining - d)))
        else
          thenA (modifyA (\<lambda>u. u\<lparr>lu_course := bearing F (lu_pos u) target\<rparr>))
          (bindA (getA (\<lambda>u. dest_point F (lu_pos u) (lu_course u) remaining)) (\<lambda>r.
           bindA (liftA r) (\<lambda>p. thenA (modifyA (move_to p)) (advance_loop F k 0))))))))"

definition advance :: "fenv \<Rightarrow> rat \<Rightarrow> unit track_act" where
  "advance F dt =
     bindA (getA lu_spec) (\<lambda>spec.
     if length (us_route spec) < 2 then retA ()
     else thenA (advance_loop F (2 * length (us_route spec)) (fl F (us_speed_mps spec * dt)))
       (modifyA (\<lambda>u. u\<lparr>lu_speed := us_speed_mps spec\<rparr>)))"

section \<open>Tracks stay on the globe\<close>

definition track_ok :: "live_unit \<Rightarrow> bool" where
  "track_ok u \<longleftrightarrow> unit_ok (lu_spec u) \<and> valid_point (lu_pos u) \<and> in_range 0 360 (lu_course u) \<and> 0 \<le> lu_speed u \<and>
     (lu_wp u < length (us_route (lu_spec u)) \<or> length (us_route (lu_spec u)) < 2)"

definition spec_is :: "unit_spec \<Rightarrow> live_unit \<Rightarrow> bool" where
  "spec_is d u \<longleftrightarrow> lu_spec u = d"

lemma track_init: "unit_ok spec \<Longrightarrow> track_ok (live_unit_init spec g (us_route spec ! 0) idx)"
  by (cases "us_route spec")
    (auto simp: track_ok_def unit_ok_def live_unit_init_def lu_pos_def in_range_def)

lemma track_next [simp]: "track_ok u \<Longrightarrow> track_ok (next_waypoint u)"
  by (cases "us_route (lu_spec u)") (auto simp: track_ok_def next_waypoint_def Let_def lu_pos_def unit_ok_def)

lemma track_move [simp]: "track_ok u \<Longrightarrow> valid_point p \<Longrightarrow> track_ok (move_to p u)"
  by (simp add: track_ok_def move_to_def lu_pos_def)

text \<open>What one call of the loop leaves: where the waypoint and the lap counter stand after passing \<open>p\<close>
  waypoints.\<close>

definition passed :: "nat \<Rightarrow> live_unit \<Rightarrow> live_unit \<Rightarrow> bool" where
  "passed p u u' \<longleftrightarrow> lu_spec u' = lu_spec u \<and> lu_idx u' = lu_idx u \<and> lu_sent u' = lu_sent u \<and>
     lu_gateway u' = lu_gateway u \<and>
     lu_wp u' = (lu_wp u + p) mod length (us_route (lu_spec u)) \<and>
     lu_cycles u' = lu_cycles u + (lu_wp u + p) div length (us_route (lu_spec u))"

lemma passed_0: "lu_wp u < length (us_route (lu_spec u)) \<Longrightarrow> passed 0 u u"
  by (simp add: passed_def)

lemma passed_next:
  assumes "lu_wp u < length (us_route (lu_spec u))" and "passed p (next_waypoint u) u'"
  shows "passed (Suc p) u u'"
proof (cases "lu_wp u + 1 = length (us_route (lu_spec u))")
  case True
  then have "lu_wp u + Suc p = length (us_route (lu_spec u)) + p" by simp
  then have l: "lu_wp u + Suc p = p + length (us_route (lu_spec u))" and "0 < length (us_route (lu_spec u))"
    using assms(1) by linarith+
  then have m: "(lu_wp u + Suc p) mod length (us_route (lu_spec u)) = p mod length (us_route (lu_spec u))"
    "(lu_wp u + Suc p) div length (us_route (lu_spec u)) = Suc (p div length (us_route (lu_spec u)))"
    unfolding l by simp_all
  show ?thesis
    using assms(2) True unfolding passed_def m by (simp add: next_waypoint_def Let_def)
next
  case False
  then have "(lu_wp u + 1) mod length (us_route (lu_spec u)) = lu_wp u + 1" using assms(1) by simp
  then show ?thesis
    using assms(2) by (simp add: passed_def next_waypoint_def Let_def)
qed

lemma passed_move: "passed p (next_waypoint (move_to q u)) u' \<Longrightarrow> passed p (next_waypoint u) u'"
  by (simp add: passed_def next_waypoint_def move_to_def Let_def split: if_splits)

lemma advance_loop_0: "advance_loop F k 0 u = (Inr (), u, [])"
  by (cases k) (simp_all add: act_defs)

text \<open>One round of the loop.\<close>

lemma advance_loop_round:
  assumes "0 < r" and "target = us_route (lu_spec u) ! lu_wp u"
  shows "advance_loop F (Suc k) r u =
    (case haversine F (lu_pos u) target of Inl e \<Rightarrow> (Inl e, u, [])
     | Inr d \<Rightarrow>
        if d \<le> fl F (1 / 1000000) then advance_loop F k r (next_waypoint u)
        else if d \<le> r then advance_loop F k (fl F (r - d)) (next_waypoint (move_to target u))
        else (let v = u\<lparr>lu_course := bearing F (lu_pos u) target\<rparr> in
              case dest_point F (lu_pos u) (bearing F (lu_pos u) target) r of Inl e \<Rightarrow> (Inl e, v, [])
              | Inr p \<Rightarrow> (Inr (), move_to p v, [])))"
  using assms
  by (simp add: bindA_def thenA_def act_defs advance_loop_0 lu_pos_def Let_def case_prod_unfold split: sum.split prod.split)

lemma advance_loop_passed:
  assumes "lu_wp u < length (us_route (lu_spec u))"
  shows "\<exists>p \<le> k. passed p u (state_of (advance_loop F k r u)) \<and>
    calls_of (advance_loop F k r u) = []"
  using assms
proof (induction k arbitrary: r u)
  case 0
  then show ?case by (auto simp: act_defs passed_0)
next
  case (Suc k)
  let ?t = "us_route (lu_spec u) ! lu_wp u"
  note z = passed_0 [OF Suc.prems]
  have next_lt: "lu_wp (next_waypoint v) < length (us_route (lu_spec (next_waypoint v)))"
    if "lu_spec v = lu_spec u" for v
    using Suc.prems that by (cases "us_route (lu_spec u)") (simp_all add: next_waypoint_def Let_def)
  have step: "\<exists>p \<le> Suc k. passed p u (state_of o1) \<and> calls_of o1 = []"
    if "\<exists>p \<le> k. passed p (next_waypoint u) (state_of o1) \<and> calls_of o1 = []" for o1 :: "unit result \<times> live_unit \<times> unit list"
    using that passed_next [OF Suc.prems] by (meson Suc_le_mono)
  show ?case
  proof (cases "0 < r")
    case False
    then show ?thesis using z by (intro exI [of _ 0]) (simp add: act_defs)
  next
    case True
    note run = advance_loop_round [OF True refl, where F = F and k = k]
    show ?thesis
    proof (cases "haversine F (lu_pos u) ?t")
      case (Inl e)
      then show ?thesis unfolding run using z by (intro exI [of _ 0]) simp
    next
      case (Inr d)
      consider (near) "d \<le> fl F (1 / 1000000)" | (reach) "\<not> d \<le> fl F (1 / 1000000)" "d \<le> r"
        | (far) "\<not> d \<le> fl F (1 / 1000000)" "\<not> d \<le> r" by blast
      then show ?thesis
      proof cases
        case near
        then show ?thesis unfolding run Inr sum.case if_P [OF near] by (intro step Suc.IH next_lt) simp
      next
        case reach
        from Suc.IH [of "next_waypoint (move_to ?t u)" "fl F (r - d)"]
        have "\<exists>p \<le> k. passed p (next_waypoint (move_to ?t u)) (state_of (advance_loop F k (fl F (r - d)) (next_waypoint (move_to ?t u)))) \<and>
          calls_of (advance_loop F k (fl F (r - d)) (next_waypoint (move_to ?t u))) = []"
          using next_lt [of "move_to ?t u"] by (simp add: move_to_def)
        then show ?thesis
          unfolding run Inr sum.case if_not_P [OF reach(1)] if_P [OF reach(2)]
          by (intro step) (meson passed_move)
      next
        case far
        show ?thesis
          unfolding run Inr sum.case if_not_P [OF far(1)] if_not_P [OF far(2)]
          using z by (intro exI [of _ 0]) (simp add: Let_def passed_def move_to_def split: sum.split)
      qed
    qed
  qed
qed

lemma advance_loop_track:
  assumes "fenv_ok F"
  shows "track_ok u \<Longrightarrow> 2 \<le> length (us_route (lu_spec u)) \<Longrightarrow>
    track_ok (state_of (advance_loop F k r u))"
proof (induction k arbitrary: r u)
  case (Suc k)
  let ?t = "us_route (lu_spec u) ! lu_wp u"
  have "?t \<in> set (us_route (lu_spec u))" using Suc.prems by (intro nth_mem) (simp add: track_ok_def)
  then have t: "valid_point ?t" using Suc.prems(1) by (simp add: track_ok_def unit_ok_def list_all_iff)
  have l: "2 \<le> length (us_route (lu_spec (next_waypoint u)))" "2 \<le> length (us_route (lu_spec (next_waypoint (move_to ?t u))))"
    using Suc.prems(2) by (simp_all add: next_waypoint_def move_to_def Let_def)
  have c: "track_ok (u\<lparr>lu_course := bearing F (lu_pos u) ?t\<rparr>)"
    using Suc.prems(1) bearing_range [OF assms] by (simp add: track_ok_def lu_pos_def)
  have d: "valid_point p" if "dest_point F (lu_pos u) (bearing F (lu_pos u) ?t) r = Inr p" for p
    using dest_point_range [OF assms that] by (simp add: valid_point_def)
  show ?case
  proof (cases "0 < r")
    case True
    show ?thesis unfolding advance_loop_round [OF True refl]
      using Suc.IH [OF track_next l(1)] Suc.IH [OF track_next l(2)] Suc.prems(1) t c d
      by (auto simp: Let_def split: sum.split)
  qed (use Suc.prems in \<open>simp add: act_defs\<close>)
qed (simp add: act_defs)

lemma advance_run:
  "state_of (advance F dt u) =
     (if length (us_route (lu_spec u)) < 2 then u
      else let o1 = advance_loop F (2 * length (us_route (lu_spec u))) (fl F (us_speed_mps (lu_spec u) * dt)) u in
        if is_ok (value_of o1) then (state_of o1)\<lparr>lu_speed := us_speed_mps (lu_spec u)\<rparr> else state_of o1)"
  "calls_of (advance F dt u) =
     (if length (us_route (lu_spec u)) < 2 then []
      else calls_of (advance_loop F (2 * length (us_route (lu_spec u))) (fl F (us_speed_mps (lu_spec u) * dt)) u))"
  by (cases "value_of (advance_loop F (2 * length (us_route (lu_spec u))) (fl F (us_speed_mps (lu_spec u) * dt)) u)";
      simp add: advance_def bindA_parts thenA_parts act_defs Let_def)+

lemma track_speed: "track_ok u \<Longrightarrow> 0 \<le> v \<Longrightarrow> track_ok (u\<lparr>lu_speed := v\<rparr>)"
  by (simp add: track_ok_def lu_pos_def)

lemma advance_track: "fenv_ok F \<Longrightarrow> track_ok u \<Longrightarrow> track_ok (state_of (advance F dt u))"
proof (cases "length (us_route (lu_spec u)) < 2")
  case False
  assume a: "fenv_ok F" "track_ok u"
  have "0 \<le> us_speed_mps (lu_spec u)" using a(2) by (simp add: track_ok_def unit_ok_def)
  then show ?thesis
    using advance_loop_track [OF a, of "2 * length (us_route (lu_spec u))" "fl F (us_speed_mps (lu_spec u) * dt)"] False
    by (simp add: advance_run Let_def track_speed)
qed (simp add: advance_run)

lemma advance_passed:
  assumes "track_ok u" and "2 \<le> length (us_route (lu_spec u))"
  shows "\<exists>p \<le> 2 * length (us_route (lu_spec u)). passed p u (state_of (advance F dt u)) \<and>
    calls_of (advance F dt u) = []"
proof -
  have "lu_wp u < length (us_route (lu_spec u))" using assms by (simp add: track_ok_def)
  from advance_loop_passed [OF this, of "2 * length (us_route (lu_spec u))" F "fl F (us_speed_mps (lu_spec u) * dt)"]
  obtain p where p: "p \<le> 2 * length (us_route (lu_spec u))"
    "passed p u (state_of (advance_loop F (2 * length (us_route (lu_spec u))) (fl F (us_speed_mps (lu_spec u) * dt)) u))"
    "calls_of (advance_loop F (2 * length (us_route (lu_spec u))) (fl F (us_speed_mps (lu_spec u) * dt)) u) = []" by blast
  have "passed p u (v\<lparr>lu_speed := x\<rparr>)" if "passed p u v" for v x using that by (simp add: passed_def)
  then show ?thesis using p assms(2) by (intro exI [of _ p]) (simp add: advance_run Let_def)
qed

text \<open>Property C26: in one tick a unit passes some number of its route's waypoints, at most two laps of
  them; it then heads for the waypoint after those, its lap counter has gone up once for every
  time the route's first waypoint came round, its position is on the globe and its course a
  compass course.\<close>

theorem laps_counted:
  assumes "fenv_ok F" and "track_ok u" and "2 \<le> length (us_route (lu_spec u))"
    and "u' = state_of (advance F dt u)"
  shows "(\<exists>p \<le> 2 * length (us_route (lu_spec u)).
      lu_wp u' = (lu_wp u + p) mod length (us_route (lu_spec u)) \<and>
      lu_cycles u' = lu_cycles u + (lu_wp u + p) div length (us_route (lu_spec u))) \<and>
    in_range (-90) 90 (lu_lat u') \<and> in_range (-180) 180 (lu_lon u') \<and> in_range 0 360 (lu_course u')"
  using advance_passed [OF assms(2,3), of F dt] advance_track [OF assms(1,2), of dt]
  unfolding assms(4) by (auto simp: passed_def track_ok_def valid_point_def lu_pos_def)

section \<open>Witness\<close>

definition demo_unit :: live_unit where
  "demo_unit = live_unit_init (hd (eben_emael_units demo_fenv)) None (us_route (hd (eben_emael_units demo_fenv)) ! 0) 0"

lemma demo_unit_ok: "track_ok demo_unit" "length (us_route (lu_spec demo_unit)) = 4"
proof -
  have "unit_ok (hd (eben_emael_units demo_fenv))"
    using eben_emael_ok [OF demo_envs(1), of "[]"] by (simp add: scenario_ok_def eben_emael_def eben_emael_units_def)
  then show "track_ok demo_unit" unfolding demo_unit_def by (rule track_init)
  show "length (us_route (lu_spec demo_unit)) = 4"
    by (simp add: demo_unit_def live_unit_init_def eben_emael_units_def)
qed

theorem laps_counted_witness:
  "\<exists>p \<le> 8. lu_wp (state_of (advance demo_fenv 1 demo_unit )) = (1 + p) mod 4"
proof -
  have "2 \<le> length (us_route (lu_spec demo_unit))" by (simp add: demo_unit_ok)
  from laps_counted [OF demo_envs(1) demo_unit_ok(1) this refl, of 1]
  obtain p where "p \<le> 2 * 4" "lu_wp (state_of (advance demo_fenv 1 demo_unit)) = (lu_wp demo_unit + p) mod 4"
    unfolding demo_unit_ok(2) by blast
  moreover have "lu_wp demo_unit = 1" by (simp add: demo_unit_def live_unit_init_def)
  ultimately show ?thesis by auto
qed

end
