(* ===== verification/Relay.thy ===== *)
theory Relay
  imports Inject
begin

text \<open>
  How the external simulator hands a message to a gateway over HTTP: \<open>SimulatorEngine._inject_payload\<close>
  of \<open>simulator/engine.py\<close> flattens a body into the request that \<open>/api/inject\<close> reads back
  (theory \<open>Inject\<close>). The last section says body by body what arrives.
\<close>

section \<open>Attributes of a body\<close>

text \<open>\<open>getattr(body, name, None)\<close> for the attributes the payload has.\<close>

fun body_location :: "body \<Rightarrow> location option" where
  "body_location (Presence p) = Some (pr_location p)"
| "body_location (ContactSighting c) = Some (ct_location c)"
| "body_location (CasevacRequest v) = Some (cv_location v)"
| "body_location (GeneralInfo g) = gi_location g"
| "body_location _ = None"

fun body_course :: "body \<Rightarrow> rat option" where
  "body_course (Presence p) = pr_course_deg p"
| "body_course (ContactSighting c) = ct_course_deg c"
| "body_course _ = None"

fun body_speed :: "body \<Rightarrow> rat option" where
  "body_speed (Presence p) = pr_speed_mps p"
| "body_speed (ContactSighting c) = ct_speed_mps c"
| "body_speed _ = None"

fun body_text :: "body \<Rightarrow> string option" where
  "body_text (ChatMessage c) = Some (ch_text c)"
| "body_text (GeneralInfo g) = Some (gi_text g)"
| "body_text _ = None"

fun body_sidc :: "body \<Rightarrow> string option" where
  "body_sidc (Presence p) = Some (pr_sidc p)"
| "body_sidc (Identification i) = Some (id_sidc i)"
| "body_sidc (ContactSighting c) = Some (ct_sidc c)"
| "body_sidc (CasevacRequest v) = Some (cv_sidc v)"
| "body_sidc _ = None"

section \<open>The payload\<close>

definition room_label :: "chat_room \<Rightarrow> string" where
  "room_label r = or_else (cr_name r) (cr_room_id r)"

fun join_comma :: "string list \<Rightarrow> string" where
  "join_comma [] = []"
| "join_comma [x] = x"
| "join_comma (x # xs) = x @ CHR '','' # join_comma xs"

definition with_place :: "location \<Rightarrow> inject_in \<Rightarrow> inject_in" where
  "with_place l p = p\<lparr>in_lat := Some (loc_lat l), in_lon := Some (loc_lon l)\<rparr>"

fun payload_special :: "body \<Rightarrow> inject_in \<Rightarrow> inject_in" where
  "payload_special (Presence b) p = p\<lparr>in_battery_pct := pr_battery_pct b\<rparr>"
| "payload_special (Identification i) p = p\<lparr>in_unit := Some (id_unit i), in_role := Some (id_role i),
     in_nation := Some (id_nation i)\<rparr>"
| "payload_special (ContactSighting c) p = p\<lparr>in_description := Some (ct_description c), in_strength := ct_strength c,
     in_identity := Some (int (identity_int (ct_identity c)))\<rparr>"
| "payload_special (Overlay v) p =
     (case ov_graphics v of [] \<Rightarrow> p
      | g # _ \<Rightarrow> (with_place (og_location g) p)\<lparr>in_description := Some (ov_name v)\<rparr>)"
| "payload_special (GeneralInfo g) p = p\<lparr>in_description := Some (gi_subject g)\<rparr>"
| "payload_special (Receipt r) p = p\<lparr>in_ack_message_id := Some (rc_ack_message_id r), in_description := Some (rc_note r)\<rparr>"
| "payload_special (Chatrooms c) p = p\<lparr>in_text := Some (join_comma (map room_label (cs_rooms c)))\<rparr>"
| "payload_special _ p = p"

definition inject_payload :: "string \<Rightarrow> string \<Rightarrow> int \<Rightarrow> body \<Rightarrow> inject_in" where
  "inject_payload nid callsign cls b =
     (let p = (inject_request nid (type_name (body_type b)))\<lparr>in_callsign := Some callsign,
            in_classification := Some cls\<rparr>;
          p = (case body_location b of None \<Rightarrow> p | Some l \<Rightarrow> with_place l p)
      in payload_special b (p\<lparr>in_course_deg := body_course b, in_speed_mps := body_speed b,
           in_text := body_text b, in_sidc := body_sidc b\<rparr>))"

section \<open>What arrives\<close>

definition placed :: "location \<Rightarrow> location" where
  "placed l = l\<lparr>loc_alt_m := None\<rparr>"

definition point_or_0 :: "overlay \<Rightarrow> location" where
  "point_or_0 v = (case ov_graphics v of [] \<Rightarrow> \<lparr> loc_lat = 0, loc_lon = 0, loc_alt_m = None \<rparr> | g # _ \<Rightarrow> placed (og_location g))"

text \<open>A unit with node id \<open>nid\<close> and callsign \<open>cs\<close> sends the body.\<close>

fun arrived :: "string \<Rightarrow> string \<Rightarrow> string \<Rightarrow> body \<Rightarrow> body result" where
  "arrived dash nid cs (Presence p) = Inr (Presence (p\<lparr>pr_location := placed (pr_location p), pr_callsign := or_else cs nid,
     pr_sidc := with_identity (pr_sidc p) FRIEND\<rparr>))"
| "arrived dash nid cs (Identification i) = Inr (Identification (i\<lparr>id_callsign := or_else cs nid, id_unit := or_else (id_unit i) (or_else cs nid),
     id_role := or_else (id_role i) ''rifleman'', id_nation := or_else (id_nation i) ''XXX'',
     id_sidc := sidc ''dismounted_infantry'' FRIEND None PRESENT\<rparr>))"
| "arrived dash nid cs (ContactSighting c) = Inr (ContactSighting (c\<lparr>ct_location := placed (ct_location c),
     ct_status := PRESENT, ct_description := or_else (ct_description c) ''contact'',
     ct_sidc := sync_symbol (ct_sidc c) (ct_identity c) PRESENT\<rparr>))"
| "arrived dash nid cs (CasevacRequest v) = Inr (CasevacRequest \<lparr> cv_location = placed (cv_location v), cv_patients_urgent = 1,
     cv_patients_priority = 0, cv_patients_routine = 0, cv_special_equipment = ''none'',
     cv_security_at_pickup = ''no_enemy'', cv_sidc = sidc ''casualty'' FRIEND None PRESENT \<rparr>)"
| "arrived dash nid cs (ChatMessage c) = Inr (ChatMessage \<lparr> ch_text = or_else (ch_text c) dash, ch_recipient = ''all'' \<rparr>)"
| "arrived dash nid cs (Overlay v) = Inr (Overlay \<lparr> ov_name = (if ov_graphics v = [] then ''overlay'' else or_else (ov_name v) ''overlay''),
     ov_graphics = [\<lparr> og_sidc = sidc ''control_point'' FRIEND None PRESENT, og_location = point_or_0 v,
       og_label = or_else cs ''OBJ'' \<rparr>] \<rparr>)"
| "arrived dash nid cs (GeneralInfo g) = Inr (GeneralInfo (g\<lparr>gi_text := or_else (gi_text g) dash,
     gi_location := map_option placed (gi_location g)\<rparr>))"
| "arrived dash nid cs (Receipt r) = Inr (Receipt (r\<lparr>rc_status := Received\<rparr>))"
| "arrived dash nid cs (Chatrooms c) = Inr (Chatrooms \<lparr> cs_rooms =
     map (\<lambda>n. \<lparr> cr_room_id = n, cr_name = n, cr_members = [] \<rparr>) (room_names (join_comma (map room_label (cs_rooms c)))) \<rparr>)"
| "arrived dash nid cs (Sketch s) = Inl (PyExn (HttpErr 400) (''unknown message type '' @ [CHR 0x27] @ ''Sketch'' @ [CHR 0x27]))"

lemma with_identity_twice: "length code = 20 \<Longrightarrow> with_identity (with_identity code i) j = with_identity code j"
  by (simp add: with_identity_20)

lemma sync_symbol_twice: "length code = 20 \<Longrightarrow> sync_symbol (with_identity code i) i st = sync_symbol code i st"
  by (simp add: sync_symbol_def Let_def with_identity_twice)

lemma compliant_given: "conforms code \<Longrightarrow> compliant_sidc (Some code) i e = Inr (with_identity code i)"
proof -
  assume c: "conforms code"
  then have "is_valid_sidc code = Inr True" by (simp add: is_valid_sidc_def validate_ok_iff [symmetric])
  moreover have "code \<noteq> []" using c by (auto simp: conforms_def)
  ultimately show ?thesis by (simp add: compliant_sidc_def)
qed

lemma placed_valid: "valid_location l \<Longrightarrow> mk_location (loc_lat l) (loc_lon l) None = Inr (placed l)"
  by (simp add: mk_location_def valid_location_def placed_def)

lemma origin_valid: "mk_location 0 0 None = Inr \<lparr> loc_lat = 0, loc_lon = 0, loc_alt_m = None \<rparr>"
  by (simp add: mk_location_def in_range_def)

definition symbol_conforms :: "body \<Rightarrow> bool" where
  "symbol_conforms b = (case b of Presence p \<Rightarrow> conforms (pr_sidc p) | ContactSighting c \<Rightarrow> conforms (ct_sidc c) | _ \<Rightarrow> True)"

lemmas payload_simps = inject_body_def inject_payload_def inject_request_def with_place_def Let_def text_or_def
  coerce_str_def num_or_0_def

lemma presence_arrives:
  assumes "valid_presence p" and "conforms (pr_sidc p)"
  shows "inject_body dash (inject_payload nid cs cls (Presence p)) = arrived dash nid cs (Presence p)"
proof -
  have l: "length (pr_sidc p) = 20" using assms(2) by (simp add: conforms_def)
  then have n: "normalize (with_identity (pr_sidc p) FRIEND) = with_identity (pr_sidc p) FRIEND"
    by (simp add: with_identity_20)
  show ?thesis
    using assms placed_valid [of "pr_location p"]
    by (simp add: payload_simps valid_presence_def inject_presence_def in_identity_of_def compliant_given
        mk_presence_def default_sidc_def n)
qed

lemma contact_arrives:
  assumes "valid_contact c" and "conforms (ct_sidc c)"
  shows "inject_body dash (inject_payload nid cs cls (ContactSighting c)) = arrived dash nid cs (ContactSighting c)"
proof -
  have l: "length (ct_sidc c) = 20" using assms(2) by (simp add: conforms_def)
  show ?thesis
    using assms placed_valid [of "ct_location c"]
    by (simp add: payload_simps valid_contact_def inject_contact_def in_identity_of_def compliant_given
        mk_contact_def default_sidc_def sync_symbol_twice [OF l])
qed

lemma overlay_arrives:
  assumes "valid_body (Overlay v)"
  shows "inject_body dash (inject_payload nid cs cls (Overlay v)) = arrived dash nid cs (Overlay v)"
proof (cases "ov_graphics v")
  case Nil
  then show ?thesis by (simp add: payload_simps origin_valid point_or_0_def or_else_def)
next
  case (Cons g gs)
  then show ?thesis using assms placed_valid [of "og_location g"] by (simp add: payload_simps point_or_0_def)
qed

lemma geninfo_arrives:
  assumes "valid_body (GeneralInfo g)"
  shows "inject_body dash (inject_payload nid cs cls (GeneralInfo g)) = arrived dash nid cs (GeneralInfo g)"
proof (cases "gi_location g")
  case None
  then show ?thesis by (simp add: payload_simps origin_valid mk_geninfo_def)
next
  case (Some l)
  then show ?thesis using assms placed_valid [of l] by (simp add: payload_simps mk_geninfo_def opt_all_def)
qed

lemma others_arrive:
  "inject_body dash (inject_payload nid cs cls (Identification i)) = arrived dash nid cs (Identification i)"
  "valid_body (CasevacRequest v) \<Longrightarrow>
    inject_body dash (inject_payload nid cs cls (CasevacRequest v)) = arrived dash nid cs (CasevacRequest v)"
  "inject_body dash (inject_payload nid cs cls (ChatMessage m)) = arrived dash nid cs (ChatMessage m)"
  "inject_body dash (inject_payload nid cs cls (Receipt r)) = arrived dash nid cs (Receipt r)"
  "inject_body dash (inject_payload nid cs cls (Chatrooms c)) = arrived dash nid cs (Chatrooms c)"
  "inject_body dash (inject_payload nid cs cls (Sketch s)) = arrived dash nid cs (Sketch s)"
  by (simp_all add: payload_simps origin_valid placed_valid int_or_def mk_identification_def default_sidc_def
      mk_receipt_def or_else_def mk_chatrooms_def mk_chatroom_def coerce_list_def)

lemma body_arrives:
  "valid_body b \<Longrightarrow> symbol_conforms b \<Longrightarrow> inject_body dash (inject_payload nid cs cls b) = arrived dash nid cs b"
  by (cases b) (simp_all add: symbol_conforms_def presence_arrives contact_arrives overlay_arrives geninfo_arrives others_arrive)

text \<open>Property C39: a valid body that the simulator flattens into an inject request is read back by the
  gateway as \<open>arrived\<close> says. Presence and contacts arrive whole but for altitude, affiliation of a
  presence and status of a contact; texts, receipts and bulletins keep their text; of a CASEVAC
  request only the place arrives, with one urgent patient whatever was asked for; an overlay keeps
  its name and first point, a list of rooms its names; a sketch is refused.\<close>

theorem inject_relays:
  assumes "valid_body b" and "symbol_conforms b"
  shows "inject_body dash (inject_payload nid cs cls b) = arrived dash nid cs b"
  by (rule body_arrives [OF assms])

theorem inject_relays_witness:
  "inject_body ''-'' (inject_payload ''med-1'' ''MED'' 1 (CasevacRequest \<lparr> cv_location =
      \<lparr> loc_lat = 50, loc_lon = 4, loc_alt_m = None \<rparr>, cv_patients_urgent = 2, cv_patients_priority = 0,
      cv_patients_routine = 0, cv_special_equipment = ''none'', cv_security_at_pickup = ''no_enemy'', cv_sidc = [] \<rparr>)) =
    Inr (CasevacRequest \<lparr> cv_location = \<lparr> loc_lat = 50, loc_lon = 4, loc_alt_m = None \<rparr>, cv_patients_urgent = 1,
      cv_patients_priority = 0, cv_patients_routine = 0, cv_special_equipment = ''none'',
      cv_security_at_pickup = ''no_enemy'', cv_sidc = sidc ''casualty'' FRIEND None PRESENT \<rparr>)"
proof -
  let ?v = "\<lparr> cv_location = \<lparr> loc_lat = 50, loc_lon = 4, loc_alt_m = None \<rparr>, cv_patients_urgent = 2, cv_patients_priority = 0,
      cv_patients_routine = 0, cv_special_equipment = ''none'', cv_security_at_pickup = ''no_enemy'', cv_sidc = [] \<rparr>"
  have "valid_body (CasevacRequest ?v)" "symbol_conforms (CasevacRequest ?v)"
    by (simp_all add: valid_location_def in_range_def symbol_conforms_def)
  from inject_relays [OF this, of "''-''" "''med-1''" "''MED''" 1] show ?thesis by (simp add: placed_def)
qed

end
