(* ===== verification/SimEngine.thy ===== *)
theory SimEngine
  imports Patrol Relay
begin

text \<open>
  The external simulator (\<open>simulator/engine.py\<close>): an engine that moves the units of a scenario and
  lets each emit its messages, either into a gateway over HTTP (\<open>inject\<close>) or through a gateway of
  its own (\<open>multicast\<close>), and answers the coalition traffic it receives. Wall-clock figures and the
  texts that only go into the user interface's detail column are left out. What the network answers
  and the literals outside the model's code points are in \<open>sim_env\<close>.
\<close>

section \<open>State\<close>

record sim_env =
  xe_f :: fenv
  xe_g :: rng
  xe_world :: world
  xe_mid :: "nat \<Rightarrow> string"
  xe_dash :: string
  xe_dots :: string
  xe_post :: "inject_in \<Rightarrow> pyexn option"
  xe_health :: "string result"

record sim =
  sx_stress :: nat
  sx_scenario :: scenario
  sx_secure :: bool
  sx_transport :: string
  sx_codec :: string
  sx_network_id :: string
  sx_psk :: string
  sx_classification :: int
  sx_mode :: string
  sx_url :: string
  sx_auto_ack :: bool
  sx_rng :: int
  sx_units :: "live_unit list"
  sx_own_ids :: "string list"
  sx_seen :: "string list"
  sx_ack_unit :: "nat option"
  sx_http :: bool
  sx_listening :: bool
  sx_stopping :: bool
  sx_sent :: nat
  sx_received :: nat
  sx_acked :: nat
  sx_tick_no :: nat

datatype sim_event =
    Status string
  | GotMessage string "string option" "string option"
  | SentMessage string string string "(rat \<times> rat) option"
  | UnitRow string string string string rat rat rat rat nat nat
  | Stats nat nat nat nat nat

datatype sim_call = Post inject_in | Publish nat body | Event sim_event

type_synonym 'a sim_act = "(sim, sim_call, 'a) act"

record sim_options =
  so_secure :: bool
  so_transport :: string
  so_codec :: string
  so_network_id :: "string option"
  so_psk :: string
  so_classification :: int
  so_mode :: string
  so_gateway_url :: string
  so_seed :: int
  so_stress :: nat
  so_auto_ack :: bool

definition rstrip_slashes :: "string \<Rightarrow> string" where
  "rstrip_slashes s = rev (dropWhile (\<lambda>c. c = CHR ''/'') (rev s))"

definition sim_init :: "sim_env \<Rightarrow> scenario \<Rightarrow> sim_options \<Rightarrow> sim" where
  "sim_init E sc o' =
     (let stress = (if length (sn_units sc) < so_stress o' then so_stress o' else 0);
          sc' = (if stress \<noteq> 0 then expand_scenario (xe_f E) (xe_g E) (xe_dash E) sc (so_stress o') (so_seed o') else sc)
      in \<lparr> sx_stress = stress, sx_scenario = sc', sx_secure = so_secure o', sx_transport = so_transport o',
           sx_codec = so_codec o', sx_network_id = text_or (so_network_id o') (sn_network_id sc'), sx_psk = so_psk o',
           sx_classification = so_classification o', sx_mode = so_mode o', sx_url = rstrip_slashes (so_gateway_url o'),
           sx_auto_ack = so_auto_ack o', sx_rng = rg_seed (xe_g E) (so_seed o'), sx_units = [],
           sx_own_ids = map us_node_id (sn_units sc'), sx_seen = [], sx_ack_unit = None, sx_http = False,
           sx_listening = False, sx_stopping = False, sx_sent = 0, sx_received = 0, sx_acked = 0, sx_tick_no = 0 \<rparr>)"

section \<open>Publishing\<close>

definition status :: "string \<Rightarrow> unit sim_act" where
  "status t = callA (Event (Status t))"

definition draw :: "(int \<Rightarrow> 'a \<times> int) \<Rightarrow> 'a sim_act" where
  "draw f = bindA (getA sx_rng) (\<lambda>r. thenA (modifyA (\<lambda>s. s\<lparr>sx_rng := snd (f r)\<rparr>)) (retA (fst (f r))))"

definition set_unit :: "nat \<Rightarrow> live_unit \<Rightarrow> sim \<Rightarrow> sim" where
  "set_unit i u s = s\<lparr>sx_units := (sx_units s)[i := u]\<rparr>"

definition unit_at :: "nat \<Rightarrow> sim \<Rightarrow> live_unit" where
  "unit_at i s = sx_units s ! i"

definition spec_at :: "nat \<Rightarrow> sim \<Rightarrow> unit_spec" where
  "spec_at i s = lu_spec (unit_at i s)"

definition publish_here :: "sim_env \<Rightarrow> nat \<Rightarrow> body \<Rightarrow> unit sim_act" where
  "publish_here E i b s =
     (case lu_gateway (unit_at i s) of
        None \<Rightarrow> (Inl (PyExn AttributeErr ''NoneType object has no attribute publish''), s, [])
      | Some g \<Rightarrow>
          (case gw_publish (xe_world E) (xe_mid E (sx_sent s)) b g of
             (r, g', _) \<Rightarrow> (bindR r (\<lambda>_. Inr ()), set_unit i ((unit_at i s)\<lparr>lu_gateway := Some g'\<rparr>) s, [Publish i b])))"

definition post :: "sim_env \<Rightarrow> nat \<Rightarrow> body \<Rightarrow> unit sim_act" where
  "post E i b =
     bindA (getA (\<lambda>s. inject_payload (us_node_id (spec_at i s)) (us_callsign (spec_at i s)) (sx_classification s) b)) (\<lambda>p.
     bindA (getA sx_http) (\<lambda>up.
     if \<not> up then raiseA (PyExn AttributeErr ''NoneType object has no attribute post'')
     else thenA (callA (Post p)) (case xe_post E p of None \<Rightarrow> retA () | Some e \<Rightarrow> raiseA e)))"

definition send_body :: "sim_env \<Rightarrow> nat \<Rightarrow> body \<Rightarrow> unit sim_act" where
  "send_body E i b =
     bindA (getA sx_mode) (\<lambda>mode. if mode = ''inject'' then post E i b else publish_here E i b)"

definition account_sent :: "nat \<Rightarrow> body \<Rightarrow> unit sim_act" where
  "account_sent i b =
     thenA (modifyA (\<lambda>s. (set_unit i ((unit_at i s)\<lparr>lu_sent := lu_sent (unit_at i s) + 1\<rparr>) s)\<lparr>sx_sent := sx_sent s + 1\<rparr>))
     (bindA (getA (\<lambda>s. s)) (\<lambda>s.
      if sx_stress s \<noteq> 0 then retA ()
      else callA (Event (SentMessage (us_node_id (spec_at i s)) (us_callsign (spec_at i s)) (type_name (body_type b))
        (map_option (\<lambda>l. (loc_lat l, loc_lon l)) (body_location b))))))"

definition sim_publish :: "sim_env \<Rightarrow> nat \<Rightarrow> body \<Rightarrow> unit sim_act" where
  "sim_publish E i b =
     bindA (catchA (thenA (send_body E i b) (retA True)) (\<lambda>e.
       bindA (getA (\<lambda>s. us_callsign (spec_at i s))) (\<lambda>cs.
       thenA (status (cs @ '': send failed '' @ xe_dash E @ '' '' @ exn_str e)) (retA False)))) (\<lambda>done.
     if done then account_sent i b else retA ())"

section \<open>What a unit emits\<close>

definition emit_presence :: "sim_env \<Rightarrow> nat \<Rightarrow> unit sim_act" where
  "emit_presence E i =
     bindA (getA (unit_at i)) (\<lambda>u.
     bindA (liftA (mk_location (lu_lat u) (lu_lon u) None)) (\<lambda>place.
     bindA (draw (rg_randint (xe_g E) 55 100)) (\<lambda>battery.
     bindA (liftA (mk_presence place (us_callsign (lu_spec u)) (Some battery)
       (Some (py_round (xe_f E) 1 (lu_course u))) (Some (py_round (xe_f E) 1 (lu_speed u)))
       (Some (sidc (us_entity (lu_spec u)) FRIEND None PRESENT)))) (\<lambda>p.
     sim_publish E i (Presence p)))))"

definition emit_contact :: "sim_env \<Rightarrow> nat \<Rightarrow> nat \<Rightarrow> unit sim_act" where
  "emit_contact E tick_no i =
     bindA (getA (\<lambda>s. (unit_at i s, sn_enemies (sx_scenario s)))) (\<lambda>(u, enemies).
     if ''contact'' \<in> set (us_behaviors (lu_spec u)) \<and> (tick_no + lu_idx u) mod 4 = 0 \<and> enemies \<noteq> [] then
       bindA (draw (rg_choice (xe_g E) (length enemies))) (\<lambda>k.
       bindA (liftA (mk_location (en_lat (enemies ! k)) (en_lon (enemies ! k)) None)) (\<lambda>place.
       bindA (draw (rg_randint (xe_g E) 2 20)) (\<lambda>strength.
       bindA (liftA (mk_contact place HOSTILE PRESENT (en_name (enemies ! k)) (Some strength) None None None)) (\<lambda>c.
       sim_publish E i (ContactSighting c)))))
     else retA ())"

definition emit_casevac :: "sim_env \<Rightarrow> nat \<Rightarrow> unit sim_act" where
  "emit_casevac E i =
     bindA (getA (unit_at i)) (\<lambda>u.
     if ''casevac'' \<in> set (us_behaviors (lu_spec u)) then
       bindA (draw (rg_random (xe_g E))) (\<lambda>x.
       if x < fl (xe_f E) (5 / 100) then
         bindA (liftA (mk_location (lu_lat u) (lu_lon u) None)) (\<lambda>place.
         bindA (draw (rg_randint (xe_g E) 1 2)) (\<lambda>urgent.
         sim_publish E i (CasevacRequest \<lparr> cv_location = place, cv_patients_urgent = urgent, cv_patients_priority = 0,
           cv_patients_routine = 0, cv_special_equipment = ''none'', cv_security_at_pickup = ''no_enemy'',
           cv_sidc = sidc ''casualty'' FRIEND None PRESENT \<rparr>)))
       else retA ())
     else retA ())"

definition emit_chat :: "sim_env \<Rightarrow> nat \<Rightarrow> nat \<Rightarrow> unit sim_act" where
  "emit_chat E tick_no i =
     bindA (getA (\<lambda>s. (unit_at i s, sn_orders (sx_scenario s)))) (\<lambda>(u, orders).
     if ''chat'' \<in> set (us_behaviors (lu_spec u)) \<and> (tick_no + lu_idx u) mod 6 = 0 \<and> orders \<noteq> [] then
       bindA (draw (rg_choice (xe_g E) (length orders))) (\<lambda>k.
       sim_publish E i (ChatMessage \<lparr> ch_text = orders ! k, ch_recipient = ''all'' \<rparr>))
     else retA ())"

definition emit_sitrep :: "sim_env \<Rightarrow> nat \<Rightarrow> nat \<Rightarrow> unit sim_act" where
  "emit_sitrep E tick_no i =
     bindA (getA (\<lambda>s. (unit_at i s, sn_name (sx_scenario s)))) (\<lambda>(u, name).
     if ''chat'' \<in> set (us_behaviors (lu_spec u)) \<and> (tick_no + lu_idx u) mod 7 = 0 \<and> tick_no \<noteq> 0 then
       bindA (liftA (mk_location (lu_lat u) (lu_lon u) None)) (\<lambda>place.
       sim_publish E i (GeneralInfo (mk_geninfo (Some ''SITREP'')
         (Some (us_callsign (lu_spec u) @ '' on '' @ name @ '': situation nominal'')) (Some place))))
     else retA ())"

definition behaviors :: "sim_env \<Rightarrow> nat \<Rightarrow> nat \<Rightarrow> unit sim_act" where
  "behaviors E tick_no i =
     thenA (emit_contact E tick_no i) (thenA (emit_casevac E i) (thenA (emit_chat E tick_no i) (emit_sitrep E tick_no i)))"

definition emit_objective :: "sim_env \<Rightarrow> nat \<Rightarrow> unit sim_act" where
  "emit_objective E i =
     bindA (getA sx_scenario) (\<lambda>sc.
     bindA (liftA (mk_location (fst (sn_center sc)) (snd (sn_center sc)) None)) (\<lambda>place.
     sim_publish E i (Overlay \<lparr> ov_name = sn_name sc @ '' '' @ xe_dash E @ '' objective'',
       ov_graphics = [\<lparr> og_sidc = sidc ''control_point'' FRIEND None PRESENT, og_location = place, og_label = ''OBJ'' \<rparr>] \<rparr>)))"

definition emit_chatrooms :: "sim_env \<Rightarrow> nat \<Rightarrow> unit sim_act" where
  "emit_chatrooms E i =
     bindA (getA (\<lambda>s. (spec_at i s, sx_scenario s))) (\<lambda>(spec, sc).
     sim_publish E i (Chatrooms (mk_chatrooms (Some [mk_chatroom ''All Chat Rooms'' (Some ''All Chat Rooms'') None,
       mk_chatroom (sn_network_id sc) (Some (sn_name sc)) (Some [us_node_id spec])]))))"

definition announce_identity :: "sim_env \<Rightarrow> nat \<Rightarrow> unit sim_act" where
  "announce_identity E i =
     bindA (getA (\<lambda>s. (spec_at i s, sn_name (sx_scenario s)))) (\<lambda>(spec, name).
     sim_publish E i (Identification (mk_identification (us_callsign spec) (or_else (us_unit spec) name)
       (Some (us_role spec)) (Some (us_nation spec)) None)))"

definition when_behavior :: "string \<Rightarrow> nat \<Rightarrow> unit sim_act \<Rightarrow> unit sim_act" where
  "when_behavior b i m = bindA (getA (spec_at i)) (\<lambda>spec. if b \<in> set (us_behaviors spec) then m else retA ())"

definition announce :: "sim_env \<Rightarrow> nat \<Rightarrow> unit sim_act" where
  "announce E i =
     thenA (announce_identity E i)
     (thenA (when_behavior ''overlay'' i (emit_objective E i)) (when_behavior ''chat'' i (emit_chatrooms E i)))"

text \<open>\<open>_run_bounded\<close>: the coroutines one after another here, what one raises is swallowed. That their
  sections may interleave is a matter of the steps below.\<close>

definition run_bounded :: "(nat \<Rightarrow> unit sim_act) \<Rightarrow> unit sim_act" where
  "run_bounded f =
     bindA (getA (\<lambda>s. length (sx_units s))) (\<lambda>n. forA [0..<n] (\<lambda>i. catchA (f i) (\<lambda>_. retA ())))"

section \<open>Life cycle\<close>

definition unit_config :: "sim \<Rightarrow> unit_spec \<Rightarrow> gateway_config result" where
  "unit_config s spec =
     (if \<not> in_range 0 3 (sx_classification s) then invalid ''level''
      else Inr (default_config\<lparr>
        cfg_identity := \<lparr> ni_node_id = us_node_id spec, ni_callsign = us_callsign spec,
          ni_unit = or_else (us_unit spec) (sn_name (sx_scenario s)), ni_nation = us_nation spec, ni_role = us_role spec \<rparr>,
        cfg_plugins := default_plugins\<lparr>pl_codec := sx_codec s, pl_transport := sx_transport s,
          pl_security := (if sx_secure s then ''psk'' else ''null'')\<rparr>,
        cfg_network := default_network\<lparr>nc_network_id := sx_network_id s, nc_psk := sx_psk s, nc_repeat := 2\<rparr>,
        cfg_classification := \<lparr> cc_level = sx_classification s, cc_releasable_to = ''COALITION'' \<rparr>,
        cfg_gossip := default_gossip\<lparr>gc_enabled := False\<rparr>\<rparr>))"

definition rx_handler :: handler where
  "rx_handler = \<lparr> h_id = 0, h_subs = [''*''], h_raises = (\<lambda>_. None) \<rparr>"

definition join_gateway :: "sim_env \<Rightarrow> sim \<Rightarrow> unit_spec \<Rightarrow> gateway result" where
  "join_gateway E s spec =
     bindR (unit_config s spec) (\<lambda>cfg.
     bindR (gateway_init (xe_world E) cfg) (\<lambda>g.
     (case thenA (gw_add_handler rx_handler) (gw_start (xe_world E)) g of (r, g', _) \<Rightarrow> bindR r (\<lambda>_. Inr g'))))"

definition first_point :: "unit_spec \<Rightarrow> point result" where
  "first_point spec = (case us_route spec of [] \<Rightarrow> Inl (PyExn IndexErr ''list index out of range'') | p # _ \<Rightarrow> Inr p)"

definition add_unit :: "unit_spec \<Rightarrow> gateway option \<Rightarrow> nat \<Rightarrow> unit sim_act" where
  "add_unit spec g idx =
     bindA (liftA (first_point spec)) (\<lambda>p.
     modifyA (\<lambda>s. s\<lparr>sx_units := sx_units s @ [live_unit_init spec g p idx]\<rparr>))"

definition quoted :: "string \<Rightarrow> string" where
  "quoted s = [CHR 0x27] @ s @ [CHR 0x27]"

definition start_multicast :: "sim_env \<Rightarrow> unit sim_act" where
  "start_multicast E =
     bindA (getA (\<lambda>s. sn_units (sx_scenario s))) (\<lambda>specs.
     thenA (forA (enumerate 0 specs) (\<lambda>(idx, spec).
       bindA (getA (\<lambda>s. join_gateway E s spec)) (\<lambda>r. bindA (liftA r) (\<lambda>g. add_unit spec (Some g) idx))))
     (bindA (getA (\<lambda>s. s)) (\<lambda>s.
      status (show_nat (length (sx_units s)) @ '' units joined multicast '' @ quoted (sx_network_id s) @ '' '' @ xe_dash E @
        (if sx_secure s then '' secure (PSK / HMAC-SHA256), '' else '' NON-secure (null), '') @
        sx_codec s @ ''/'' @ sx_transport s))))"

definition start_inject :: "sim_env \<Rightarrow> unit sim_act" where
  "start_inject E =
     thenA (modifyA (\<lambda>s. s\<lparr>sx_http := True\<rparr>))
     (bindA (getA (\<lambda>s. sn_units (sx_scenario s))) (\<lambda>specs.
      thenA (forA (enumerate 0 specs) (\<lambda>(idx, spec). add_unit spec None idx))
      (bindA (getA (\<lambda>s. s)) (\<lambda>s.
       thenA (case xe_health E of
           Inr node \<Rightarrow> status (''injecting '' @ show_nat (length (sx_units s)) @ '' units into gateway '' @ sx_url s @
             '' (node '' @ quoted node @ '') '' @ xe_dash E @ '' the gateway fans out to ATAK / TAK servers / dashboard'')
         | Inl e \<Rightarrow> status (''WARNING: cannot reach gateway '' @ sx_url s @ ''/api/health '' @ xe_dash E @ '' '' @ exn_str e))
       (if sx_auto_ack s \<and> sx_stress s = 0 then modifyA (\<lambda>s. s\<lparr>sx_listening := True\<rparr>) else retA ())))))"

text \<open>The unit that answers: the first with the \<open>chat\<close> behaviour, else the first.\<close>

definition choose_ack :: "live_unit list \<Rightarrow> nat option" where
  "choose_ack us =
     (case filter (\<lambda>i. ''chat'' \<in> set (us_behaviors (lu_spec (us ! i)))) [0..<length us] of
        i # _ \<Rightarrow> Some i
      | [] \<Rightarrow> if us = [] then None else Some 0)"

definition sim_start :: "sim_env \<Rightarrow> unit sim_act" where
  "sim_start E =
     thenA (modifyA (\<lambda>s. s\<lparr>sx_stopping := False\<rparr>))
     (bindA (getA sx_mode) (\<lambda>mode.
      thenA (if mode = ''inject'' then start_inject E else start_multicast E)
      (thenA (modifyA (\<lambda>s. s\<lparr>sx_ack_unit := choose_ack (sx_units s)\<rparr>)) (run_bounded (announce E)))))"

definition sim_stop :: "unit sim_act" where
  "sim_stop =
     thenA (modifyA (\<lambda>s. s\<lparr>sx_stopping := True, sx_listening := False, sx_http := False, sx_units := [],
       sx_ack_unit := None\<rparr>)) (status ''stopped'')"

section \<open>Receiving\<close>

definition truthy :: "string option \<Rightarrow> bool" where
  "truthy v \<longleftrightarrow> v \<noteq> None \<and> v \<noteq> Some []"

definition ignored :: "string option \<Rightarrow> string option \<Rightarrow> sim \<Rightarrow> bool" where
  "ignored origin mid s \<longleftrightarrow> \<not> truthy origin \<or> the origin \<in> set (sx_own_ids s) \<or> (truthy mid \<and> the mid \<in> set (sx_seen s))"

definition answers :: "string option \<Rightarrow> string option \<Rightarrow> sim \<Rightarrow> bool" where
  "answers mid ty s \<longleftrightarrow> sx_auto_ack s \<and> truthy mid \<and> ty \<noteq> Some ''Receipt''"

definition note_received :: "string option \<Rightarrow> sim \<Rightarrow> sim" where
  "note_received mid s =
     s\<lparr>sx_seen := (if truthy mid then List.insert (the mid) (sx_seen s) else sx_seen s), sx_received := sx_received s + 1\<rparr>"

definition receive :: "sim_env \<Rightarrow> string option \<Rightarrow> string option \<Rightarrow> string option \<Rightarrow> string option \<Rightarrow> unit sim_act" where
  "receive E origin mid ty callsign =
     bindA (getA (ignored origin mid)) (\<lambda>skip.
     if skip then retA ()
     else
       thenA (modifyA (note_received mid))
       (thenA (callA (Event (GotMessage (the origin) callsign ty)))
       (bindA (getA (\<lambda>s. if answers mid ty s then sx_ack_unit s else None)) (\<lambda>ack.
        case ack of None \<Rightarrow> retA ()
        | Some k \<Rightarrow>
            thenA (sim_publish E k (Receipt (mk_receipt (the mid) Received (Some (''ack '' @ the origin)))))
            (modifyA (\<lambda>s. s\<lparr>sx_acked := sx_acked s + 1\<rparr>))))))"

text \<open>One event of the gateway's live feed.\<close>

record feed_event =
  fe_direction :: "string option"
  fe_originator_id :: "string option"
  fe_message_id :: "string option"
  fe_type :: "string option"
  fe_callsign :: "string option"

definition on_feed :: "sim_env \<Rightarrow> feed_event \<Rightarrow> unit sim_act" where
  "on_feed E e =
     (if fe_direction e \<in> {Some ''sent'', Some ''received''}
      then receive E (fe_originator_id e) (fe_message_id e) (fe_type e) (fe_callsign e) else retA ())"

text \<open>What the listener of the feed meets: a connection, an event, or an exception, after which it connects again.\<close>

datatype feed_turn = Connected | Arrives feed_event | Drops pyexn

definition ws_url :: "string \<Rightarrow> string" where
  "ws_url url = replace_text ''http://'' ''ws://'' (replace_text ''https://'' ''wss://'' url) @ ''/ws/events''"

definition listen :: "sim_env \<Rightarrow> feed_turn \<Rightarrow> unit sim_act" where
  "listen E t =
     (case t of
        Connected \<Rightarrow> bindA (getA sx_url) (\<lambda>url. status (''receiving coalition traffic from '' @ ws_url url))
      | Arrives e \<Rightarrow> on_feed E e
      | Drops e \<Rightarrow> bindA (getA sx_stopping) (\<lambda>over.
          if over then retA () else status (''receive feed dropped ('' @ exn_str e @ ''); reconnecting'' @ xe_dots E)))"

text \<open>A unit's own gateway hands what it receives to the engine's handler.\<close>

definition body_callsign :: "body \<Rightarrow> string option" where
  "body_callsign b = (case b of Presence p \<Rightarrow> Some (pr_callsign p) | Identification i \<Rightarrow> Some (id_callsign i) | _ \<Rightarrow> None)"

definition rx_handle :: "sim_env \<Rightarrow> message \<Rightarrow> unit sim_act" where
  "rx_handle E m = receive E (Some (originator_id (header m))) (Some (message_id (header m))) (Some (msg_type m))
     (body_callsign (body m))"

definition handled :: "call list \<Rightarrow> message list" where
  "handled cs = concat (map (\<lambda>c. case c of Handle k m \<Rightarrow> if k = h_id rx_handler then [m] else [] | _ \<Rightarrow> []) cs)"

definition unit_frame :: "sim_env \<Rightarrow> nat \<Rightarrow> bytes \<Rightarrow> unit sim_act" where
  "unit_frame E i raw s =
     (case lu_gateway (unit_at i s) of None \<Rightarrow> (Inr (), s, [])
      | Some g \<Rightarrow>
          (case gw_on_frame (xe_world E) raw g of
             (_, g', cs) \<Rightarrow> forA (handled cs) (rx_handle E) (set_unit i ((unit_at i s)\<lparr>lu_gateway := Some g'\<rparr>) s)))"

section \<open>Ticks\<close>

definition STRESS_UI_SAMPLE :: nat where
  "STRESS_UI_SAMPLE = 40"

definition advance_unit :: "sim_env \<Rightarrow> rat \<Rightarrow> nat \<Rightarrow> unit sim_act" where
  "advance_unit E dt i s = (case advance (xe_f E) dt (unit_at i s) of (r, u, _) \<Rightarrow> (r, set_unit i u s, []))"

definition emit :: "sim_env \<Rightarrow> nat \<Rightarrow> nat \<Rightarrow> unit sim_act" where
  "emit E tick_no i = thenA (emit_presence E i) (behaviors E tick_no i)"

definition unit_row :: "fenv \<Rightarrow> live_unit \<Rightarrow> sim_event" where
  "unit_row F u =
     UnitRow (us_node_id (lu_spec u)) (us_callsign (lu_spec u)) (us_nation (lu_spec u)) (us_role (lu_spec u))
       (py_round F 5 (lu_lat u)) (py_round F 5 (lu_lon u)) (py_round F 1 (lu_course u)) (py_round F 1 (lu_speed u))
       (lu_sent u) (lu_cycles u)"

definition sim_tick :: "sim_env \<Rightarrow> rat \<Rightarrow> nat \<Rightarrow> unit sim_act" where
  "sim_tick E dt tick_no =
     thenA (modifyA (\<lambda>s. s\<lparr>sx_tick_no := tick_no\<rparr>))
     (bindA (getA (\<lambda>s. length (sx_units s))) (\<lambda>n.
      thenA (forA [0..<n] (advance_unit E dt))
      (thenA (run_bounded (emit E tick_no))
      (bindA (getA (\<lambda>s. s)) (\<lambda>s.
       thenA (forA (if sx_stress s \<noteq> 0 then take STRESS_UI_SAMPLE (sx_units s) else sx_units s)
         (\<lambda>u. callA (Event (unit_row (xe_f E) u))))
       (callA (Event (Stats (length (sx_units s)) (sx_sent s) (sx_received s) tick_no (sx_stress s)))))))))"

section \<open>Everything the simulator sends is valid\<close>

definition sim_ok :: "string list \<Rightarrow> sim \<Rightarrow> bool" where
  "sim_ok ids s \<longleftrightarrow> scenario_ok (sx_scenario s) \<and> sx_own_ids s = ids \<and> ids = map us_node_id (sn_units (sx_scenario s)) \<and>
     list_all (\<lambda>u. track_ok u \<and> us_node_id (lu_spec u) \<in> set ids) (sx_units s) \<and>
     (case sx_ack_unit s of None \<Rightarrow> True | Some k \<Rightarrow> k < length (sx_units s))"

text \<open>The invariant while the roster has \<open>n\<close> units.\<close>

definition roster :: "string list \<Rightarrow> nat \<Rightarrow> sim \<Rightarrow> bool" where
  "roster ids n s \<longleftrightarrow> sim_ok ids s \<and> length (sx_units s) = n"

text \<open>The unit a row of the user interface is about.\<close>

fun row_of :: "sim_event \<Rightarrow> string option" where
  "row_of (UnitRow nid _ _ _ _ _ _ _ _ _) = Some nid"
| "row_of _ = None"

definition sent_ok :: "string list \<Rightarrow> sim_call \<Rightarrow> bool" where
  "sent_ok ids c =
     (case c of
        Post p \<Rightarrow> in_originator p \<in> set ids \<and> (\<forall>dash. \<exists>bd. inject_body dash p = Inr bd \<and> valid_body bd)
      | Publish i b \<Rightarrow> valid_body b
      | Event e \<Rightarrow> (case row_of e of None \<Rightarrow> True | Some nid \<Rightarrow> nid \<in> set ids))"

lemma ensures_catch: "ensures I P m \<Longrightarrow> (\<And>e. ensures I P (h e)) \<Longrightarrow> ensures I P (catchA m h)"
  by (auto simp: ensures_def catchA_parts split: sum.split)

lemma ensures_lift: "(\<And>x. r = Inr x \<Longrightarrow> ensures I P (f x)) \<Longrightarrow> ensures I P (bindA (liftA r) f)"
  by (cases r) (auto simp: ensures_def bindA_parts liftA_def)

lemma ensures_mono: "ensures I P m \<Longrightarrow> (\<And>c. P c \<Longrightarrow> Q c) \<Longrightarrow> ensures I Q m"
  by (auto simp: ensures_def list_all_iff)

lemma ensures_draw:
  assumes "\<And>s r. I s \<Longrightarrow> I (s\<lparr>sx_rng := r\<rparr>)" and "\<And>r. ensures I P (f (fst (h r)))"
  shows "ensures I P (bindA (draw h) f)"
  unfolding ensures_def
proof (intro allI impI)
  fix s assume I: "I s"
  have "draw h s = (Inr (fst (h (sx_rng s))), s\<lparr>sx_rng := snd (h (sx_rng s))\<rparr>, [])"
    by (simp add: draw_def bindA_def thenA_def act_defs)
  note run = bindA_Inr [where m = "draw h" and f = f, OF this]
  from ensuresD [OF assms(2) assms(1) [OF I], of "sx_rng s" "snd (h (sx_rng s))"]
  show "I (state_of (bindA (draw h) f s)) \<and> list_all P (calls_of (bindA (draw h) f s))"
    unfolding run by simp
qed

lemma roster_updates:
  "roster ids n (s\<lparr>sx_rng := r\<rparr>) = roster ids n s" "roster ids n (s\<lparr>sx_sent := k\<rparr>) = roster ids n s"
  "roster ids n (note_received mid s) = roster ids n s" "roster ids n (s\<lparr>sx_acked := k\<rparr>) = roster ids n s"
  "roster ids n (s\<lparr>sx_tick_no := k\<rparr>) = roster ids n s"
  by (cases "sx_ack_unit s"; simp add: roster_def sim_ok_def note_received_def)+

lemma roster_unit:
  assumes "roster ids n s" and "i < n"
  shows "track_ok (unit_at i s) \<and> us_node_id (spec_at i s) \<in> set ids"
  using assms nth_mem [of i "sx_units s"] by (auto simp: roster_def sim_ok_def unit_at_def spec_at_def list_all_iff)

lemma roster_set_unit:
  assumes "roster ids n s" and "track_ok u" and "us_node_id (lu_spec u) \<in> set ids"
  shows "roster ids n (set_unit i u s)"
  using assms set_update_subset_insert [of "sx_units s" i u]
  by (auto simp: roster_def sim_ok_def set_unit_def list_all_iff split: option.split)

lemma arrived_ok: "body_type b \<noteq> SKETCH \<Longrightarrow> \<exists>bd. arrived dash nid cs b = Inr bd"
  by (cases b) simp_all

definition sendable :: "body \<Rightarrow> bool" where
  "sendable b \<longleftrightarrow> valid_body b \<and> symbol_conforms b \<and> body_type b \<noteq> SKETCH"

lemma payload_ok:
  assumes "sendable b" and "nid \<in> set ids"
  shows "sent_ok ids (Post (inject_payload nid cs cls b))"
proof -
  have "in_originator (inject_payload nid cs cls b) = nid"
    by (cases b) (auto simp: inject_payload_def inject_request_def with_place_def Let_def split: option.split list.split)
  moreover have "\<exists>bd. inject_body dash (inject_payload nid cs cls b) = Inr bd \<and> valid_body bd" for dash
  proof -
    obtain bd where "arrived dash nid cs b = Inr bd" using arrived_ok [where b = b and dash = dash and nid = nid and cs = cs] assms(1) by (auto simp: sendable_def)
    then have r: "inject_body dash (inject_payload nid cs cls b) = Inr bd"
      using body_arrives assms(1) by (simp add: sendable_def)
    then show ?thesis using inject_body_typed by blast
  qed
  ultimately show ?thesis using assms(2) by (simp add: sent_ok_def)
qed

lemma event_ok [simp]: "row_of e = None \<Longrightarrow> sent_ok ids (Event e)"
  by (simp add: sent_ok_def)

lemma status_ensures: "ensures I (sent_ok ids) (status t)"
  by (simp add: status_def ensures_basic)

lemma post_ensures:
  assumes "sendable b" and "i < n"
  shows "ensures (roster ids n) (sent_ok ids) (post E i b)"
  unfolding post_def
proof (rule ensures_get)
  fix s assume "roster ids n s"
  then have ok: "sent_ok ids (Post (inject_payload (us_node_id (spec_at i s)) (us_callsign (spec_at i s)) (sx_classification s) b))"
    using roster_unit assms by (intro payload_ok) simp_all
  show "ensures (roster ids n) (sent_ok ids)
     (bindA (getA sx_http) (\<lambda>up. if \<not> up then raiseA (PyExn AttributeErr ''NoneType object has no attribute post'')
        else thenA (callA (Post (inject_payload (us_node_id (spec_at i s)) (us_callsign (spec_at i s)) (sx_classification s) b)))
          (case xe_post E (inject_payload (us_node_id (spec_at i s)) (us_callsign (spec_at i s)) (sx_classification s) b) of
             None \<Rightarrow> retA () | Some e \<Rightarrow> raiseA e)))"
    using ok by (auto intro!: ensures_get ensures_then ensures_basic split: option.split)
qed

lemma publish_here_ensures:
  assumes "sendable b" and "i < n"
  shows "ensures (roster ids n) (sent_ok ids) (publish_here E i b)"
proof -
  have "roster ids n (set_unit i ((unit_at i s)\<lparr>lu_gateway := g\<rparr>) s)" if "roster ids n s" for s g
    using roster_unit [OF that assms(2)]
    by (intro roster_set_unit that) (simp_all add: track_ok_def lu_pos_def spec_at_def)
  then show ?thesis
    using assms(1) by (auto simp: ensures_def publish_here_def sent_ok_def sendable_def split: option.split prod.split)
qed

lemma account_ensures: "i < n \<Longrightarrow> ensures (roster ids n) (sent_ok ids) (account_sent i b)"
  unfolding account_sent_def
proof (intro ensures_then ensures_get)
  assume i: "i < n"
  show "ensures (roster ids n) (sent_ok ids)
     (modifyA (\<lambda>s. (set_unit i ((unit_at i s)\<lparr>lu_sent := lu_sent (unit_at i s) + 1\<rparr>) s)\<lparr>sx_sent := sx_sent s + 1\<rparr>))"
    using roster_unit [OF _ i]
    by (auto simp: roster_updates spec_at_def track_ok_def lu_pos_def intro!: ensures_basic(6) roster_set_unit)
qed (auto intro!: ensures_basic)

lemma sim_publish_ensures:
  assumes "sendable b" and "i < n"
  shows "ensures (roster ids n) (sent_ok ids) (sim_publish E i b)"
  unfolding sim_publish_def send_body_def
  by (intro ensures_bind ensures_catch ensures_then ensures_basic status_ensures account_ensures assms(2))
    (auto intro!: ensures_get ensures_basic account_ensures post_ensures publish_here_ensures assms)

text \<open>What the emitters send.\<close>

lemma track_place:
  assumes "track_ok u"
  shows "mk_location (lu_lat u) (lu_lon u) None = Inr \<lparr> loc_lat = lu_lat u, loc_lon = lu_lon u, loc_alt_m = None \<rparr>"
  using assms by (simp add: track_ok_def valid_point_def lu_pos_def mk_location_def)

lemma place_valid: "mk_location a b None = Inr place \<Longrightarrow> valid_location place"
  by (auto simp: mk_location_iff)

lemma presence_sendable:
  assumes "valid_location place" and "mk_presence place cs bat course speed (Some (sidc e FRIEND None PRESENT)) = Inr p"
  shows "sendable (Presence p)"
proof -
  have "pr_sidc p = sidc e FRIEND None PRESENT"
    using assms(2) by (auto simp: mk_presence_def invalid_def default_sidc_def length_sidc split: if_splits)
  then show ?thesis
    using mk_presence_valid [OF assms] by (simp add: sendable_def symbol_conforms_def conforms_sidc)
qed

lemma contact_sendable:
  assumes "valid_location place" and "mk_contact place i st d str co sp None = Inr c"
  shows "sendable (ContactSighting c)"
proof -
  have "ct_sidc c = sync_symbol (sidc ''hostile_contact'' HOSTILE None PRESENT) i st"
    using assms(2) by (auto simp: mk_contact_def invalid_def default_sidc_def split: if_splits)
  then have "conforms (ct_sidc c)"
    using sync_symbol_conforms [of "sidc ''hostile_contact'' HOSTILE None PRESENT"] by (simp add: length_sidc conforms_sidc)
  then show ?thesis
    using mk_contact_valid [OF assms] by (simp add: sendable_def symbol_conforms_def)
qed

lemma other_sendable:
  "valid_location (cv_location v) \<Longrightarrow> sendable (CasevacRequest v)" "sendable (ChatMessage m)"
  "opt_all valid_location (gi_location g) \<Longrightarrow> sendable (GeneralInfo g)" "sendable (Receipt r)" "sendable (Chatrooms c)"
  "sendable (Identification i)" "list_all (\<lambda>g. valid_location (og_location g)) (ov_graphics o') \<Longrightarrow> sendable (Overlay o')"
  by (simp_all add: sendable_def symbol_conforms_def)

lemma emit_presence_ensures: "i < n \<Longrightarrow> ensures (roster ids n) (sent_ok ids) (emit_presence E i)"
  unfolding emit_presence_def
  by (intro ensures_get ensures_lift ensures_draw sim_publish_ensures)
    (simp_all add: roster_updates presence_sendable [OF place_valid])

lemma emit_contact_ensures: "i < n \<Longrightarrow> ensures (roster ids n) (sent_ok ids) (emit_contact E t i)"
  unfolding emit_contact_def
  by (intro ensures_get) (auto intro!: ensures_lift ensures_draw sim_publish_ensures ensures_basic
      simp: roster_updates contact_sendable [OF place_valid])

lemma emit_casevac_ensures: "i < n \<Longrightarrow> ensures (roster ids n) (sent_ok ids) (emit_casevac E i)"
  unfolding emit_casevac_def
  by (intro ensures_get) (auto intro!: ensures_lift ensures_draw sim_publish_ensures ensures_basic other_sendable
      simp: roster_updates place_valid)

lemma emit_chat_ensures: "i < n \<Longrightarrow> ensures (roster ids n) (sent_ok ids) (emit_chat E t i)"
  unfolding emit_chat_def
  by (intro ensures_get) (auto intro!: ensures_draw sim_publish_ensures ensures_basic other_sendable simp: roster_updates)

lemma emit_sitrep_ensures: "i < n \<Longrightarrow> ensures (roster ids n) (sent_ok ids) (emit_sitrep E t i)"
  unfolding emit_sitrep_def
  by (intro ensures_get) (auto intro!: ensures_lift sim_publish_ensures ensures_basic other_sendable
      simp: place_valid mk_geninfo_def opt_all_def)

lemma emit_objective_ensures: "i < n \<Longrightarrow> ensures (roster ids n) (sent_ok ids) (emit_objective E i)"
  unfolding emit_objective_def
  by (auto intro!: ensures_get ensures_lift sim_publish_ensures other_sendable simp: place_valid)

lemma announce_rest_ensures:
  "i < n \<Longrightarrow> ensures (roster ids n) (sent_ok ids) (emit_chatrooms E i)"
  "i < n \<Longrightarrow> ensures (roster ids n) (sent_ok ids) (announce_identity E i)"
  unfolding emit_chatrooms_def announce_identity_def
  by (intro ensures_get; auto intro!: sim_publish_ensures other_sendable)+

lemma announce_ensures: "i < n \<Longrightarrow> ensures (roster ids n) (sent_ok ids) (announce E i)"
  unfolding announce_def when_behavior_def
  by (auto intro!: ensures_then ensures_get ensures_basic announce_rest_ensures emit_objective_ensures)

lemma unit_emit_ensures: "i < n \<Longrightarrow> ensures (roster ids n) (sent_ok ids) (emit E t i)"
  unfolding emit_def behaviors_def
  by (intro ensures_then emit_presence_ensures emit_contact_ensures emit_casevac_ensures emit_chat_ensures emit_sitrep_ensures)

lemma run_bounded_ensures:
  assumes "\<And>i. i < n \<Longrightarrow> ensures (roster ids n) (sent_ok ids) (f i)"
  shows "ensures (roster ids n) (sent_ok ids) (run_bounded f)"
  unfolding run_bounded_def
  by (intro ensures_get ensures_for_in ensures_catch ensures_basic assms) (auto simp: roster_def)

lemma advance_unit_ensures:
  assumes "fenv_ok (xe_f E)" and "i < n"
  shows "ensures (roster ids n) (sent_ok ids) (advance_unit E dt i)"
proof -
  have "roster ids n (set_unit i (state_of (advance (xe_f E) dt (unit_at i s))) s)" if "roster ids n s" for s
  proof (rule roster_set_unit [OF that])
    note u = roster_unit [OF that assms(2)]
    show "track_ok (state_of (advance (xe_f E) dt (unit_at i s)))" by (rule advance_track [OF assms(1)]) (use u in blast)
    have "lu_spec (state_of (advance (xe_f E) dt (unit_at i s))) = spec_at i s"
    proof (cases "length (us_route (spec_at i s)) < 2")
      case True
      then show ?thesis by (simp add: advance_run spec_at_def)
    next
      case False
      then show ?thesis using u advance_passed [of "unit_at i s" "xe_f E" dt] by (auto simp: passed_def spec_at_def)
    qed
    then show "us_node_id (lu_spec (state_of (advance (xe_f E) dt (unit_at i s)))) \<in> set ids" using u by simp
  qed
  then show ?thesis by (simp add: ensures_def advance_unit_def case_prod_unfold state_of_def)
qed

lemma row_ok: "roster ids n s \<Longrightarrow> u \<in> set (sx_units s) \<Longrightarrow> sent_ok ids (Event (unit_row F u))"
  by (auto simp: roster_def sim_ok_def sent_ok_def unit_row_def list_all_iff)

lemma sim_tick_ensures:
  assumes "fenv_ok (xe_f E)"
  shows "ensures (roster ids n) (sent_ok ids) (sim_tick E dt t)"
  unfolding sim_tick_def
  by (intro ensures_then ensures_get ensures_for_in advance_unit_ensures assms run_bounded_ensures unit_emit_ensures ensures_basic)
    (auto simp: roster_updates intro: row_ok dest: in_set_takeD split: if_splits, simp_all add: roster_def)

lemma receive_ensures: "ensures (roster ids n) (sent_ok ids) (receive E origin mid ty cs)"
proof -
  have k: "k < n" if "roster ids n s" "sx_ack_unit s = Some k" for k s
    using that by (auto simp: roster_def sim_ok_def)
  show ?thesis
    unfolding receive_def
    by (auto intro!: ensures_get ensures_then ensures_basic sim_publish_ensures other_sendable
        simp: roster_updates k split: option.split)
qed

lemma on_feed_ensures: "ensures (roster ids n) (sent_ok ids) (on_feed E e)"
  by (simp add: on_feed_def receive_ensures ensures_basic)

lemma listen_ensures: "ensures (roster ids n) (sent_ok ids) (listen E t)"
  by (auto simp: listen_def intro!: ensures_get on_feed_ensures status_ensures ensures_basic split: feed_turn.split)

lemma unit_frame_ensures:
  assumes "i < n"
  shows "ensures (roster ids n) (sent_ok ids) (unit_frame E i raw)"
proof -
  have r: "ensures (roster ids n) (sent_ok ids) (forA ms (rx_handle E))" for ms
    by (intro ensures_for) (simp add: rx_handle_def receive_ensures)
  have "roster ids n (set_unit i ((unit_at i s)\<lparr>lu_gateway := g\<rparr>) s)" if "roster ids n s" for s g
    using roster_unit [OF that assms]
    by (intro roster_set_unit that) (simp_all add: track_ok_def lu_pos_def spec_at_def)
  then show ?thesis
    using ensuresD [OF r] by (auto simp: ensures_def unit_frame_def split: option.split prod.split)
qed

text \<open>Starting adds the scenario's units, stopping forgets them.\<close>

definition with_specs :: "string list \<Rightarrow> unit_spec list \<Rightarrow> sim \<Rightarrow> bool" where
  "with_specs ids specs s \<longleftrightarrow> sim_ok ids s \<and> sn_units (sx_scenario s) = specs"

lemma add_unit_ensures:
  assumes "spec \<in> set specs"
  shows "ensures (with_specs ids specs) (sent_ok ids) (add_unit spec g idx)"
proof -
  have "sim_ok ids (s\<lparr>sx_units := sx_units s @ [live_unit_init spec g p idx]\<rparr>)"
    if "sim_ok ids s" "sn_units (sx_scenario s) = specs" "first_point spec = Inr p" for s p
  proof -
    have "unit_ok spec" using that assms by (auto simp: sim_ok_def scenario_ok_def list_all_iff)
    moreover have "p = us_route spec ! 0" using that(3) by (auto simp: first_point_def split: list.splits)
    ultimately have "track_ok (live_unit_init spec g p idx)" by (simp add: track_init)
    moreover have "us_node_id spec \<in> set ids" using that(1,2) assms by (auto simp: sim_ok_def)
    ultimately show ?thesis
      using that(1) by (cases "sx_ack_unit s") (auto simp: sim_ok_def live_unit_init_def)
  qed
  then show ?thesis
    unfolding add_unit_def with_specs_def by (intro ensures_lift ensures_basic(6)) auto
qed

lemma enumerate_mem: "(i, x) \<in> set (enumerate k xs) \<Longrightarrow> x \<in> set xs"
  by (auto simp: in_set_enumerate_eq)

lemma sim_ok_updates:
  "sim_ok ids (s\<lparr>sx_stopping := b\<rparr>) = sim_ok ids s" "sim_ok ids (s\<lparr>sx_http := b\<rparr>) = sim_ok ids s"
  "sim_ok ids (s\<lparr>sx_listening := b\<rparr>) = sim_ok ids s"
  by (cases "sx_ack_unit s"; simp add: sim_ok_def)+

lemma for_specs:
  assumes "\<And>idx spec. spec \<in> set specs \<Longrightarrow> ensures (with_specs ids specs) P (f (idx, spec))"
    and "ensures (with_specs ids specs) P m"
  shows "ensures (with_specs ids specs) P (bindA (getA (\<lambda>s. sn_units (sx_scenario s))) (\<lambda>l. thenA (forA (enumerate 0 l) f) m))"
proof (rule ensures_get)
  fix s assume "with_specs ids specs s"
  then have eq: "sn_units (sx_scenario s) = specs" by (simp add: with_specs_def)
  have r: "ensures (with_specs ids specs) P (f x)" if "x \<in> set (enumerate 0 specs)" for x
  proof -
    obtain idx spec where x: "x = (idx, spec)" by (rule prod.exhaust)
    show ?thesis using enumerate_mem [of idx spec 0 specs] that assms(1) unfolding x by blast
  qed
  show "ensures (with_specs ids specs) P (thenA (forA (enumerate 0 (sn_units (sx_scenario s))) f) m)"
    unfolding eq by (intro ensures_then ensures_for_in assms(2) r)
qed

lemma start_inject_ensures: "ensures (with_specs ids specs) (sent_ok ids) (start_inject E)"
proof -
  have h: "with_specs ids specs (s\<lparr>sx_http := b\<rparr>) = with_specs ids specs s"
    "with_specs ids specs (s\<lparr>sx_listening := b\<rparr>) = with_specs ids specs s" for s b
    by (simp_all add: with_specs_def sim_ok_updates)
  show ?thesis
    unfolding start_inject_def
  proof (intro ensures_then for_specs)
    show "ensures (with_specs ids specs) (sent_ok ids) (modifyA (\<lambda>s. s\<lparr>sx_http := True\<rparr>))"
      by (intro ensures_basic(6)) (simp add: h)
  next
    fix idx spec assume "spec \<in> set specs"
    then show "ensures (with_specs ids specs) (sent_ok ids) (case (idx, spec) of (idx, spec) \<Rightarrow> add_unit spec None idx)"
      by (simp add: add_unit_ensures)
  qed (auto intro!: ensures_get ensures_then ensures_basic status_ensures simp: h split: sum.split)
qed

lemma start_multicast_ensures: "ensures (with_specs ids specs) (sent_ok ids) (start_multicast E)"
  unfolding start_multicast_def
  by (intro for_specs) (auto intro!: ensures_get ensures_lift add_unit_ensures status_ensures)

lemma choose_ack_less: "choose_ack us = Some k \<Longrightarrow> k < length us"
proof -
  assume c: "choose_ack us = Some k"
  show "k < length us"
  proof (cases "filter (\<lambda>i. ''chat'' \<in> set (us_behaviors (lu_spec (us ! i)))) [0..<length us]")
    case Nil
    then show ?thesis using c by (auto simp: choose_ack_def split: if_splits)
  next
    case (Cons i js)
    then have "i \<in> set [0..<length us]" by (metis filter_is_subset list.set_intros(1) subsetD)
    then show ?thesis using c Cons by (simp add: choose_ack_def)
  qed
qed

lemma announce_all_ensures: "ensures (sim_ok ids) (sent_ok ids) (run_bounded (announce E))"
  unfolding ensures_def
proof (intro allI impI)
  fix s assume "sim_ok ids s"
  then have "roster ids (length (sx_units s)) s" by (simp add: roster_def)
  from ensuresD [OF run_bounded_ensures [OF announce_ensures] this]
  show "sim_ok ids (state_of (run_bounded (announce E) s)) \<and> list_all (sent_ok ids) (calls_of (run_bounded (announce E) s))"
    by (simp add: roster_def)
qed

lemma ensures_weaken:
  assumes "\<And>x. ensures (I x) P m" and "\<And>s. J s \<Longrightarrow> \<exists>x. I x s" and "\<And>x s. I x s \<Longrightarrow> J s"
  shows "ensures J P m"
  using assms unfolding ensures_def by meson

lemma sim_start_ensures: "ensures (sim_ok ids) (sent_ok ids) (sim_start E)"
proof -
  have "ensures (sim_ok ids) (sent_ok ids) (start_inject E)" "ensures (sim_ok ids) (sent_ok ids) (start_multicast E)"
    by (rule ensures_weaken [where I = "with_specs ids", OF start_inject_ensures]; simp add: with_specs_def)
      (rule ensures_weaken [where I = "with_specs ids", OF start_multicast_ensures]; simp add: with_specs_def)
  moreover have "sim_ok ids (s\<lparr>sx_ack_unit := choose_ack (sx_units s)\<rparr>)" if "sim_ok ids s" for s
    using that choose_ack_less by (auto simp: sim_ok_def split: option.split)
  ultimately show ?thesis
    unfolding sim_start_def
    by (auto intro!: ensures_then ensures_get ensures_basic(6) announce_all_ensures simp: sim_ok_updates)
qed

lemma sim_stop_ensures: "ensures (sim_ok ids) (sent_ok ids) sim_stop"
  unfolding sim_stop_def by (intro ensures_then ensures_basic(6) status_ensures) (simp add: sim_ok_def)

text \<open>Every interleaving: a step is the start, the stop, the movement of a unit, one section of what a unit
  announces or emits, a turn of the feed's listener, a frame at a unit's gateway or a whole tick.\<close>

inductive sim_step :: "fenv \<Rightarrow> rng \<Rightarrow> sim \<Rightarrow> sim_call list \<Rightarrow> sim \<Rightarrow> bool" for F G where
  started: "xe_f E = F \<Longrightarrow> xe_g E = G \<Longrightarrow> o' = sim_start E s \<Longrightarrow> sim_step F G s (calls_of o') (state_of o')"
| stopped: "o' = sim_stop s \<Longrightarrow> sim_step F G s (calls_of o') (state_of o')"
| moved: "xe_f E = F \<Longrightarrow> xe_g E = G \<Longrightarrow> i < length (sx_units s) \<Longrightarrow> o' = advance_unit E dt i s \<Longrightarrow>
    sim_step F G s (calls_of o') (state_of o')"
| emitted: "xe_f E = F \<Longrightarrow> xe_g E = G \<Longrightarrow> i < length (sx_units s) \<Longrightarrow>
    m \<in> {announce E i, emit_presence E i, emit_contact E t i, emit_casevac E i, emit_chat E t i, emit_sitrep E t i} \<Longrightarrow>
    o' = m s \<Longrightarrow> sim_step F G s (calls_of o') (state_of o')"
| ticked: "xe_f E = F \<Longrightarrow> xe_g E = G \<Longrightarrow> o' = sim_tick E dt t s \<Longrightarrow> sim_step F G s (calls_of o') (state_of o')"
| listened: "xe_f E = F \<Longrightarrow> xe_g E = G \<Longrightarrow> o' = listen E t s \<Longrightarrow> sim_step F G s (calls_of o') (state_of o')"
| framed: "xe_f E = F \<Longrightarrow> xe_g E = G \<Longrightarrow> i < length (sx_units s) \<Longrightarrow> o' = unit_frame E i raw s \<Longrightarrow>
    sim_step F G s (calls_of o') (state_of o')"

inductive sim_run :: "fenv \<Rightarrow> rng \<Rightarrow> sim \<Rightarrow> sim_call list \<Rightarrow> sim \<Rightarrow> bool" for F G s0 where
  start: "sim_run F G s0 [] s0"
| step: "sim_run F G s0 cs s \<Longrightarrow> sim_step F G s ds s' \<Longrightarrow> sim_run F G s0 (cs @ ds) s'"

lemma roster_to_ok:
  assumes "ensures (roster ids (length (sx_units s))) (sent_ok ids) m" and "sim_ok ids s"
  shows "sim_ok ids (state_of (m s)) \<and> list_all (sent_ok ids) (calls_of (m s))"
  using ensuresD [OF assms(1), of s] assms(2) by (simp add: roster_def)

lemma sim_step_ok:
  assumes "sim_step F G s cs s'" and "fenv_ok F" and "sim_ok ids s"
  shows "sim_ok ids s' \<and> list_all (sent_ok ids) cs"
  using assms
proof (induction rule: sim_step.induct)
  case (emitted E i s m t o')
  then have "ensures (roster ids (length (sx_units s))) (sent_ok ids) m"
    by (auto intro: announce_ensures emit_presence_ensures emit_contact_ensures emit_casevac_ensures emit_chat_ensures emit_sitrep_ensures)
  then show ?case using roster_to_ok emitted by blast
qed (auto simp: sim_start_ensures [THEN ensuresD] sim_stop_ensures [THEN ensuresD]
    intro: roster_to_ok [THEN conjunct1] roster_to_ok [THEN conjunct2] advance_unit_ensures sim_tick_ensures listen_ensures unit_frame_ensures)

lemma sim_run_ok:
  "sim_run F G s0 cs s \<Longrightarrow> fenv_ok F \<Longrightarrow> sim_ok ids s0 \<Longrightarrow> sim_ok ids s \<and> list_all (sent_ok ids) cs"
proof (induction rule: sim_run.induct)
  case (step cs s ds s')
  then show ?case using sim_step_ok by (metis list_all_append)
qed simp

definition scenario_fits :: "sim_options \<Rightarrow> scenario \<Rightarrow> bool" where
  "scenario_fits o' sc \<longleftrightarrow> scenario_ok sc \<and> (so_stress o' \<noteq> 0 \<longrightarrow>
     in_range (-88) 88 (fst (sn_center sc)) \<and> in_range (-178) 178 (snd (sn_center sc)))"

lemma sim_init_ok:
  assumes "fenv_ok (xe_f E)" and "rng_ok (xe_g E)" and "scenario_fits o' sc"
  shows "sim_ok (sx_own_ids (sim_init E sc o')) (sim_init E sc o')"
  using assms expand_ok [OF assms(1,2)] by (auto simp: sim_ok_def sim_init_def Let_def scenario_fits_def)


section \<open>Acknowledgements\<close>

text \<open>The message ids a call acknowledges.\<close>

definition ack_of :: "body \<Rightarrow> string list" where
  "ack_of b = (case b of Receipt r \<Rightarrow> [rc_ack_message_id r] | _ \<Rightarrow> [])"

definition call_acks :: "sim_call \<Rightarrow> string list" where
  "call_acks c =
     (case c of Post p \<Rightarrow> (case in_ack_message_id p of None \<Rightarrow> [] | Some a \<Rightarrow> [a])
      | Publish i b \<Rightarrow> ack_of b | Event e \<Rightarrow> [])"

definition acks :: "sim_call list \<Rightarrow> string list" where
  "acks cs = concat (map call_acks cs)"

lemma acks_simps [simp]: "acks [] = []" "acks (c # cs) = call_acks c @ acks cs" "acks (cs @ ds) = acks cs @ acks ds"
  "call_acks (Event e) = []"
  by (simp_all add: acks_def call_acks_def)

lemma payload_acks: "call_acks (Post (inject_payload nid cs cls b)) = ack_of b"
  by (cases b) (auto simp: call_acks_def ack_of_def inject_payload_def inject_request_def with_place_def Let_def
      split: option.split list.split)

text \<open>An operation that leaves the seen ids alone and acknowledges nothing or just \<open>A\<close>.\<close>

definition once :: "string list \<Rightarrow> 'a sim_act \<Rightarrow> bool" where
  "once A m \<longleftrightarrow> (\<forall>s. sx_seen (state_of (m s)) = sx_seen s \<and> acks (calls_of (m s)) \<in> {[], A})"

lemma once_basic:
  "once A (retA x)" "once A (raiseA e)" "once A (getA g)" "once A (liftA r)" "once A (callA (Event e'))"
  "(\<And>s. sx_seen (h s) = sx_seen s) \<Longrightarrow> once A (modifyA h)" "once (call_acks c) (callA c)"
  by (simp_all add: once_def act_defs)

lemma once_first: "once A m \<Longrightarrow> (\<And>x. once [] (f x)) \<Longrightarrow> once A (bindA m f)"
  by (auto simp: once_def bindA_parts split: sum.split)

lemma once_then: "once [] m \<Longrightarrow> once A n \<Longrightarrow> once A (thenA m n)" "once A m \<Longrightarrow> once [] n \<Longrightarrow> once A (thenA m n)"
  by (auto simp: once_def thenA_parts split: sum.split)

lemma once_get: "(\<And>x. once A (f x)) \<Longrightarrow> once A (bindA (getA g) f)" "(\<And>x. once A (f x)) \<Longrightarrow> once A (bindA (liftA r) f)"
  by (auto simp: once_def bindA_parts act_defs split: sum.split)

lemma once_at: "(\<And>s. once A (f (g s))) \<Longrightarrow> once A (bindA (getA g) f)"
  by (auto simp: once_def bindA_parts act_defs)

lemma once_draw: "(\<And>x. once A (f x)) \<Longrightarrow> once A (bindA (draw h) f)"
  by (auto simp: once_def bindA_parts draw_def thenA_parts act_defs)

lemma once_catch: "once A m \<Longrightarrow> (\<And>e. once [] (h e)) \<Longrightarrow> once A (catchA m h)"
  by (auto simp: once_def catchA_parts split: sum.split)

lemma once_for: "(\<And>x. once [] (f x)) \<Longrightarrow> once [] (forA xs f)"
  by (induction xs) (simp_all add: once_basic once_then)

lemma once_if: "(c \<Longrightarrow> once A m) \<Longrightarrow> (\<not> c \<Longrightarrow> once A n) \<Longrightarrow> once A (if c then m else n)"
  by simp

lemma post_once: "once (ack_of b) (post E i b)"
proof -
  have "once (ack_of b) (callA (Post (inject_payload nid cs cls b)))" for nid cs cls
    using once_basic(7) [of "Post (inject_payload nid cs cls b)"] by (simp add: payload_acks)
  then show ?thesis
    unfolding post_def by (intro once_at) (auto intro!: once_then(2) once_basic split: option.split)
qed

lemma publish_here_once: "once (ack_of b) (publish_here E i b)"
  by (auto simp: once_def publish_here_def set_unit_def call_acks_def split: option.split prod.split)

lemma account_once: "once [] (account_sent i b)"
  unfolding account_sent_def by (auto intro!: once_then once_get once_basic simp: set_unit_def)

lemma sim_publish_once: "once (ack_of b) (sim_publish E i b)"
proof -
  have "once (ack_of b) (send_body E i b)"
    unfolding send_body_def by (auto intro!: once_get post_once publish_here_once)
  then show ?thesis
    unfolding sim_publish_def status_def
    by (intro once_first once_catch) (auto intro!: once_then once_get once_basic account_once)
qed

lemma other_once: "ack_of b = [] \<Longrightarrow> once [] (sim_publish E i b)"
  using sim_publish_once [of b E i] by simp

lemma sections_once:
  "once [] (emit_presence E i)" "once [] (emit_contact E t i)" "once [] (emit_casevac E i)" "once [] (emit_chat E t i)"
  "once [] (emit_sitrep E t i)" "once [] (emit_objective E i)" "once [] (emit_chatrooms E i)" "once [] (announce_identity E i)"
  unfolding emit_presence_def emit_contact_def emit_casevac_def emit_chat_def emit_sitrep_def emit_objective_def
    emit_chatrooms_def announce_identity_def case_prod_unfold
  by (intro once_get once_draw once_if once_basic other_once; simp add: ack_of_def)+

lemma announce_once: "once [] (announce E i)"
  unfolding announce_def when_behavior_def by (intro once_then once_get once_if once_basic sections_once)

lemma emit_once: "once [] (emit E t i)"
  unfolding emit_def behaviors_def by (intro once_then sections_once)

lemma bounded_once: "(\<And>i. once [] (f i)) \<Longrightarrow> once [] (run_bounded f)"
  unfolding run_bounded_def by (intro once_get once_for once_catch once_basic)

lemma advance_once: "once [] (advance_unit E dt i)"
  by (simp add: once_def advance_unit_def set_unit_def split: prod.split)

lemma tick_once: "once [] (sim_tick E dt t)"
  unfolding sim_tick_def by (intro once_then once_get once_for once_basic advance_once bounded_once emit_once) simp

lemma start_once: "once [] (sim_start E)"
proof -
  have a: "once [] (add_unit spec g idx)" for spec g idx
    unfolding add_unit_def by (intro once_get once_basic) simp
  have "once [] (start_inject E)" "once [] (start_multicast E)"
    unfolding start_inject_def start_multicast_def status_def case_prod_unfold
    by (auto intro!: once_then once_get once_for once_basic a split: sum.split)
  then show ?thesis
    unfolding sim_start_def by (auto intro!: once_then once_get once_basic bounded_once announce_once)
qed

lemma stop_once: "once [] sim_stop"
  unfolding sim_stop_def status_def by (intro once_then once_basic) simp

text \<open>Acknowledging fresh ids only.\<close>

definition fresh_acks :: "'a sim_act \<Rightarrow> bool" where
  "fresh_acks m \<longleftrightarrow> (\<forall>s. distinct (acks (calls_of (m s))) \<and>
     set (acks (calls_of (m s))) \<subseteq> set (sx_seen (state_of (m s))) - set (sx_seen s) \<and>
     set (sx_seen s) \<subseteq> set (sx_seen (state_of (m s))))"

lemma fresh_once: "once [] m \<Longrightarrow> fresh_acks m"
  by (auto simp: once_def fresh_acks_def)

lemma fresh_for: "(\<And>x. fresh_acks (f x)) \<Longrightarrow> fresh_acks (forA xs f)"
proof (induction xs)
  case (Cons x xs)
  have a: "fresh_acks (f x)" "fresh_acks (forA xs f)" using Cons by blast+
  show ?case
    unfolding fresh_acks_def
  proof (intro allI)
    fix s
    note p = a(1) [unfolded fresh_acks_def, rule_format, of s]
    note q = a(2) [unfolded fresh_acks_def, rule_format, of "state_of (f x s)"]
    show "distinct (acks (calls_of (forA (x # xs) f s))) \<and>
      set (acks (calls_of (forA (x # xs) f s))) \<subseteq> set (sx_seen (state_of (forA (x # xs) f s))) - set (sx_seen s) \<and>
      set (sx_seen s) \<subseteq> set (sx_seen (state_of (forA (x # xs) f s)))"
      using p q by (cases "value_of (f x s)") (auto simp: thenA_parts)
  qed
qed (simp add: fresh_once once_basic)

lemma receive_run:
  "receive E origin mid ty callsign s =
     (if ignored origin mid s then (Inr (), s, [])
      else let s1 = note_received mid s; ev = Event (GotMessage (the origin) callsign ty) in
        case (if answers mid ty s1 then sx_ack_unit s1 else None) of None \<Rightarrow> (Inr (), s1, [ev])
        | Some k \<Rightarrow>
            let o' = thenA (sim_publish E k (Receipt (mk_receipt (the mid) Received (Some (''ack '' @ the origin)))))
                (modifyA (\<lambda>s. s\<lparr>sx_acked := sx_acked s + 1\<rparr>)) s1
            in (value_of o', state_of o', ev # calls_of o'))"
  by (auto simp: receive_def bindA_def thenA_def act_defs Let_def case_prod_unfold value_of_def state_of_def calls_of_def
      split: option.split sum.split)

lemma receive_acks:
  "sx_seen (state_of (receive E origin mid ty cs s)) = (if ignored origin mid s then sx_seen s else sx_seen (note_received mid s)) \<and>
   acks (calls_of (receive E origin mid ty cs s)) \<in> {[], [the mid]} \<and>
   (ignored origin mid s \<or> \<not> answers mid ty s \<longrightarrow> acks (calls_of (receive E origin mid ty cs s)) = [])"
proof -
  let ?r = "Receipt (mk_receipt (the mid) Received (Some (''ack '' @ the origin)))"
  have "once [the mid] (thenA (sim_publish E k ?r) (modifyA (\<lambda>s. s\<lparr>sx_acked := sx_acked s + 1\<rparr>)))" for k
    using sim_publish_once [of ?r E k] by (intro once_then(2) once_basic) (simp_all add: ack_of_def mk_receipt_def)
  note o' = this [unfolded once_def, rule_format]
  have "answers mid ty (note_received mid s) = answers mid ty s" by (simp add: answers_def note_received_def)
  then show ?thesis using o' by (auto simp: receive_run Let_def split: option.split)
qed

lemma receive_fresh: "fresh_acks (receive E origin mid ty cs)"
  unfolding fresh_acks_def
proof (intro allI)
  fix s
  note r = receive_acks [of E origin mid ty cs s]
  have "truthy mid \<and> the mid \<notin> set (sx_seen s)" if "\<not> ignored origin mid s" "answers mid ty s"
    using that by (auto simp: ignored_def answers_def)
  then show "distinct (acks (calls_of (receive E origin mid ty cs s))) \<and>
    set (acks (calls_of (receive E origin mid ty cs s))) \<subseteq> set (sx_seen (state_of (receive E origin mid ty cs s))) - set (sx_seen s) \<and>
    set (sx_seen s) \<subseteq> set (sx_seen (state_of (receive E origin mid ty cs s)))"
    using r by (cases "ignored origin mid s \<or> \<not> answers mid ty s") (auto simp: note_received_def)
qed

lemma feed_fresh: "fresh_acks (on_feed E e)"
  by (simp add: on_feed_def receive_fresh fresh_once once_basic)

lemma listen_fresh: "fresh_acks (listen E t)"
  by (auto simp: listen_def status_def feed_fresh intro!: fresh_once once_get once_basic split: feed_turn.split)

lemma unit_frame_fresh: "fresh_acks (unit_frame E i raw)"
proof -
  have "fresh_acks (forA ms (rx_handle E))" for ms by (intro fresh_for) (simp add: rx_handle_def receive_fresh)
  note f = this [unfolded fresh_acks_def, rule_format]
  have seen: "sx_seen (set_unit i u s) = sx_seen s" for u s by (simp add: set_unit_def)
  show ?thesis
    unfolding fresh_acks_def
  proof (intro allI)
    fix s :: sim
    let ?goal = "\<lambda>o'. distinct (acks (calls_of o')) \<and> set (acks (calls_of o')) \<subseteq> set (sx_seen (state_of o')) - set (sx_seen s) \<and>
      set (sx_seen s) \<subseteq> set (sx_seen (state_of o'))"
    show "?goal (unit_frame E i raw s)"
    proof (cases "lu_gateway (unit_at i s)")
      case None
      then show ?thesis by (simp add: unit_frame_def)
    next
      case (Some g)
      obtain r g' cs where r: "gw_on_frame (xe_world E) raw g = (r, g', cs)" by (rule prod_cases3)
      show ?thesis
        using f [of "handled cs" "set_unit i ((unit_at i s)\<lparr>lu_gateway := Some g'\<rparr>) s"]
        by (simp add: unit_frame_def Some r seen)
    qed
  qed
qed

lemma step_fresh:
  assumes "sim_step F G s cs s'"
  shows "distinct (acks cs) \<and> set (acks cs) \<subseteq> set (sx_seen s') - set (sx_seen s) \<and> set (sx_seen s) \<subseteq> set (sx_seen s')"
proof -
  have "\<exists>m :: unit sim_act. fresh_acks m \<and> cs = calls_of (m s) \<and> s' = state_of (m s)"
    using assms
  proof cases
    case (emitted E i m t o')
    then have "once [] m" by (auto intro: announce_once sections_once)
    then show ?thesis using emitted fresh_once by blast
  qed (blast intro: fresh_once start_once stop_once advance_once tick_once listen_fresh unit_frame_fresh)+
  then show ?thesis by (auto simp: fresh_acks_def)
qed

lemma run_fresh:
  "sim_run F G s0 cs s \<Longrightarrow> distinct (acks cs) \<and> set (acks cs) \<subseteq> set (sx_seen s)"
proof (induction rule: sim_run.induct)
  case (step cs s ds s')
  then show ?case using step_fresh [OF step.hyps(2)] by auto
qed simp

text \<open>Property C35: the simulator acknowledges no message twice, whatever it receives and however its work
  interleaves; and it never acknowledges its own traffic, a receipt, or a message without an
  originator or an id, so that two simulators do not answer each other's receipts for ever.\<close>

theorem acknowledged_once:
  assumes "sim_run F G s0 cs s"
  shows "distinct (acks cs) \<and> set (acks cs) \<subseteq> set (sx_seen s) \<and>
    (\<forall>E origin mid ty callsign. the origin \<in> set (sx_own_ids s) \<or> \<not> truthy origin \<or> \<not> truthy mid \<or> ty = Some (type_name RECEIPT) \<longrightarrow>
       acks (calls_of (receive E origin mid ty callsign s)) = [])"
proof -
  have "ignored origin mid s \<or> \<not> answers mid ty s"
    if "the origin \<in> set (sx_own_ids s) \<or> \<not> truthy origin \<or> \<not> truthy mid \<or> ty = Some (type_name RECEIPT)" for origin mid ty
    using that by (auto simp: ignored_def answers_def)
  then show ?thesis using run_fresh [OF assms] receive_acks by blast
qed

section \<open>Witnesses\<close>

definition demo_sim_env :: sim_env where
  "demo_sim_env = \<lparr> xe_f = demo_fenv, xe_g = demo_rng, xe_world = Gateway.demo_world, xe_mid = (\<lambda>n. show_nat n),
     xe_dash = ''-'', xe_dots = ''...'', xe_post = (\<lambda>_. None), xe_health = Inr ''node'' \<rparr>"

definition demo_options :: sim_options where
  "demo_options = \<lparr> so_secure = True, so_transport = ''udp'', so_codec = ''xml'', so_network_id = None,
     so_psk = ''jdss-coalition-key'', so_classification = 1, so_mode = ''inject'',
     so_gateway_url = ''http://localhost:8000/'', so_seed = 1337, so_stress = 0, so_auto_ack = True \<rparr>"

definition demo_sim :: sim where
  "demo_sim = sim_init demo_sim_env (narvik demo_fenv ''-'') demo_options"

definition demo_sim_started :: sim where
  "demo_sim_started = state_of (sim_start demo_sim_env demo_sim)"

definition demo_event :: feed_event where
  "demo_event = \<lparr> fe_direction = Some ''received'', fe_originator_id = Some ''bob'', fe_message_id = Some ''m7'',
     fe_type = Some ''Chat'', fe_callsign = None \<rparr>"

lemma demo_start: "sim_run demo_fenv demo_rng demo_sim ([] @ calls_of (sim_start demo_sim_env demo_sim)) demo_sim_started"
  unfolding demo_sim_started_def
  by (intro sim_run.step [OF sim_run.start] sim_step.started [where E = demo_sim_env] refl) (simp_all add: demo_sim_env_def)


theorem acknowledged_once_witness:
  "distinct (acks (calls_of (sim_start demo_sim_env demo_sim) @ calls_of (listen demo_sim_env (Arrives demo_event) demo_sim_started)))"
proof -
  have e: "xe_f demo_sim_env = demo_fenv" "xe_g demo_sim_env = demo_rng" by (simp_all add: demo_sim_env_def)
  have "sim_run demo_fenv demo_rng demo_sim (([] @ calls_of (sim_start demo_sim_env demo_sim)) @
      calls_of (listen demo_sim_env (Arrives demo_event) demo_sim_started)) (state_of (listen demo_sim_env (Arrives demo_event) demo_sim_started))"
    by (rule sim_run.step [OF demo_start sim_step.listened [OF e refl]])
  from acknowledged_once [OF this] show ?thesis by (simp del: acks_simps)
qed

end
