(* ===== verification/Profiles.thy ===== *)
theory Profiles
  imports Gateway Geo
begin

text \<open>
  The built-in exercise's clients: the role behaviours of \<open>simulator/profiles.py\<close> and the client that
  a behaviour drives (\<open>SimClient\<close> and \<open>Stats\<close> of \<open>simulator/scenario.py\<close>). A client's calls are those
  of its gateway's engine, so that what it sent is there to see.
\<close>

section \<open>Profiles\<close>

datatype profile =
    Rifleman | TeamLeader | Medic | Scout | ForwardObserver | UavSensor | CommandPost | AtakEud | Vehicle

fun profile_role :: "profile \<Rightarrow> string" where
  "profile_role Rifleman = ''rifleman''"
| "profile_role TeamLeader = ''team_leader''"
| "profile_role Medic = ''medic''"
| "profile_role Scout = ''scout''"
| "profile_role ForwardObserver = ''forward_observer''"
| "profile_role UavSensor = ''uav_sensor''"
| "profile_role CommandPost = ''command_post''"
| "profile_role AtakEud = ''atak_operator''"
| "profile_role Vehicle = ''mounted_c2''"

fun profile_device :: "profile \<Rightarrow> string" where
  "profile_device Rifleman = ''eud''"
| "profile_device TeamLeader = ''eud''"
| "profile_device Medic = ''eud''"
| "profile_device Scout = ''eud''"
| "profile_device ForwardObserver = ''tablet''"
| "profile_device UavSensor = ''uav''"
| "profile_device CommandPost = ''c2_workstation''"
| "profile_device AtakEud = ''atak''"
| "profile_device Vehicle = ''vehicle''"

text \<open>The message types a role is expected to originate.\<close>

fun profile_emits :: "profile \<Rightarrow> message_type list" where
  "profile_emits Rifleman = [PRESENCE, CHAT]"
| "profile_emits TeamLeader = [IDENTIFICATION, PRESENCE, CHAT, CONTACT, CASEVAC, GENINFO]"
| "profile_emits Medic = [PRESENCE, CHAT, RECEIPT]"
| "profile_emits Scout = [PRESENCE, CONTACT, SKETCH]"
| "profile_emits ForwardObserver = [PRESENCE, CONTACT, OVERLAY]"
| "profile_emits UavSensor = [CONTACT, PRESENCE]"
| "profile_emits CommandPost = [IDENTIFICATION, CHAT]"
| "profile_emits AtakEud = [IDENTIFICATION, PRESENCE, CHAT, CONTACT, OVERLAY, CHATROOMS]"
| "profile_emits Vehicle = [IDENTIFICATION, PRESENCE, CONTACT]"

definition CLIENT_PROFILES :: "(string, profile) dict" where
  "CLIENT_PROFILES = [(''rifleman'', Rifleman), (''teamleader'', TeamLeader), (''medic'', Medic), (''scout'', Scout),
     (''observer'', ForwardObserver), (''sensor'', UavSensor), (''commandpost'', CommandPost), (''atak'', AtakEud),
     (''vehicle'', Vehicle)]"

section \<open>Clients\<close>

record stats =
  st_casevac_requests :: nat
  st_casevac_acks :: nat
  st_observed :: "(string, nat) dict"
  st_per_origin :: "(string, nat) dict"
  st_origins :: "string list"

definition stats_init :: stats where
  "stats_init = \<lparr> st_casevac_requests = 0, st_casevac_acks = 0, st_observed = [], st_per_origin = [], st_origins = [] \<rparr>"

definition bump :: "string \<Rightarrow> (string, nat) dict \<Rightarrow> (string, nat) dict" where
  "bump k d = AList.update k (dict_get d k 0 + 1) d"

definition observe :: "message \<Rightarrow> stats \<Rightarrow> stats" where
  "observe m st =
     (let origin = originator_id (header m) in
      st\<lparr>st_observed := bump (msg_type m) (st_observed st), st_origins := List.insert origin (st_origins st),
         st_per_origin := bump origin (st_per_origin st)\<rparr>)"

record sim_client =
  xc_node_id :: string
  xc_callsign :: string
  xc_profile :: profile
  xc_gateway :: gateway
  xc_pos :: point
  xc_sent :: "(string, nat) dict"
  xc_stats :: stats

text \<open>\<open>ex_mid n\<close> is the id of the \<open>n\<close>-th message.\<close>

record exercise_env =
  ex_f :: fenv
  ex_world :: world
  ex_mid :: "nat \<Rightarrow> string"

type_synonym 'a client_act = "(sim_client, call, 'a) act"

definition on_client_gateway :: "'a gact \<Rightarrow> 'a client_act" where
  "on_client_gateway m s = (case m (xc_gateway s) of (r, g, cs) \<Rightarrow> (r, s\<lparr>xc_gateway := g\<rparr>, cs))"

definition count_sent :: "message_type \<Rightarrow> unit client_act" where
  "count_sent t = modifyA (\<lambda>s. s\<lparr>xc_sent := bump (type_name t) (xc_sent s)\<rparr>)"

definition total_sent :: "sim_client \<Rightarrow> nat" where
  "total_sent s = sum_list (map snd (xc_sent s))"

text \<open>A message verb: publish through the node, then count.\<close>

definition verb :: "exercise_env \<Rightarrow> (string \<Rightarrow> message gact) \<Rightarrow> message_type \<Rightarrow> unit client_act" where
  "verb E m t =
     bindA (getA (\<lambda>s. ex_mid E (total_sent s))) (\<lambda>mid.
     bindA (on_client_gateway (m mid)) (\<lambda>_. count_sent t))"

definition walk :: "fenv \<Rightarrow> unit client_act" where
  "walk F = modifyA (\<lambda>s. s\<lparr>xc_pos := (fl F (fst (xc_pos s) + fl F (2 / 10000)), fl F (snd (xc_pos s) + fl F (1 / 10000)))\<rparr>)"

definition client_identify :: "exercise_env \<Rightarrow> unit client_act" where
  "client_identify E = verb E (node_identify (ex_world E)) IDENTIFICATION"

definition client_presence :: "exercise_env \<Rightarrow> int option \<Rightarrow> unit client_act" where
  "client_presence E battery =
     thenA (walk (ex_f E))
     (bindA (getA xc_pos) (\<lambda>p.
      verb E (\<lambda>mid. node_presence (ex_world E) mid (fst p) (snd p) battery) PRESENCE))"

definition client_chat :: "exercise_env \<Rightarrow> string \<Rightarrow> string \<Rightarrow> unit client_act" where
  "client_chat E text recipient = verb E (\<lambda>mid. node_chat (ex_world E) mid text recipient) CHAT"

definition client_contact :: "exercise_env \<Rightarrow> string \<Rightarrow> standard_identity \<Rightarrow> unit client_act" where
  "client_contact E description identity =
     bindA (getA xc_pos) (\<lambda>p.
     verb E (\<lambda>mid. node_report_contact (ex_world E) mid (fst p) (snd p) description identity) CONTACT)"

definition client_casevac :: "exercise_env \<Rightarrow> int \<Rightarrow> int \<Rightarrow> unit client_act" where
  "client_casevac E urgent priority =
     thenA (modifyA (\<lambda>s. s\<lparr>xc_stats := (xc_stats s)\<lparr>st_casevac_requests := st_casevac_requests (xc_stats s) + 1\<rparr>\<rparr>))
     (bindA (getA xc_pos) (\<lambda>p.
      verb E (\<lambda>mid. node_request_casevac (ex_world E) mid (fst p) (snd p) urgent priority) CASEVAC))"

definition client_move_to :: "exercise_env \<Rightarrow> rat \<Rightarrow> rat \<Rightarrow> unit client_act" where
  "client_move_to E lat lon = thenA (modifyA (\<lambda>s. s\<lparr>xc_pos := (lat, lon)\<rparr>)) (client_presence E (Some 95))"

definition client_publish :: "exercise_env \<Rightarrow> body \<Rightarrow> message_type \<Rightarrow> unit client_act" where
  "client_publish E b t = verb E (\<lambda>mid. gw_publish (ex_world E) mid b) t"

section \<open>Behaviours\<close>

definition marker :: "exercise_env \<Rightarrow> string \<Rightarrow> string \<Rightarrow> int \<Rightarrow> int \<Rightarrow> unit client_act" where
  "marker E name label dlat dlon =
     bindA (getA xc_pos) (\<lambda>p.
     bindA (liftA (mk_location (fl (ex_f E) (fst p + fl (ex_f E) (of_int dlat / 1000)))
       (fl (ex_f E) (snd p + fl (ex_f E) (of_int dlon / 1000))) None)) (\<lambda>place.
     client_publish E (Overlay \<lparr> ov_name = name, ov_graphics =
       [\<lparr> og_sidc = sidc ''control_point'' FRIEND None PRESENT, og_location = place, og_label = label \<rparr>] \<rparr>) OVERLAY))"

fun on_start :: "exercise_env \<Rightarrow> profile \<Rightarrow> unit client_act" where
  "on_start E ForwardObserver =
     thenA (client_identify E) (marker E ''fire support coordination'' ''TRP-01'' 10 10)"
| "on_start E AtakEud =
     thenA (client_identify E)
     (thenA (marker E ''ATAK markers'' ''RALLY'' 5 (-3))
      (bindA (getA xc_node_id) (\<lambda>nid.
       client_publish E (Chatrooms (mk_chatrooms (Some [mk_chatroom ''All Chat Rooms'' (Some ''All Chat Rooms'') None,
         mk_chatroom ''Team'' (Some ''Team'') (Some [nid])]))) CHATROOMS)))"
| "on_start E p = client_identify E"

text \<open>\<open>if tick % n == 0\<close> and \<open>if tick % n == 0 and tick\<close>.\<close>

definition every :: "nat \<Rightarrow> nat \<Rightarrow> unit client_act \<Rightarrow> unit client_act" where
  "every n tick m = (if tick mod n = 0 then m else retA ())"

definition later :: "nat \<Rightarrow> nat \<Rightarrow> unit client_act \<Rightarrow> unit client_act" where
  "later n tick m = (if tick mod n = 0 \<and> tick \<noteq> 0 then m else retA ())"

definition here :: "(location \<Rightarrow> unit client_act) \<Rightarrow> unit client_act" where
  "here f = bindA (getA xc_pos) (\<lambda>p. bindA (liftA (mk_location (fst p) (snd p) None)) f)"

definition sitrep :: "exercise_env \<Rightarrow> unit client_act" where
  "sitrep E = here (\<lambda>place.
     client_publish E (GeneralInfo (mk_geninfo (Some ''SITREP'')
       (Some ''objective consolidated, ammunition resupply requested'') (Some place))) GENINFO)"

definition recce_sketch :: "exercise_env \<Rightarrow> unit client_act" where
  "recce_sketch E = here (\<lambda>place.
     bindA (getA xc_pos) (\<lambda>p.
     bindA (liftA (mk_location (fl (ex_f E) (fst p + fl (ex_f E) (2 / 1000))) (snd p) None)) (\<lambda>ford.
     client_publish E (Sketch \<lparr> sk_title = ''route recce'', sk_points =
       [\<lparr> sp_location = place, sp_label = ''start'' \<rparr>, \<lparr> sp_location = ford, sp_label = ''ford'' \<rparr>] \<rparr>) SKETCH)))"

fun on_tick :: "exercise_env \<Rightarrow> profile \<Rightarrow> nat \<Rightarrow> unit client_act" where
  "on_tick E Rifleman tick =
     thenA (client_presence E (Some (max 20 (100 - int tick))))
     (later 5 tick (client_chat E ''moving to next bound'' ''all''))"
| "on_tick E TeamLeader tick =
     thenA (client_presence E (Some 95))
     (thenA (if tick = 2 then client_casevac E 1 0 else retA ())
     (thenA (later 4 tick (client_chat E ''SITREP: consolidating on objective'' ''all''))
     (thenA (later 6 tick (client_contact E ''dismounted patrol, 300m N'' HOSTILE))
     (later 5 tick (sitrep E)))))"
| "on_tick E Medic tick = client_presence E (Some 95)"
| "on_tick E Scout tick =
     thenA (client_presence E (Some 95))
     (thenA (every 2 tick (client_contact E ''vehicle movement'' UNKNOWN)) (later 5 tick (recce_sketch E)))"
| "on_tick E ForwardObserver tick =
     thenA (client_presence E (Some 95)) (every 3 tick (client_contact E ''target, danger close'' HOSTILE))"
| "on_tick E UavSensor tick =
     thenA (client_presence E (Some 100)) (client_contact E ''automated detection'' UNKNOWN)"
| "on_tick E CommandPost tick = later 7 tick (client_chat E ''FRAGO: hold current positions'' ''all'')"
| "on_tick E AtakEud tick =
     thenA (client_presence E (Some (max 30 (100 - int tick))))
     (thenA (every 3 tick (client_contact E ''marker dropped on ATAK'' UNKNOWN))
      (later 5 tick (client_chat E ''ATAK: checkpoint reached'' ''all'')))"
| "on_tick E Vehicle tick =
     thenA (client_presence E (Some 95))
     (thenA (client_presence E (Some 95)) (every 4 tick (client_contact E ''convoy sighting'' NEUTRAL)))"

definition answer_casevac :: "exercise_env \<Rightarrow> message \<Rightarrow> unit client_act" where
  "answer_casevac E m =
     thenA (modifyA (\<lambda>s. s\<lparr>xc_stats := (xc_stats s)\<lparr>st_casevac_acks := st_casevac_acks (xc_stats s) + 1\<rparr>\<rparr>))
     (thenA (client_publish E (Receipt (mk_receipt (message_id (header m)) Received (Some []))) RECEIPT)
     (thenA (client_chat E (''CASEVAC acknowledged, medic en route to '' @ originator_id (header m)) (originator_id (header m)))
     (case body m of
        CasevacRequest v \<Rightarrow> client_move_to E (loc_lat (cv_location v)) (loc_lon (cv_location v))
      | _ \<Rightarrow> retA ())))"

fun on_message :: "exercise_env \<Rightarrow> profile \<Rightarrow> message \<Rightarrow> unit client_act" where
  "on_message E Medic m = (if body_type (body m) = CASEVAC then answer_casevac E m else retA ())"
| "on_message E CommandPost m = modifyA (\<lambda>s. s\<lparr>xc_stats := observe m (xc_stats s)\<rparr>)"
| "on_message E p m = retA ()"

definition client_start :: "exercise_env \<Rightarrow> unit client_act" where
  "client_start E =
     thenA (on_client_gateway (gw_start (ex_world E))) (bindA (getA xc_profile) (\<lambda>p. on_start E p))"

definition client_step :: "exercise_env \<Rightarrow> nat \<Rightarrow> unit client_act" where
  "client_step E tick = bindA (getA xc_profile) (\<lambda>p. on_tick E p tick)"

definition client_stop :: "unit client_act" where
  "client_stop = on_client_gateway gw_stop"

text \<open>A frame from the network: the gateway's engine, then the profile's reaction to what it handed to
  the client's handler (the last thing the engine does with a frame).\<close>

definition profile_handler :: handler where
  "profile_handler = \<lparr> h_id = 0, h_subs = [''*''], h_raises = (\<lambda>_. None) \<rparr>"

definition for_profile :: "call list \<Rightarrow> message list" where
  "for_profile cs = concat (map (\<lambda>c. case c of Handle k m \<Rightarrow> if k = h_id profile_handler then [m] else [] | _ \<Rightarrow> []) cs)"

definition client_frame :: "exercise_env \<Rightarrow> bytes \<Rightarrow> unit client_act" where
  "client_frame E raw s =
     (case on_client_gateway (gw_on_frame (ex_world E) raw) s of
        (r, s1, cs) \<Rightarrow>
          (case forA (for_profile cs) (on_message E (xc_profile s)) s1 of
             (r', s2, ds) \<Rightarrow> (bindR r (\<lambda>_. r'), s2, cs @ ds)))"

section \<open>What a client sends and what it counts\<close>

text \<open>The types of the messages a run published, in order.\<close>

definition sents :: "call list \<Rightarrow> message_type list" where
  "sents cs = concat (map (\<lambda>c. case c of RecordSent m \<Rightarrow> [body_type (body m)] | _ \<Rightarrow> []) cs)"

lemma sents_simps [simp]: "sents [] = []" "sents (cs @ ds) = sents cs @ sents ds"
  "sents (c # cs) = (case c of RecordSent m \<Rightarrow> [body_type (body m)] | _ \<Rightarrow> []) @ sents cs"
  "sents (replicate k (Send fr)) = []"
  by (simp_all add: sents_def)

lemma sents_none: "list_all (\<lambda>c. \<forall>m. c \<noteq> RecordSent m) cs \<Longrightarrow> sents cs = []"
  by (induction cs) (auto split: call.split)

lemma transmit_sents: "sents (calls_of (transmit D m s)) = []"
proof -
  let ?P = "\<lambda>c. \<forall>m. c \<noteq> RecordSent m"
  have "calls_only ?P (remember m)" "calls_only ?P (send D fr)" for m fr
    by (auto simp: calls_only_def remember_def send_def act_defs Let_def)
  then have "calls_only ?P (transmit D m)"
    unfolding transmit_def Let_def by (intro calls_bind calls_then calls_for calls_basic)
  then show ?thesis by (intro sents_none) (simp add: calls_only_def)
qed

lemma publish_sents:
  "sents (calls_of (publish D m s)) = (if is_ok (value_of (publish D m s)) then [body_type (body m)] else [])"
proof -
  obtain r s1 cs where t: "transmit D (set_originator (node_id s) m) s = (r, s1, cs)" by (rule prod_cases3)
  have cs: "sents cs = []" using transmit_sents [of D "set_originator (node_id s) m" s] by (simp add: t)
  show ?thesis
  proof (cases r)
    case (Inl e)
    then show ?thesis using cs by (simp add: publish_def bindA_def act_defs t)
  next
    case (Inr m')
    have "m' = set_sequence (seq s + 1) (set_originator (node_id s) m)" using transmit_Inr [OF t [unfolded Inr]] by blast
    then have "body m' = body m" by (simp add: set_sequence_def set_originator_def)
    then show ?thesis using cs by (simp add: publish_def bindA_def thenA_def act_defs t Inr)
  qed
qed

text \<open>A gateway operation that publishes one message of type \<open>t\<close> when it returns and none when it raises.\<close>

definition announces :: "message_type \<Rightarrow> 'a gact \<Rightarrow> bool" where
  "announces t m \<longleftrightarrow> (\<forall>g. sents (calls_of (m g)) = (if is_ok (value_of (m g)) then [t] else []))"

lemma announces_publish: "announces (body_type b) (gw_publish W mid b)"
proof -
  have e: "announces (body_type (body m)) (on_engine W (\<lambda>D. publish D m))" for m
  proof -
    have "sents (calls_of (on_engine W (\<lambda>D. publish D m) g)) =
        (if is_ok (value_of (on_engine W (\<lambda>D. publish D m) g)) then [body_type (body m)] else [])" for g
      using publish_sents [of "deps_of W g" m] by (cases "gw_engine g")
        (simp_all add: on_engine_def case_prod_unfold value_of_def calls_of_def)
    then show ?thesis by (simp add: announces_def)
  qed
  have r: "announces t (raiseA x)" for t and x :: pyexn by (simp add: announces_def act_defs)
  have g: "announces t (bindA (getA f) k)" if "\<And>x. announces t (k x)" for t :: message_type and f :: "gateway \<Rightarrow> 'x" and k :: "'x \<Rightarrow> 'y gact"
    using that by (simp add: announces_def bindA_parts act_defs)
  show ?thesis
    using e [of "\<lparr> header = h, body = b \<rparr>" for h]
    by (auto simp: announces_def gw_publish_def bindA_parts act_defs Let_def split: sum.split)
qed

lemma announces_quiet: "(\<And>x. announces t (k x)) \<Longrightarrow> announces t (bindA (getA f) k)"
  "(\<And>x. announces t (k x)) \<Longrightarrow> announces t (bindA (liftA r) k)"
  by (auto simp: announces_def bindA_parts act_defs split: sum.split)

lemma node_announces:
  "announces IDENTIFICATION (node_identify W mid)" "announces PRESENCE (node_presence W mid lat lon battery)"
  "announces CONTACT (node_report_contact W mid lat lon description identity)"
  "announces CASEVAC (node_request_casevac W mid lat lon urgent priority)" "announces CHAT (node_chat W mid text recipient)"
  unfolding node_identify_def node_presence_def node_report_contact_def node_request_casevac_def node_chat_def
  by (intro announces_quiet announces_publish [where b = "Identification i" for i, simplified]
      announces_publish [where b = "Presence i" for i, simplified] announces_publish [where b = "ContactSighting i" for i, simplified]
      announces_publish [where b = "CasevacRequest i" for i, simplified] announces_publish [where b = "ChatMessage i" for i, simplified])+

text \<open>A client operation sends only messages of the types \<open>T\<close> and counts each of them.\<close>

definition tallies :: "message_type set \<Rightarrow> unit client_act \<Rightarrow> bool" where
  "tallies T m \<longleftrightarrow> (\<forall>s. set (sents (calls_of (m s))) \<subseteq> T \<and>
     (\<forall>t. dict_get (xc_sent (state_of (m s))) (type_name t) 0 =
        dict_get (xc_sent s) (type_name t) 0 + count_list (sents (calls_of (m s))) t))"

lemma tallies_basic:
  "tallies T (retA x)" "tallies T (raiseA e)" "(\<And>s. xc_sent (h s) = xc_sent s) \<Longrightarrow> tallies T (modifyA h)"
  by (simp_all add: tallies_def act_defs)

lemma tallies_then: "tallies T m \<Longrightarrow> tallies T n \<Longrightarrow> tallies T (thenA m n)"
  by (auto simp: tallies_def thenA_parts split: sum.split)

lemma tallies_quiet: "(\<And>x. tallies T (f x)) \<Longrightarrow> tallies T (bindA (getA g) f)"
  "(\<And>x. tallies T (f x)) \<Longrightarrow> tallies T (bindA (liftA r) f)"
  by (auto simp: tallies_def bindA_parts act_defs split: sum.split)

lemma type_name_inject: "type_name t = type_name u \<longleftrightarrow> t = u"
  by (cases t; cases u) simp_all

lemma tallies_verb:
  assumes "\<And>mid. announces t (m mid)" and "t \<in> T"
  shows "tallies T (verb E m t)"
  unfolding tallies_def
proof (intro allI)
  fix s
  let ?mid = "ex_mid E (total_sent s)"
  obtain r g cs where r: "m ?mid (xc_gateway s) = (r, g, cs)" by (rule prod_cases3)
  have c: "sents cs = (if is_ok r then [t] else [])" using assms(1) [of ?mid] by (simp add: announces_def) (metis outcome_simps(1,3) r)
  show "set (sents (calls_of (verb E m t s))) \<subseteq> T \<and>
     (\<forall>t'. dict_get (xc_sent (state_of (verb E m t s))) (type_name t') 0 =
        dict_get (xc_sent s) (type_name t') 0 + count_list (sents (calls_of (verb E m t s))) t')"
    using c assms(2)
    by (cases r) (auto simp: verb_def bindA_def act_defs on_client_gateway_def r count_sent_def bump_def dict_get_def
        update_conv type_name_inject)
qed

lemma client_verbs:
  "IDENTIFICATION \<in> T \<Longrightarrow> tallies T (client_identify E)" "PRESENCE \<in> T \<Longrightarrow> tallies T (client_presence E battery)"
  "CHAT \<in> T \<Longrightarrow> tallies T (client_chat E text recipient)" "CONTACT \<in> T \<Longrightarrow> tallies T (client_contact E description identity)"
  "CASEVAC \<in> T \<Longrightarrow> tallies T (client_casevac E urgent priority)" "PRESENCE \<in> T \<Longrightarrow> tallies T (client_move_to E lat lon)"
  "body_type b = t \<Longrightarrow> t \<in> T \<Longrightarrow> tallies T (client_publish E b t)"
  unfolding client_identify_def client_presence_def client_chat_def client_contact_def client_casevac_def
    client_move_to_def client_publish_def walk_def
  by (auto intro!: tallies_then tallies_quiet tallies_basic tallies_verb node_announces announces_publish)

lemma marker_tallies: "OVERLAY \<in> T \<Longrightarrow> tallies T (marker E name label dlat dlon)"
  unfolding marker_def by (intro tallies_quiet client_verbs(7)) simp_all

lemma here_tallies: "(\<And>l. tallies T (f l)) \<Longrightarrow> tallies T (here f)"
  unfolding here_def by (intro tallies_quiet)

lemma sitrep_tallies: "GENINFO \<in> T \<Longrightarrow> tallies T (sitrep E)" "SKETCH \<in> T \<Longrightarrow> tallies T (recce_sketch E)"
  unfolding sitrep_def recce_sketch_def by (auto intro!: here_tallies tallies_quiet client_verbs(7))

lemma when_tallies: "tallies T m \<Longrightarrow> tallies T (every n tick m)" "tallies T m \<Longrightarrow> tallies T (later n tick m)"
  by (simp_all add: every_def later_def tallies_basic)

lemma on_start_tallies: "tallies (insert IDENTIFICATION (set (profile_emits p))) (on_start E p)"
  by (cases p) (auto intro!: tallies_then tallies_quiet client_verbs marker_tallies)

lemma on_tick_tallies: "tallies (set (profile_emits p)) (on_tick E p tick)"
  by (cases p) (auto intro!: tallies_then tallies_basic client_verbs sitrep_tallies when_tallies)

lemma on_message_tallies: "tallies (set (profile_emits p)) (on_message E p m)"
proof -
  have "tallies (set (profile_emits Medic)) (answer_casevac E m)"
    unfolding answer_casevac_def
    by (auto intro!: tallies_then tallies_basic client_verbs split: body.split)
  then show ?thesis by (cases p) (simp_all add: tallies_basic)
qed

lemma tallies_mono: "tallies S m \<Longrightarrow> S \<subseteq> T \<Longrightarrow> tallies T m"
  by (auto simp: tallies_def)

lemma tallies_for: "(\<And>x. tallies T (f x)) \<Longrightarrow> tallies T (forA xs f)"
  by (induction xs) (simp_all add: tallies_basic tallies_then)

lemma frame_sents: "sents (calls_of (on_frame D raw s)) = []"
proof -
  let ?P = "\<lambda>c. \<forall>m. c \<noteq> RecordSent m"
  have c: "calls_only ?P (handle_control D p)" for p
    using calls_control [of D p] by (force simp: calls_only_def list_all_iff is_control_def split: call.splits)
  have d: "calls_only ?P (dispatch m)" for m
    using calls_dispatch [of m] by (force simp: calls_only_def list_all_iff is_handle_def split: call.splits)
  have r: "calls_only ?P (reject why m)" "calls_only ?P (remember m')" for why m m'
    by (auto simp: calls_only_def reject_run remember_def Let_def)
  have "calls_only ?P (receive_message D m)" for m
    unfolding receive_message_def deliver_local_def
    by (auto intro!: calls_bind calls_then calls_basic c d r)
  moreover have "calls_only ?P (catchA (handle_control D p) (\<lambda>_. retA ()))" for p
    using c [of p] by (auto simp: calls_only_def catchA_parts act_defs split: sum.split)
  ultimately have "calls_only ?P (on_frame D raw)"
    unfolding on_frame_def by (auto intro!: r split: sum.split)
  then show ?thesis by (intro sents_none) (simp add: calls_only_def)
qed

lemma start_sents: "sents (calls_of (gw_start W g)) = []"
proof -
  have "calls_only (\<lambda>c. False) (gw_start W)"
    unfolding gw_start_def start_engine_def start_gossip_def start_dist_def attach_def Let_def
    by (auto intro!: calls_then calls_bind calls_basic) (auto simp: calls_only_def gw_join_def split: prod.split)
  then have "calls_of (gw_start W g) = []" by (auto simp: calls_only_def list_all_iff)
  then show ?thesis by simp
qed

lemma gateway_tallies:
  assumes "\<And>g. sents (calls_of (m g)) = []"
  shows "tallies T (on_client_gateway m)"
  using assms by (simp add: tallies_def on_client_gateway_def case_prod_unfold calls_of_def)

section \<open>A client's life\<close>

datatype client_op = CStart | CStep nat | CFrame bytes | CStop

fun client_op_act :: "exercise_env \<Rightarrow> client_op \<Rightarrow> unit client_act" where
  "client_op_act E CStart = client_start E"
| "client_op_act E (CStep tick) = client_step E tick"
| "client_op_act E (CFrame raw) = client_frame E raw"
| "client_op_act E CStop = client_stop"

text \<open>What an operation raises ends in the task that ran it.\<close>

definition live :: "exercise_env \<Rightarrow> client_op list \<Rightarrow> unit client_act" where
  "live E ops = forA ops (\<lambda>op. catchA (client_op_act E op) (\<lambda>_. retA ()))"

definition surface :: "profile \<Rightarrow> message_type set" where
  "surface p = insert IDENTIFICATION (set (profile_emits p))"

definition plays :: "profile \<Rightarrow> unit client_act \<Rightarrow> bool" where
  "plays p m \<longleftrightarrow> (\<forall>s. xc_profile s = p \<longrightarrow> xc_profile (state_of (m s)) = p \<and>
     set (sents (calls_of (m s))) \<subseteq> surface p \<and>
     (\<forall>t. dict_get (xc_sent (state_of (m s))) (type_name t) 0 =
        dict_get (xc_sent s) (type_name t) 0 + count_list (sents (calls_of (m s))) t))"

lemma plays_from: "tallies S m \<Longrightarrow> S \<subseteq> surface p \<Longrightarrow> keeps (\<lambda>s. xc_profile s = p) m \<Longrightarrow> plays p m"
  by (auto simp: plays_def tallies_def keeps_def)

lemma profile_verb: "keeps (\<lambda>s. xc_profile s = p) (verb E m t)"
  by (auto simp: keeps_def verb_def bindA_parts act_defs on_client_gateway_def count_sent_def split: sum.split prod.split)

lemma profile_verbs:
  "keeps (\<lambda>s. xc_profile s = p) (client_identify E)" "keeps (\<lambda>s. xc_profile s = p) (client_presence E battery)"
  "keeps (\<lambda>s. xc_profile s = p) (client_chat E text recipient)"
  "keeps (\<lambda>s. xc_profile s = p) (client_contact E description identity)"
  "keeps (\<lambda>s. xc_profile s = p) (client_casevac E urgent priority)" "keeps (\<lambda>s. xc_profile s = p) (client_move_to E lat lon)"
  "keeps (\<lambda>s. xc_profile s = p) (client_publish E b t)" "keeps (\<lambda>s. xc_profile s = p) (marker E name label dlat dlon)"
  "keeps (\<lambda>s. xc_profile s = p) (sitrep E)" "keeps (\<lambda>s. xc_profile s = p) (recce_sketch E)"
  unfolding client_identify_def client_presence_def client_chat_def client_contact_def client_casevac_def
    client_move_to_def client_publish_def walk_def marker_def sitrep_def recce_sketch_def here_def
  by (auto intro!: keeps_then keeps_bind keeps_basic keeps_modify profile_verb)

lemma profile_when: "keeps I m \<Longrightarrow> keeps I (every n tick m)" "keeps I m \<Longrightarrow> keeps I (later n tick m)"
  by (simp_all add: every_def later_def keeps_basic)

lemma profile_behaviours:
  "keeps (\<lambda>s. xc_profile s = p) (on_start E q)" "keeps (\<lambda>s. xc_profile s = p) (on_tick E q tick)"
  "keeps (\<lambda>s. xc_profile s = p) (on_message E q m)"
proof -
  show "keeps (\<lambda>s. xc_profile s = p) (on_start E q)"
    by (cases q) (auto intro!: keeps_then keeps_bind keeps_basic profile_verbs)
  show "keeps (\<lambda>s. xc_profile s = p) (on_tick E q tick)"
    by (cases q) (auto intro!: keeps_then keeps_basic profile_verbs profile_when)
  have "keeps (\<lambda>s. xc_profile s = p) (answer_casevac E m)"
    unfolding answer_casevac_def
    by (auto intro!: keeps_then keeps_basic keeps_modify profile_verbs split: body.split)
  then show "keeps (\<lambda>s. xc_profile s = p) (on_message E q m)"
    by (cases q) (auto intro!: keeps_basic keeps_modify)
qed

lemma profile_gateway: "keeps (\<lambda>s. xc_profile s = p) (on_client_gateway m)"
  by (simp add: keeps_def on_client_gateway_def case_prod_unfold state_of_def)

lemma plays_then: "plays p m \<Longrightarrow> plays p n \<Longrightarrow> plays p (thenA m n)"
  by (auto simp: plays_def thenA_parts split: sum.split)

lemma plays_profile: "plays p (f p) \<Longrightarrow> plays p (bindA (getA xc_profile) f)"
  by (simp add: plays_def bindA_parts act_defs)

lemma plays_quiet: "(\<And>g. sents (calls_of (m g)) = []) \<Longrightarrow> plays p (on_client_gateway m)"
  by (intro plays_from [OF gateway_tallies [where T = "{}"]] profile_gateway) simp_all

lemma emits_surface: "set (profile_emits p) \<subseteq> surface p"
  by (auto simp: surface_def)

lemma plays_for: "(\<And>x. plays p (f x)) \<Longrightarrow> plays p (forA xs f)"
  by (induction xs) (simp_all add: plays_then, simp add: plays_def act_defs)

lemma plays_message: "plays p (on_message E p m)"
  by (rule plays_from [OF on_message_tallies emits_surface profile_behaviours(3)])

lemma plays_frame: "plays p (client_frame E raw)"
  unfolding plays_def
proof (intro allI impI)
  fix s :: sim_client assume p: "xc_profile s = p"
  obtain r g cs where e: "gw_on_frame (ex_world E) raw (xc_gateway s) = (r, g, cs)" by (rule prod_cases3)
  let ?s1 = "s\<lparr>xc_gateway := g\<rparr>"
  have q: "sents cs = []"
    using frame_sents [of "deps_of (ex_world E) (xc_gateway s)" raw] e
    by (cases "gw_engine (xc_gateway s)") (auto simp: gw_on_frame_def on_engine_def case_prod_unfold calls_of_def)
  obtain r' s2 ds where m: "forA (for_profile cs) (on_message E p) ?s1 = (r', s2, ds)" by (rule prod_cases3)
  have c: "client_frame E raw s = (bindR r (\<lambda>_. r'), s2, cs @ ds)"
    by (simp add: client_frame_def on_client_gateway_def e p m)
  have "plays p (forA (for_profile cs) (on_message E p))" by (intro plays_for plays_message)
  from this [unfolded plays_def, rule_format, of ?s1] p
  show "xc_profile (state_of (client_frame E raw s)) = p \<and> set (sents (calls_of (client_frame E raw s))) \<subseteq> surface p \<and>
     (\<forall>t. dict_get (xc_sent (state_of (client_frame E raw s))) (type_name t) 0 =
        dict_get (xc_sent s) (type_name t) 0 + count_list (sents (calls_of (client_frame E raw s))) t)"
    by (simp add: c m q)
qed

lemma plays_op: "plays p (client_op_act E op)"
proof (cases op)
  case CStart
  have "plays p (on_start E p)"
    by (rule plays_from [OF on_start_tallies _ profile_behaviours(1)]) (simp add: surface_def)
  then show ?thesis
    by (simp add: CStart client_start_def plays_then plays_profile plays_quiet start_sents)
next
  case (CStep tick)
  have "plays p (on_tick E p tick)" by (rule plays_from [OF on_tick_tallies emits_surface profile_behaviours(2)])
  then show ?thesis by (simp add: CStep client_step_def plays_profile)
next
  case (CFrame raw)
  then show ?thesis by (simp add: plays_frame)
next
  case CStop
  have "sents (calls_of (gw_stop g)) = []" for g
    by (simp add: gw_stop_def thenA_parts act_defs split: sum.split)
  then show ?thesis by (simp add: CStop client_stop_def plays_quiet)
qed

lemma plays_catch: "plays p m \<Longrightarrow> plays p (catchA m (\<lambda>_. retA ()))"
  by (auto simp: plays_def catchA_parts act_defs split: sum.split)

lemma plays_live: "plays p (live E ops)"
  unfolding live_def by (intro plays_for plays_catch plays_op)

text \<open>Whatever a client goes through - its start, the ticks of the exercise, the frames that
  reach it, its stop, and any of them raising - it sends only messages of its profile's surface, which is
  the types the profile declares and the identification every client opens with, and the counts it reports
  are the numbers of messages of each type it published.\<close>

theorem client_accounts:
  assumes "xc_profile s = p" and "xc_sent s = []"
  shows "set (sents (calls_of (live E ops s))) \<subseteq> surface p"
    and "dict_get (xc_sent (state_of (live E ops s))) (type_name t) 0 = count_list (sents (calls_of (live E ops s))) t"
  using plays_live [of p E ops, unfolded plays_def, rule_format, of s] assms by (simp_all add: dict_get_def)

end
