(* ===== verification/Exercise.thy ===== *)
theory Exercise
  imports Profiles
begin

text \<open>
  The built-in exercise: a roster of clients on one network (\<open>simulator/scenario.py\<close>) and the rogue client
  that tries the network's defences (\<open>simulator/rogue.py\<close>). Reports are modelled as values; their plain-text
  layout is not. The manager that runs an exercise in the background is in \<open>SimManager\<close>.
\<close>

section \<open>The rogue\<close>

definition ROGUE_MODES :: "string list" where
  "ROGUE_MODES = [''wrong_key'', ''garbage'', ''insider'']"

record rogue =
  rg_gateway :: gateway
  rg_mode :: string
  rg_coalition_psk :: string
  rg_node_id :: string
  rg_frames_sent :: nat

definition rogue_init :: "gateway \<Rightarrow> string \<Rightarrow> string \<Rightarrow> string \<Rightarrow> rogue result" where
  "rogue_init g mode psk nid =
     (if mode \<notin> set ROGUE_MODES
      then Inl (PyExn ValueErr (''unknown rogue mode '' @ py_repr mode @ ''; choose from ('' @
        comma_join_names (map py_repr ROGUE_MODES) @ '')''))
      else Inr \<lparr> rg_gateway = g, rg_mode = mode, rg_coalition_psk = psk, rg_node_id = nid, rg_frames_sent = 0 \<rparr>)"

type_synonym 'a rogue_act = "(rogue, call, 'a) act"

definition on_rogue_gateway :: "'a gact \<Rightarrow> 'a rogue_act" where
  "on_rogue_gateway m r = (case m (rg_gateway r) of (x, g, cs) \<Rightarrow> (x, r\<lparr>rg_gateway := g\<rparr>, cs))"

text \<open>Raw bytes on the transport of the rogue's own radio.\<close>

definition rogue_send :: "bytes \<Rightarrow> unit rogue_act" where
  "rogue_send raw =
     bindA (getA (\<lambda>r. radio_transport (gw_radio (rg_gateway r)))) (\<lambda>t. bindA (liftA t) (\<lambda>_. callA (Send raw)))"

definition rogue_junk :: "nat \<Rightarrow> bytes" where
  "rogue_junk tick = [0x13, 0x37] @ utf8_encode '' rogue junk not-a-jdss-frame '' @ [word_of_nat (tick mod 256)]"

definition INSIDER_PAYLOAD :: bytes where
  "INSIDER_PAYLOAD = utf8_encode ''<garbage>not-jdssdm</garbage>''"

definition rogue_step :: "exercise_env \<Rightarrow> nat \<Rightarrow> unit rogue_act" where
  "rogue_step E tick =
     bindA (getA rg_mode) (\<lambda>mode.
     thenA
       (if mode = ''wrong_key'' then
          bindA (getA (\<lambda>r. ex_mid E (rg_frames_sent r))) (\<lambda>mid.
          bindA (on_rogue_gateway (node_presence (ex_world E) mid
            (fl (ex_f E) (50 + fl (ex_f E) (of_nat tick * fl (ex_f E) (1 / 1000)))) 4 (Some 100))) (\<lambda>_. retA ()))
        else if mode = ''garbage'' then rogue_send (rogue_junk tick)
        else if mode = ''insider'' then
          bindA (getA (\<lambda>r. to_bytes \<lparr> codec_name = ''xml'', security_name = ''psk'',
            payload = sp_protect (psk_security (rg_coalition_psk r)) INSIDER_PAYLOAD \<rparr>)) (\<lambda>fr.
          bindA (liftA fr) rogue_send)
        else retA ())
     (modifyA (\<lambda>r. r\<lparr>rg_frames_sent := rg_frames_sent r + 1\<rparr>)))"

definition rogue_start :: "exercise_env \<Rightarrow> unit rogue_act" where
  "rogue_start E = on_rogue_gateway (gw_start (ex_world E))"

definition rogue_stop :: "unit rogue_act" where
  "rogue_stop = on_rogue_gateway gw_stop"

section \<open>Building an exercise\<close>

definition COALITION_PSK :: string where
  "COALITION_PSK = ''exercise-key''"

definition DEFAULT_ROSTER :: "(string \<times> int) list" where
  "DEFAULT_ROSTER = [(''commandpost'', 1), (''teamleader'', 1), (''rifleman'', 2), (''medic'', 1), (''scout'', 1),
     (''observer'', 1), (''sensor'', 1), (''atak'', 1), (''vehicle'', 1)]"

text \<open>The arguments of \<open>Simulation(...)\<close>.\<close>

record sim_params =
  sp_roster :: "(string \<times> int) list option"
  sp_network_id :: string
  sp_transport :: string
  sp_codec :: string
  sp_sec :: string
  sp_base :: point
  sp_level :: int
  sp_rogue :: "string option"
  sp_blocks :: "(string, string list) dict"
  sp_psk :: string

definition default_sim_params :: sim_params where
  "default_sim_params = \<lparr> sp_roster = None, sp_network_id = ''exercise-jdss'', sp_transport = ''loopback'',
     sp_codec = ''xml'', sp_sec = ''psk'', sp_base = (508503 / 10000, 43517 / 10000), sp_level = 1, sp_rogue = None,
     sp_blocks = [], sp_psk = COALITION_PSK \<rparr>"

record simulation =
  xs_params :: sim_params
  xs_stats :: stats
  xs_clients :: "sim_client list"
  xs_rogue :: "rogue option"

text \<open>\<open>xw_mid i\<close> numbers the message ids of client \<open>i\<close>, the rogue coming after the clients.\<close>

record sim_world =
  xw_f :: fenv
  xw_world :: world
  xw_mid :: "nat \<Rightarrow> nat \<Rightarrow> string"

definition client_env :: "sim_world \<Rightarrow> nat \<Rightarrow> exercise_env" where
  "client_env X i = \<lparr> ex_f = xw_f X, ex_world = xw_world X, ex_mid = xw_mid X i \<rparr>"

definition profile_eps :: "profile eps" where
  "profile_eps g = (if g = ''jdssarrow.profiles'' then map (\<lambda>(n, p). (n, Inr p)) CLIENT_PROFILES else [])"

definition make_profile :: "string \<Rightarrow> profile result" where
  "make_profile name =
     (case create profile_eps ''profiles'' name of
        Inr p \<Rightarrow> Inr p
      | Inl e \<Rightarrow>
          if exn_kind e = PluginErr
          then (case map_of CLIENT_PROFILES name of None \<Rightarrow> Inl (PyExn KeyErr (py_repr name)) | Some p \<Rightarrow> Inr p)
          else Inl e)"

text \<open>A configuration outside its fields' constraints raises when it is built.\<close>

definition checked :: "gateway_config \<Rightarrow> gateway_config result" where
  "checked cfg = (if config_ok cfg then Inr cfg else Inl (PyExn ValidationErr ''GatewayConfig''))"

definition sim_config :: "sim_params \<Rightarrow> string \<Rightarrow> string \<Rightarrow> string \<Rightarrow> string \<Rightarrow> gateway_config result" where
  "sim_config P nid callsign role nation = checked (default_config
     \<lparr>cfg_identity := \<lparr> ni_node_id = nid, ni_callsign = callsign, ni_unit = ''JDSS-EXER'', ni_nation = nation, ni_role = role \<rparr>,
      cfg_plugins := default_plugins\<lparr>pl_transport := sp_transport P, pl_codec := sp_codec P, pl_security := sp_sec P\<rparr>,
      cfg_network := default_network\<lparr>nc_network_id := sp_network_id P, nc_repeat := 2, nc_psk := sp_psk P\<rparr>,
      cfg_classification := \<lparr> cc_level = sp_level P, cc_releasable_to = ''REL BEL NLD'' \<rparr>\<rparr>)"

definition roster_of :: "sim_params \<Rightarrow> (string \<times> int) list" where
  "roster_of P = (case sp_roster P of None \<Rightarrow> DEFAULT_ROSTER | Some r \<Rightarrow> if r = [] then DEFAULT_ROSTER else r)"

definition slots :: "(string \<times> int) list \<Rightarrow> (string \<times> nat) list" where
  "slots roster = concat (map (\<lambda>(name, k). map (\<lambda>n. (name, n)) [0..<nat k]) roster)"

definition home_of :: "fenv \<Rightarrow> point \<Rightarrow> nat \<Rightarrow> point" where
  "home_of F base idx =
     (let angle = fl F (of_nat idx * fl F (9 / 10)); r = fl F (4 / 1000) in
      (fl F (fst base + fl F (r * m_sin F angle)), fl F (snd base + fl F (r * m_cos F angle))))"

definition build_client :: "sim_world \<Rightarrow> sim_params \<Rightarrow> nat \<times> string \<times> nat \<Rightarrow> sim_client result" where
  "build_client X P slot =
     (case slot of (idx, name, n) \<Rightarrow>
        bindR (make_profile name) (\<lambda>p.
        let nid = name @ ''-'' @ show_nat (n + 1);
            callsign = py_upper (take 3 name) @ ''-'' @ show_nat (n + 1);
            nation = (if idx mod 2 = 0 then ''BEL'' else ''NLD'') in
        bindR (sim_config P nid callsign (profile_role p) nation) (\<lambda>cfg.
        bindR (gateway_init (xw_world X) cfg) (\<lambda>g.
        let g = fold (\<lambda>b h. state_of (block_peer b h)) (dict_get (sp_blocks P) nid []) g in
        Inr \<lparr> xc_node_id = nid, xc_callsign = callsign, xc_profile = p,
              xc_gateway = state_of (gw_add_handler profile_handler g),
              xc_pos = home_of (xw_f X) (sp_base P) idx, xc_sent = [], xc_stats = stats_init \<rparr>))))"

definition build_rogue :: "sim_world \<Rightarrow> sim_params \<Rightarrow> string \<Rightarrow> rogue result" where
  "build_rogue X P mode =
     bindR (checked (default_config
       \<lparr>cfg_identity := \<lparr> ni_node_id = ''rogue-1'', ni_callsign = ''RGUE-1'', ni_unit = ''???'', ni_nation = ''ZZ'', ni_role = ''rogue'' \<rparr>,
        cfg_plugins := default_plugins\<lparr>pl_transport := sp_transport P, pl_codec := sp_codec P, pl_security := ''psk''\<rparr>,
        cfg_network := default_network\<lparr>nc_network_id := sp_network_id P, nc_repeat := 2,
          nc_psk := (if mode = ''wrong_key'' then ''rogue-unauthorised-key'' else COALITION_PSK)\<rparr>,
        cfg_classification := \<lparr> cc_level = sp_level P, cc_releasable_to = cc_releasable_to default_classification \<rparr>\<rparr>)) (\<lambda>cfg.
     bindR (gateway_init (xw_world X) cfg) (\<lambda>g.
     rogue_init g mode COALITION_PSK ''rogue-1''))"

definition exercise_init :: "sim_world \<Rightarrow> sim_params \<Rightarrow> simulation result" where
  "exercise_init X P =
     bindR (mapR (build_client X P) (enumerate 0 (slots (roster_of P)))) (\<lambda>cs.
     bindR (case sp_rogue P of
              None \<Rightarrow> Inr None
            | Some mode \<Rightarrow> if mode = [] then Inr None else bindR (build_rogue X P mode) (\<lambda>r. Inr (Some r))) (\<lambda>rogue.
     Inr \<lparr> xs_params = P, xs_stats = stats_init, xs_clients = cs, xs_rogue = rogue \<rparr>))"

section \<open>Running it\<close>

text \<open>The calls carry the index of the client whose engine made them, the rogue's none. The clients share
  one tally object: it is handed to the client that runs and taken back.\<close>

type_synonym 'a exercise_act = "(simulation, nat option \<times> call, 'a) act"

definition on_client :: "nat \<Rightarrow> 'a client_act \<Rightarrow> 'a exercise_act" where
  "on_client i m s =
     (case m ((xs_clients s ! i)\<lparr>xc_stats := xs_stats s\<rparr>) of
        (r, c, cs) \<Rightarrow> (r, s\<lparr>xs_clients := (xs_clients s)[i := c], xs_stats := xc_stats c\<rparr>, map (Pair (Some i)) cs))"

definition each_client :: "(nat \<Rightarrow> unit client_act) \<Rightarrow> unit exercise_act" where
  "each_client f = bindA (getA (\<lambda>s. [0..<length (xs_clients s)])) (\<lambda>is. forA is (\<lambda>i. on_client i (f i)))"

definition on_rogue :: "unit rogue_act \<Rightarrow> unit exercise_act" where
  "on_rogue m s =
     (case xs_rogue s of
        None \<Rightarrow> (Inr (), s, [])
      | Some rog \<Rightarrow> (case m rog of (r, rg', cs) \<Rightarrow> (r, s\<lparr>xs_rogue := Some rg'\<rparr>, map (Pair None) cs)))"

definition rogue_env :: "sim_world \<Rightarrow> simulation \<Rightarrow> exercise_env" where
  "rogue_env X s = client_env X (length (xs_clients s))"

definition exercise_start :: "sim_world \<Rightarrow> unit exercise_act" where
  "exercise_start X = thenA (each_client (\<lambda>i. client_start (client_env X i)))
     (bindA (getA (rogue_env X)) (\<lambda>E. on_rogue (rogue_start E)))"

definition exercise_tick :: "sim_world \<Rightarrow> nat \<Rightarrow> unit exercise_act" where
  "exercise_tick X n = thenA (each_client (\<lambda>i. client_step (client_env X i) n))
     (bindA (getA (rogue_env X)) (\<lambda>E. on_rogue (rogue_step E n)))"

definition exercise_stop :: "unit exercise_act" where
  "exercise_stop = thenA (each_client (\<lambda>i. client_stop)) (on_rogue rogue_stop)"

definition exercise_frame :: "sim_world \<Rightarrow> nat \<Rightarrow> bytes \<Rightarrow> unit exercise_act" where
  "exercise_frame X i raw = on_client i (client_frame (client_env X i) raw)"

section \<open>The report\<close>

record client_row =
  cr_node_id :: string
  cr_callsign :: string
  cr_role :: string
  cr_device :: string
  cr_nation :: string
  cr_sent_total :: nat
  cr_sent_by_type :: "(string, nat) dict"

record sim_report =
  rp_network_id :: string
  rp_transport :: string
  rp_codec :: string
  rp_ticks :: nat
  rp_clients :: "client_row list"
  rp_types_observed :: "string list"
  rp_casevac_requests :: nat
  rp_casevac_acks :: nat
  rp_peers :: "string list"
  rp_rogue_mode :: "string option"
  rp_rogue_frames_sent :: nat
  rp_rogue_frames_rejected :: nat
  rp_rogue_observed :: bool
  rp_nodes :: "string list"
  rp_matrix :: "(string, (string, nat) dict) dict"
  rp_rogue_node :: "string option"

definition client_report :: "sim_client \<Rightarrow> client_row" where
  "client_report c = \<lparr> cr_node_id = xc_node_id c, cr_callsign = xc_callsign c, cr_role = profile_role (xc_profile c),
     cr_device = profile_device (xc_profile c), cr_nation = ni_nation (cfg_identity (gw_config (xc_gateway c))),
     cr_sent_total = total_sent c, cr_sent_by_type = xc_sent c \<rparr>"

text \<open>An observer's row: how many messages it accepted of whom.\<close>

definition heard_row :: "int \<Rightarrow> gateway \<Rightarrow> (string, nat) dict" where
  "heard_row now g =
     dict_update [] (map (\<lambda>p. (pv_node_id p, pv_messages p)) (peers now 10000000 (gw_metrics g)))"

definition observers :: "simulation \<Rightarrow> (string \<times> gateway) list" where
  "observers s = map (\<lambda>c. (xc_node_id c, xc_gateway c)) (xs_clients s) @
     (case xs_rogue s of None \<Rightarrow> [] | Some r \<Rightarrow> [(rg_node_id r, rg_gateway r)])"

definition sim_matrix :: "int \<Rightarrow> simulation \<Rightarrow> string list \<times> (string, (string, nat) dict) dict \<times> string option" where
  "sim_matrix now s =
     (map fst (observers s), dict_update [] (map (\<lambda>(n, g). (n, heard_row now g)) (observers s)),
      map_option rg_node_id (xs_rogue s))"

definition report_of :: "int \<Rightarrow> nat \<Rightarrow> simulation \<Rightarrow> sim_report" where
  "report_of now ticks s =
     (case sim_matrix now s of (nodes, rows, rogue_node) \<Rightarrow>
        \<lparr> rp_network_id = sp_network_id (xs_params s), rp_transport = sp_transport (xs_params s),
          rp_codec = sp_codec (xs_params s), rp_ticks = ticks, rp_clients = map client_report (xs_clients s),
          rp_types_observed = sort (map fst (st_observed (xs_stats s))),
          rp_casevac_requests = st_casevac_requests (xs_stats s), rp_casevac_acks = st_casevac_acks (xs_stats s),
          rp_peers = sort (st_origins (xs_stats s)), rp_rogue_mode = sp_rogue (xs_params s),
          rp_rogue_frames_sent = (case xs_rogue s of None \<Rightarrow> 0 | Some r \<Rightarrow> rg_frames_sent r),
          rp_rogue_frames_rejected = sum_list (map (\<lambda>c. dict_get (m_drops (gw_metrics (xc_gateway c))) ''decode'' 0) (xs_clients s)),
          rp_rogue_observed = (case xs_rogue s of None \<Rightarrow> False | Some r \<Rightarrow> rg_node_id r \<in> set (st_origins (xs_stats s))),
          rp_nodes = nodes, rp_matrix = rows, rp_rogue_node = rogue_node \<rparr>)"

definition ALL_TYPES :: "string list" where
  "ALL_TYPES = map type_name [IDENTIFICATION, PRESENCE, CONTACT, CASEVAC, CHAT, RECEIPT, GENINFO, OVERLAY, SKETCH, CHATROOMS]"

definition all_message_types :: "sim_report \<Rightarrow> bool" where
  "all_message_types R \<longleftrightarrow> set ALL_TYPES \<subseteq> set (rp_types_observed R)"

definition rogue_rejected :: "sim_report \<Rightarrow> bool" where
  "rogue_rejected R \<longleftrightarrow> rp_rogue_mode R \<noteq> None \<and> \<not> rp_rogue_observed R \<and> 0 < rp_rogue_frames_rejected R"

section \<open>The rogue is not heard\<close>

text \<open>What a frame's sender made of it: a payload its provider protected.\<close>

definition protected_by :: "security_provider \<Rightarrow> call \<Rightarrow> bool" where
  "protected_by S c \<longleftrightarrow> (\<forall>raw. c = Send raw \<longrightarrow> (\<exists>f p. to_bytes f = Inr raw \<and> payload f = sp_protect S p))"

lemma transmit_protected: "calls_only (protected_by (d_security D)) (transmit D m)"
proof -
  have "calls_only (protected_by (d_security D)) (remember m')" for m'
    by (auto simp: calls_only_def remember_def Let_def)
  moreover have "calls_only (protected_by (d_security D)) (send D fr)" if "data_frame D b = Inr fr" for b fr
    using that by (auto simp: calls_only_def send_def act_defs protected_by_def data_frame_def) force+
  ultimately show ?thesis
    unfolding transmit_def Let_def
    by (intro calls_bind calls_then calls_for calls_basic calls_lift)
qed

lemma publish_protected: "list_all (protected_by (d_security D)) (calls_of (publish D m s))"
proof -
  have "protected_by (d_security D) (RecordSent m')" for m' by (simp add: protected_by_def)
  then have "calls_only (protected_by (d_security D)) (publish D m)"
    unfolding publish_def by (intro calls_bind calls_then calls_basic transmit_protected)
  then show ?thesis by (simp add: calls_only_def)
qed

lemma engine_protected: "list_all (protected_by (gw_security g)) (calls_of (on_engine W (\<lambda>D. publish D m) g))"
  using publish_protected [of "deps_of W g" m] by (cases "gw_engine g")
    (simp_all add: on_engine_def case_prod_unfold calls_of_def deps_of_def)

lemma gw_publish_protected: "list_all (protected_by (gw_security g)) (calls_of (gw_publish W mid b g))"
  using engine_protected [of g W]
  by (auto simp: gw_publish_def bindA_parts act_defs Let_def split: sum.split)

lemma presence_protected: "list_all (protected_by (gw_security g)) (calls_of (node_presence W mid lat lon battery g))"
  using gw_publish_protected [of g W mid]
  by (auto simp: node_presence_def bindA_parts act_defs split: sum.split)

lemma junk_unframed: "\<not> is_ok (from_bytes (rogue_junk tick))"
proof -
  have "slice 0 4 (rogue_junk tick) \<noteq> MAGIC" by (simp add: slice_def MAGIC_def rogue_junk_def byte_of_def)
  then show ?thesis by (simp add: from_bytes_def)
qed

lemma on_rogue_calls: "calls_of (on_rogue_gateway m r) = calls_of (m (rg_gateway r))"
  by (simp add: on_rogue_gateway_def case_prod_unfold calls_of_def)

lemma wrong_key_sends:
  assumes "c \<in> set (calls_of (rogue_step E tick r))" and "rg_mode r = ''wrong_key''"
  shows "protected_by (gw_security (rg_gateway r)) c"
proof -
  obtain W mid lat lon battery where "c \<in> set (calls_of (node_presence W mid lat lon battery (rg_gateway r)))"
    using assms by (auto simp: rogue_step_def bindA_parts thenA_parts act_defs on_rogue_calls split: sum.splits)
  then show ?thesis using presence_protected [of "rg_gateway r" W mid lat lon battery] by (simp add: list_all_iff)
qed

text \<open>A frame that a client's engine drops before it knows a sender.\<close>

definition unread :: "exercise_env \<Rightarrow> sim_client \<Rightarrow> bytes \<Rightarrow> bool" where
  "unread E s raw \<longleftrightarrow>
     (case from_bytes raw of
        Inl _ \<Rightarrow> True
      | Inr f \<Rightarrow>
          (case sp_verify (gw_security (xc_gateway s)) (payload f) of
             Inl _ \<Rightarrow> True
           | Inr p \<Rightarrow> codec_name f \<noteq> CONTROL_CODEC \<and>
               \<not> is_ok (decode_message (deps_of (ex_world E) (xc_gateway s)) (codec_name f) p)))"

lemma unread_drop:
  assumes "unread E s raw"
  shows "\<exists>why. drop_label why = ''decode'' \<and>
    on_frame (deps_of (ex_world E) (xc_gateway s)) raw e = (Inr (), e, [RecordDropped why None, Warn (node_id e) why])"
proof -
  have l: "drop_label (''framing: '' @ x) = ''decode''" "drop_label (''security: '' @ x) = ''decode''"
    "drop_label (''codec: '' @ x) = ''decode''" for x
    by (simp_all only: drop_label_def before_lits Let_def) (simp_all add: COARSE_DROP_def dict_get_def)
  let ?D = "deps_of (ex_world E) (xc_gateway s)"
  show ?thesis
  proof (cases "from_bytes raw")
    case (Inl x)
    then show ?thesis using l(1) by (auto simp: on_frame_def reject_run)
  next
    case f: (Inr f)
    show ?thesis
    proof (cases "sp_verify (d_security ?D) (payload f)")
      case (Inl x)
      then show ?thesis using l(2) by (auto simp: on_frame_def reject_run f)
    next
      case (Inr p)
      moreover have "codec_name f \<noteq> CONTROL_CODEC" "\<not> is_ok (decode_message ?D (codec_name f) p)"
        using assms Inr f by (simp_all add: unread_def deps_of_def)
      ultimately show ?thesis using l(3)
        by (cases "decode_message ?D (codec_name f) p") (auto simp: on_frame_def reject_run f)
    qed
  qed
qed

lemma unread_frame:
  assumes "unread E s raw" and "gw_engine (xc_gateway s) = Some e"
  shows "\<exists>why g. client_frame E raw s = (Inr (), s\<lparr>xc_gateway := g\<rparr>, [RecordDropped why None, Warn (node_id e) why]) \<and>
    gw_engine g = Some e \<and> heard_row now g = heard_row now (xc_gateway s) \<and>
    dict_get (m_drops (gw_metrics g)) ''decode'' 0 = dict_get (m_drops (gw_metrics (xc_gateway s))) ''decode'' 0 + 1"
proof -
  obtain why where w: "drop_label why = ''decode''" and
    r: "on_frame (deps_of (ex_world E) (xc_gateway s)) raw e = (Inr (), e, [RecordDropped why None, Warn (node_id e) why])"
    using unread_drop [OF assms(1)] by blast
  let ?M = "gw_metrics (xc_gateway s)"
  let ?g = "(xc_gateway s)\<lparr>gw_engine := Some e, gw_metrics :=
    record_dropped (w_env (ex_world E)) (w_now (ex_world E)) why None ?M\<rparr>"
  have "client_frame E raw s = (Inr (), s\<lparr>xc_gateway := ?g\<rparr>, [RecordDropped why None, Warn (node_id e) why])"
    by (simp add: client_frame_def on_client_gateway_def gw_on_frame_def on_engine_def assms(2) r for_profile_def
        sink_all_def retA_def)
  moreover have "heard_row now ?g = heard_row now (xc_gateway s)"
    by (simp add: heard_row_def record_dropped_def peers_def Let_def peer_view_def)
  moreover have "dict_get (m_drops (gw_metrics ?g)) ''decode'' 0 = dict_get (m_drops ?M) ''decode'' 0 + 1"
    using w by (simp add: record_dropped_def Let_def count_key_get)
  ultimately show ?thesis by (intro exI [of _ why] exI [of _ ?g]) simp
qed


definition demo_sim_client :: sim_client where
  "demo_sim_client = \<lparr> xc_node_id = ''n'', xc_callsign = ''N-1'', xc_profile = Rifleman,
     xc_gateway = (demo_started ''n'')\<lparr>gw_codec := xml_codec demo_env0\<rparr>, xc_pos = (0, 0), xc_sent = [], xc_stats = stats_init \<rparr>"

definition demo_rogue :: rogue where
  "demo_rogue = \<lparr> rg_gateway = (demo_started ''rogue-1'')\<lparr>gw_radio :=
       \<lparr> radio_id = ''rogue-1'', rd_transport = Some (LoopbackTransport ''g''), rd_network = Some ''net'' \<rparr>\<rparr>,
     rg_mode = ''insider'', rg_coalition_psk = ''jdss-coalition-key'', rg_node_id = ''rogue-1'', rg_frames_sent = 0 \<rparr>"

definition demo_exercise :: "exercise_env \<Rightarrow> exercise_env" where
  "demo_exercise E = E\<lparr>ex_world := demo_world\<rparr>"


section \<open>What the report says was sent\<close>

text \<open>The messages client \<open>i\<close> published, by type.\<close>

definition sent_by :: "nat \<Rightarrow> (nat option \<times> call) list \<Rightarrow> message_type list" where
  "sent_by i cs = sents (map snd (filter (\<lambda>c. fst c = Some i) cs))"

lemma sent_by_append: "sent_by i (cs @ ds) = sent_by i cs @ sent_by i ds"
  by (simp add: sent_by_def)

lemma sent_by_client: "sent_by i (map (Pair (Some j)) cs) = (if i = j then sents cs else [])"
  by (simp add: sent_by_def filter_map comp_def)

lemma sent_by_rogue: "sent_by i (map (Pair None) cs) = []"
  by (simp add: sent_by_def filter_map comp_def)

definition same_clients :: "simulation \<Rightarrow> simulation \<Rightarrow> bool" where
  "same_clients s s' \<longleftrightarrow> map xc_profile (xs_clients s') = map xc_profile (xs_clients s)"

definition sends_as :: "nat \<Rightarrow> simulation \<Rightarrow> simulation \<Rightarrow> message_type list \<Rightarrow> bool" where
  "sends_as i s s' ts \<longleftrightarrow> set ts \<subseteq> surface (xc_profile (xs_clients s ! i)) \<and>
     (\<forall>t. dict_get (xc_sent (xs_clients s' ! i)) (type_name t) 0 =
        dict_get (xc_sent (xs_clients s ! i)) (type_name t) 0 + count_list ts t)"

text \<open>An operation of the exercise under which every client plays its profile.\<close>

definition tracks :: "nat \<Rightarrow> 'a exercise_act \<Rightarrow> bool" where
  "tracks n m \<longleftrightarrow> (\<forall>s. length (xs_clients s) = n \<longrightarrow> same_clients s (state_of (m s)) \<and>
     (\<forall>i < n. sends_as i s (state_of (m s)) (sent_by i (calls_of (m s)))))"

lemma same_clients_length: "same_clients s s' \<Longrightarrow> length (xs_clients s') = length (xs_clients s)"
  unfolding same_clients_def by (metis length_map)

lemma same_clients_nth: "same_clients s s' \<Longrightarrow> i < length (xs_clients s) \<Longrightarrow>
    xc_profile (xs_clients s' ! i) = xc_profile (xs_clients s ! i)"
  unfolding same_clients_def by (metis length_map nth_map)

lemma tracks_quiet: "(\<And>s. xs_clients (state_of (m s)) = xs_clients s \<and> (\<forall>i. sent_by i (calls_of (m s)) = [])) \<Longrightarrow> tracks n m"
  by (simp add: tracks_def same_clients_def sends_as_def)

lemma sends_as_trans:
  assumes "same_clients s s1" and "i < length (xs_clients s)" and "sends_as i s s1 ts" and "sends_as i s1 s2 us"
  shows "sends_as i s s2 (ts @ us)"
  using assms same_clients_nth [OF assms(1,2)] by (simp add: sends_as_def)

lemma tracks_then:
  assumes "tracks n m" and "tracks n k"
  shows "tracks n (thenA m k)"
  unfolding tracks_def
proof (intro allI impI)
  fix s :: simulation assume l: "length (xs_clients s) = n"
  obtain r s1 cs where m: "m s = (r, s1, cs)" by (rule prod_cases3)
  obtain r' s2 ds where k: "k s1 = (r', s2, ds)" by (rule prod_cases3)
  have a: "same_clients s s1" "\<forall>i < n. sends_as i s s1 (sent_by i cs)"
    using assms(1) l m unfolding tracks_def by (metis outcome_simps(2,3))+
  have "length (xs_clients s1) = n" using same_clients_length [OF a(1)] l by simp
  then have b: "same_clients s1 s2" "\<forall>i < n. sends_as i s1 s2 (sent_by i ds)"
    using assms(2) k unfolding tracks_def by (metis outcome_simps(2,3))+
  have "same_clients s s2" using a(1) b(1) by (simp add: same_clients_def)
  then show "same_clients s (state_of (thenA m k s)) \<and>
      (\<forall>i < n. sends_as i s (state_of (thenA m k s)) (sent_by i (calls_of (thenA m k s))))"
    using a b l sends_as_trans [OF a(1)] by (cases r) (auto simp: thenA_def bindA_def m k sent_by_append)
qed

lemma tracks_client:
  assumes "\<And>p. plays p m" and "j < n"
  shows "tracks n (on_client j m)"
  unfolding tracks_def
proof (intro allI impI)
  fix s :: simulation assume l: "length (xs_clients s) = n"
  let ?c = "(xs_clients s ! j)\<lparr>xc_stats := xs_stats s\<rparr>"
  obtain r c cs where m: "m ?c = (r, c, cs)" by (rule prod_cases3)
  have "xc_profile c = xc_profile (xs_clients s ! j) \<and> set (sents cs) \<subseteq> surface (xc_profile (xs_clients s ! j)) \<and>
      (\<forall>t. dict_get (xc_sent c) (type_name t) 0 =
        dict_get (xc_sent (xs_clients s ! j)) (type_name t) 0 + count_list (sents cs) t)"
    using assms(1) [of "xc_profile ?c", unfolded plays_def, rule_format, of ?c] m by simp
  then show "same_clients s (state_of (on_client j m s)) \<and>
      (\<forall>i < n. sends_as i s (state_of (on_client j m s)) (sent_by i (calls_of (on_client j m s))))"
    using assms(2) l
    by (auto simp: on_client_def m same_clients_def sends_as_def sent_by_client nth_list_update map_update list_update_same_conv)
qed

lemma tracks_for: "(\<And>x. x \<in> set xs \<Longrightarrow> tracks n (f x)) \<Longrightarrow> tracks n (forA xs f)"
  by (induction xs) (simp_all add: tracks_then tracks_quiet act_defs sent_by_def)

lemma tracks_each: "(\<And>i p. plays p (f i)) \<Longrightarrow> tracks n (each_client f)"
proof -
  assume "\<And>i p. plays p (f i)"
  then have "tracks n (forA [0..<n] (\<lambda>i. on_client i (f i)))" by (intro tracks_for tracks_client) simp_all
  then show ?thesis by (simp add: tracks_def each_client_def bindA_parts act_defs)
qed

lemma tracks_on_rogue: "tracks n (on_rogue m)"
  by (rule tracks_quiet) (simp add: on_rogue_def sent_by_rogue sent_by_def split: option.split prod.split)

lemma tracks_rogue: "tracks n (bindA (getA g) (\<lambda>E. on_rogue (f E)))"
  by (rule tracks_quiet)
    (simp add: bindA_parts act_defs on_rogue_def sent_by_rogue case_prod_unfold sent_by_def split: option.split prod.split)

datatype sim_op = SimStart | SimTick nat | SimFrame nat bytes | SimStop

fun sim_op_act :: "sim_world \<Rightarrow> sim_op \<Rightarrow> unit exercise_act" where
  "sim_op_act X SimStart = exercise_start X"
| "sim_op_act X (SimTick k) = exercise_tick X k"
| "sim_op_act X (SimFrame i raw) =
     bindA (getA (\<lambda>s. length (xs_clients s))) (\<lambda>n. if i < n then exercise_frame X i raw else retA ())"
| "sim_op_act X SimStop = exercise_stop"

definition exercise :: "sim_world \<Rightarrow> sim_op list \<Rightarrow> unit exercise_act" where
  "exercise X ops = forA ops (\<lambda>op. catchA (sim_op_act X op) (\<lambda>_. retA ()))"

lemma tracks_op: "tracks n (sim_op_act X op)"
proof (cases op)
  case SimStart
  have "plays p (client_start E)" for p E using plays_op [of p E CStart] by simp
  then show ?thesis by (simp add: SimStart exercise_start_def tracks_then tracks_each tracks_rogue)
next
  case (SimTick k)
  have "plays p (client_step E k)" for p E using plays_op [of p E "CStep k"] by simp
  then show ?thesis by (simp add: SimTick exercise_tick_def tracks_then tracks_each tracks_rogue)
next
  case (SimFrame i raw)
  have "i < n \<Longrightarrow> tracks n (exercise_frame X i raw)"
    unfolding exercise_frame_def by (intro tracks_client plays_frame)
  moreover have "tracks n (retA () :: unit exercise_act)" by (rule tracks_quiet) (simp add: act_defs sent_by_def)
  ultimately show ?thesis by (simp add: SimFrame tracks_def bindA_parts act_defs)
next
  case SimStop
  have "plays p client_stop" for p using plays_op [where op = CStop] by simp
  then show ?thesis by (simp add: SimStop exercise_stop_def tracks_then tracks_each tracks_on_rogue)
qed

lemma tracks_exercise: "tracks n (exercise X ops)"
proof -
  have "tracks n (catchA (sim_op_act X op) (\<lambda>_. retA ()))" for op
    using tracks_op [of n X op] by (auto simp: tracks_def catchA_parts act_defs split: sum.split)
  then show ?thesis unfolding exercise_def by (intro tracks_for)
qed

lemma built_fresh:
  assumes "exercise_init X P = Inr s" and "i < length (xs_clients s)"
  shows "xc_sent (xs_clients s ! i) = []"
proof -
  have "mapR (build_client X P) xs = Inr cs \<Longrightarrow> c \<in> set cs \<Longrightarrow> xc_sent c = []" for xs cs c
    by (induction xs arbitrary: cs)
      (auto simp: bindR_Inr_iff build_client_def Let_def split: prod.splits)
  then show ?thesis using assms by (auto simp: exercise_init_def bindR_Inr_iff)
qed

text \<open>Property C27: the report tells what was sent. However a built exercise is started, ticked, fed frames
  and stopped, and whatever raises on the way, the report has one row per client of the roster, and its count for a
  type is the number of messages of that type the client published; all of them are of the surface of
  the client's profile: the types it declares, and the identification it opens with.\<close>

theorem report_tells_sent:
  assumes "exercise_init X P = Inr s" and "i < length (xs_clients s)"
  shows "length (rp_clients (report_of now k (state_of (exercise X ops s)))) = length (xs_clients s) \<and>
    dict_get (cr_sent_by_type (rp_clients (report_of now k (state_of (exercise X ops s))) ! i)) (type_name t) 0 =
      count_list (sent_by i (calls_of (exercise X ops s))) t \<and>
    set (sent_by i (calls_of (exercise X ops s))) \<subseteq> surface (xc_profile (xs_clients s ! i))"
proof -
  let ?s = "state_of (exercise X ops s)"
  have a: "same_clients s ?s" "sends_as i s ?s (sent_by i (calls_of (exercise X ops s)))"
    using tracks_exercise [of "length (xs_clients s)" X ops] assms(2) by (auto simp: tracks_def)
  have l: "length (xs_clients ?s) = length (xs_clients s)" by (rule same_clients_length [OF a(1)])
  then have "rp_clients (report_of now k ?s) ! i = client_report (xs_clients ?s ! i)"
    "length (rp_clients (report_of now k ?s)) = length (xs_clients s)"
    using assms(2) by (simp_all add: report_of_def case_prod_unfold)
  then show ?thesis
    using a(2) built_fresh [OF assms] by (simp add: sends_as_def client_report_def dict_get_def)
qed

lemma mapR_ok: "(\<And>x. x \<in> set xs \<Longrightarrow> is_ok (f x)) \<Longrightarrow> \<exists>ys. mapR f xs = Inr ys \<and> length ys = length xs"
  by (induction xs) (force simp: is_ok_iff)+

lemma profiles_load: "load_all (profile_eps ''jdssarrow.profiles'') [] = Inr CLIENT_PROFILES"
  by (simp add: profile_eps_def CLIENT_PROFILES_def)

lemma builtin_profile:
  assumes "map_of CLIENT_PROFILES name = Some p"
  shows "make_profile name = Inr p"
proof -
  have g: "map_of GROUPS ''profiles'' = Some ''jdssarrow.profiles''" by (simp add: GROUPS_def)
  show ?thesis
    by (simp add: make_profile_def create_def registry_get_def registry_init_def discover_def g profiles_load assms
        dict_get_def)
qed

lemma gateway_builds:
  assumes "cfg_plugins cfg = default_plugins\<lparr>pl_transport := tr, pl_codec := codec, pl_security := ''psk''\<rparr>"
    and "codec \<in> {''xml'', ''json'', ''arrow''}" and "nc_multicast_group (cfg_network cfg) = None"
  shows "is_ok (gateway_init W cfg)"
proof -
  obtain grp port where "multicast_group default_allocator (nc_network_id (cfg_network cfg)) = Inr (grp, port)"
    by (auto simp: multicast_group_def Let_def dotted_def default_allocator_def allocator_init_def slice_def)
  then show ?thesis
    using assms by (auto simp: gateway_init_def default_plugins_def resolve_endpoint_def build_security_def)
qed

text \<open>The default parameters but for the network, the bearer, the codec and the rogue.\<close>

definition chosen_params :: "string \<Rightarrow> string \<Rightarrow> string \<Rightarrow> string option \<Rightarrow> sim_params" where
  "chosen_params net tr codec rogue =
     default_sim_params\<lparr>sp_network_id := net, sp_transport := tr, sp_codec := codec, sp_rogue := rogue\<rparr>"

lemma chosen_default: "chosen_params ''exercise-jdss'' ''loopback'' ''xml'' None = default_sim_params"
  by (simp add: chosen_params_def default_sim_params_def)

lemmas config_defaults = config_ok_def network_ok_def classification_ok_def default_config_def default_network_def
  eud_server_ok_def default_eud_server_def in_range_def

lemma client_builds:
  assumes "map_of CLIENT_PROFILES name = Some p" and "codec \<in> {''xml'', ''json'', ''arrow''}"
  shows "is_ok (build_client X (chosen_params net tr codec rogue) (idx, name, n))"
proof -
  let ?cfg = "sim_config (chosen_params net tr codec rogue) (name @ ''-'' @ show_nat (n + 1))
    (py_upper (take 3 name) @ ''-'' @ show_nat (n + 1)) (profile_role p) (if idx mod 2 = 0 then ''BEL'' else ''NLD'')"
  obtain cfg where cfg: "?cfg = Inr cfg" "cfg_plugins cfg = default_plugins\<lparr>pl_transport := tr, pl_codec := codec, pl_security := ''psk''\<rparr>"
      "nc_multicast_group (cfg_network cfg) = None"
    by (simp add: sim_config_def checked_def chosen_params_def default_sim_params_def config_defaults)
  have "is_ok (gateway_init (xw_world X) cfg)" by (rule gateway_builds [OF cfg(2) assms(2) cfg(3)])
  then show ?thesis
    using builtin_profile [OF assms(1)] cfg(1) by (auto simp: build_client_def is_ok_iff Let_def)
qed

lemma rogue_builds:
  assumes "mode \<in> {''wrong_key'', ''garbage'', ''insider''}" and "codec \<in> {''xml'', ''json'', ''arrow''}"
  shows "is_ok (build_rogue X (chosen_params net tr codec rogue) mode)"
proof -
  define cfg where "cfg = default_config
       \<lparr>cfg_identity := \<lparr> ni_node_id = ''rogue-1'', ni_callsign = ''RGUE-1'', ni_unit = ''???'', ni_nation = ''ZZ'', ni_role = ''rogue'' \<rparr>,
        cfg_plugins := default_plugins\<lparr>pl_transport := tr, pl_codec := codec, pl_security := ''psk''\<rparr>,
        cfg_network := default_network\<lparr>nc_network_id := net, nc_repeat := 2,
          nc_psk := (if mode = ''wrong_key'' then ''rogue-unauthorised-key'' else COALITION_PSK)\<rparr>,
        cfg_classification := \<lparr> cc_level = 1, cc_releasable_to = cc_releasable_to default_classification \<rparr>\<rparr>"
  have p: "cfg_plugins cfg = default_plugins\<lparr>pl_transport := tr, pl_codec := codec, pl_security := ''psk''\<rparr>"
    "nc_multicast_group (cfg_network cfg) = None" "config_ok cfg"
    by (simp_all add: cfg_def config_defaults)
  have b: "build_rogue X (chosen_params net tr codec rogue) mode =
      bindR (checked cfg) (\<lambda>cfg. bindR (gateway_init (xw_world X) cfg) (\<lambda>g. rogue_init g mode COALITION_PSK ''rogue-1''))"
    by (simp add: build_rogue_def chosen_params_def default_sim_params_def cfg_def)
  obtain g where "gateway_init (xw_world X) cfg = Inr g" using gateway_builds [OF p(1) assms(2) p(2)] by (auto simp: is_ok_iff)
  then show ?thesis using assms(1) p(3) by (auto simp: b checked_def rogue_init_def ROGUE_MODES_def is_ok_iff)
qed

lemma roster_slots:
  "slots DEFAULT_ROSTER = [(''commandpost'', 0), (''teamleader'', 0), (''rifleman'', 0), (''rifleman'', 1), (''medic'', 0),
     (''scout'', 0), (''observer'', 0), (''sensor'', 0), (''atak'', 0), (''vehicle'', 0)]"
proof -
  have "[0..<2] = [0, 1::nat]" "[0..<1] = [0::nat]" by (simp_all add: upt_rec)
  then show ?thesis by (simp add: slots_def DEFAULT_ROSTER_def)
qed

text \<open>The default roster builds; it has ten clients, and a rogue when one is asked for.\<close>

lemma chosen_exercise_builds:
  assumes "codec \<in> {''xml'', ''json'', ''arrow''}" and "rogue \<in> {None, Some ''wrong_key'', Some ''garbage'', Some ''insider''}"
  shows "\<exists>s. exercise_init X (chosen_params net tr codec rogue) = Inr s \<and> length (xs_clients s) = 10 \<and>
    (xs_rogue s \<noteq> None \<longleftrightarrow> rogue \<noteq> None) \<and> xs_params s = chosen_params net tr codec rogue"
proof -
  let ?P = "chosen_params net tr codec rogue"
  let ?slots = "enumerate 0 (slots (roster_of ?P))"
  have r: "roster_of ?P = DEFAULT_ROSTER" "sp_rogue ?P = rogue" by (simp_all add: roster_of_def chosen_params_def default_sim_params_def)
  have "list_all (\<lambda>x. map_of CLIENT_PROFILES (fst (snd x)) \<noteq> None) ?slots"
    by (simp add: r roster_slots CLIENT_PROFILES_def)
  then have "\<And>x. x \<in> set ?slots \<Longrightarrow> is_ok (build_client X ?P x)"
    using client_builds [OF _ assms(1)] by (fastforce simp: list_all_iff)
  then obtain cs where cs: "mapR (build_client X ?P) ?slots = Inr cs" "length cs = length ?slots"
    using mapR_ok [of ?slots "build_client X ?P"] by blast
  have l: "length ?slots = 10" by (simp add: r roster_slots)
  show ?thesis
  proof (cases rogue)
    case None
    then show ?thesis unfolding exercise_init_def r(2) cs(1) using cs(2) l by simp
  next
    case (Some mode)
    then have m: "mode \<in> {''wrong_key'', ''garbage'', ''insider''}" "mode \<noteq> []" using assms(2) by auto
    obtain x where x: "build_rogue X ?P mode = Inr x" using rogue_builds [OF m(1) assms(1), of X net tr rogue] by (auto simp: is_ok_iff)
    have c: "(case rogue of None \<Rightarrow> Inr None | Some mode \<Rightarrow>
        if mode = [] then Inr None else bindR (build_rogue X ?P mode) (\<lambda>r. Inr (Some r))) = Inr (Some x)"
      using Some m(2) x by simp
    show ?thesis unfolding exercise_init_def r(2) cs(1) c using cs(2) l Some by simp
  qed
qed

lemma default_exercise_builds: "\<exists>s. exercise_init X default_sim_params = Inr s \<and> length (xs_clients s) = 10"
  using chosen_exercise_builds [of "''xml''" None X "''exercise-jdss''" "''loopback''"] by (auto simp: chosen_default)

theorem report_tells_sent_witness:
  "\<forall>X. \<exists>s. exercise_init X default_sim_params = Inr s \<and>
     dict_get (cr_sent_by_type (rp_clients (report_of 0 2 (state_of (exercise X [SimStart, SimTick 0, SimStop] s))) ! 3)) ''Chat'' 0 =
       count_list (sent_by 3 (calls_of (exercise X [SimStart, SimTick 0, SimStop] s))) CHAT"
proof
  fix X :: sim_world
  obtain s where s: "exercise_init X default_sim_params = Inr s" "length (xs_clients s) = 10" using default_exercise_builds by blast
  then show "\<exists>s. exercise_init X default_sim_params = Inr s \<and>
     dict_get (cr_sent_by_type (rp_clients (report_of 0 2 (state_of (exercise X [SimStart, SimTick 0, SimStop] s))) ! 3)) ''Chat'' 0 =
       count_list (sent_by 3 (calls_of (exercise X [SimStart, SimTick 0, SimStop] s))) CHAT"
    using report_tells_sent [OF s(1), where i = 3 and now = 0 and k = 2 and t = CHAT] by simp
qed

end
