(* ===== verification/Muster.thy ===== *)
theory Muster
  imports Exercise
begin

text \<open>
  An exercise starts: with the default stack, transports that start and a codec that encodes what it is
  given, the start of a built exercise returns, and every client and the rogue are on the network.
\<close>

section \<open>Gateways\<close>

text \<open>The codec encodes every message, into less than four gigabytes with the tag.\<close>

definition encodes :: "world \<Rightarrow> bool" where
  "encodes W \<longleftrightarrow> (\<forall>m. \<exists>b. xml_encode (w_env W) m = Inr b \<and> length b + TAG_LEN < 2 ^ 32)"

definition stacked :: "world \<Rightarrow> gateway \<Rightarrow> bool" where
  "stacked W g \<longleftrightarrow> gw_codec g = xml_codec (w_env W) \<and> (\<exists>k. gw_security g = psk_security k) \<and>
     gw_caps g = capabilities_init [] [] \<and> classification_ok (cfg_classification (gw_config g))"

definition ready :: "world \<Rightarrow> gateway \<Rightarrow> bool" where
  "ready W g \<longleftrightarrow> stacked W g \<and> gw_up g \<and> (\<exists>e. gw_engine g = Some e \<and> 0 < window e)"

text \<open>A gateway that has not been started.\<close>

definition startable :: "world \<Rightarrow> gateway \<Rightarrow> bool" where
  "startable W g \<longleftrightarrow> stacked W g \<and> pl_transport (cfg_plugins (gw_config g)) \<in> {''loopback'', ''udp''} \<and>
     co_policy_authority (cfg_connections (gw_config g)) = None"

lemma create_loopback: "create transport_eps ''transports'' ''loopback'' = Inr (\<lambda>gr p. LoopbackTransport gr)"
  by (simp add: create_def registry_get_def registry_init_def discover_def GROUPS_def transport_eps_def dict_get_def)

lemma start_returns:
  assumes "w_transport_start W = Inr ()"
  shows "returns (startable W) (gw_start W) (ready W)"
  unfolding returns_def
proof (intro allI impI)
  fix g assume g: "startable W g"
  define rad where "rad = snd (radio_join (transport_factory (gw_config g) (gw_group g) (gw_port g))
    (nc_network_id (cfg_network (gw_config g))) (gw_radio g))"
  have j: "gw_join g = (Inr (), g\<lparr>gw_radio := rad\<rparr>, [])"
    using g create_loopback by (auto simp: gw_join_def rad_def radio_join_def transport_factory_def startable_def Let_def)
  show "\<exists>x g' cs. gw_start W g = (Inr x, g', cs) \<and> ready W g'"
    using g assms
    by (simp add: gw_start_def thenA_def bindA_def j act_defs start_engine_def start_gossip_def start_dist_def
        attach_def Let_def startable_def ready_def stacked_def engine_init_def on_control_def AUTO_WINDOW_def)
qed

lemma emits_all: "can_emit (capabilities_init [] []) (msg_type m)"
proof -
  have "dict_update d [] = d" for d :: "(string, bool) dict" by (simp add: dict_update_def)
  moreover have "map_of (map (\<lambda>t. (t, True)) ts) k = Some v \<Longrightarrow> v" for ts k v
    by (auto dest!: map_of_SomeD)
  ultimately show ?thesis
    by (auto simp: can_emit_def capabilities_init_def all_permitted_def dict_get_def split: option.split)
qed

lemma publish_returns:
  assumes "encodes W"
  shows "returns (ready W) (gw_publish W mid b) (ready W)"
  unfolding returns_def
proof (intro allI impI)
  fix g assume g: "ready W g"
  then obtain e k where e: "gw_engine g = Some e" "0 < window e" "gw_security g = psk_security k"
    and c: "gw_codec g = xml_codec (w_env W)" "gw_up g" "gw_caps g = capabilities_init [] []"
      "classification_ok (cfg_classification (gw_config g))"
    by (auto simp: ready_def stacked_def)
  let ?D = "deps_of W g"
  obtain h where h: "gw_header W mid g = Inr h"
    using c(4) by (simp add: gw_header_def mk_header_def Let_def classification_ok_def)
  let ?m = "\<lparr> header = h, body = b \<rparr>"
  let ?m' = "set_sequence (seq e + 1) (set_originator (node_id e) ?m)"
  obtain bs where bs: "xml_encode (w_env W) ?m' = Inr bs" "length bs + TAG_LEN < 2 ^ 32" using assms by (auto simp: encodes_def)
  have "frame_ok \<lparr> codec_name = ''xml'', security_name = ''psk'', payload = psk_protect (utf8_encode k) bs \<rparr>"
    using bs(2) by (simp add: frame_ok_def is_ascii_def psk_protect_def)
  then obtain fr where fr: "data_frame ?D bs = Inr fr"
    using e(3) c(1) by (auto simp: data_frame_def to_bytes_iff deps_of_def xml_codec_def psk_security_def)
  obtain e' cs where p: "publish ?D ?m e = (Inr ?m', e', cs)"
    using publish_ok [of ?D e ?m bs fr] bs(1) fr c(1,2) e(2) by (auto simp: deps_of_def xml_codec_def)
  have "window e' = window e"
    using window_publish(1) [of "window e" ?D ?m] p unfolding keeps_def has_window_def by (metis outcome_simps(2))
  then show "\<exists>x g' cs. gw_publish W mid b g = (Inr x, g', cs) \<and> ready W g'"
    using g c(3) e(1,2) p
    by (simp add: gw_publish_def bindA_def act_defs h Let_def on_engine_def emits_all ready_def stacked_def)
qed

section \<open>Clients\<close>

text \<open>Far enough from a pole and the date line for a marker beside it.\<close>

definition box :: "point \<Rightarrow> bool" where
  "box p \<longleftrightarrow> in_range (-88) 88 (fst p) \<and> in_range (-178) 178 (snd p)"

definition client_ready :: "exercise_env \<Rightarrow> sim_client \<Rightarrow> bool" where
  "client_ready E c \<longleftrightarrow> ready (ex_world E) (xc_gateway c) \<and> box (xc_pos c)"

definition client_startable :: "exercise_env \<Rightarrow> sim_client \<Rightarrow> bool" where
  "client_startable E c \<longleftrightarrow> startable (ex_world E) (xc_gateway c) \<and> box (xc_pos c)"

lemma gateway_returns:
  assumes "returns I m J"
  shows "returns (\<lambda>c. I (xc_gateway c) \<and> box (xc_pos c)) (on_client_gateway m) (\<lambda>c. J (xc_gateway c) \<and> box (xc_pos c))"
  unfolding returns_def
proof (intro allI impI)
  fix c :: sim_client assume c: "I (xc_gateway c) \<and> box (xc_pos c)"
  then obtain x g cs where "m (xc_gateway c) = (Inr x, g, cs)" "J g" using assms by (auto simp: returns_def)
  then show "\<exists>x s' cs. on_client_gateway m c = (Inr x, s', cs) \<and> J (xc_gateway s') \<and> box (xc_pos s')"
    using c by (simp add: on_client_gateway_def)
qed

lemma verb_returns:
  assumes "\<And>mid. returns (ready (ex_world E)) (m mid) (ready (ex_world E))"
  shows "returns (client_ready E) (verb E m t) (client_ready E)"
proof -
  have g: "returns (client_ready E) (on_client_gateway (m mid)) (client_ready E)" for mid
    using gateway_returns [OF assms [of mid]] unfolding client_ready_def [abs_def] .
  have c: "returns (client_ready E) (count_sent t) (client_ready E)"
    unfolding count_sent_def by (intro returns_modify) (simp add: client_ready_def)
  show ?thesis
    unfolding verb_def by (intro returns_get returns_mono [OF returns_bind [OF g c]]) simp_all
qed

lemma identify_returns: "encodes (ex_world E) \<Longrightarrow> returns (client_ready E) (client_identify E) (client_ready E)"
  unfolding client_identify_def
  by (intro verb_returns)
    (auto simp: node_identify_def intro!: returns_get intro: returns_mono [OF publish_returns])

lemma client_publish_returns: "encodes (ex_world E) \<Longrightarrow> returns (client_ready E) (client_publish E b t) (client_ready E)"
  unfolding client_publish_def by (intro verb_returns publish_returns)

lemma fl_box:
  assumes "fenv_ok F" and "in_range (- of_int b) (of_int b) x" and "\<bar>d\<bar> \<le> 1000" and "0 \<le> b" and "b \<le> 1000"
  shows "in_range (- of_int (b + 1)) (of_int (b + 1)) (fl F (x + fl F (of_int d / 1000)))"
proof -
  have mono: "x \<le> y \<Longrightarrow> fl F x \<le> fl F y" for x y using assms(1) by (simp add: fenv_ok_def)
  have exact: "\<bar>n\<bar> \<le> 1024 \<Longrightarrow> fl F (of_int n) = of_int n" for n using assms(1) by (simp add: fenv_ok_def)
  have "of_int d / 1000 \<le> (of_int 1 :: rat)" "of_int (-1) \<le> (of_int d / 1000 :: rat)" using assms(3) by simp_all
  from mono [OF this(1)] mono [OF this(2)] have d: "fl F (of_int d / 1000) \<le> 1" "-1 \<le> fl F (of_int d / 1000)"
    by (simp_all only: exact)
  have "x + fl F (of_int d / 1000) \<le> of_int (b + 1)" "of_int (- (b + 1)) \<le> x + fl F (of_int d / 1000)"
    using d assms(2) by (simp_all add: in_range_def)
  from mono [OF this(1)] mono [OF this(2)] show ?thesis
    using exact [of "b + 1"] exact [of "- (b + 1)"] assms(4,5) by (simp add: in_range_def)
qed

lemma marker_returns:
  assumes "encodes (ex_world E)" and "fenv_ok (ex_f E)" and "\<bar>dlat\<bar> \<le> 1000" and "\<bar>dlon\<bar> \<le> 1000"
  shows "returns (client_ready E) (marker E name label dlat dlon) (client_ready E)"
  unfolding marker_def
proof (intro returns_get returns_lift)
  fix c0 c assume "client_ready E c \<and> c = c0"
  then have "box (xc_pos c0)" by (auto simp: client_ready_def)
  then have "in_range (-89) 89 (fl (ex_f E) (fst (xc_pos c0) + fl (ex_f E) (of_int dlat / 1000)))"
    "in_range (-179) 179 (fl (ex_f E) (snd (xc_pos c0) + fl (ex_f E) (of_int dlon / 1000)))"
    using fl_box [OF assms(2) _ assms(3), of 88] fl_box [OF assms(2) _ assms(4), of 178] by (simp_all add: box_def)
  then show "is_ok (mk_location (fl (ex_f E) (fst (xc_pos c0) + fl (ex_f E) (of_int dlat / 1000)))
      (fl (ex_f E) (snd (xc_pos c0) + fl (ex_f E) (of_int dlon / 1000))) None)"
    by (simp add: mk_location_def in_range_def)
next
  fix c0 place
  show "returns (\<lambda>c. client_ready E c \<and> c = c0) (client_publish E (Overlay \<lparr> ov_name = name, ov_graphics =
       [\<lparr> og_sidc = sidc ''control_point'' FRIEND None PRESENT, og_location = place, og_label = label \<rparr>] \<rparr>) OVERLAY) (client_ready E)"
    by (rule returns_mono [OF client_publish_returns [OF assms(1)]]) simp_all
qed

lemma on_start_returns:
  assumes "encodes (ex_world E)" and "fenv_ok (ex_f E)"
  shows "returns (client_ready E) (on_start E p) (client_ready E)"
proof -
  note i = identify_returns [OF assms(1)] and m = marker_returns [OF assms]
  have r: "returns (client_ready E) (bindA (getA xc_node_id) (\<lambda>nid. client_publish E (f nid) t)) (client_ready E)" for f t
    by (intro returns_get returns_mono [OF client_publish_returns [OF assms(1)]]) simp_all
  show ?thesis by (cases p) (auto intro!: returns_then [OF i] returns_then [OF m] i m r)
qed

lemma client_start_returns:
  assumes "encodes (ex_world E)" and "fenv_ok (ex_f E)" and "w_transport_start (ex_world E) = Inr ()"
  shows "returns (client_startable E) (client_start E) (client_ready E)"
proof -
  have "returns (client_startable E) (on_client_gateway (gw_start (ex_world E))) (client_ready E)"
    using gateway_returns [OF start_returns [OF assms(3)]] unfolding client_startable_def [abs_def] client_ready_def [abs_def] .
  moreover have "returns (client_ready E) (bindA (getA xc_profile) (\<lambda>p. on_start E p)) (client_ready E)"
    by (intro returns_get returns_mono [OF on_start_returns [OF assms(1,2)]]) simp_all
  ultimately show ?thesis unfolding client_start_def by (rule returns_then)
qed

section \<open>The whole exercise\<close>

lemma clients_return:
  assumes "\<And>i. returns (I i) (f i) (J i)" and "\<And>i c st. I i (c\<lparr>xc_stats := st\<rparr>) = I i c"
  shows "distinct is \<Longrightarrow> \<forall>i \<in> set is. i < length (xs_clients s) \<and> I i (xs_clients s ! i) \<Longrightarrow>
    \<exists>s' cs. forA is (\<lambda>i. on_client i (f i)) s = (Inr (), s', cs) \<and> xs_rogue s' = xs_rogue s \<and>
      length (xs_clients s') = length (xs_clients s) \<and> (\<forall>i \<in> set is. J i (xs_clients s' ! i)) \<and>
      (\<forall>i. i \<notin> set is \<longrightarrow> xs_clients s' ! i = xs_clients s ! i)"
proof (induction "is" arbitrary: s)
  case Nil
  then show ?case by (simp add: retA_def)
next
  case (Cons i "is")
  let ?c = "(xs_clients s ! i)\<lparr>xc_stats := xs_stats s\<rparr>"
  have "I i ?c" using Cons.prems(2) assms(2) by simp
  then obtain x c cs where c: "f i ?c = (Inr x, c, cs)" "J i c" using assms(1) unfolding returns_def by blast
  let ?s = "s\<lparr>xs_clients := (xs_clients s)[i := c], xs_stats := xc_stats c\<rparr>"
  have o: "on_client i (f i) s = (Inr x, ?s, map (Pair (Some i)) cs)" by (simp add: on_client_def c(1))
  have "\<forall>j \<in> set is. j < length (xs_clients ?s) \<and> I j (xs_clients ?s ! j)"
  proof
    fix j assume j: "j \<in> set is"
    then have "i \<noteq> j" using Cons.prems(1) by auto
    then show "j < length (xs_clients ?s) \<and> I j (xs_clients ?s ! j)" using Cons.prems(2) j by simp
  qed
  with Cons.IH [of ?s] Cons.prems(1) obtain s' ds where r:
    "forA is (\<lambda>i. on_client i (f i)) ?s = (Inr (), s', ds)" "xs_rogue s' = xs_rogue ?s"
    "length (xs_clients s') = length (xs_clients ?s)" "\<forall>j \<in> set is. J j (xs_clients s' ! j)"
    "\<forall>j. j \<notin> set is \<longrightarrow> xs_clients s' ! j = xs_clients ?s ! j"
    by (auto simp only: distinct.simps)
  have "forA (i # is) (\<lambda>i. on_client i (f i)) s = (Inr (), s', map (Pair (Some i)) cs @ ds)"
    by (simp only: forA.simps thenA_def bindA_def o r(1) prod.case sum.case)
  moreover have "J i (xs_clients s' ! i)" using r(5) Cons.prems c(2) by simp
  ultimately show ?case using r by auto
qed

lemma gateway_startable:
  assumes "gateway_init W cfg = Inr g" and "pl_codec (cfg_plugins cfg) = ''xml''" and "pl_security (cfg_plugins cfg) = ''psk''"
    and "pl_transport (cfg_plugins cfg) \<in> {''loopback'', ''udp''}" and "classification_ok (cfg_classification cfg)"
    and "cfg_capabilities cfg = \<lparr> cp_receive = [], cp_emit = [] \<rparr>" and "co_policy_authority (cfg_connections cfg) = None"
  shows "startable W g \<and> gw_engine g = None"
  using assms by (auto simp: gateway_init_def bindR_Inr_iff build_security_def startable_def stacked_def split: prod.splits)

lemma block_startable: "startable W (state_of (block_peer b g)) = startable W g"
  by (simp add: block_peer_def on_local_def thenA_def bindA_def act_defs startable_def stacked_def)

lemma blocks_startable: "startable W (fold (\<lambda>b h. state_of (block_peer b h)) bs g) = startable W g"
  by (induction bs arbitrary: g) (simp_all add: block_startable)

lemma handler_startable: "startable W (state_of (gw_add_handler h g)) = startable W g"
  by (simp add: gw_add_handler_def modifyA_def startable_def stacked_def split: option.split)

definition default_stack :: "sim_params \<Rightarrow> bool" where
  "default_stack P \<longleftrightarrow> sp_codec P = ''xml'' \<and> sp_sec P = ''psk'' \<and> sp_transport P \<in> {''loopback'', ''udp''}"

lemma checked_Inr: "checked cfg = Inr c \<longleftrightarrow> config_ok cfg \<and> c = cfg"
  by (auto simp: checked_def)

lemma client_built:
  assumes "build_client X P slot = Inr c" and "default_stack P"
  shows "startable (xw_world X) (xc_gateway c)"
proof -
  obtain idx name n where slot: "slot = (idx, name, n)" by (rule prod_cases3)
  obtain cfg g nid callsign role nation where cfg: "sim_config P nid callsign role nation = Inr cfg"
      and g: "gateway_init (xw_world X) cfg = Inr g"
      and c: "xc_gateway c = state_of (gw_add_handler profile_handler (fold (\<lambda>b h. state_of (block_peer b h)) (dict_get (sp_blocks P) nid []) g))"
    using assms(1) by (auto simp: slot build_client_def bindR_Inr_iff Let_def)
  have "startable (xw_world X) g"
    using gateway_startable [OF g] cfg assms(2)
    by (auto simp: sim_config_def checked_Inr config_ok_def default_config_def default_connections_def default_stack_def)
  then show ?thesis by (simp add: c handler_startable blocks_startable)
qed

lemma rogue_built:
  assumes "build_rogue X P mode = Inr r" and "default_stack P"
  shows "startable (xw_world X) (rg_gateway r)"
proof -
  obtain cfg g where cfg: "config_ok cfg" "cfg_plugins cfg = default_plugins\<lparr>pl_transport := sp_transport P, pl_codec := sp_codec P, pl_security := ''psk''\<rparr>"
      "cfg_capabilities cfg = \<lparr> cp_receive = [], cp_emit = [] \<rparr>" "cfg_connections cfg = default_connections"
      and g: "gateway_init (xw_world X) cfg = Inr g" and r: "rogue_init g mode COALITION_PSK ''rogue-1'' = Inr r"
    using assms(1) by (auto simp: build_rogue_def bindR_Inr_iff checked_Inr default_config_def)
  have "startable (xw_world X) g"
    using gateway_startable [OF g] cfg assms(2) by (auto simp: config_ok_def default_connections_def default_stack_def)
  then show ?thesis using r by (auto simp: rogue_init_def split: if_splits)
qed

lemma mapR_set: "mapR f xs = Inr ys \<Longrightarrow> y \<in> set ys \<Longrightarrow> \<exists>x. f x = Inr y"
  by (induction xs arbitrary: ys) (auto simp: bindR_Inr_iff)

lemma built_startable:
  assumes "exercise_init X P = Inr s" and "default_stack P"
  shows "\<forall>c \<in> set (xs_clients s). startable (xw_world X) (xc_gateway c)"
    and "\<forall>r. xs_rogue s = Some r \<longrightarrow> startable (xw_world X) (rg_gateway r)"
  using assms by (auto simp: exercise_init_def bindR_Inr_iff split: option.splits if_splits
      dest!: mapR_set intro: client_built rogue_built)

lemma start_run:
  assumes "exercise_init X P = Inr s" and "default_stack P" and "encodes (xw_world X)" and "fenv_ok (xw_f X)"
    and "w_transport_start (xw_world X) = Inr ()" and "list_all (\<lambda>c. box (xc_pos c)) (xs_clients s)"
  shows "\<exists>s' cs. exercise_start X s = (Inr (), s', cs) \<and> length (xs_clients s') = length (xs_clients s) \<and>
    list_all (\<lambda>c. gw_up (xc_gateway c)) (xs_clients s') \<and>
    (case xs_rogue s of None \<Rightarrow> xs_rogue s' = None | Some r \<Rightarrow> \<exists>r'. xs_rogue s' = Some r' \<and> gw_up (rg_gateway r'))"
proof -
  let ?E = "client_env X"
  have "returns (client_startable (?E i)) (client_start (?E i)) (client_ready (?E i))" for i
    by (rule client_start_returns) (use assms(3,4,5) in \<open>simp_all add: client_env_def\<close>)
  moreover have "client_startable (?E i) (c\<lparr>xc_stats := st\<rparr>) = client_startable (?E i) c" for i c st
    by (simp add: client_startable_def)
  moreover have "\<forall>i \<in> set [0..<length (xs_clients s)]. i < length (xs_clients s) \<and> client_startable (?E i) (xs_clients s ! i)"
    using built_startable(1) [OF assms(1,2)] assms(6) by (auto simp: client_startable_def client_env_def list_all_iff)
  ultimately obtain s1 cs where s1: "forA [0..<length (xs_clients s)] (\<lambda>i. on_client i (client_start (?E i))) s = (Inr (), s1, cs)"
      "xs_rogue s1 = xs_rogue s" "length (xs_clients s1) = length (xs_clients s)"
      "\<forall>i < length (xs_clients s). client_ready (?E i) (xs_clients s1 ! i)"
    using clients_return [of "\<lambda>i. client_startable (?E i)" "\<lambda>i. client_start (?E i)" "\<lambda>i. client_ready (?E i)"
        "[0..<length (xs_clients s)]" s] by auto
  have up: "list_all (\<lambda>c. gw_up (xc_gateway c)) (xs_clients s1)"
    using s1(3,4) by (simp add: list_all_length client_ready_def ready_def)
  have e: "each_client (\<lambda>i. client_start (?E i)) s = (Inr (), s1, cs)"
    by (simp add: each_client_def bindA_def getA_def s1(1))
  show ?thesis
  proof (cases "xs_rogue s")
    case None
    then show ?thesis
      using up s1(2,3) by (simp add: exercise_start_def thenA_def bindA_def e act_defs on_rogue_def)
  next
    case (Some r)
    obtain x g ds where g: "gw_start (xw_world X) (rg_gateway r) = (Inr x, g, ds)" "ready (xw_world X) g"
      using start_returns [OF assms(5)] built_startable(2) [OF assms(1,2)] Some unfolding returns_def by blast
    have w: "ex_world (rogue_env X s1) = xw_world X" by (simp add: rogue_env_def client_env_def)
    show ?thesis
      using up s1(2,3) g Some
      by (simp add: exercise_start_def thenA_def bindA_def e act_defs on_rogue_def rogue_start_def on_rogue_gateway_def
          w ready_def)
  qed
qed

text \<open>An exercise comes up. When its codec encodes what it is given, its transports start and no
  client stands at a pole or the date line, the start of an exercise built with the default stack returns, with
  every client and the rogue on the network.\<close>

theorem exercise_starts:
  assumes "exercise_init X P = Inr s" and "default_stack P" and "encodes (xw_world X)" and "fenv_ok (xw_f X)"
    and "w_transport_start (xw_world X) = Inr ()" and "list_all (\<lambda>c. box (xc_pos c)) (xs_clients s)"
  shows "\<exists>s' cs. exercise_start X s = (Inr (), s', cs) \<and> length (xs_clients s') = length (xs_clients s) \<and>
    list_all (\<lambda>c. gw_up (xc_gateway c)) (xs_clients s') \<and>
    (case xs_rogue s of None \<Rightarrow> xs_rogue s' = None | Some r \<Rightarrow> \<exists>r'. xs_rogue s' = Some r' \<and> gw_up (rg_gateway r'))"
  by (rule start_run [OF assms])

definition plain_floats :: fenv where
  "plain_floats = \<lparr> fl = id, m_sin = (\<lambda>_. 0), m_cos = (\<lambda>_. 0), m_asin = (\<lambda>_. 0), m_atan2 = (\<lambda>_ _. 0),
     m_sqrt = id, m_radians = id, m_degrees = id \<rparr>"

definition demo_sim_world :: sim_world where
  "demo_sim_world = \<lparr> xw_f = plain_floats, xw_world = demo_world, xw_mid = (\<lambda>_ _. ''m'') \<rparr>"

lemma demo_sim_world_ok:
  "encodes (xw_world demo_sim_world)" "fenv_ok (xw_f demo_sim_world)" "w_transport_start (xw_world demo_sim_world) = Inr ()"
  by (simp_all add: demo_sim_world_def demo_world_def encodes_def xml_encode_def demo_env_def demo_env0_def TAG_LEN_def
      fenv_ok_def plain_floats_def in_range_def)

lemma demo_box:
  assumes "build_client demo_sim_world P slot = Inr c" and "sp_base P = sp_base default_sim_params"
  shows "box (xc_pos c)"
proof -
  have "box (home_of plain_floats (sp_base P) idx)" for idx
    by (simp add: assms(2) home_of_def plain_floats_def default_sim_params_def box_def in_range_def Let_def)
  then show ?thesis
    using assms(1) by (auto simp: build_client_def bindR_Inr_iff Let_def demo_sim_world_def split: prod.splits)
qed

lemma demo_boxes:
  assumes "exercise_init demo_sim_world P = Inr s" and "sp_base P = sp_base default_sim_params"
  shows "list_all (\<lambda>c. box (xc_pos c)) (xs_clients s)"
  using assms by (auto simp: exercise_init_def bindR_Inr_iff list_all_iff dest!: mapR_set intro: demo_box)

theorem exercise_starts_witness:
  "\<exists>s s' cs. exercise_init demo_sim_world default_sim_params = Inr s \<and> exercise_start demo_sim_world s = (Inr (), s', cs) \<and>
     length (xs_clients s') = 10 \<and> list_all (\<lambda>c. gw_up (xc_gateway c)) (xs_clients s')"
proof -
  obtain s where s: "exercise_init demo_sim_world default_sim_params = Inr s" "length (xs_clients s) = 10"
    using default_exercise_builds by blast
  have d: "default_stack default_sim_params" by (simp add: default_stack_def default_sim_params_def)
  obtain s' cs where "exercise_start demo_sim_world s = (Inr (), s', cs)" "length (xs_clients s') = length (xs_clients s)"
      "list_all (\<lambda>c. gw_up (xc_gateway c)) (xs_clients s')"
    using exercise_starts [OF s(1) d demo_sim_world_ok demo_boxes [OF s(1) refl]] by blast
  then show ?thesis using s by (intro exI conjI) simp_all
qed

end
