(* ===== verification/SimManager.thy ===== *)
theory SimManager
  imports Muster
begin

text \<open>
  The background simulation manager (\<open>simulator/manager.py\<close>) and its endpoints
  (\<open>web/routers/simcontrol.py\<close>). Simulations and tasks are objects that outlive the manager's references
  to them, so the manager's state holds every one it made, and its attributes are indices. \<open>start\<close> is two
  operations, since other requests run while it awaits the simulation's own start.
\<close>

section \<open>The manager\<close>

datatype task_status = Looping nat | Failed pyexn | Cancelled

record run_params =
  rn_network_id :: string
  rn_transport :: string
  rn_codec :: string
  rn_interval :: rat
  rn_rogue :: "string option"

record manager =
  mg_sims :: "simulation list"
  mg_tasks :: "task_status list"
  mg_sim :: "nat option"
  mg_task :: "nat option"
  mg_ticks :: nat
  mg_interval :: rat
  mg_params :: "run_params option"

definition manager_init :: manager where
  "manager_init = \<lparr> mg_sims = [], mg_tasks = [], mg_sim = None, mg_task = None, mg_ticks = 0, mg_interval = 1,
     mg_params = None \<rparr>"

type_synonym 'a manager_act = "(manager, nat \<times> nat option \<times> call, 'a) act"

fun task_done :: "task_status \<Rightarrow> bool" where
  "task_done (Looping n) = False"
| "task_done (Failed e) = True"
| "task_done Cancelled = True"

definition mg_running :: "manager \<Rightarrow> bool" where
  "mg_running m \<longleftrightarrow> (case mg_task m of None \<Rightarrow> False | Some j \<Rightarrow> \<not> task_done (mg_tasks m ! j))"

record client_status =
  ct_node_id :: string
  ct_callsign :: string
  ct_role :: string
  ct_device :: string

record manager_status =
  ms_running :: bool
  ms_ticks :: nat
  ms_clients :: "client_status list"
  ms_client_count :: nat
  ms_params :: "run_params option"

definition status_of_client :: "sim_client \<Rightarrow> client_status" where
  "status_of_client c = \<lparr> ct_node_id = xc_node_id c, ct_callsign = xc_callsign c, ct_role = profile_role (xc_profile c),
     ct_device = profile_device (xc_profile c) \<rparr>"

definition status_clients :: "manager \<Rightarrow> client_status list" where
  "status_clients m =
     (case mg_sim m of
        None \<Rightarrow> []
      | Some k \<Rightarrow> map status_of_client (xs_clients (mg_sims m ! k)) @
          (case xs_rogue (mg_sims m ! k) of None \<Rightarrow> []
           | Some r \<Rightarrow> [\<lparr> ct_node_id = rg_node_id r, ct_callsign = ''RGUE-1'', ct_role = ''rogue'', ct_device = ''rogue'' \<rparr>]))"

definition mg_status :: "manager \<Rightarrow> manager_status" where
  "mg_status m = \<lparr> ms_running = mg_running m, ms_ticks = mg_ticks m, ms_clients = status_clients m,
     ms_client_count = length (status_clients m), ms_params = mg_params m \<rparr>"

text \<open>The arguments of \<open>start\<close>.\<close>

record start_args =
  sa_network_id :: string
  sa_transport :: string
  sa_codec :: string
  sa_psk :: string
  sa_security :: string
  sa_interval :: rat
  sa_rogue :: "string option"

definition sim_of_args :: "start_args \<Rightarrow> sim_params" where
  "sim_of_args a = default_sim_params\<lparr>sp_network_id := sa_network_id a, sp_transport := sa_transport a,
     sp_codec := sa_codec a, sp_psk := sa_psk a, sp_sec := sa_security a, sp_rogue := sa_rogue a\<rparr>"

text \<open>\<open>start\<close> up to \<open>await self._sim.start()\<close>: the value is the simulation it goes on with.\<close>

definition mg_begin :: "sim_world \<Rightarrow> start_args \<Rightarrow> nat manager_act" where
  "mg_begin X a =
     bindA (getA mg_running) (\<lambda>busy.
     if busy then raiseA (PyExn RuntimeErr ''a simulation is already running'')
     else
       thenA (modifyA (\<lambda>m. m\<lparr>mg_interval := max (5 / 100) (sa_interval a)\<rparr>))
       (bindA (liftA (exercise_init X (sim_of_args a))) (\<lambda>s.
        bindA (getA (\<lambda>m. length (mg_sims m))) (\<lambda>k.
        thenA (modifyA (\<lambda>m. m\<lparr>mg_sims := mg_sims m @ [s], mg_sim := Some k,
          mg_params := Some \<lparr> rn_network_id = sa_network_id a, rn_transport = sa_transport a, rn_codec = sa_codec a,
            rn_interval = mg_interval m, rn_rogue = sa_rogue a \<rparr>, mg_ticks := 0\<rparr>))
        (retA k)))))"

definition on_sim :: "nat \<Rightarrow> 'a exercise_act \<Rightarrow> 'a manager_act" where
  "on_sim k f m = (case f (mg_sims m ! k) of (r, s, cs) \<Rightarrow> (r, m\<lparr>mg_sims := (mg_sims m)[k := s]\<rparr>, map (Pair k) cs))"

text \<open>The rest of \<open>start\<close>: the simulation's start, then the task.\<close>

definition mg_finish :: "sim_world \<Rightarrow> nat \<Rightarrow> manager_status manager_act" where
  "mg_finish X k =
     thenA (on_sim k (exercise_start X))
     (thenA (modifyA (\<lambda>m. m\<lparr>mg_tasks := mg_tasks m @ [Looping 0], mg_task := Some (length (mg_tasks m))\<rparr>))
      (getA mg_status))"

definition mg_start :: "sim_world \<Rightarrow> start_args \<Rightarrow> manager_status manager_act" where
  "mg_start X a = bindA (mg_begin X a) (mg_finish X)"

text \<open>One turn of the loop of task \<open>j\<close>, which reads \<open>self._sim\<close> anew each time.\<close>

definition mg_loop :: "sim_world \<Rightarrow> nat \<Rightarrow> manager \<Rightarrow> manager \<times> (nat \<times> nat option \<times> call) list" where
  "mg_loop X j m =
     (case mg_tasks m ! j of
        Looping n \<Rightarrow>
          (case mg_sim m of
             None \<Rightarrow> (m\<lparr>mg_tasks := (mg_tasks m)[j := Failed (if n = 0 then PyExn AssertErr []
                 else PyExn AttributeErr ''tick'')]\<rparr>, [])
           | Some k \<Rightarrow>
               (case on_sim k (exercise_tick X n) m of
                  (Inl e, m', cs) \<Rightarrow> (m'\<lparr>mg_tasks := (mg_tasks m')[j := Failed e]\<rparr>, cs)
                | (Inr _, m', cs) \<Rightarrow> (m'\<lparr>mg_tasks := (mg_tasks m')[j := Looping (n + 1)], mg_ticks := n + 1\<rparr>, cs)))
      | _ \<Rightarrow> (m, []))"

text \<open>Awaiting a cancelled task raises what is suppressed; awaiting a failed one raises its exception.\<close>

definition mg_end_task :: "unit manager_act" where
  "mg_end_task m =
     (case mg_task m of
        None \<Rightarrow> (Inr (), m, [])
      | Some j \<Rightarrow>
          (case mg_tasks m ! j of
             Failed e \<Rightarrow> (Inl e, m, [])
           | _ \<Rightarrow> (Inr (), m\<lparr>mg_tasks := (mg_tasks m)[j := Cancelled], mg_task := None\<rparr>, [])))"

definition mg_stop :: "manager_status manager_act" where
  "mg_stop =
     thenA mg_end_task
     (bindA (getA mg_sim) (\<lambda>k.
      thenA (case k of None \<Rightarrow> retA () | Some k \<Rightarrow> thenA (on_sim k exercise_stop) (modifyA (\<lambda>m. m\<lparr>mg_sim := None\<rparr>)))
       (getA mg_status)))"

section \<open>The endpoints\<close>

record sim_start_body =
  sb_interval :: rat
  sb_rogue :: "string option"
  sb_transport :: "string option"
  sb_isolated :: bool

definition start_args_of :: "sim_start_body \<Rightarrow> gateway_config \<Rightarrow> start_args" where
  "start_args_of b cfg =
     (let common = \<lparr> sa_network_id = ''sim-isolated'', sa_transport = ''loopback'', sa_codec = pl_codec (cfg_plugins cfg),
        sa_psk = ''sim-key'', sa_security = ''psk'', sa_interval = sb_interval b, sa_rogue = sb_rogue b \<rparr> in
      if sb_isolated b then common
      else common\<lparr>sa_network_id := nc_network_id (cfg_network cfg),
        sa_transport := (case sb_transport b of None \<Rightarrow> pl_transport (cfg_plugins cfg)
          | Some t \<Rightarrow> if t = [] then pl_transport (cfg_plugins cfg) else t),
        sa_psk := nc_psk (cfg_network cfg), sa_security := pl_security (cfg_plugins cfg)\<rparr>)"

definition sim_start_endpoint :: "sim_world \<Rightarrow> sim_start_body \<Rightarrow> gateway_config \<Rightarrow> manager_status manager_act" where
  "sim_start_endpoint X b cfg =
     catchA (mg_start X (start_args_of b cfg))
       (\<lambda>e. raiseA (if exn_kind e = RuntimeErr then PyExn (HttpErr 409) (exn_str e) else e))"

section \<open>One exercise at a time\<close>

text \<open>Some gateway of the exercise is on the network.\<close>

definition on_air :: "simulation \<Rightarrow> bool" where
  "on_air s \<longleftrightarrow> list_ex (\<lambda>c. gw_up (xc_gateway c)) (xs_clients s) \<or>
     (case xs_rogue s of None \<Rightarrow> False | Some r \<Rightarrow> gw_up (rg_gateway r))"

text \<open>A manager that is used by one request at a time and whose exercises do not fail: a start that
  returns or is refused, a turn of the loop, a frame that reaches a client, a stop.\<close>

inductive managed :: "sim_world \<Rightarrow> manager \<Rightarrow> bool" for X where
  idle: "managed X manager_init"
| started: "managed X m \<Longrightarrow> mg_start X a m = (Inr v, m', cs) \<Longrightarrow> managed X m'"
| refused: "managed X m \<Longrightarrow> mg_running m \<Longrightarrow> mg_start X a m = (r, m', cs) \<Longrightarrow> managed X m'"
| turn: "managed X m \<Longrightarrow> j < length (mg_tasks m) \<Longrightarrow> mg_loop X j m = (m', cs) \<Longrightarrow> \<forall>e. Failed e \<notin> set (mg_tasks m') \<Longrightarrow> managed X m'"
| heard: "managed X m \<Longrightarrow> mg_sim m = Some k \<Longrightarrow> on_sim k (sim_op_act X (SimFrame i raw)) m = (r, m', cs) \<Longrightarrow> managed X m'"
| stopped: "managed X m \<Longrightarrow> mg_stop m = (r, m', cs) \<Longrightarrow> managed X m'"

definition single :: "manager \<Rightarrow> bool" where
  "single m \<longleftrightarrow> (\<forall>k < length (mg_sims m). on_air (mg_sims m ! k) \<longrightarrow> mg_sim m = Some k) \<and>
     (\<forall>k. mg_sim m = Some k \<longrightarrow> k < length (mg_sims m)) \<and>
     (\<forall>j. mg_task m = Some j \<longrightarrow> j < length (mg_tasks m)) \<and>
     (\<forall>j < length (mg_tasks m). \<not> task_done (mg_tasks m ! j) \<longleftrightarrow> mg_task m = Some j) \<and>
     (mg_sim m = None \<longleftrightarrow> mg_task m = None) \<and> (\<forall>e. Failed e \<notin> set (mg_tasks m))"

lemma singleI:
  assumes "\<And>k. k < length (mg_sims m) \<Longrightarrow> on_air (mg_sims m ! k) \<Longrightarrow> mg_sim m = Some k"
    and "\<And>k. mg_sim m = Some k \<Longrightarrow> k < length (mg_sims m)"
    and "\<And>j. mg_task m = Some j \<Longrightarrow> j < length (mg_tasks m)"
    and "\<And>j. j < length (mg_tasks m) \<Longrightarrow> \<not> task_done (mg_tasks m ! j) \<longleftrightarrow> mg_task m = Some j"
    and "mg_sim m = None \<longleftrightarrow> mg_task m = None" and "\<And>e. Failed e \<notin> set (mg_tasks m)"
  shows "single m"
  using assms unfolding single_def by blast

lemma singleD:
  assumes "single m"
  shows "k < length (mg_sims m) \<Longrightarrow> on_air (mg_sims m ! k) \<Longrightarrow> mg_sim m = Some k"
    and "mg_sim m = Some k \<Longrightarrow> k < length (mg_sims m)"
    and "mg_task m = Some j \<Longrightarrow> j < length (mg_tasks m)"
    and "j < length (mg_tasks m) \<Longrightarrow> \<not> task_done (mg_tasks m ! j) \<longleftrightarrow> mg_task m = Some j"
    and "mg_sim m = None \<longleftrightarrow> mg_task m = None" and "Failed e \<notin> set (mg_tasks m)"
  using assms unfolding single_def by blast+

definition client_up :: "sim_client \<Rightarrow> bool" where
  "client_up c \<longleftrightarrow> gw_up (xc_gateway c)"

lemma client_stop_run: "client_stop c = (Inr (), c\<lparr>xc_gateway := state_of (gw_stop (xc_gateway c))\<rparr>, []) \<and>
    \<not> client_up (state_of (client_stop c))"
  by (simp add: client_stop_def on_client_gateway_def gw_stop_def modifyA_def client_up_def)

lemma stops:
  "\<exists>s' cs. forA is (\<lambda>i. on_client i client_stop) s = (Inr (), s', cs) \<and> xs_rogue s' = xs_rogue s \<and>
     length (xs_clients s') = length (xs_clients s) \<and>
     (\<forall>i < length (xs_clients s). i \<in> set is \<or> \<not> client_up (xs_clients s ! i) \<longrightarrow> \<not> client_up (xs_clients s' ! i))"
proof (induction "is" arbitrary: s)
  case Nil
  show ?case by (simp add: retA_def)
next
  case (Cons i "is")
  let ?c = "(xs_clients s ! i)\<lparr>xc_stats := xs_stats s\<rparr>"
  let ?d = "?c\<lparr>xc_gateway := state_of (gw_stop (xc_gateway ?c))\<rparr>"
  let ?s = "s\<lparr>xs_clients := (xs_clients s)[i := ?d], xs_stats := xc_stats ?d\<rparr>"
  have o: "on_client i client_stop s = (Inr (), ?s, [])"
    using client_stop_run [of ?c] by (simp add: on_client_def)
  have d: "\<not> client_up ?d" by (simp add: client_up_def gw_stop_def modifyA_def)
  from Cons.IH [of ?s] obtain s' cs where r: "forA is (\<lambda>i. on_client i client_stop) ?s = (Inr (), s', cs)"
    "xs_rogue s' = xs_rogue ?s" "length (xs_clients s') = length (xs_clients ?s)"
    "\<forall>j < length (xs_clients ?s). j \<in> set is \<or> \<not> client_up (xs_clients ?s ! j) \<longrightarrow> \<not> client_up (xs_clients s' ! j)"
    by blast
  have "forA (i # is) (\<lambda>i. on_client i client_stop) s = (Inr (), s', cs)"
    by (simp only: forA.simps thenA_def bindA_def o r(1) prod.case sum.case append_Nil)
  moreover have "\<not> client_up (xs_clients s' ! j)"
    if "j < length (xs_clients s)" and "j \<in> set (i # is) \<or> \<not> client_up (xs_clients s ! j)" for j
    using r(4) that d by (cases "j = i") auto
  ultimately show ?case using r(2,3) by auto
qed

lemma exercise_stop_silences: "\<exists>s' cs. exercise_stop s = (Inr (), s', cs) \<and> \<not> on_air s'"
proof -
  obtain s1 cs where s1: "forA [0..<length (xs_clients s)] (\<lambda>i. on_client i client_stop) s = (Inr (), s1, cs)"
    "xs_rogue s1 = xs_rogue s" "length (xs_clients s1) = length (xs_clients s)"
    "\<forall>i < length (xs_clients s). \<not> client_up (xs_clients s1 ! i)"
    using stops [of "[0..<length (xs_clients s)]" s] by auto
  have e: "each_client (\<lambda>i. client_stop) s = (Inr (), s1, cs)"
    by (simp add: each_client_def bindA_def getA_def s1(1))
  have c: "\<not> list_ex (\<lambda>c. gw_up (xc_gateway c)) (xs_clients s1)"
    using s1(3,4) by (auto simp: list_ex_iff in_set_conv_nth client_up_def)
  show ?thesis
    using c by (cases "xs_rogue s1")
      (simp_all add: exercise_stop_def thenA_def bindA_def e on_rogue_def rogue_stop_def on_rogue_gateway_def gw_stop_def
        modifyA_def on_air_def)
qed

lemma begin_run:
  assumes "mg_begin X a m = (Inr k, m', cs)"
  shows "\<not> mg_running m \<and> k = length (mg_sims m) \<and> cs = [] \<and> mg_sim m' = Some k \<and> mg_task m' = mg_task m \<and>
    mg_tasks m' = mg_tasks m \<and> (\<exists>s. exercise_init X (sim_of_args a) = Inr s \<and> mg_sims m' = mg_sims m @ [s])"
  using assms
  by (cases "exercise_init X (sim_of_args a)")
    (auto simp: mg_begin_def bindA_def thenA_def act_defs split: if_splits)

lemma finish_run:
  "mg_sims (state_of (mg_finish X k m)) = (mg_sims m)[k := state_of (exercise_start X (mg_sims m ! k))] \<and>
   mg_sim (state_of (mg_finish X k m)) = mg_sim m \<and>
   (if is_ok (value_of (mg_finish X k m))
    then mg_tasks (state_of (mg_finish X k m)) = mg_tasks m @ [Looping 0] \<and>
      mg_task (state_of (mg_finish X k m)) = Some (length (mg_tasks m))
    else mg_tasks (state_of (mg_finish X k m)) = mg_tasks m \<and> mg_task (state_of (mg_finish X k m)) = mg_task m)"
proof -
  obtain r s cs where s: "exercise_start X (mg_sims m ! k) = (r, s, cs)" by (rule prod_cases3)
  then show ?thesis by (cases r) (simp_all add: mg_finish_def thenA_def bindA_def on_sim_def act_defs)
qed

lemma begin_refused: "mg_running m \<Longrightarrow> mg_start X a m = (Inl (PyExn RuntimeErr ''a simulation is already running''), m, [])"
  by (simp add: mg_start_def mg_begin_def bindA_def act_defs)

lemma single_started:
  assumes "single m" and "mg_start X a m = (Inr v, m', cs)"
  shows "single m'"
proof -
  obtain r m1 cs1 where b: "mg_begin X a m = (r, m1, cs1)" by (rule prod_cases3)
  then obtain k where k: "r = Inr k" using assms(2) by (cases r) (auto simp: mg_start_def bindA_def)
  have f: "m' = state_of (mg_finish X k m1)" "is_ok (value_of (mg_finish X k m1))"
    using assms(2) b k by (auto simp: mg_start_def bindA_def state_of_def value_of_def split: prod.splits sum.splits)
  note br = begin_run [OF b [unfolded k]]
  have none: "mg_task m = None"
  proof (cases "mg_task m")
    case (Some j)
    then have "\<not> task_done (mg_tasks m ! j)" using singleD(3,4) [OF assms(1), of j] by simp
    then have "mg_running m" by (simp add: mg_running_def Some)
    then show ?thesis using br by blast
  qed simp
  then have no_sim: "mg_sim m = None" using singleD(5) [OF assms(1)] by blast
  obtain s where s: "mg_sims m1 = mg_sims m @ [s]" using br by blast
  have fr: "mg_sims m' = mg_sims m @ [state_of (exercise_start X s)]" "mg_sim m' = Some (length (mg_sims m))"
    "mg_tasks m' = mg_tasks m @ [Looping 0]" "mg_task m' = Some (length (mg_tasks m))"
    using finish_run [of X k m1] f br s by simp_all
  show ?thesis
  proof (rule singleI, unfold fr)
    fix i assume i: "i < length (mg_sims m @ [state_of (exercise_start X s)])" "on_air ((mg_sims m @ [state_of (exercise_start X s)]) ! i)"
    show "Some (length (mg_sims m)) = Some i"
    proof (cases "i < length (mg_sims m)")
      case True
      then show ?thesis using i(2) singleD(1) [OF assms(1) True] no_sim by (simp add: nth_append)
    next
      case False
      then show ?thesis using i(1) by simp
    qed
  next
    fix j assume "j < length (mg_tasks m @ [Looping 0])"
    then show "\<not> task_done ((mg_tasks m @ [Looping 0]) ! j) \<longleftrightarrow> Some (length (mg_tasks m)) = Some j"
      using singleD(4) [OF assms(1), of j] none by (cases "j < length (mg_tasks m)") (auto simp: nth_append)
  next
    fix e show "Failed e \<notin> set (mg_tasks m @ [Looping 0])" using singleD(6) [OF assms(1)] by simp
  qed simp_all
qed

lemma single_turn:
  assumes "single m" and "j < length (mg_tasks m)" and "mg_loop X j m = (m', cs)" and "\<forall>e. Failed e \<notin> set (mg_tasks m')"
  shows "single m'"
proof (cases "mg_tasks m ! j")
  case (Looping n)
  have j: "mg_task m = Some j" using singleD(4) [OF assms(1,2)] Looping by simp
  then obtain k where k: "mg_sim m = Some k" "k < length (mg_sims m)"
    using singleD(2,5) [OF assms(1)] by (cases "mg_sim m") auto
  obtain r s ds where s: "exercise_tick X n (mg_sims m ! k) = (r, s, ds)" by (rule prod_cases3)
  show ?thesis
  proof (cases r)
    case (Inl e)
    then have "Failed e \<in> set (mg_tasks m')"
      using assms(2,3) by (auto simp: mg_loop_def Looping k on_sim_def s set_update_memI)
    then show ?thesis using assms(4) by blast
  next
    case (Inr u)
    then have m': "mg_sims m' = (mg_sims m)[k := s]" "mg_sim m' = Some k" "mg_task m' = Some j"
      "mg_tasks m' = (mg_tasks m)[j := Looping (n + 1)]"
      using assms(3) j k(1) by (auto simp: mg_loop_def Looping on_sim_def s)
    show ?thesis
    proof (rule singleI, unfold m')
      fix i assume "i < length ((mg_sims m)[k := s])" "on_air ((mg_sims m)[k := s] ! i)"
      then show "Some k = Some i" using singleD(1) [OF assms(1), of i] k by (cases "i = k") simp_all
    next
      fix i assume "i < length ((mg_tasks m)[j := Looping (n + 1)])"
      then show "\<not> task_done ((mg_tasks m)[j := Looping (n + 1)] ! i) \<longleftrightarrow> Some j = Some i"
        using singleD(4) [OF assms(1), of i] j by (cases "i = j") simp_all
    next
      fix e show "Failed e \<notin> set ((mg_tasks m)[j := Looping (n + 1)])" using assms(4) m'(4) by simp
    qed (use assms(2) k in simp_all)
  qed
next
  case (Failed e)
  then show ?thesis using assms(1,3) by (simp add: mg_loop_def)
next
  case Cancelled
  then show ?thesis using assms(1,3) by (simp add: mg_loop_def)
qed

lemma single_heard:
  assumes "single m" and "mg_sim m = Some k" and "on_sim k f m = (r, m', cs)"
  shows "single m'"
proof -
  have m': "mg_sims m' = (mg_sims m)[k := state_of (f (mg_sims m ! k))]" "mg_sim m' = Some k" "mg_task m' = mg_task m"
      "mg_tasks m' = mg_tasks m"
    using assms(2,3) by (auto simp: on_sim_def state_of_def split: prod.splits)
  show ?thesis
  proof (rule singleI, unfold m')
    fix i assume "i < length ((mg_sims m)[k := state_of (f (mg_sims m ! k))])" "on_air ((mg_sims m)[k := state_of (f (mg_sims m ! k))] ! i)"
    then show "Some k = Some i" using singleD(1) [OF assms(1), of i] assms(2) by (cases "i = k") simp_all
  qed (use singleD [OF assms(1)] assms(2) in simp_all)
qed

lemma end_task_run:
  assumes "\<forall>e. Failed e \<notin> set (mg_tasks m)" and "\<forall>j. mg_task m = Some j \<longrightarrow> j < length (mg_tasks m)"
  shows "mg_end_task m = (Inr (), m\<lparr>mg_tasks := (case mg_task m of None \<Rightarrow> mg_tasks m | Some j \<Rightarrow> (mg_tasks m)[j := Cancelled]),
    mg_task := None\<rparr>, [])"
proof (cases "mg_task m")
  case None
  then show ?thesis by (simp add: mg_end_task_def)
next
  case (Some j)
  then have "\<forall>e. mg_tasks m ! j \<noteq> Failed e" using assms by (metis nth_mem)
  then show ?thesis using Some by (cases "mg_tasks m ! j") (simp_all add: mg_end_task_def)
qed

lemma stop_run:
  assumes "\<forall>e. Failed e \<notin> set (mg_tasks m)" and "\<forall>j. mg_task m = Some j \<longrightarrow> j < length (mg_tasks m)"
  shows "is_ok (value_of (mg_stop m)) \<and> mg_sim (state_of (mg_stop m)) = None \<and> mg_task (state_of (mg_stop m)) = None \<and>
    mg_tasks (state_of (mg_stop m)) = (case mg_task m of None \<Rightarrow> mg_tasks m | Some j \<Rightarrow> (mg_tasks m)[j := Cancelled]) \<and>
    mg_sims (state_of (mg_stop m)) = (case mg_sim m of None \<Rightarrow> mg_sims m
      | Some k \<Rightarrow> (mg_sims m)[k := state_of (exercise_stop (mg_sims m ! k))])"
proof (cases "mg_sim m")
  case None
  then show ?thesis by (simp add: mg_stop_def thenA_def bindA_def end_task_run [OF assms] act_defs)
next
  case (Some k)
  obtain s cs where "exercise_stop (mg_sims m ! k) = (Inr (), s, cs)" using exercise_stop_silences by blast
  then show ?thesis by (simp add: Some mg_stop_def thenA_def bindA_def end_task_run [OF assms] act_defs on_sim_def)
qed

lemma single_stopped:
  assumes "single m"
  shows "single (state_of (mg_stop m))"
proof -
  have r: "\<forall>e. Failed e \<notin> set (mg_tasks m)" "\<forall>j. mg_task m = Some j \<longrightarrow> j < length (mg_tasks m)"
    using assms by (simp_all add: single_def)
  note sr = stop_run [OF r]
  let ?m = "state_of (mg_stop m)"
  show ?thesis
  proof (rule singleI)
    fix k assume k: "k < length (mg_sims ?m)" "on_air (mg_sims ?m ! k)"
    have silent: "\<not> on_air (state_of (exercise_stop s))" for s using exercise_stop_silences [of s] by auto
    have l: "k < length (mg_sims m)" using k(1) sr by (cases "mg_sim m") simp_all
    show "mg_sim ?m = Some k"
    proof (cases "mg_sim m")
      case None
      then have "mg_sim m = Some k" using k sr singleD(1) [OF assms l] by simp
      then show ?thesis using None by simp
    next
      case (Some i)
      have s: "mg_sims ?m = (mg_sims m)[i := state_of (exercise_stop (mg_sims m ! i))]" using sr Some by simp
      have "i \<noteq> k" using k(2) silent l unfolding s by auto
      then have "on_air (mg_sims m ! k)" using k(2) unfolding s by simp
      then show ?thesis using singleD(1) [OF assms l] Some \<open>i \<noteq> k\<close> by simp
    qed
  next
    fix j assume j: "j < length (mg_tasks ?m)"
    have "task_done (mg_tasks ?m ! j)"
      using j sr singleD(4) [OF assms, of j] by (cases "mg_task m") (auto simp: nth_list_update)
    then show "\<not> task_done (mg_tasks ?m ! j) \<longleftrightarrow> mg_task ?m = Some j" using sr by simp
  next
    fix e
    have "Failed e \<notin> set ((mg_tasks m)[i := Cancelled])" for i
      using r(1) set_update_subset_insert [of "mg_tasks m" i Cancelled] by auto
    then show "Failed e \<notin> set (mg_tasks ?m)" using sr r(1) by (cases "mg_task m") simp_all
  qed (use sr in simp_all)
qed

lemma managed_single: "managed X m \<Longrightarrow> single m"
proof (induction rule: managed.induct)
  case idle
  show ?case by (simp add: single_def manager_init_def)
next
  case (started m a v m' cs)
  then show ?case using single_started by blast
next
  case (refused m a r m' cs)
  then show ?case using begin_refused [of m X a] by simp
next
  case (turn m j m' cs)
  then show ?case using single_turn by blast
next
  case (heard m k i raw r m' cs)
  then show ?case using single_heard by blast
next
  case (stopped m r m' cs)
  then show ?case using single_stopped [of m] by simp
qed


definition none_failed :: "manager \<Rightarrow> bool" where
  "none_failed m \<longleftrightarrow> (\<forall>e. Failed e \<notin> set (mg_tasks m)) \<and> (\<forall>j. mg_task m = Some j \<longrightarrow> j < length (mg_tasks m))"

lemma settled_finish: "none_failed m \<Longrightarrow> none_failed (state_of (mg_finish X k m))"
  using finish_run [of X k m] unfolding none_failed_def by (cases "is_ok (value_of (mg_finish X k m))") simp_all

lemma settled_stop:
  assumes "none_failed m"
  shows "none_failed (state_of (mg_stop m))"
proof -
  have "Failed e \<notin> set ((mg_tasks m)[i := Cancelled])" for e i
    using assms set_update_subset_insert [of "mg_tasks m" i Cancelled] by (auto simp: none_failed_def)
  then show ?thesis using stop_run [of m] assms by (cases "mg_task m") (simp_all add: none_failed_def)
qed

text \<open>Two overlapping starts leave an exercise behind. Both pass the check, since the task is
  created only after the simulation's start has been awaited; the manager then knows the second exercise
  only, and stopping it, once or again, leaves the first as its start left it, with its clients on the
  network if they were.\<close>

theorem overlapping_starts_leak:
  assumes "\<not> mg_running m" and "mg_task m = None" and "\<forall>e. Failed e \<notin> set (mg_tasks m)"
    and "mg_begin X a m = (Inr k1, m1, c1)" and "mg_begin X b m1 = (Inr k2, m2, c2)"
    and "m3 = state_of (mg_finish X k1 m2)" and "m4 = state_of (mg_finish X k2 m3)" and "m5 = state_of (mg_stop m4)"
  shows "k1 \<noteq> k2 \<and> mg_sim m5 = None \<and> \<not> mg_running m5 \<and> is_ok (value_of (mg_stop m5)) \<and>
    mg_sims m5 ! k1 = state_of (exercise_start X (mg_sims m2 ! k1)) \<and>
    mg_sims (state_of (mg_stop m5)) ! k1 = mg_sims m5 ! k1"
proof -
  note b1 = begin_run [OF assms(4)] and b2 = begin_run [OF assms(5)]
  obtain s1 where s1: "mg_sims m1 = mg_sims m @ [s1]" using b1 by blast
  obtain s2 where s2: "mg_sims m2 = mg_sims m1 @ [s2]" using b2 by blast
  have k: "k1 \<noteq> k2" "k1 < length (mg_sims m2)" using b1 b2 s1 s2 by simp_all
  have t2: "mg_task m2 = None" "mg_tasks m2 = mg_tasks m" "mg_sim m2 = Some k2" using b1 b2 assms(2) by simp_all
  have f3: "none_failed m3" "mg_sim m3 = Some k2" "mg_sims m3 = (mg_sims m2)[k1 := state_of (exercise_start X (mg_sims m2 ! k1))]"
    using settled_finish [of m2 X k1] finish_run [of X k1 m2] t2 assms(3) by (simp_all add: assms(6) none_failed_def)
  have f4: "none_failed m4" "mg_sim m4 = Some k2" "mg_sims m4 ! k1 = mg_sims m3 ! k1"
    using settled_finish [OF f3(1), of X k2] finish_run [of X k2 m3] f3(2) k(1) by (simp_all add: assms(7))
  have f5: "none_failed m5" "mg_sim m5 = None" "mg_task m5 = None" "mg_sims m5 ! k1 = mg_sims m4 ! k1"
    using settled_stop [OF f4(1)] stop_run [of m4] f4(1,2) k(1) unfolding assms(8) none_failed_def by simp_all
  have e: "mg_sims m5 ! k1 = state_of (exercise_start X (mg_sims m2 ! k1))" using f5(4) f4(3) f3(3) k(2) by simp
  have "is_ok (value_of (mg_stop m5)) \<and> mg_sims (state_of (mg_stop m5)) = mg_sims m5"
    using stop_run [of m5] f5 unfolding none_failed_def by simp
  then show ?thesis using k(1) e f5(2,3) by (simp add: mg_running_def)
qed

text \<open>Property C33: an exercise whose tick raises cannot be stopped any more. The loop's task ends with the
  exception; every stop raises it again before it reaches the simulation, whose clients stay as the tick
  left them, and a further start only makes the manager forget them.\<close>

theorem failed_exercise_stuck:
  assumes "mg_sim m = Some k" and "k < length (mg_sims m)" and "mg_task m = Some j" and "j < length (mg_tasks m)"
    and "mg_tasks m ! j = Looping n" and "exercise_tick X n (mg_sims m ! k) = (Inl e, s, cs)"
  shows "mg_stop (fst (mg_loop X j m)) = (Inl e, fst (mg_loop X j m), []) \<and> \<not> mg_running (fst (mg_loop X j m)) \<and>
    mg_sims (fst (mg_loop X j m)) ! k = s \<and> mg_sims (state_of (mg_start X a (fst (mg_loop X j m)))) ! k = s"
proof -
  let ?m = "fst (mg_loop X j m)"
  have m': "mg_sims ?m = (mg_sims m)[k := s]" "mg_task ?m = Some j" "mg_tasks ?m ! j = Failed e"
    using assms by (simp_all add: mg_loop_def on_sim_def)
  have stop: "mg_stop ?m = (Inl e, ?m, [])" by (simp add: mg_stop_def thenA_def bindA_def mg_end_task_def m')
  have idle: "\<not> mg_running ?m" by (simp add: mg_running_def m')
  have k: "mg_sims ?m ! k = s" "k < length (mg_sims ?m)" using assms(2) by (simp_all add: m')
  obtain r m1 cs1 where b: "mg_begin X a ?m = (r, m1, cs1)" by (rule prod_cases3)
  have "mg_sims (state_of (mg_start X a ?m)) ! k = s"
  proof (cases r)
    case (Inl x)
    then have "mg_sims m1 = mg_sims ?m"
      using b by (auto simp: mg_begin_def bindA_parts thenA_parts bindA_def thenA_def act_defs split: if_splits sum.splits)
    then show ?thesis using k(1) by (simp add: mg_start_def bindA_def b Inl)
  next
    case (Inr k')
    note br = begin_run [OF b [unfolded Inr]]
    have "state_of (mg_start X a ?m) = state_of (mg_finish X k' m1)"
      by (simp add: mg_start_def bindA_def b Inr state_of_def split: prod.split sum.split)
    moreover obtain s' where "mg_sims m1 = mg_sims ?m @ [s']" using br by blast
    ultimately show ?thesis using finish_run [of X k' m1] br k by (auto simp: nth_append)
  qed
  then show ?thesis using stop idle k(1) by blast
qed

section \<open>A manager at work\<close>

definition demo_args :: start_args where
  "demo_args = \<lparr> sa_network_id = ''exercise-jdss'', sa_transport = ''loopback'', sa_codec = ''xml'',
     sa_psk = COALITION_PSK, sa_security = ''psk'', sa_interval = 1, sa_rogue = None \<rparr>"

lemma demo_params: "sim_of_args demo_args = default_sim_params"
  by (simp add: sim_of_args_def demo_args_def default_sim_params_def)

lemma demo_begin:
  assumes "\<not> mg_running m" and "exercise_init X (sim_of_args a) = Inr s"
  shows "\<exists>m'. mg_begin X a m = (Inr (length (mg_sims m)), m', []) \<and> mg_sims m' = mg_sims m @ [s] \<and>
    mg_task m' = mg_task m \<and> mg_tasks m' = mg_tasks m"
  using assms by (simp add: mg_begin_def bindA_def thenA_def act_defs)

lemma demo_on_air:
  "\<exists>s s' cs. exercise_init demo_sim_world (sim_of_args demo_args) = Inr s \<and> exercise_start demo_sim_world s = (Inr (), s', cs) \<and> on_air s'"
proof -
  obtain s where s: "exercise_init demo_sim_world default_sim_params = Inr s" "length (xs_clients s) = 10"
    using default_exercise_builds by blast
  have d: "default_stack default_sim_params" by (simp add: default_stack_def default_sim_params_def)
  obtain s' cs where r: "exercise_start demo_sim_world s = (Inr (), s', cs)" "length (xs_clients s') = length (xs_clients s)"
      "list_all (\<lambda>c. gw_up (xc_gateway c)) (xs_clients s')"
    using start_run [OF s(1) d demo_sim_world_ok demo_boxes [OF s(1) refl]] by blast
  then obtain c where "c \<in> set (xs_clients s')" using s(2) by (cases "xs_clients s'") auto
  then have "on_air s'" using r(3) by (auto simp: on_air_def list_all_iff list_ex_iff)
  then show ?thesis using s(1) r(1) demo_params by auto
qed

lemma idle_init: "\<not> mg_running manager_init" "mg_task manager_init = None" "mg_tasks manager_init = []" "mg_sims manager_init = []"
  by (simp_all add: manager_init_def mg_running_def)

lemma demo_managed: "\<exists>m. managed demo_sim_world m \<and> length (mg_sims m) = 1 \<and> on_air (mg_sims m ! 0)"
proof -
  obtain s s' cs where s: "exercise_init demo_sim_world (sim_of_args demo_args) = Inr s"
      "exercise_start demo_sim_world s = (Inr (), s', cs)" "on_air s'" using demo_on_air by blast
  obtain m1 where b: "mg_begin demo_sim_world demo_args manager_init = (Inr 0, m1, [])" "mg_sims m1 = [s]"
    using demo_begin [OF idle_init(1) s(1)] idle_init by auto
  obtain v m ds where f: "mg_finish demo_sim_world 0 m1 = (Inr v, m, ds)"
    using s(2) b(2) by (simp add: mg_finish_def thenA_def bindA_def on_sim_def act_defs)
  have "mg_start demo_sim_world demo_args manager_init = (Inr v, m, ds)" by (simp add: mg_start_def bindA_def b(1) f)
  then have m: "managed demo_sim_world m" by (rule managed.started [OF managed.idle])
  have "mg_sims m = [s']" using finish_run [of demo_sim_world 0 m1] f b(2) s(2) by simp
  then show ?thesis using m s(3) by (intro exI [of _ m]) simp
qed


theorem overlapping_starts_leak_witness:
  "\<exists>m1 m2 c1 c2. mg_begin demo_sim_world demo_args manager_init = (Inr 0, m1, c1) \<and>
     mg_begin demo_sim_world demo_args m1 = (Inr 1, m2, c2) \<and>
     (let m = state_of (mg_stop (state_of (mg_finish demo_sim_world 1 (state_of (mg_finish demo_sim_world 0 m2)))))
      in mg_sim m = None \<and> \<not> mg_running m \<and> on_air (mg_sims m ! 0))"
proof -
  obtain s s' cs where s: "exercise_init demo_sim_world (sim_of_args demo_args) = Inr s"
      "exercise_start demo_sim_world s = (Inr (), s', cs)" "on_air s'" using demo_on_air by blast
  obtain m1 where b1: "mg_begin demo_sim_world demo_args manager_init = (Inr 0, m1, [])" "mg_sims m1 = [s]" "mg_task m1 = None"
    using demo_begin [OF idle_init(1) s(1)] idle_init by auto
  have "\<not> mg_running m1" using b1(3) by (simp add: mg_running_def)
  from demo_begin [OF this s(1)] obtain m2 where b2: "mg_begin demo_sim_world demo_args m1 = (Inr 1, m2, [])" "mg_sims m2 = [s, s]"
    using b1(2) by auto
  have "\<forall>e. Failed e \<notin> set (mg_tasks manager_init)" by (simp add: idle_init)
  from overlapping_starts_leak [OF idle_init(1,2) this b1(1) b2(1) refl refl refl] show ?thesis
    using b1(1) b2 s(2,3) by (simp add: Let_def)
qed

text \<open>A soldier who walks over the pole: the next presence report has no valid latitude.\<close>

definition demo_walker :: simulation where
  "demo_walker = \<lparr> xs_params = default_sim_params, xs_stats = stats_init,
     xs_clients = [demo_sim_client\<lparr>xc_pos := (90, 0)\<rparr>], xs_rogue = None \<rparr>"

definition demo_manager :: manager where
  "demo_manager = manager_init\<lparr>mg_sims := [demo_walker], mg_tasks := [Looping 0], mg_sim := Some 0, mg_task := Some 0\<rparr>"

lemma walker_fails: "\<exists>e s cs. exercise_tick demo_sim_world 0 demo_walker = (Inl e, s, cs)"
proof -
  let ?c = "demo_sim_client\<lparr>xc_pos := (90, 0)\<rparr>" and ?E = "client_env demo_sim_world 0"
  have "\<exists>e c cs. client_step ?E 0 ?c = (Inl e, c, cs)"
    by (simp add: client_step_def bindA_def act_defs demo_sim_client_def client_presence_def walk_def thenA_def verb_def
        on_client_gateway_def node_presence_def mk_location_def client_env_def demo_sim_world_def plain_floats_def
        in_range_def invalid_def)
  then obtain e c cs where c: "client_step ?E 0 (?c\<lparr>xc_stats := stats_init\<rparr>) = (Inl e, c, cs)"
    by (auto simp: demo_sim_client_def)
  then show ?thesis
    by (simp add: exercise_tick_def each_client_def thenA_def bindA_def act_defs on_client_def demo_walker_def)
qed

theorem failed_exercise_stuck_witness:
  "\<exists>e m. m = fst (mg_loop demo_sim_world 0 demo_manager) \<and> mg_stop m = (Inl e, m, []) \<and> \<not> mg_running m"
proof -
  obtain e s cs where w: "exercise_tick demo_sim_world 0 demo_walker = (Inl e, s, cs)" using walker_fails by blast
  have d: "mg_sim demo_manager = Some 0" "0 < length (mg_sims demo_manager)" "mg_task demo_manager = Some 0"
    "0 < length (mg_tasks demo_manager)" "mg_tasks demo_manager ! 0 = Looping 0"
    "exercise_tick demo_sim_world 0 (mg_sims demo_manager ! 0) = (Inl e, s, cs)"
    by (simp_all add: demo_manager_def w)
  show ?thesis using failed_exercise_stuck [OF d, of demo_args] by blast
qed

end
