(* ===== verification/WebApp.thy ===== *)
theory WebApp
  imports Runtime SimManager
begin

text \<open>
  The web application as a whole: bringing its parts up and down (the lifespan of \<open>web/app.py\<close>), a run of
  the exercise from start to report (\<open>Simulation.run\<close>) with the matrix probe that uses it, and the endpoints
  that only read: symbology, classifications, connections, logs, plugins.
\<close>

section \<open>Lifespan\<close>

record web_app =
  wa_app :: app
  wa_manager :: manager

type_synonym 'a web_act = "(web_app, bcall, 'a) act"

definition on_app :: "'a app_act \<Rightarrow> 'a web_act" where
  "on_app m s = (case m (wa_app s) of (r, x, cs) \<Rightarrow> (r, s\<lparr>wa_app := x\<rparr>, cs))"

definition on_manager :: "'a manager_act \<Rightarrow> unit web_act" where
  "on_manager m s = (case m (wa_manager s) of (r, x, _) \<Rightarrow> (bindR r (\<lambda>_. Inr ()), s\<lparr>wa_manager := x\<rparr>, []))"

text \<open>\<open>stale\<close> is the default of both managers; \<open>store\<close> is the configuration file, if one is named.\<close>

definition bring_up :: "runtime_env \<Rightarrow> gateway_config \<Rightarrow> unit web_act" where
  "bring_up R cfg =
     thenA (on_app (on_servers (thenA (attach_servers 0 cfg) (reconcile (rt_bridge R) (cfg_servers cfg)))))
     (on_app (on_eud (thenA (attach_eud 0 cfg) (eud_reconfigure (rt_bind R) (cfg_eud_server cfg)))))"

definition web_startup :: "runtime_env \<Rightarrow> int \<Rightarrow> gateway_config \<Rightarrow> (string, json) dict option \<Rightarrow> web_app result" where
  "web_startup R stale cfg store =
     bindR (build_and_start (rt_world R) (rt_mid R) cfg) (\<lambda>g.
     case bring_up R cfg
        \<lparr> wa_app = \<lparr> ap_gateway = g, ap_node = 0, ap_servers = servers_init stale, ap_eud = eud_init stale, ap_store = store \<rparr>,
          wa_manager = manager_init \<rparr> of
       (r, w, _) \<Rightarrow> bindR r (\<lambda>_. Inr w))"

definition web_shutdown :: "unit web_act" where
  "web_shutdown =
     thenA (on_app (on_eud stop_server))
     (thenA (on_app (on_servers sm_stop))
     (thenA (on_manager mg_stop) (on_app (on_gateway gw_stop))))"

section \<open>A run of the exercise\<close>

text \<open>\<open>try: m finally: f\<close>: an exception of \<open>f\<close> replaces that of \<open>m\<close>.\<close>

definition finallyA :: "('s, 'e, unit) act \<Rightarrow> ('s, 'e, unit) act \<Rightarrow> ('s, 'e, unit) act" where
  "finallyA m f s =
     (case m s of (r, s1, cs) \<Rightarrow> (case f s1 of (r', s2, ds) \<Rightarrow> (bindR r' (\<lambda>_. r), s2, cs @ ds)))"

text \<open>\<open>arrivals n\<close> are the frames the transports deliver while the run sleeps after tick \<open>n\<close>, those of
  \<open>ticks\<close> while it settles. What a delivery raises ends in its task.\<close>

definition deliver :: "sim_world \<Rightarrow> (nat \<times> bytes) list \<Rightarrow> unit exercise_act" where
  "deliver X frames = forA frames (\<lambda>(i, raw). catchA (sim_op_act X (SimFrame i raw)) (\<lambda>_. retA ()))"

definition run_exercise :: "sim_world \<Rightarrow> nat \<Rightarrow> (nat \<Rightarrow> (nat \<times> bytes) list) \<Rightarrow> int \<Rightarrow> sim_report exercise_act" where
  "run_exercise X ticks arrivals now =
     thenA (exercise_start X)
     (thenA
       (finallyA
         (thenA (forA [0..<ticks] (\<lambda>n. thenA (exercise_tick X n) (deliver X (arrivals n)))) (deliver X (arrivals ticks)))
         exercise_stop)
       (getA (report_of now ticks)))"

text \<open>The probe: a private network, whatever the node's configuration, and between 1 and 40 ticks.\<close>

definition probe_params :: "string \<Rightarrow> string option \<Rightarrow> sim_params" where
  "probe_params token rogue =
     default_sim_params\<lparr>sp_network_id := ''matrix-probe-'' @ token, sp_transport := ''loopback'', sp_codec := ''xml'', sp_rogue := rogue\<rparr>"

definition probe_ticks :: "int \<Rightarrow> nat" where
  "probe_ticks ticks = nat (max 1 (min ticks 40))"

definition matrix_probe :: "sim_world \<Rightarrow> string \<Rightarrow> int \<Rightarrow> string option \<Rightarrow> (nat \<Rightarrow> (nat \<times> bytes) list) \<Rightarrow> int \<Rightarrow>
    (string list \<times> (string, (string, nat) dict) dict \<times> string option) result" where
  "matrix_probe X token ticks rogue arrivals now =
     bindR (exercise_init X (probe_params token rogue)) (\<lambda>s.
     bindR (value_of (run_exercise X (probe_ticks ticks) arrivals now s)) (\<lambda>R.
     Inr (rp_nodes R, rp_matrix R, rp_rogue_node R)))"

text \<open>The verdict of the command line's \<open>simulate\<close>.\<close>

definition sim_compliant :: "string option \<Rightarrow> sim_report \<Rightarrow> bool" where
  "sim_compliant rogue R \<longleftrightarrow> (all_message_types R \<and> rp_casevac_requests R \<le> rp_casevac_acks R) \<and>
     (rogue = None \<or> rogue_rejected R)"

section \<open>Endpoints that only read\<close>

record symbol_entry =
  se_name :: string
  se_sidc :: string
  se_valid :: bool
  se_parsed :: sidc_fields

definition symbology_catalogue :: "symbol_entry list result" where
  "symbology_catalogue =
     mapR (\<lambda>(name, _). let code = sidc name FRIEND None PRESENT in
       bindR (is_valid_sidc code) (\<lambda>ok.
       Inr \<lparr> se_name = name, se_sidc = code, se_valid = ok, se_parsed = parse_sidc code \<rparr>)) ENTITIES"

record symbol_check =
  sy_sidc :: string
  sy_valid :: bool
  sy_errors :: "string list"
  sy_parsed :: "sidc_fields option"

definition validate_symbol :: "string \<Rightarrow> symbol_check result" where
  "validate_symbol code =
     bindR (validate_sidc code) (\<lambda>errors.
     Inr \<lparr> sy_sidc = code, sy_valid = (errors = []), sy_errors = errors,
       sy_parsed = (if length code = 20 \<and> str_isdigit code then Some (parse_sidc code) else None) \<rparr>)"

definition classifications :: "(nat \<times> string) list" where
  "classifications = map (\<lambda>c. (level_int c, level_label c)) [UNCLASSIFIED, RESTRICTED, CONFIDENTIAL, SECRET]"

record connections_view =
  cv_policy :: policy_view
  cv_peers :: "peer_view list"
  cv_dropped_by_policy :: nat

definition get_connections :: "int \<Rightarrow> gateway \<Rightarrow> connections_view" where
  "get_connections now g = \<lparr> cv_policy = connection_policy_view g, cv_peers = gw_peers now g,
     cv_dropped_by_policy = dict_get (m_drops (gw_metrics g)) ''policy'' 0 \<rparr>"

definition message_log_view :: "int \<Rightarrow> string option \<Rightarrow> string option \<Rightarrow> gateway \<Rightarrow> (string, nat) dict \<times> log_entry list" where
  "message_log_view limit dir disp g =
     (log_counts (m_audit (gw_metrics g)), gw_message_log limit dir disp g)"

text \<open>A group whose plugins do not load is listed empty.\<close>

fun list_plugins :: "'i eps \<Rightarrow> string list \<Rightarrow> 'i registry \<Rightarrow> (string \<times> string list) list \<times> 'i registry" where
  "list_plugins eps [] R = ([], R)"
| "list_plugins eps (g # gs) R =
     (case registry_names eps g R of
        (r, R1) \<Rightarrow>
          (case list_plugins eps gs R1 of
             (rows, R2) \<Rightarrow> ((g, case r of Inl _ \<Rightarrow> [] | Inr ns \<Rightarrow> ns) # rows, R2)))"

section \<open>Up and down\<close>

lemma on_app_run: "value_of (on_app m s) = value_of (m (wa_app s))"
  "state_of (on_app m s) = s\<lparr>wa_app := state_of (m (wa_app s))\<rparr>"
  by (simp_all add: on_app_def value_of_def state_of_def case_prod_unfold)

lemma on_manager_run: "value_of (on_manager m s) = bindR (value_of (m (wa_manager s))) (\<lambda>_. Inr ())"
  "state_of (on_manager m s) = s\<lparr>wa_manager := state_of (m (wa_manager s))\<rparr>"
  by (simp_all add: on_manager_def value_of_def state_of_def case_prod_unfold)

lemma stop_conns:
  "value_of (forA sids stop_one s) = Inr () \<and> sm_conns (state_of (forA sids stop_one s)) = fold AList.delete sids (sm_conns s)"
proof (induction sids arbitrary: s)
  case (Cons sid sids)
  have "sm_conns (stop_state sid s) = AList.delete sid (sm_conns s)"
    by (simp add: stop_state_def)
  then show ?case using Cons.IH [of "stop_state sid s"] by (simp add: thenA_parts stop_one_run)
qed (simp add: act_defs)

lemma delete_all: "set (map fst d) \<subseteq> set ks \<Longrightarrow> fold AList.delete ks d = []"
proof (induction ks arbitrary: d)
  case (Cons k ks)
  have "set (map fst (AList.delete k d)) \<subseteq> set ks" using Cons.prems by (auto simp: AList.delete_eq)
  then show ?case using Cons.IH by simp
qed simp

lemma servers_stop: "value_of (sm_stop s) = Inr ()" "sm_conns (state_of (sm_stop s)) = []"
  using stop_conns [of "map fst (sm_conns s)" s] delete_all [of "sm_conns s" "map fst (sm_conns s)"]
  by (simp_all add: sm_stop_def bindA_parts act_defs)

lemma bring_up_run:
  "value_of (bring_up R cfg w) = Inr () \<and>
   state_of (bring_up R cfg w) = w\<lparr>wa_app := (wa_app w)\<lparr>ap_servers := servers_after R 0 cfg (ap_servers (wa_app w)),
     ap_eud := eud_after R 0 cfg (ap_eud (wa_app w))\<rparr>\<rparr>"
  by (simp add: bring_up_def thenA_parts on_app_run on_servers_run on_eud_run reconcile_run(1) eud_reconfigure_value
      attach_servers_def attach_eud_def act_defs servers_after_def eud_after_def)

text \<open>Property C31: an application that comes up runs its node with the configuration of the file, connects
  to exactly the enabled servers, listens for EUDs where and only where it is told to and the address can be
  bound, runs no exercise, and has not written the file.\<close>

theorem startup_as_configured:
  assumes "web_startup R stale cfg store = Inr w"
  shows "gw_config (ap_gateway (wa_app w)) = cfg \<and> gw_running (ap_gateway (wa_app w)) \<and>
    live_links (ap_servers (wa_app w)) = wanted_links (cfg_servers cfg) \<and>
    em_server (ap_eud (wa_app w)) =
      (if eu_enabled (cfg_eud_server cfg) \<and> rt_bind R (eu_host (cfg_eud_server cfg)) (eu_port (cfg_eud_server cfg)) = None
       then Some (eu_host (cfg_eud_server cfg), eu_port (cfg_eud_server cfg)) else None) \<and>
    wa_manager w = manager_init \<and> ap_store (wa_app w) = store"
proof -
  obtain g where g: "build_and_start (rt_world R) (rt_mid R) cfg = Inr g"
    using assms by (cases "build_and_start (rt_world R) (rt_mid R) cfg") (auto simp: web_startup_def)
  let ?w0 = "\<lparr> wa_app = \<lparr> ap_gateway = g, ap_node = 0, ap_servers = servers_init stale, ap_eud = eud_init stale, ap_store = store \<rparr>,
    wa_manager = manager_init \<rparr>"
  have "w = state_of (bring_up R cfg ?w0)"
    using assms bring_up_run [of R cfg ?w0] g
    by (auto simp: web_startup_def value_of_def state_of_def split: prod.splits)
  then have w: "w = ?w0\<lparr>wa_app := (wa_app ?w0)\<lparr>ap_servers := servers_after R 0 cfg (servers_init stale),
      ap_eud := eud_after R 0 cfg (eud_init stale)\<rparr>\<rparr>" using bring_up_run [of R cfg ?w0] by simp
  have s: "servers_inv (snd (sm_attach 0 cfg (servers_init stale)))"
    by (rule step_inv [OF servers_step.attach reach_inv [of stale]]) (simp add: servers_reach_def)
  have e: "eud_inv (snd (eud_attach 0 cfg (eud_init stale)))"
    by (rule eud_step_inv [OF eud_step.attach eud_reach_inv [of stale]]) (simp add: eud_reach_def)
  have n: "em_server (snd (eud_attach 0 cfg (eud_init stale))) = None" by (simp add: eud_attach_def eud_init_def)
  show ?thesis
    using built_node [OF g] reconcile_live [OF s] eud_reconfigure_server(1) [OF e, of "rt_bind R" "cfg_eud_server cfg"] n
    by (simp add: w servers_after_def eud_after_def)
qed

lemmas shutdown_run = web_shutdown_def thenA_parts on_app_run on_eud_run on_servers_run on_manager_run on_gateway_run
  stop_server_run servers_stop

text \<open>Property C32: whatever the application went through, shutting it down leaves nothing behind as long as
  its manager was used by one request at a time and no exercise failed: no server connection, no listener and
  no EUD, no exercise on the network, and a stopped node.\<close>

theorem shutdown_complete:
  assumes "managed X (wa_manager w)"
  shows "value_of (web_shutdown w) = Inr () \<and> sm_conns (ap_servers (wa_app (state_of (web_shutdown w)))) = [] \<and>
    em_server (ap_eud (wa_app (state_of (web_shutdown w)))) = None \<and> em_clients (ap_eud (wa_app (state_of (web_shutdown w)))) = [] \<and>
    list_all (\<lambda>s. \<not> on_air s) (mg_sims (wa_manager (state_of (web_shutdown w)))) \<and>
    \<not> gw_running (ap_gateway (wa_app (state_of (web_shutdown w))))"
proof -
  have g: "\<not> gw_running (state_of (gw_stop h))" "value_of (gw_stop h) = Inr ()" for h
    by (simp_all add: gw_stop_def modifyA_def gw_running_def)
  let ?m = "state_of (mg_stop (wa_manager w))"
  have s: "single (wa_manager w)" by (rule managed_single [OF assms])
  have ok: "is_ok (value_of (mg_stop (wa_manager w)))" "mg_sim ?m = None"
    using stop_run [of "wa_manager w"] singleD(3,6) [OF s] by blast+
  have "\<not> on_air (mg_sims ?m ! k)" if "k < length (mg_sims ?m)" for k
    using singleD(1) [OF single_stopped [OF s] that] ok(2) by force
  then have "list_all (\<lambda>s. \<not> on_air s) (mg_sims ?m)" by (simp add: list_all_length)
  then show ?thesis using ok(1) g by (auto simp: shutdown_run is_ok_iff)
qed

text \<open>After an exercise has failed, the shutdown raises its exception and never reaches the node.\<close>

lemma shutdown_after_failure:
  assumes "mg_task (wa_manager w) = Some j" and "mg_tasks (wa_manager w) ! j = Failed e"
  shows "value_of (web_shutdown w) = Inl e \<and> ap_gateway (wa_app (state_of (web_shutdown w))) = ap_gateway (wa_app w)"
proof -
  have "mg_stop (wa_manager w) = (Inl e, wa_manager w, [])"
    using assms by (simp add: mg_stop_def thenA_def bindA_def mg_end_task_def)
  then show ?thesis by (simp add: shutdown_run)
qed

text \<open>Whatever happens during a run, once its start has returned the run ends with every client and the
  rogue off the network.\<close>

lemma run_leaves_nothing:
  assumes "is_ok (value_of (exercise_start X s))"
  shows "\<not> on_air (state_of (run_exercise X ticks arrivals now s))"
proof -
  have f: "\<not> on_air (state_of (finallyA m exercise_stop s'))" for m :: "unit exercise_act" and s'
  proof -
    obtain r s1 cs where m: "m s' = (r, s1, cs)" by (rule prod_cases3)
    obtain s2 ds where "exercise_stop s1 = (Inr (), s2, ds)" "\<not> on_air s2" using exercise_stop_silences by blast
    then show ?thesis by (simp add: finallyA_def m)
  qed
  then show ?thesis using assms by (auto simp: run_exercise_def thenA_parts act_defs is_ok_iff split: sum.split)
qed

text \<open>Every symbol of the catalogue conforms.\<close>

lemma catalogue_valid: "\<exists>es. symbology_catalogue = Inr es \<and> list_all se_valid es \<and> map se_name es = map fst ENTITIES"
proof -
  have v: "is_valid_sidc (sidc name FRIEND None PRESENT) = Inr True" for name
    unfolding is_valid_sidc_def by (simp add: validate_ok_iff [THEN iffD2, OF conforms_sidc])
  have "\<exists>es. mapR (\<lambda>(name, _). let code = sidc name FRIEND None PRESENT in
       bindR (is_valid_sidc code) (\<lambda>ok.
       Inr \<lparr> se_name = name, se_sidc = code, se_valid = ok, se_parsed = parse_sidc code \<rparr>)) xs = Inr es \<and>
       list_all se_valid es \<and> map se_name es = map fst xs" for xs :: "(string \<times> symbol_set \<times> string) list"
    by (induction xs) (auto simp: v Let_def)
  then show ?thesis by (simp add: symbology_catalogue_def)
qed

section \<open>An application\<close>

lemma startup_returns:
  assumes "build_and_start (rt_world R) (rt_mid R) cfg = Inr g"
  shows "\<exists>w. web_startup R stale cfg store = Inr w"
proof -
  let ?w0 = "\<lparr> wa_app = \<lparr> ap_gateway = g, ap_node = 0, ap_servers = servers_init stale, ap_eud = eud_init stale, ap_store = store \<rparr>,
    wa_manager = manager_init \<rparr>"
  obtain r w cs where b: "bring_up R cfg ?w0 = (r, w, cs)" by (rule prod_cases3)
  then have "r = Inr ()" using bring_up_run [of R cfg ?w0] by simp
  then show ?thesis by (simp add: web_startup_def assms b)
qed

theorem startup_as_configured_witness:
  "\<exists>w. web_startup (demo_runtime (demo_cfg ''n'')) 120 (demo_cfg ''n'') None = Inr w \<and>
     gw_running (ap_gateway (wa_app w)) \<and> live_links (ap_servers (wa_app w)) ''s'' = None"
proof -
  let ?R = "demo_runtime (demo_cfg ''n'')"
  obtain g where "build_and_start (rt_world ?R) (rt_mid ?R) (demo_cfg ''n'') = Inr g"
    using demo_built by (auto simp: demo_runtime_def)
  then obtain w where w: "web_startup ?R 120 (demo_cfg ''n'') None = Inr w" using startup_returns by blast
  have "wanted_links (cfg_servers (demo_cfg ''n'')) ''s'' = None"
    by (simp add: wanted_links_def demo_cfg_def default_config_def desired_of_def dict_update_def)
  then show ?thesis using w startup_as_configured [OF w] by (intro exI [of _ w]) simp
qed

theorem shutdown_complete_witness:
  "\<exists>w. on_air (mg_sims (wa_manager w) ! 0) \<and> value_of (web_shutdown w) = Inr () \<and>
     list_all (\<lambda>s. \<not> on_air s) (mg_sims (wa_manager (state_of (web_shutdown w))))"
proof -
  obtain m where m: "managed demo_sim_world m" "on_air (mg_sims m ! 0)" using demo_managed by blast
  let ?w = "\<lparr> wa_app = demo_app, wa_manager = m \<rparr>"
  have "managed demo_sim_world (wa_manager ?w)" using m(1) by simp
  from shutdown_complete [OF this] show ?thesis using m(2) by (intro exI [of _ ?w]) simp
qed

text \<open>The catalogue of classifications is in ascending order and has a label for every level a header may carry.\<close>

lemma classifications_ascending: "classifications = map (\<lambda>c. (level_int c, level_label c)) (sorted_list_of_set UNIV)"
proof -
  have u: "set [UNCLASSIFIED, RESTRICTED, CONFIDENTIAL, SECRET] = (UNIV :: classification_level set)"
    using classification_level.exhaust by auto
  have "sorted [UNCLASSIFIED, RESTRICTED, CONFIDENTIAL, SECRET]" by (simp add: less_eq_classification_level_def)
  then have "sorted_list_of_set UNIV = [UNCLASSIFIED, RESTRICTED, CONFIDENTIAL, SECRET]"
    unfolding u [symmetric] by (intro sorted_list_of_set.idem_if_sorted_distinct) simp_all
  then show ?thesis by (simp only: classifications_def)
qed

lemma classification_labelled: "classification h = int c \<Longrightarrow> in_range 0 3 (classification h) \<longleftrightarrow> c \<in> fst ` set classifications"
  using level_of_int [of c] by (auto simp: in_range_def classifications_def elim: level_int.elims)

end
