(* ===== verification/Udp.thy ===== *)
theory Udp
  imports Access Act
begin

text \<open>
  The multicast transport (\<open>iem/transport_udp.py\<close>): its socket's set-up as the calls it makes of the
  operating system, whose answers are a parameter, and the contract of a \<open>Transport\<close> (\<open>interfaces.py\<close>)
  that it shares with the loopback transport: nothing can be sent before a start or after a stop.
\<close>

section \<open>The contract\<close>

text \<open>\<open>send\<close> gives the bytes that leave the transport, or what it raises.\<close>

locale transport_contract =
  fixes start :: "'t \<Rightarrow> 't"
    and stop :: "'t \<Rightarrow> 't"
    and open_now :: "'t \<Rightarrow> bool"
    and send :: "bytes \<Rightarrow> 't \<Rightarrow> bytes result"
    and fresh :: 't
  assumes fresh_closed: "\<not> open_now fresh"
    and start_opens: "open_now (start t)"
    and stop_closes: "\<not> open_now (stop t)"
    and send_open: "open_now t \<Longrightarrow> send fr t = Inr fr"
    and send_closed: "\<not> open_now t \<Longrightarrow> send fr t = Inl (PyExn RuntimeErr ''transport not started'')"
begin

text \<open>After any starts and stops, the last one decides.\<close>

definition after_ops :: "bool list \<Rightarrow> 't" where
  "after_ops ops = fold (\<lambda>up t. if up then start t else stop t) ops fresh"

lemma last_decides: "open_now (after_ops ops) \<longleftrightarrow> ops \<noteq> [] \<and> last ops"
proof (cases ops rule: rev_cases)
  case Nil
  then show ?thesis by (simp add: after_ops_def fresh_closed)
next
  case (snoc us u)
  then show ?thesis by (simp add: after_ops_def start_opens stop_closes)
qed

lemma send_after: "send fr (after_ops ops) =
    (if ops \<noteq> [] \<and> last ops then Inr fr else Inl (PyExn RuntimeErr ''transport not started''))"
  using last_decides [of ops] by (simp add: send_open send_closed)

end

section \<open>Multicast\<close>

text \<open>What the transport asks of the system: a socket with its options, in order, sending and closing; what
  it hands on: a frame to its handler, a reason to its drop hook.\<close>

datatype udp_call =
    OpenSocket | ReuseAddress | ReusePort | BindPort int | JoinGroup string | SetTtl int | SetLoop | Endpoint
  | SendTo bytes string int | CloseSocket | Deliver nat bytes | DropHook string

record udp =
  ud_group :: string
  ud_port :: int
  ud_ttl :: int
  ud_handler :: "nat option"
  ud_open :: bool
  ud_loop :: bool
  ud_hook :: bool

definition udp_init :: "string \<Rightarrow> int \<Rightarrow> int \<Rightarrow> bool \<Rightarrow> udp" where
  "udp_init grp port ttl hook = \<lparr> ud_group = grp, ud_port = port, ud_ttl = ttl, ud_handler = None, ud_open = False,
     ud_loop = False, ud_hook = hook \<rparr>"

type_synonym 'a udp_act = "(udp, udp_call, 'a) act"

text \<open>\<open>os c\<close> is what the system answers to \<open>c\<close>; \<open>reuseport\<close> whether the platform has the option.\<close>

definition ask :: "(udp_call \<Rightarrow> unit result) \<Rightarrow> udp_call \<Rightarrow> unit udp_act" where
  "ask os c = thenA (callA c) (liftA (os c))"

definition udp_on_receive :: "nat \<Rightarrow> unit udp_act" where
  "udp_on_receive h = modifyA (\<lambda>s. s\<lparr>ud_handler := Some h\<rparr>)"

definition metrics_drop :: "string \<Rightarrow> unit udp_act" where
  "metrics_drop reason = bindA (getA ud_hook) (\<lambda>hook. if hook then callA (DropHook reason) else retA ())"

definition socket_setup :: "bool \<Rightarrow> udp \<Rightarrow> udp_call list" where
  "socket_setup reuseport s =
     [OpenSocket, ReuseAddress] @ (if reuseport then [ReusePort] else []) @
     [BindPort (ud_port s), JoinGroup (ud_group s), SetTtl (ud_ttl s), SetLoop, Endpoint]"

definition udp_start :: "(udp_call \<Rightarrow> unit result) \<Rightarrow> bool \<Rightarrow> unit udp_act" where
  "udp_start os reuseport =
     thenA (modifyA (\<lambda>s. s\<lparr>ud_loop := True\<rparr>))
     (bindA (getA (socket_setup reuseport)) (\<lambda>calls.
      thenA (forA calls (ask os)) (modifyA (\<lambda>s. s\<lparr>ud_open := True\<rparr>))))"

definition udp_stop :: "unit udp_act" where
  "udp_stop = bindA (getA ud_open) (\<lambda>up.
     if up then thenA (callA CloseSocket) (modifyA (\<lambda>s. s\<lparr>ud_open := False\<rparr>)) else retA ())"

definition udp_send :: "bytes \<Rightarrow> unit udp_act" where
  "udp_send fr = bindA (getA (\<lambda>s. s)) (\<lambda>s.
     if ud_open s then callA (SendTo fr (ud_group s) (ud_port s)) else raiseA (PyExn RuntimeErr ''transport not started''))"

text \<open>A datagram that arrives is handed to the handler in a task of its own.\<close>

definition on_datagram :: "bytes \<Rightarrow> unit udp_act" where
  "on_datagram data = bindA (getA (\<lambda>s. s)) (\<lambda>s.
     case ud_handler s of
       None \<Rightarrow> retA ()
     | Some h \<Rightarrow> if ud_loop s then callA (Deliver h data) else retA ())"

definition error_received :: "string \<Rightarrow> unit udp_act" where
  "error_received exc = metrics_drop (''socket error: '' @ exc)"

section \<open>Starting\<close>

lemma asks_run:
  "value_of (forA calls (ask os) s) = (case find (\<lambda>c. \<not> is_ok (os c)) calls of None \<Rightarrow> Inr () | Some c \<Rightarrow> os c) \<and>
   state_of (forA calls (ask os) s) = s \<and>
   calls_of (forA calls (ask os) s) = takeWhile (\<lambda>c. is_ok (os c)) calls @ (case find (\<lambda>c. \<not> is_ok (os c)) calls of None \<Rightarrow> [] | Some c \<Rightarrow> [c])"
proof (induction calls)
  case (Cons c calls)
  then show ?case by (cases "os c") (auto simp: ask_def thenA_parts act_defs split: option.splits)
qed (simp add: act_defs)

text \<open>A start makes the calls of the set-up in order up to the first the system refuses, and opens the
  transport exactly when it refuses none. A refused start leaves the transport as it was but for the loop.\<close>

lemma udp_start_run:
  "state_of (udp_start os rp s) = s\<lparr>ud_loop := True, ud_open := (ud_open s \<or> list_all (\<lambda>c. is_ok (os c)) (socket_setup rp s))\<rparr> \<and>
   (is_ok (value_of (udp_start os rp s)) \<longleftrightarrow> list_all (\<lambda>c. is_ok (os c)) (socket_setup rp s))"
proof -
  let ?s = "s\<lparr>ud_loop := True\<rparr>" and ?calls = "socket_setup rp s"
  have e: "socket_setup rp ?s = ?calls" by (simp add: socket_setup_def)
  have f: "find (\<lambda>c. \<not> is_ok (os c)) ?calls = None \<longleftrightarrow> list_all (\<lambda>c. is_ok (os c)) ?calls"
    by (auto simp: find_None_iff list_all_iff)
  have n: "\<not> is_ok (os c)" if "find (\<lambda>c. \<not> is_ok (os c)) ?calls = Some c" for c
    using that by (auto simp: find_Some_iff)
  show ?thesis
    using asks_run [of ?calls os ?s] f n
    by (cases "find (\<lambda>c. \<not> is_ok (os c)) ?calls")
      (auto simp: udp_start_def thenA_parts bindA_parts act_defs e is_ok_iff split: sum.split)
qed

section \<open>Both transports keep the contract\<close>

text \<open>What leaves a transport on a send.\<close>

definition udp_sent :: "bytes \<Rightarrow> udp \<Rightarrow> bytes result" where
  "udp_sent fr s = bindR (value_of (udp_send fr s)) (\<lambda>_.
     case calls_of (udp_send fr s) of [SendTo data _ _] \<Rightarrow> Inr data | _ \<Rightarrow> Inr [])"

definition granted :: "udp_call \<Rightarrow> unit result" where
  "granted c = Inr ()"

interpretation udp: transport_contract "\<lambda>s. state_of (udp_start granted rp s)" "\<lambda>s. state_of (udp_stop s)" ud_open udp_sent
    "udp_init grp port ttl hook" for rp grp port ttl hook
  by unfold_locales (simp_all add: udp_init_def udp_start_run granted_def list_all_iff udp_stop_def udp_sent_def udp_send_def
      bindA_parts thenA_parts act_defs)

definition loopback_sent :: "bytes \<Rightarrow> loopback \<times> buses \<Rightarrow> bytes result" where
  "loopback_sent fr = (\<lambda>(t, B). bindR (loopback_receivers (\<lambda>_. True) t B) (\<lambda>_. Inr fr))"

interpretation loop: transport_contract "\<lambda>(t, B). loopback_start t B" "\<lambda>(t, B). loopback_stop t B" "\<lambda>(t, B). lb_running t"
    loopback_sent "(loopback_init i g, B)" for i g B
  by unfold_locales (auto simp: loopback_init_def loopback_start_def loopback_stop_def loopback_sent_def loopback_receivers_def)

text \<open>So the engine cannot tell the two apart: after the same starts and stops both let the same frame out, or
  both raise the same exception.\<close>

lemma transports_agree:
  "udp_sent fr (fold (\<lambda>up s. if up then state_of (udp_start granted rp s) else state_of (udp_stop s)) ops (udp_init grp port ttl hook)) =
   loopback_sent fr (fold (\<lambda>up x. if up then (case x of (t, B) \<Rightarrow> loopback_start t B) else (case x of (t, B) \<Rightarrow> loopback_stop t B))
     ops (loopback_init i g, B))"
  by (simp only: udp.send_after [unfolded udp.after_ops_def] loop.send_after [unfolded loop.after_ops_def])

end
