(* ===== verification/Pkcs12.thy ===== *)
theory Pkcs12
  imports PyText "HOL-Library.Multiset"
begin

text \<open>
  Importing a PKCS#12 bundle (\<open>security/pkcs12.py\<close> and the import endpoint of
  \<open>web/routers/servers.py\<close>): the strict base64 of the upload, the choice of the client certificate, and the
  errors. The cryptography package is a parameter (\<open>pkcs12_lib\<close>).
\<close>

section \<open>Base64\<close>

text \<open>\<open>base64.b64decode(s, validate=True)\<close>: groups of four characters of the alphabet, the last one padded
  if it is short, and nothing else.\<close>

definition b64_val :: "char \<Rightarrow> nat option" where
  "b64_val c = (let n = of_char c :: nat in
     if 65 \<le> n \<and> n \<le> 90 then Some (n - 65)
     else if 97 \<le> n \<and> n \<le> 122 then Some (n - 71)
     else if 48 \<le> n \<and> n \<le> 57 then Some (n + 4)
     else if n = 43 then Some 62
     else if n = 47 then Some 63
     else None)"

definition bytes_of_nats :: "nat list \<Rightarrow> bytes" where
  "bytes_of_nats ns = map of_nat ns"

definition b64_group :: "nat \<Rightarrow> nat \<Rightarrow> nat \<Rightarrow> nat \<Rightarrow> bytes" where
  "b64_group a b c d = (let v = ((a * 64 + b) * 64 + c) * 64 + d in
     bytes_of_nats [v div 65536, v div 256 mod 256, v mod 256])"

fun b64_groups :: "string \<Rightarrow> bytes option" where
  "b64_groups [] = Some []"
| "b64_groups (a # b # c # d # cs) =
     (case (b64_val a, b64_val b) of
        (Some a, Some b) \<Rightarrow>
          (if c = CHR ''='' then (if d = CHR ''='' \<and> cs = [] then Some (take 1 (b64_group a b 0 0)) else None)
           else (case b64_val c of
                   None \<Rightarrow> None
                 | Some c \<Rightarrow>
                     if d = CHR ''='' then (if cs = [] then Some (take 2 (b64_group a b c 0)) else None)
                     else (case b64_val d of
                             None \<Rightarrow> None
                           | Some d \<Rightarrow> map_option (\<lambda>bs. b64_group a b c d @ bs) (b64_groups cs))))
      | _ \<Rightarrow> None)"
| "b64_groups _ = None"

definition b64decode :: "string \<Rightarrow> bytes result" where
  "b64decode s = (case b64_groups s of
     None \<Rightarrow> Inl (PyExn ValueErr ''invalid base64'') | Some bs \<Rightarrow> Inr bs)"

text \<open>What a browser uploads for a file.\<close>

definition b64_char :: "nat \<Rightarrow> char" where
  "b64_char v = char_of (if v < 26 then v + 65 else if v < 52 then v + 71 else if v < 62 then v - 4
     else if v = 62 then 43 else 47 :: nat)"

definition b64_chars :: "byte \<Rightarrow> byte \<Rightarrow> byte \<Rightarrow> string" where
  "b64_chars x y z = (let v = (unat x * 256 + unat y) * 256 + unat z in
     map b64_char [v div 262144, v div 4096 mod 64, v div 64 mod 64, v mod 64])"

fun b64encode :: "bytes \<Rightarrow> string" where
  "b64encode [] = []"
| "b64encode [x] = take 2 (b64_chars x 0 0) @ ''==''"
| "b64encode [x, y] = take 3 (b64_chars x y 0) @ ''=''"
| "b64encode (x # y # z # bs) = b64_chars x y z @ b64encode bs"

section \<open>The bundle\<close>

text \<open>\<open>pk_load\<close> is \<open>load_key_and_certificates\<close>; \<open>pk_key_spki\<close> and \<open>pk_cert_spki\<close> give the DER encoding of the
  public key of a private key and of a certificate, \<open>pk_cert_pem\<close> and \<open>pk_key_pem\<close> the PEM texts,
  \<open>pk_names\<close> the common names in a certificate's subject.\<close>

record ('k, 'c) pkcs12_lib =
  pk_load :: "bytes \<Rightarrow> bytes option \<Rightarrow> ('k option \<times> 'c option \<times> 'c list) result"
  pk_key_spki :: "'k \<Rightarrow> bytes"
  pk_cert_spki :: "'c \<Rightarrow> bytes result"
  pk_cert_pem :: "'c \<Rightarrow> string"
  pk_key_pem :: "'k \<Rightarrow> string"
  pk_names :: "'c \<Rightarrow> string list"

record pkcs12_material =
  pm_client_cert :: string
  pm_client_key :: string
  pm_cacert :: "string option"
  pm_common_name :: string

fun first_match :: "('c \<Rightarrow> bytes result) \<Rightarrow> bytes \<Rightarrow> 'c list \<Rightarrow> 'c option result" where
  "first_match spki want [] = Inr None"
| "first_match spki want (c # cs) =
     bindR (spki c) (\<lambda>got. if got = want then Inr (Some c) else first_match spki want cs)"

text \<open>The certificate the library links to the key, or the first of the others that has its public key,
  which leaves them then.\<close>

definition choose_cert :: "('k, 'c) pkcs12_lib \<Rightarrow> 'k \<Rightarrow> 'c option \<Rightarrow> 'c list \<Rightarrow> ('c option \<times> 'c list) result" where
  "choose_cert L key cert extras =
     (case cert of
        Some c \<Rightarrow> Inr (Some c, extras)
      | None \<Rightarrow> bindR (first_match (pk_cert_spki L) (pk_key_spki L key) extras) (\<lambda>m.
          Inr (case m of None \<Rightarrow> (None, extras) | Some c \<Rightarrow> (Some c, remove1 c extras))))"

definition material :: "('k, 'c) pkcs12_lib \<Rightarrow> 'k \<Rightarrow> 'c \<Rightarrow> 'c list \<Rightarrow> pkcs12_material" where
  "material L key c extras =
     (let ca = concat (map (pk_cert_pem L) extras) in
      \<lparr> pm_client_cert = pk_cert_pem L c, pm_client_key = pk_key_pem L key,
        pm_cacert = (if ca = [] then None else Some ca),
        pm_common_name = (case pk_names L c of [] \<Rightarrow> [] | n # _ \<Rightarrow> n) \<rparr>)"

text \<open>\<open>except ValueError\<close>, with the subclasses of it the library may raise. The texts stop at the dash that
  introduces an explanation.\<close>

definition is_value_error :: "pyexn \<Rightarrow> bool" where
  "is_value_error e \<longleftrightarrow> exn_kind e \<in> {ValueErr, UnicodeErr, ValidationErr, JsonErr}"

definition bad_bundle :: "pyexn \<Rightarrow> pyexn" where
  "bad_bundle e = (if is_value_error e then PyExn ValueErr ''wrong password or not a valid .p12 file'' else e)"

definition load_bundle :: "('k, 'c) pkcs12_lib \<Rightarrow> bytes \<Rightarrow> string option \<Rightarrow> ('k option \<times> 'c option \<times> 'c list) result" where
  "load_bundle L data password =
     (case pk_load L data (case password of None \<Rightarrow> None | Some p \<Rightarrow> if p = [] then None else Some (utf8_encode p)) of
        Inl e \<Rightarrow> Inl (bad_bundle e) | Inr b \<Rightarrow> Inr b)"

definition load_pkcs12 :: "('k, 'c) pkcs12_lib \<Rightarrow> bytes \<Rightarrow> string option \<Rightarrow> pkcs12_material result" where
  "load_pkcs12 L data password =
     bindR (load_bundle L data password) (\<lambda>(key, cert, extras).
     case key of
       None \<Rightarrow> Inl (PyExn ValueErr ''no private key in this .p12'')
     | Some key \<Rightarrow>
         bindR (choose_cert L key cert extras) (\<lambda>(cert, extras).
         case cert of
           None \<Rightarrow> Inl (PyExn ValueErr ''the .p12 has a private key but no matching client certificate'')
         | Some c \<Rightarrow> Inr (material L key c extras)))"

definition as_bad_request :: "string \<Rightarrow> pyexn \<Rightarrow> pyexn" where
  "as_bad_request pre e = (if is_value_error e then PyExn (HttpErr 400) (pre @ exn_str e) else e)"

definition import_pkcs12 :: "('k, 'c) pkcs12_lib \<Rightarrow> string \<Rightarrow> string \<Rightarrow> pkcs12_material result" where
  "import_pkcs12 L p12_base64 password =
     (case b64decode p12_base64 of
        Inl e \<Rightarrow> Inl (PyExn (HttpErr 400) ''invalid base64 for the .p12 file'')
      | Inr data \<Rightarrow>
          (case load_pkcs12 L data (if password = [] then None else Some password) of
             Inl e \<Rightarrow> Inl (as_bad_request ''could not read .p12: '' e)
           | Inr m \<Rightarrow> Inr m))"

section \<open>Uploads arrive\<close>

lemma b64_val_char: "v < 64 \<Longrightarrow> b64_val (b64_char v) = Some v"
  by (simp add: b64_val_def b64_char_def Let_def) linarith

lemma b64_char_not_pad: "v < 64 \<Longrightarrow> b64_char v \<noteq> CHR ''=''"
  using b64_val_char [of v] by (auto simp: b64_val_def)

text \<open>The four digits of three bytes give the bytes back.\<close>

lemma digits_value:
  fixes v :: nat
  shows "((v div 262144 * 64 + v div 4096 mod 64) * 64 + v div 64 mod 64) * 64 + v mod 64 = v"
proof -
  have "v div 262144 = v div 64 div 64 div 64" "v div 4096 = v div 64 div 64"
    by (simp_all add: div_mult2_eq [symmetric])
  then show ?thesis by (simp only: div_mult_mod_eq)
qed

lemma bytes_value:
  assumes "x < 256" and "y < 256" and "z < (256 :: nat)"
  defines "v \<equiv> (x * 256 + y) * 256 + z"
  shows "v div 65536 = x" "v div 256 mod 256 = y" "v mod 256 = z" "v div 262144 < 64"
proof -
  have d: "v div 256 = x * 256 + y" using assms(3) by (simp add: v_def)
  show "v mod 256 = z" using assms(3) by (simp only: v_def mod_mult_self3 mod_less)
  show "v div 256 mod 256 = y" using assms(2) by (simp only: d mod_mult_self3 mod_less)
  have "v div 65536 = v div 256 div 256" by (simp add: div_mult2_eq [symmetric])
  then show x: "v div 65536 = x" using assms(2) by (simp add: d)
  have "v div 262144 = v div 65536 div 4" by (simp add: div_mult2_eq [symmetric])
  then show "v div 262144 < 64" using assms(1) by (simp add: x)
qed

lemma b64_group_value:
  "b64_group (v div 262144) (v div 4096 mod 64) (v div 64 mod 64) (v mod 64) =
   bytes_of_nats [v div 65536, v div 256 mod 256, v mod 256]"
  unfolding b64_group_def digits_value Let_def ..

definition word24 :: "byte \<Rightarrow> byte \<Rightarrow> byte \<Rightarrow> nat" where
  "word24 x y z = (unat x * 256 + unat y) * 256 + unat z"

lemma word24_parts:
  "word24 x y z div 262144 < 64"
  "b64_group (word24 x y z div 262144) (word24 x y z div 4096 mod 64) (word24 x y z div 64 mod 64) (word24 x y z mod 64) = [x, y, z]"
proof -
  have l: "unat w < 256" for w :: byte using unsigned_less [of w] by simp
  note v = bytes_value [OF l [of x] l [of y] l [of z], folded word24_def]
  show "word24 x y z div 262144 < 64" by (rule v(4))
  show "b64_group (word24 x y z div 262144) (word24 x y z div 4096 mod 64) (word24 x y z div 64 mod 64) (word24 x y z mod 64) = [x, y, z]"
    unfolding b64_group_value v(1-3) by (simp add: bytes_of_nats_def)
qed

text \<open>Padding stands for zero digits.\<close>

lemma word24_zeros: "word24 x y 0 mod 64 = 0" "word24 x 0 0 div 64 mod 64 = 0"
proof -
  have "word24 x y 0 = 64 * ((unat x * 256 + unat y) * 4)" by (simp add: word24_def)
  then show "word24 x y 0 mod 64 = 0" by simp
  have "word24 x 0 0 div 64 = 64 * (unat x * 16)" by (simp add: word24_def)
  then show "word24 x 0 0 div 64 mod 64 = 0" by simp
qed

lemma b64_chars_alt: "b64_chars x y z = map b64_char [word24 x y z div 262144, word24 x y z div 4096 mod 64,
    word24 x y z div 64 mod 64, word24 x y z mod 64]"
  by (simp add: b64_chars_def word24_def Let_def)

lemma b64_groups_encode: "b64_groups (b64encode bs) = Some bs"
proof (induction bs rule: b64encode.induct)
  case (2 x)
  show ?case using word24_parts [of x 0 0] word24_zeros(1) [of x 0] word24_zeros(2) [of x]
    by (simp add: b64_chars_alt b64_val_char)
next
  case (3 x y)
  show ?case using word24_parts [of x y 0] word24_zeros(1) [of x y]
    by (simp add: b64_chars_alt b64_val_char b64_char_not_pad)
next
  case (4 x y z bs)
  then show ?case using word24_parts [of x y z]
    by (simp add: b64_chars_alt b64_val_char b64_char_not_pad)
qed simp

text \<open>A file of any bytes, encoded and uploaded, is what is loaded.\<close>

lemma import_of_file:
  "import_pkcs12 L (b64encode data) pw =
     (case load_pkcs12 L data (if pw = [] then None else Some pw) of
        Inl e \<Rightarrow> Inl (as_bad_request ''could not read .p12: '' e) | Inr m \<Rightarrow> Inr m)"
  by (simp add: import_pkcs12_def b64decode_def b64_groups_encode)

section \<open>The certificate fits the key\<close>

lemma first_match_Some: "first_match spki want cs = Inr (Some c) \<Longrightarrow> c \<in> set cs \<and> spki c = Inr want"
  by (induction cs) (auto simp: bindR_Inr_iff split: if_splits)

lemma choose_cert_fits:
  assumes "choose_cert L key cert extras = Inr (Some c, rest)"
    and "\<And>c. cert = Some c \<Longrightarrow> pk_cert_spki L c = Inr (pk_key_spki L key)"
  shows "pk_cert_spki L c = Inr (pk_key_spki L key) \<and> mset (c # rest) = (case cert of None \<Rightarrow> mset extras | Some d \<Rightarrow> mset (d # extras))"
proof (cases cert)
  case (Some d)
  then show ?thesis using assms by (simp add: choose_cert_def)
next
  case None
  then obtain m where "first_match (pk_cert_spki L) (pk_key_spki L key) extras = Inr m" "m = Some c" "rest = remove1 c extras"
    using assms(1) by (auto simp: choose_cert_def bindR_Inr_iff split: option.splits)
  then show ?thesis using None first_match_Some [of "pk_cert_spki L" _ extras c] by simp
qed

text \<open>Where the library links a certificate to a key only if it is of that key, an import gives the key, a
  certificate of the bundle of that very key, and all the others as its chain.\<close>

lemma import_fits:
  assumes "\<And>data pw key c extras. pk_load L data pw = Inr (Some key, Some c, extras) \<Longrightarrow> pk_cert_spki L c = Inr (pk_key_spki L key)"
    and "import_pkcs12 L s pw = Inr M"
  shows "\<exists>data pwd key cert extras c rest. b64decode s = Inr data \<and> pk_load L data pwd = Inr (Some key, cert, extras) \<and>
    pk_cert_spki L c = Inr (pk_key_spki L key) \<and> M = material L key c rest \<and>
    mset (c # rest) = (case cert of None \<Rightarrow> mset extras | Some d \<Rightarrow> mset (d # extras))"
proof -
  obtain data where d: "b64decode s = Inr data" and l: "load_pkcs12 L data (if pw = [] then None else Some pw) = Inr M"
    using assms(2) by (auto simp: import_pkcs12_def split: sum.splits)
  obtain key cert extras c rest where b: "load_bundle L data (if pw = [] then None else Some pw) = Inr (Some key, cert, extras)"
    and ch: "choose_cert L key cert extras = Inr (Some c, rest)" and M: "M = material L key c rest"
    using l by (auto simp: load_pkcs12_def bindR_Inr_iff split: option.splits)
  obtain pwd where k: "pk_load L data pwd = Inr (Some key, cert, extras)"
    using b by (auto simp: load_bundle_def split: sum.splits)
  have "cert = Some d \<Longrightarrow> pk_cert_spki L d = Inr (pk_key_spki L key)" for d using assms(1) k by blast
  then show ?thesis using d k M choose_cert_fits [OF ch] by blast
qed

end
