(* ===== verification/ConfigFile.thy ===== *)
theory ConfigFile
  imports WebApp
begin

text \<open>
  Configuration files (\<open>config/loader.py\<close>): which format a path names, loading a configuration over the
  defaults, the store that persists edits, and the application started from a file (\<open>create_app\<close> of
  \<open>web/app.py\<close>). The YAML and TOML libraries are parameters (\<open>file_formats\<close>); the directories a save makes
  are not part of the disk.
\<close>

section \<open>Paths and documents\<close>

type_synonym disk = "(string, bytes) dict"

record file_formats =
  ff_toml_loads :: "string \<Rightarrow> json result"
  ff_yaml_load :: "string \<Rightarrow> json result"
  ff_toml_dumps :: "(string, json) dict \<Rightarrow> string"
  ff_yaml_dump :: "(string, json) dict \<Rightarrow> string"

text \<open>\<open>Path(p).suffix == ".toml"\<close>: the last component ends so, and not only in dots before it.\<close>

definition path_name :: "string \<Rightarrow> string" where
  "path_name p = (case filter (\<lambda>c. c \<noteq> [] \<and> c \<noteq> ''.'') (split_on (CHR ''/'') p) of [] \<Rightarrow> [] | cs \<Rightarrow> last cs)"

definition is_toml :: "string \<Rightarrow> bool" where
  "is_toml p \<longleftrightarrow> (let n = path_name p; k = length n - 5 in drop k n = ''.toml'' \<and> list_ex (\<lambda>c. c \<noteq> CHR ''.'') (take k n))"

definition read_text :: "disk \<Rightarrow> string \<Rightarrow> string result" where
  "read_text D p = (case map_of D p of None \<Rightarrow> Inl (PyExn OsErr p) | Some bs \<Rightarrow> utf8_decode bs)"

definition read_file :: "file_formats \<Rightarrow> disk \<Rightarrow> string \<Rightarrow> json result" where
  "read_file F D p =
     bindR (read_text D p) (\<lambda>txt.
     if is_toml p then ff_toml_loads F txt
     else bindR (ff_yaml_load F txt) (\<lambda>v. Inr (if Distributor.truthy v then v else JDict [])))"

text \<open>\<open>GatewayConfig(**data)\<close>, with what pydantic makes of the items a parameter.\<close>

definition config_of :: "config_io \<Rightarrow> json \<Rightarrow> gateway_config result" where
  "config_of io v = (case v of
     JDict d \<Rightarrow> ci_build io d | _ \<Rightarrow> Inl (PyExn TypeErr ''argument after ** must be a mapping''))"

definition load_config :: "file_formats \<Rightarrow> config_io \<Rightarrow> disk \<Rightarrow> string option \<Rightarrow> gateway_config result" where
  "load_config F io D p =
     (case p of None \<Rightarrow> ci_build io [] | Some p \<Rightarrow> bindR (read_file F D p) (config_of io))"

section \<open>The store\<close>

definition store_load :: "file_formats \<Rightarrow> string \<Rightarrow> disk \<Rightarrow> json result" where
  "store_load F p D = (if map_of D p = None then Inr (JDict []) else read_file F D p)"

definition store_save :: "file_formats \<Rightarrow> string \<Rightarrow> (string, json) dict \<Rightarrow> disk \<Rightarrow> disk" where
  "store_save F p d D = AList.update p (utf8_encode (if is_toml p then ff_toml_dumps F d else ff_yaml_dump F d)) D"

definition store_persist :: "file_formats \<Rightarrow> string \<Rightarrow> string \<Rightarrow> json \<Rightarrow> disk \<Rightarrow> unit result \<times> disk" where
  "store_persist F p sect data D =
     (case store_load F p D of
        Inl e \<Rightarrow> (Inl e, D)
      | Inr (JDict d) \<Rightarrow> (Inr (), store_save F p (AList.update sect data d) D)
      | Inr _ \<Rightarrow> (Inl (PyExn TypeErr ''object does not support item assignment''), D))"

text \<open>What the store holds: the items of the file, none if there is no file.\<close>

definition stored :: "file_formats \<Rightarrow> string \<Rightarrow> disk \<Rightarrow> (string, json) dict option" where
  "stored F p D = (case store_load F p D of Inr (JDict d) \<Rightarrow> Some d | _ \<Rightarrow> None)"

text \<open>The library reads back what it wrote.\<close>

definition reads_back :: "file_formats \<Rightarrow> string \<Rightarrow> (string, json) dict \<Rightarrow> bool" where
  "reads_back F p d \<longleftrightarrow>
     (if is_toml p then ff_toml_loads F (ff_toml_dumps F d) else ff_yaml_load F (ff_yaml_dump F d)) = Inr (JDict d)"

lemma store_roundtrip: "reads_back F p d \<Longrightarrow> store_load F p (store_save F p d D) = Inr (JDict d)"
  by (simp add: store_load_def store_save_def read_file_def read_text_def reads_back_def update_conv Distributor.truthy_def
      split: if_splits)

text \<open>The application's own view of its store, a dictionary, is refined by the file: persisting a section
  there is persisting it here, and what is saved is what the next start is given.\<close>

lemma persist_refines:
  assumes "stored F p D = ap_store s" and "ap_store s = Some d" and "reads_back F p (AList.update sect data d)"
  shows "stored F p (snd (store_persist F p sect data D)) = ap_store (state_of (persist_section sect data s))"
    and "fst (store_persist F p sect data D) = Inr ()"
proof -
  have l: "store_load F p D = Inr (JDict d)" using assms(1,2) by (auto simp: stored_def split: sum.splits json.splits)
  show "fst (store_persist F p sect data D) = Inr ()" by (simp add: store_persist_def l)
  have "ap_store (state_of (persist_section sect data s)) = Some (AList.update sect data d)"
    by (simp add: persist_section_def bindA_parts thenA_parts act_defs assms(2))
  then show "stored F p (snd (store_persist F p sect data D)) = ap_store (state_of (persist_section sect data s))"
    using store_roundtrip [OF assms(3), of D] by (simp add: store_persist_def l stored_def)
qed

lemma saved_is_loaded:
  "reads_back F p d \<Longrightarrow> load_config F io (store_save F p d D) (Some p) = ci_build io d"
  using store_roundtrip [of F p d D]
  by (simp add: load_config_def store_load_def config_of_def store_save_def update_conv split: if_splits)

section \<open>The application from a file\<close>

text \<open>\<open>given or os.environ.get("JDSS_CONFIG")\<close>; the second is \<open>None\<close> where the variable is not set.\<close>

definition app_path :: "string option \<Rightarrow> string option \<Rightarrow> string option" where
  "app_path given env = (case given of None \<Rightarrow> env | Some p \<Rightarrow> if p = [] then env else Some p)"

definition app_store_of :: "file_formats \<Rightarrow> disk \<Rightarrow> string option \<Rightarrow> (string, json) dict option" where
  "app_store_of F D p = (case p of None \<Rightarrow> None | Some p \<Rightarrow> if p = [] then None else stored F p D)"

definition app_start :: "runtime_env \<Rightarrow> file_formats \<Rightarrow> disk \<Rightarrow> int \<Rightarrow> string option \<Rightarrow> web_app result" where
  "app_start R F D stale p =
     bindR (load_config F (rt_io R) D p) (\<lambda>cfg. web_startup R stale cfg (app_store_of F D p))"

text \<open>An application whose configuration was saved by another comes up with what was saved.\<close>

lemma restart_keeps_config:
  assumes "reads_back F p (ci_dump (rt_io R) cfg)" and "ci_build (rt_io R) (ci_dump (rt_io R) cfg) = Inr cfg"
    and "p \<noteq> []"
  shows "app_start R F (store_save F p (ci_dump (rt_io R) cfg) D) stale (Some p) =
    web_startup R stale cfg (Some (ci_dump (rt_io R) cfg))"
  using assms store_roundtrip [OF assms(1)] saved_is_loaded [OF assms(1)]
  by (simp add: app_start_def app_store_of_def stored_def)

text \<open>An empty \<open>JDSS_CONFIG\<close> counts as no store, but as a file to load: there is none of that name.\<close>

lemma empty_path_fails:
  assumes "map_of D [] = None"
  shows "app_store_of F D (app_path None (Some [])) = None \<and> \<not> is_ok (app_start R F D stale (app_path None (Some [])))"
  using assms by (simp add: app_store_of_def app_path_def app_start_def load_config_def read_file_def read_text_def)

end
