(* ===== verification/BridgeNode.thy ===== *)
theory BridgeNode
  imports WebApp Atak Udp
begin

text \<open>
  Programs around the parts: the ATAK bridge as a whole (\<open>AtakBridge.start\<close> and \<open>stop\<close> with the transport
  it is given, \<open>bridges/atak.py\<close>), what the command line's \<open>bridge\<close> and \<open>run\<close> build (\<open>cli.py\<close>), the one-shot
  connection test (\<open>web/servers.py\<close>), and the live event socket (\<open>web/routers/ws.py\<close>).
\<close>

section \<open>The ATAK bridge\<close>

text \<open>CoT goes over the multicast transport or a TAK server's connector.\<close>

datatype cot_link = Mesh udp | ServerLink connector

record atak_node =
  an_gateway :: gateway
  an_bridge :: atak
  an_cot :: cot_link
  an_hears :: bool
  an_sweeping :: bool

type_synonym 'a atak_node_act = "(atak_node, udp_call, 'a) act"

definition DEFAULT_COT_GROUP :: string where
  "DEFAULT_COT_GROUP = ''239.2.3.1''"

definition DEFAULT_COT_PORT :: int where
  "DEFAULT_COT_PORT = 6969"

definition bridge_init :: "world \<Rightarrow> gateway_config \<Rightarrow> connector option \<Rightarrow> string \<Rightarrow> int \<Rightarrow> int \<Rightarrow> bool \<Rightarrow> atak_node result" where
  "bridge_init W cfg server grp port stale drop_stale =
     bindR (gateway_init W cfg) (\<lambda>g.
     Inr \<lparr> an_gateway = g, an_bridge = atak_init cfg stale drop_stale,
       an_cot = (case server of None \<Rightarrow> Mesh (udp_init grp port 1 False) | Some c \<Rightarrow> ServerLink c),
       an_hears = False, an_sweeping = False \<rparr>)"

text \<open>The frames the node itself sends are its own business here.\<close>

definition on_node :: "'a gact \<Rightarrow> unit atak_node_act" where
  "on_node m s = (case m (an_gateway s) of (r, g, _) \<Rightarrow> (bindR r (\<lambda>_. Inr ()), s\<lparr>an_gateway := g\<rparr>, []))"

definition on_mesh :: "unit udp_act \<Rightarrow> udp \<Rightarrow> unit atak_node_act" where
  "on_mesh m u s = (case m u of (r, u', cs) \<Rightarrow> (r, s\<lparr>an_cot := Mesh u'\<rparr>, cs))"

definition link_start :: "(udp_call \<Rightarrow> unit result) \<Rightarrow> bool \<Rightarrow> unit atak_node_act" where
  "link_start os rp = bindA (getA an_cot) (\<lambda>l.
     case l of Mesh u \<Rightarrow> on_mesh (udp_start os rp) u | ServerLink c \<Rightarrow> modifyA (\<lambda>s. s\<lparr>an_cot := ServerLink (started c)\<rparr>))"

text \<open>The effect of the step \<open>Stop\<close> of a connector.\<close>

definition halted :: "connector \<Rightarrow> connector" where
  "halted c = c\<lparr>tc_stopped := True, tc_buf := [], tc_phase := (if tc_phase c = Idle then Idle else Halted)\<rparr>"

definition link_stop :: "unit atak_node_act" where
  "link_stop = bindA (getA an_cot) (\<lambda>l.
     case l of Mesh u \<Rightarrow> on_mesh udp_stop u | ServerLink c \<Rightarrow> modifyA (\<lambda>s. s\<lparr>an_cot := ServerLink (halted c)\<rparr>))"

definition link_open :: "cot_link \<Rightarrow> bool" where
  "link_open l = (case l of Mesh u \<Rightarrow> ud_open u | ServerLink c \<Rightarrow> tc_phase c \<noteq> Idle \<and> tc_phase c \<noteq> Halted)"

text \<open>\<open>raises\<close> is what emitting a message to the CoT side raises.\<close>

definition to_cot :: "(message \<Rightarrow> pyexn option) \<Rightarrow> handler" where
  "to_cot raises = \<lparr> h_id = 1, h_subs = [''*''], h_raises = raises \<rparr>"

definition node_up :: "world \<Rightarrow> string \<Rightarrow> (message \<Rightarrow> pyexn option) \<Rightarrow> unit atak_node_act" where
  "node_up W mid raises =
     thenA (on_node (gw_add_handler (to_cot raises))) (thenA (on_node (gw_start W)) (on_node (node_identify W mid)))"

definition bridge_start :: "world \<Rightarrow> string \<Rightarrow> (message \<Rightarrow> pyexn option) \<Rightarrow> (udp_call \<Rightarrow> unit result) \<Rightarrow> bool \<Rightarrow> unit atak_node_act" where
  "bridge_start W mid raises os rp =
     thenA (node_up W mid raises)
     (thenA (modifyA (\<lambda>s. s\<lparr>an_hears := True\<rparr>))
     (thenA (link_start os rp)
     (modifyA (\<lambda>s. s\<lparr>an_sweeping := True\<rparr>))))"

definition bridge_stop :: "unit atak_node_act" where
  "bridge_stop =
     thenA (modifyA (\<lambda>s. s\<lparr>an_sweeping := False\<rparr>)) (thenA link_stop (on_node gw_stop))"

section \<open>The command line\<close>

text \<open>\<open>host[:port]\<close>: what follows the first colon, else the default of the kind of connection.\<close>

definition tak_address :: "bool \<Rightarrow> string \<Rightarrow> (string \<times> int) result" where
  "tak_address tls target =
     (let host = before (CHR '':'') target; rest = drop (Suc (length host)) target in
      if rest = [] then Inr (host, if tls then 8089 else 8087)
      else bindR (int_of_text rest) (\<lambda>port. Inr (host, port)))"

record bridge_args =
  ba_cot_group :: string
  ba_cot_port :: int
  ba_cot_stale :: int
  ba_tak_server :: "string option"
  ba_tak_tls :: bool
  ba_tak_cert :: "string option"
  ba_tak_key :: "string option"
  ba_tak_cacert :: "string option"
  ba_tak_insecure :: bool

definition bridge_of_args :: "world \<Rightarrow> gateway_config \<Rightarrow> bridge_args \<Rightarrow> atak_node result" where
  "bridge_of_args W cfg a =
     bindR (case ba_tak_server a of
         None \<Rightarrow> Inr None
       | Some target \<Rightarrow>
           if target = [] then Inr None
           else bindR (tak_address (ba_tak_tls a) target) (\<lambda>(host, port).
             Inr (Some (connector_init host port (ba_tak_tls a) (\<not> ba_tak_insecure a)
               (ba_tak_cert a, ba_tak_key a, ba_tak_cacert a) (1/2) 30 1000)))) (\<lambda>server.
     bridge_init W cfg server (ba_cot_group a) (ba_cot_port a) (ba_cot_stale a) True)"

section \<open>Testing a connection\<close>

text \<open>\<open>waited c\<close>: the connector when the wait ended, and whether it was connected in time.\<close>

definition test_connection :: "bridge_env \<Rightarrow> (connector \<Rightarrow> connector \<times> bool) \<Rightarrow> server_connection \<Rightarrow> (bool \<times> string) server_act" where
  "test_connection B waited d =
     (case waited (started (new_connector B d)) of
        (c, ok) \<Rightarrow>
          thenA (callA (StartConn (sv_id d)))
          (thenA (callA (StopConn (sv_id d)))
          (thenA (cleanup_temp (snd (materialize_certs B d)))
          (retA (ok, if ok then ''connected to '' @ sv_host d @ '':'' @ show_int (sv_port d)
             else or_else (case tc_last_error c of None \<Rightarrow> [] | Some e \<Rightarrow> e) ''connection timed out'')))))"

definition test_server :: "bridge_env \<Rightarrow> (connector \<Rightarrow> connector \<times> bool) \<Rightarrow> server_input \<Rightarrow> (bool \<times> string) server_act" where
  "test_server B waited i = bindA (liftA (mk_server ''__test__'' i)) (test_connection B waited)"

text \<open>A test leaves the manager as it is, stops the connector it starts and removes exactly the files it makes.\<close>

lemma cleanup_calls: "calls_of (cleanup_temp ps s) = map Unlink ps"
  by (induction ps arbitrary: s) (simp_all add: cleanup_temp_def thenA_parts act_defs)

lemma test_leaves_nothing:
  "state_of (test_server B waited i s) = s"
  "calls_of (test_server B waited i s) =
     (case mk_server ''__test__'' i of
        Inl _ \<Rightarrow> []
      | Inr d \<Rightarrow> [StartConn ''__test__'', StopConn ''__test__''] @ map Unlink (snd (materialize_certs B d)))"
proof -
  have "sv_id d = ''__test__''" if "mk_server ''__test__'' i = Inr d" for d
    using that by (auto simp: mk_server_def invalid_def split: if_splits)
  then show "state_of (test_server B waited i s) = s"
    "calls_of (test_server B waited i s) =
     (case mk_server ''__test__'' i of
        Inl _ \<Rightarrow> []
      | Inr d \<Rightarrow> [StartConn ''__test__'', StopConn ''__test__''] @ map Unlink (snd (materialize_certs B d)))"
    by (cases "mk_server ''__test__'' i";
        simp add: test_server_def test_connection_def bindA_parts thenA_parts act_defs cleanup_run cleanup_calls split: prod.split)+
qed

section \<open>The live event socket\<close>

datatype ws_frame = WsSnapshot metrics_snap | WsEvent event | WsHeartbeat

type_synonym 'a ws_act = "(metrics, ws_frame, 'a) act"

text \<open>One turn of the loop: \<open>world\<close> is what happened to the metrics while it waited, \<open>sent\<close> what sending gives.
  With nothing queued the wait ends after 15 seconds.\<close>

datatype ws_turn = WsTurn (ws_world: "metrics \<Rightarrow> metrics") (ws_sent: "unit result")

definition ws_get :: "nat \<Rightarrow> metrics \<Rightarrow> event option \<times> metrics" where
  "ws_get q M =
     (case map_of (m_queues M) q of
        Some (ev # evs) \<Rightarrow> (Some ev, M\<lparr>m_queues := map (\<lambda>(i, l). if i = q then (i, evs) else (i, l)) (m_queues M)\<rparr>)
      | _ \<Rightarrow> (None, M))"

definition ws_loop_turn :: "nat \<Rightarrow> ws_turn \<Rightarrow> unit ws_act" where
  "ws_loop_turn q t =
     thenA (modifyA (ws_world t))
     (bindA (\<lambda>M. case ws_get q M of (ev, M') \<Rightarrow> (Inr ev, M', [])) (\<lambda>ev.
      thenA (callA (case ev of None \<Rightarrow> WsHeartbeat | Some e \<Rightarrow> WsEvent e)) (liftA (ws_sent t))))"

text \<open>\<open>gone\<close> tells a disconnect from other exceptions; \<open>first\<close> is what sending the snapshot gives.\<close>

definition ws_events :: "(pyexn \<Rightarrow> bool) \<Rightarrow> nat \<Rightarrow> unit result \<Rightarrow> ws_turn list \<Rightarrow> unit ws_act" where
  "ws_events gone q first turns =
     thenA (modifyA (subscribe q))
     (finallyA
       (catchA
         (thenA (bindA (getA metrics_snapshot) (\<lambda>snap. callA (WsSnapshot snap)))
           (thenA (liftA first) (forA turns (ws_loop_turn q))))
         (\<lambda>e. if gone e then retA () else raiseA e))
       (modifyA (unsubscribe q)))"

lemma finallyA_state: "state_of (finallyA m f s) = state_of (f (state_of (m s)))"
  by (simp add: finallyA_def state_of_def split: prod.split)

text \<open>However the session ends, its queue is gone, so nothing is kept for a browser that left.\<close>

lemma ws_unsubscribed: "q \<notin> fst ` set (m_queues (state_of (ws_events gone q first turns M)))"
  by (auto simp: ws_events_def thenA_parts act_defs finallyA_state unsubscribe_def)

text \<open>An event that is queued is sent in the next turn, the oldest first.\<close>

lemma ws_sends_oldest:
  assumes "map_of (m_queues (f M)) q = Some (ev # evs)"
  shows "calls_of (ws_loop_turn q (WsTurn f r) M) = [WsEvent ev] \<and>
    map_of (m_queues (state_of (ws_loop_turn q (WsTurn f r) M))) q = Some evs"
proof -
  have "map_of (map (\<lambda>(i, l). if i = q then (i, evs) else (i, l)) d) q = map_option (\<lambda>_. evs) (map_of d q)" for d :: "(nat \<times> event list) list"
    by (induction d) auto
  then show ?thesis using assms
    by (cases r) (simp_all add: ws_loop_turn_def thenA_parts bindA_parts act_defs ws_get_def)
qed

section \<open>The bridge goes up and down\<close>

lemma on_node_run: "value_of (on_node m s) = bindR (value_of (m (an_gateway s))) (\<lambda>_. Inr ())"
  "state_of (on_node m s) = s\<lparr>an_gateway := state_of (m (an_gateway s))\<rparr>"
  by (simp_all add: on_node_def value_of_def state_of_def case_prod_unfold)

lemma on_mesh_run: "value_of (on_mesh m u s) = value_of (m u)" "state_of (on_mesh m u s) = s\<lparr>an_cot := Mesh (state_of (m u))\<rparr>"
  by (simp_all add: on_mesh_def value_of_def state_of_def case_prod_unfold)

lemma link_start_run:
  "an_gateway (state_of (link_start os rp s)) = an_gateway s" "an_hears (state_of (link_start os rp s)) = an_hears s"
  "value_of (link_start os rp s) = Inr u \<Longrightarrow> link_open (an_cot (state_of (link_start os rp s)))"
  using udp_start_run [of os rp]
  by (cases "an_cot s"; auto simp: link_start_def bindA_parts act_defs on_mesh_run link_open_def started_def is_ok_iff)+

lemma link_stop_run:
  "value_of (link_stop s) = Inr ()" "an_gateway (state_of (link_stop s)) = an_gateway s"
  "an_sweeping (state_of (link_stop s)) = an_sweeping s" "\<not> link_open (an_cot (state_of (link_stop s)))"
  by (cases "an_cot s"; simp add: link_stop_def bindA_parts thenA_parts act_defs on_mesh_run link_open_def halted_def udp_stop_def)+

lemma node_up_running:
  assumes "value_of (node_up W mid raises s) = Inr ()"
  shows "gw_running (an_gateway (state_of (node_up W mid raises s)))"
proof -
  let ?g = "state_of (gw_add_handler (to_cot raises) (an_gateway s))"
  have h: "value_of (gw_add_handler (to_cot raises) (an_gateway s)) = Inr ()" by (simp add: gw_add_handler_def act_defs)
  then obtain u where u: "value_of (gw_start W ?g) = Inr u"
    using assms by (cases "value_of (gw_start W ?g)") (simp_all add: node_up_def thenA_parts on_node_run)
  then have "an_gateway (state_of (node_up W mid raises s)) = state_of (node_identify W mid (state_of (gw_start W ?g)))"
    using h by (simp add: node_up_def thenA_parts on_node_run)
  then show ?thesis using keepsD [OF up_kept(3) gw_start_up [OF u]] by (simp add: gw_running_def up_def)
qed

text \<open>A bridge that has started relays both ways: its node runs, its CoT side is open and is listened to, and
  the sweep runs. Where only the CoT side fails to open, the start raises and the node stays on the network.\<close>

lemma bridge_started:
  assumes "value_of (bridge_start W mid raises os rp s) = Inr ()"
  defines "s' \<equiv> state_of (bridge_start W mid raises os rp s)"
  shows "gw_running (an_gateway s') \<and> link_open (an_cot s') \<and> an_hears s' \<and> an_sweeping s'"
proof -
  let ?s1 = "state_of (node_up W mid raises s)" and ?s2 = "\<lambda>s. state_of (link_start os rp (s\<lparr>an_hears := True\<rparr>))"
  have v: "value_of (node_up W mid raises s) = Inr ()" "value_of (link_start os rp (?s1\<lparr>an_hears := True\<rparr>)) = Inr ()"
    using assms(1) by (cases "value_of (node_up W mid raises s)";
      cases "value_of (link_start os rp (?s1\<lparr>an_hears := True\<rparr>))"; simp add: bridge_start_def thenA_parts act_defs)+
  have "s' = (?s2 ?s1)\<lparr>an_sweeping := True\<rparr>"
    using v by (simp add: s'_def bridge_start_def thenA_parts act_defs)
  then show ?thesis
    using node_up_running [OF v(1)] link_start_run(3) [OF v(2)]
      link_start_run(1,2) [of os rp "?s1\<lparr>an_hears := True\<rparr>"] by simp
qed

lemma bridge_start_stranded:
  assumes "value_of (node_up W mid raises s) = Inr ()"
    and "value_of (link_start os rp ((state_of (node_up W mid raises s))\<lparr>an_hears := True\<rparr>)) = Inl e"
  shows "value_of (bridge_start W mid raises os rp s) = Inl e \<and>
    gw_running (an_gateway (state_of (bridge_start W mid raises os rp s)))"
  using assms node_up_running [OF assms(1)] by (simp add: bridge_start_def thenA_parts act_defs link_start_run(1))

lemma bridge_stopped:
  "value_of (bridge_stop s) = Inr () \<and> \<not> gw_running (an_gateway (state_of (bridge_stop s))) \<and>
   \<not> link_open (an_cot (state_of (bridge_stop s))) \<and> \<not> an_sweeping (state_of (bridge_stop s))"
  using link_stop_run [of "s\<lparr>an_sweeping := False\<rparr>"]
  by (simp add: bridge_stop_def thenA_parts act_defs on_node_run gw_stop_def gw_running_def)

section \<open>Addresses of the command line\<close>

lemma tak_address_default:
  assumes "CHR '':'' \<notin> set host"
  shows "tak_address tls host = Inr (host, if tls then 8089 else 8087)"
proof -
  have "before (CHR '':'') host = host" unfolding before_def by (rule takeWhile_eq_all_conv [THEN iffD2]) (use assms in blast)
  then show ?thesis by (simp add: tak_address_def Let_def)
qed

text \<open>The address ends at the first colon: one that has colons of its own, as in IPv6, cannot be given.\<close>

lemma tak_address_host: "tak_address tls target = Inr (host, port) \<Longrightarrow> CHR '':'' \<notin> set host"
  by (auto simp: tak_address_def before_def Let_def bindR_Inr_iff dest: set_takeWhileD split: if_splits)

section \<open>Running a node\<close>

definition print_handler :: handler where
  "print_handler = \<lparr> h_id = 2, h_subs = [''*''], h_raises = (\<lambda>_. None) \<rparr>"

definition ignoring :: "'a gact \<Rightarrow> unit gact" where
  "ignoring m = bindA m (\<lambda>_. retA ())"

definition run_up :: "world \<Rightarrow> string \<Rightarrow> string option \<Rightarrow> rat \<Rightarrow> rat \<Rightarrow> unit gact" where
  "run_up W mid casevac lat lon =
     thenA (gw_add_handler print_handler)
     (thenA (gw_start W)
     (thenA (ignoring (node_identify W mid))
     (case casevac of None \<Rightarrow> retA () | Some cid \<Rightarrow> ignoring (node_request_casevac W cid lat lon 2 0))))"

text \<open>The beacon runs as a task until the process is asked to stop; the clean-up awaits it before it stops the
  node. \<open>mids\<close> are the ids of the messages it sends in that time.\<close>

definition beacon :: "world \<Rightarrow> string list \<Rightarrow> rat \<Rightarrow> rat \<Rightarrow> unit gact" where
  "beacon W mids lat lon = forA mids (\<lambda>mid. ignoring (node_presence W mid lat lon (Some 90)))"

definition run_node :: "world \<Rightarrow> string \<Rightarrow> string option \<Rightarrow> string list \<Rightarrow> rat \<Rightarrow> rat \<Rightarrow> unit gact" where
  "run_node W mid casevac mids lat lon =
     thenA (run_up W mid casevac lat lon) (thenA (beacon W mids lat lon) gw_stop)"

lemma up_publish: "keeps up (gw_publish W mid b)"
  unfolding gw_publish_def Let_def by (auto intro!: keeps_bind keeps_basic up_kept_run)

lemma up_ignoring: "keeps up m \<Longrightarrow> keeps up (ignoring m)"
  unfolding ignoring_def by (intro keeps_bind keeps_basic)

lemma up_beacon: "keeps up (beacon W mids lat lon)"
  unfolding beacon_def node_presence_def by (auto intro!: keeps_for up_ignoring keeps_bind keeps_basic up_publish)

lemma up_casevac: "keeps up (case casevac of None \<Rightarrow> retA () | Some cid \<Rightarrow> ignoring (node_request_casevac W cid lat lon 2 0))"
  by (cases casevac) (auto simp: node_request_casevac_def intro!: up_ignoring keeps_bind keeps_basic up_publish)

lemma run_up_running:
  assumes "value_of (run_up W mid casevac lat lon g) = Inr ()"
  shows "gw_running (state_of (run_up W mid casevac lat lon g))"
proof -
  define rest where "rest = thenA (ignoring (node_identify W mid))
     (case casevac of None \<Rightarrow> retA () | Some cid \<Rightarrow> ignoring (node_request_casevac W cid lat lon 2 0))"
  have k: "keeps up rest" unfolding rest_def by (intro keeps_then up_ignoring up_kept(3) up_casevac)
  let ?g = "state_of (gw_add_handler print_handler g)"
  have h: "value_of (gw_add_handler print_handler g) = Inr ()" by (simp add: gw_add_handler_def act_defs)
  have r: "run_up W mid casevac lat lon = thenA (gw_add_handler print_handler) (thenA (gw_start W) rest)"
    by (simp add: run_up_def rest_def)
  obtain u where u: "value_of (gw_start W ?g) = Inr u"
    using assms h by (cases "value_of (gw_start W ?g)") (simp_all add: r thenA_parts)
  show ?thesis using keepsD [OF k gw_start_up [OF u]] u h by (simp add: r thenA_parts gw_running_def up_def)
qed

text \<open>A run that ends well leaves the node stopped. One whose beacon raised, which a position off the globe
  makes it do, ends in that exception with the node still up.\<close>

lemma run_node_ends:
  "value_of (run_node W mid casevac mids lat lon g) = Inr () \<Longrightarrow> \<not> gw_running (state_of (run_node W mid casevac mids lat lon g))"
  by (simp add: run_node_def thenA_parts gw_stop_def act_defs gw_running_def split: sum.splits)

lemma run_node_stranded:
  assumes "value_of (run_up W mid casevac lat lon g) = Inr ()"
    and "value_of (beacon W mids lat lon (state_of (run_up W mid casevac lat lon g))) = Inl e"
  shows "value_of (run_node W mid casevac mids lat lon g) = Inl e \<and> gw_running (state_of (run_node W mid casevac mids lat lon g))"
proof -
  have "up (state_of (run_up W mid casevac lat lon g))"
    using run_up_running [OF assms(1)] by (simp add: gw_running_def up_def)
  from keepsD [OF up_beacon this] show ?thesis
    using assms by (simp add: run_node_def thenA_parts gw_running_def up_def)
qed

end
