(* ===== verification/Crossing.thy ===== *)
theory Crossing
  imports WebApp
begin

text \<open>
  Coalition traffic on its way out of the web application: a frame of the network goes through the gateway's
  engine, and what the engine hands to its handlers the two relays (\<open>_ServerRelay\<close> of \<open>web/servers.py\<close>,
  \<open>_EudRelay\<close> of \<open>web/eud_server.py\<close>) send on to the TAK servers and the EUDs.
\<close>

section \<open>Relaying\<close>

text \<open>The relays are attached behind the collector, subscribe to everything and raise nothing, so they get
  what the collector gets.\<close>

definition handed_on :: "call list \<Rightarrow> message list" where
  "handed_on cs = concat (map (\<lambda>c. case c of Handle h m \<Rightarrow> if h = h_id collect_handler then [m] else [] | _ \<Rightarrow> []) cs)"

definition server_relay :: "runtime_env \<Rightarrow> (string \<Rightarrow> unit result) \<Rightarrow> message \<Rightarrow> unit app_act" where
  "server_relay R outs m = bindA (getA (\<lambda>s. ap_node s \<in> sm_relays (ap_servers s))) (\<lambda>on.
     if on then on_servers (sm_emit (rt_bridge R) outs m) else retA ())"

definition eud_relay :: "runtime_env \<Rightarrow> (nat \<Rightarrow> unit result) \<Rightarrow> message \<Rightarrow> unit app_act" where
  "eud_relay R outc m = bindA (getA (\<lambda>s. ap_node s \<in> em_relays (ap_eud s))) (\<lambda>on.
     if on then on_eud (eud_emit (rt_bridge R) outc m) else retA ())"

definition web_frame :: "runtime_env \<Rightarrow> (string \<Rightarrow> unit result) \<Rightarrow> (nat \<Rightarrow> unit result) \<Rightarrow> bytes \<Rightarrow> unit app_act" where
  "web_frame R outs outc raw s =
     (case gw_on_frame (rt_world R) raw (ap_gateway s) of
        (r, g, cs) \<Rightarrow>
          thenA (forA (handed_on cs) (\<lambda>m. thenA (server_relay R outs m) (eud_relay R outc m))) (liftA r)
            (s\<lparr>ap_gateway := g\<rparr>))"

section \<open>What a relay sends\<close>

lemma send_one:
  "value_of (thenA (sm_traffic_record B sid ''out'' f) (sm_send outs sid f) s) = Inr ()"
  "calls_of (thenA (sm_traffic_record B sid ''out'' f) (sm_send outs sid f) s) = [SendTo sid f]"
  "sm_origins (state_of (thenA (sm_traffic_record B sid ''out'' f) (sm_send outs sid f) s)) = sm_origins s"
  by (simp_all add: thenA_parts sm_traffic_record_def sm_send_def act_defs)

lemma server_sends:
  defines "one \<equiv> \<lambda>B outs f orig sid. bindA (getA (\<lambda>s. dict_get (sm_origins s) sid {})) (\<lambda>os.
    if orig \<in> os then retA () else thenA (sm_traffic_record B sid ''out'' f) (sm_send outs sid f))"
  shows "value_of (forA sids (one B outs f orig) s) = Inr () \<and>
    calls_of (forA sids (one B outs f orig) s) =
      map (\<lambda>sid. SendTo sid f) (filter (\<lambda>sid. orig \<notin> dict_get (sm_origins s) sid {}) sids)"
proof (induction sids arbitrary: s)
  case (Cons sid sids)
  have "value_of (one B outs f orig sid s) = Inr ()"
    "sm_origins (state_of (one B outs f orig sid s)) = sm_origins s"
    "calls_of (one B outs f orig sid s) = (if orig \<in> dict_get (sm_origins s) sid {} then [] else [SendTo sid f])"
    by (simp_all add: one_def bindA_parts getA_def send_one retA_def)
  then show ?case using Cons.IH by (simp add: thenA_parts)
qed (simp add: act_defs)

lemma server_relay_calls:
  assumes "ap_node s \<in> sm_relays (ap_servers s)" and "originator_id (header m) \<noteq> sm_node_id (ap_servers s)"
    and "message_to_cot (be_lib (rt_bridge R)) (sm_stale (ap_servers s)) m = Some ev"
  shows "value_of (server_relay R outs m s) = Inr ()"
    and "calls_of (server_relay R outs m s) = map (\<lambda>sid. SendTo sid ev)
      (filter (\<lambda>sid. originator_id (header m) \<notin> dict_get (sm_origins (ap_servers s)) sid {}) (map fst (sm_conns (ap_servers s))))"
proof -
  have c: "calls_of (on_servers x s) = calls_of (x (ap_servers s))" for x :: "unit server_act"
    by (simp add: on_servers_def calls_of_def case_prod_unfold)
  note sends = server_sends [where sids = "map fst (sm_conns (ap_servers s))" and B = "rt_bridge R" and outs = outs and f = ev
      and orig = "originator_id (header m)" and s = "ap_servers s"]
  show "value_of (server_relay R outs m s) = Inr ()"
    using assms sends by (simp add: server_relay_def bindA_parts getA_def on_servers_run sm_emit_def retA_def)
  show "calls_of (server_relay R outs m s) = map (\<lambda>sid. SendTo sid ev)
      (filter (\<lambda>sid. originator_id (header m) \<notin> dict_get (sm_origins (ap_servers s)) sid {}) (map fst (sm_conns (ap_servers s))))"
    using assms sends by (simp add: server_relay_def bindA_parts getA_def c sm_emit_def retA_def)
qed

text \<open>A client whose write fails is dropped with its originators, which are no other client's.\<close>

lemma write_one:
  "value_of (emit_one B outc orig f (cid, p) s) = Inr ()"
  "calls_of (emit_one B outc orig f (cid, p) s) =
     (if orig \<in> dict_get (em_origins s) cid {} then []
      else WriteTo cid (with_newline f) # (if is_ok (outc cid) then [] else [CloseClient cid]))"
  "cid' \<noteq> cid \<Longrightarrow> dict_get (em_origins (state_of (emit_one B outc orig f (cid, p) s))) cid' d = dict_get (em_origins s) cid' d"
  by (cases "outc cid"; simp add: emit_one_def bindA_parts thenA_parts act_defs eud_traffic_record_def eud_write_def
      dict_get_def delete_conv')+

lemma client_writes:
  assumes "distinct (map fst cs)"
  shows "value_of (forA cs (emit_one B outc orig f) s) = Inr () \<and>
    calls_of (forA cs (emit_one B outc orig f) s) =
      concat (map (\<lambda>cid. WriteTo cid (with_newline f) # (if is_ok (outc cid) then [] else [CloseClient cid]))
        (filter (\<lambda>cid. orig \<notin> dict_get (em_origins s) cid {}) (map fst cs)))"
  using assms
proof (induction cs arbitrary: s)
  case (Cons c cs)
  obtain cid p where c: "c = (cid, p)" by (cases c)
  let ?s = "state_of (emit_one B outc orig f (cid, p) s)"
  have "filter (\<lambda>cid. orig \<notin> dict_get (em_origins ?s) cid {}) (map fst cs) =
      filter (\<lambda>cid. orig \<notin> dict_get (em_origins s) cid {}) (map fst cs)"
  proof (intro filter_cong refl)
    fix x
    assume "x \<in> set (map fst cs)"
    then have "x \<noteq> cid" using Cons.prems by (auto simp: c)
    from write_one(3) [OF this] show "orig \<notin> dict_get (em_origins ?s) x {} \<longleftrightarrow> orig \<notin> dict_get (em_origins s) x {}" by simp
  qed
  then show ?case using Cons.IH [of ?s] Cons.prems by (simp add: c thenA_parts write_one(1,2))
qed (simp add: act_defs)

lemma eud_relay_calls:
  assumes "ap_node s \<in> em_relays (ap_eud s)" and "originator_id (header m) \<noteq> eud_node_id (ap_eud s)"
    and "message_to_cot (be_lib (rt_bridge R)) (em_stale (ap_eud s)) m = Some ev" and "distinct (map fst (em_clients (ap_eud s)))"
  shows "value_of (eud_relay R outc m s) = Inr ()"
    and "calls_of (eud_relay R outc m s) =
      concat (map (\<lambda>cid. WriteTo cid (with_newline ev) # (if is_ok (outc cid) then [] else [CloseClient cid]))
        (filter (\<lambda>cid. originator_id (header m) \<notin> dict_get (em_origins (ap_eud s)) cid {}) (map fst (em_clients (ap_eud s)))))"
proof -
  have c: "calls_of (on_eud x s) = calls_of (x (ap_eud s))" for x :: "unit eud_act"
    by (simp add: on_eud_def calls_of_def case_prod_unfold)
  note writes = client_writes [OF assms(4), where B = "rt_bridge R" and outc = outc and f = ev
      and orig = "originator_id (header m)" and s = "ap_eud s", unfolded emit_one_def]
  show "value_of (eud_relay R outc m s) = Inr ()"
    using assms writes by (simp add: eud_relay_def bindA_parts getA_def on_eud_run eud_emit_def retA_def)
  show "calls_of (eud_relay R outc m s) =
      concat (map (\<lambda>cid. WriteTo cid (with_newline ev) # (if is_ok (outc cid) then [] else [CloseClient cid]))
        (filter (\<lambda>cid. originator_id (header m) \<notin> dict_get (em_origins (ap_eud s)) cid {}) (map fst (em_clients (ap_eud s)))))"
    using assms writes by (simp add: eud_relay_def bindA_parts getA_def c eud_emit_def retA_def)
qed

section \<open>From a publisher to the handlers of another node\<close>

lemma gw_publish_run:
  assumes "gw_publish W mid b a = (Inr m, a', cs)" and "gw_engine a = Some e"
  shows "\<exists>m0 e'. publish (deps_of W a) m0 e = (Inr m, e', cs)"
  using assms
  by (auto simp: gw_publish_def Let_def bindA_def act_defs on_engine_def split: sum.splits prod.splits if_splits)

definition data_call :: "call \<Rightarrow> bool" where
  "data_call c = (case c of Control _ _ \<Rightarrow> False | _ \<Rightarrow> True)"

lemma data_calls_kept: "list_all data_call cs \<Longrightarrow> fold (handle_call W) cs g = g"
proof (induction cs)
  case (Cons c cs)
  have "data_call c \<Longrightarrow> handle_call W c g = g" by (cases c) (simp_all add: data_call_def)
  then show ?case using Cons by simp
qed simp

lemma gw_frame_run:
  assumes "gw_engine g = Some e" and "on_frame (deps_of W g) fr e = (r, e', cs)" and "list_all data_call cs"
  shows "gw_on_frame W fr g =
    (r, g\<lparr>gw_engine := Some e', gw_metrics := sink_all (w_env W) (w_now W) cs (gw_metrics g)\<rparr>, cs)"
  using on_engine_run [OF assms(1), where m = "\<lambda>D. on_frame D fr", OF assms(2)] data_calls_kept [OF assms(3)]
  by (simp add: gw_on_frame_def)

text \<open>The two nodes are on the default stack with one key.\<close>

lemma published_frame:
  assumes "gw_publish W mid b a = (Inr m, a', cs)" and "gw_engine a = Some e" and "fr \<in> set (sent_frames cs)"
    and "gw_codec a = xml_codec (w_env W)" "gw_security a = psk_security key"
    and "gw_codec g = xml_codec (w_env W)" "gw_security g = psk_security key" "xml_ok (w_env W) m"
  shows "on_frame (deps_of W' g) fr s = receive_message (deps_of W' g) m s"
proof -
  obtain m0 e' where p: "publish (deps_of W a) m0 e = (Inr m, e', cs)" using gw_publish_run [OF assms(1,2)] by blast
  obtain b fr' where b: "xml_encode (w_env W) m = Inr b" "data_frame (deps_of W a) b = Inr fr'"
    and cs: "cs = replicate (repeat e) (Send fr') @ [RecordSent m]"
    using publish_Inr [OF p] assms(4) by (auto simp: deps_of_def xml_codec_def)
  have "fr = fr'" using assms(3) unfolding cs sent_frames_publish by simp
  then show ?thesis
    using psk_xml.frame_decodes(2) [of "deps_of W a" "w_env W" key "deps_of W' g" m b fr s] b assms(4-8)
    by (simp add: deps_of_def)
qed

lemma gw_permits: "permits (deps_of W g) m \<longleftrightarrow> gw_allows g m \<and> can_receive (gw_caps g) (msg_type m)"
  by (simp add: permits_def deps_of_def)

text \<open>The first copy goes to the collector and nothing else, a further copy nowhere.\<close>

lemma receive_first:
  assumes "permits D m" and "msg_key m \<notin> seen e" and "0 < window e" and "handlers e = [collect_handler]"
  shows "receive_message D m e = (Inr (), state_of (remember m e),
    [NodeSeen (originator_id (header m)), RecordReceived m, Handle (h_id collect_handler) m])"
proof -
  let ?e = "state_of (remember m e)"
  have h: "handlers ?e = [collect_handler]" using assms(4) by (simp add: remember_def Let_def)
  have d: "dispatch m ?e = (Inr (), ?e, [Handle (h_id collect_handler) m])"
    by (simp add: dispatch_def bindA_def getA_def h handle_one_def collect_handler_def thenA_def act_defs)
  have "receive_message D m e = thenA (remember m) (deliver_local m) e"
    using assms(1,2) by (simp add: receive_message_def permits_def is_duplicate_def bindA_def getA_def)
  then show ?thesis
    unfolding thenA_Inr [where m = "remember m" and s = e, OF remember_new(1) [OF assms(2,3)]] deliver_run by (simp add: d)
qed

lemma handed_on_simps:
  "handed_on [NodeSeen n, RecordReceived m, Handle (h_id collect_handler) m] = [m]"
  "handed_on [RecordDropped r om] = []"
  by (simp_all add: handed_on_def)

section \<open>A frame through the application\<close>

text \<open>What the relays send for \<open>m\<close>, with the application's servers and clients as they are.\<close>

definition server_calls :: "app \<Rightarrow> message \<Rightarrow> bytes \<Rightarrow> bcall list" where
  "server_calls s m ev = map (\<lambda>sid. SendTo sid ev)
     (filter (\<lambda>sid. originator_id (header m) \<notin> dict_get (sm_origins (ap_servers s)) sid {}) (map fst (sm_conns (ap_servers s))))"

definition client_calls :: "(nat \<Rightarrow> unit result) \<Rightarrow> app \<Rightarrow> message \<Rightarrow> bytes \<Rightarrow> bcall list" where
  "client_calls outc s m ev = concat (map (\<lambda>cid. WriteTo cid (with_newline ev) # (if is_ok (outc cid) then [] else [CloseClient cid]))
     (filter (\<lambda>cid. originator_id (header m) \<notin> dict_get (em_origins (ap_eud s)) cid {}) (map fst (em_clients (ap_eud s)))))"

text \<open>Both relays are attached and know their node.\<close>

definition relaying :: "app \<Rightarrow> bool" where
  "relaying s \<longleftrightarrow> ap_node s \<in> sm_relays (ap_servers s) \<and> ap_node s \<in> em_relays (ap_eud s) \<and>
     sm_node_id (ap_servers s) = own_id (gw_config (ap_gateway s)) \<and> eud_node_id (ap_eud s) = own_id (gw_config (ap_gateway s)) \<and>
     distinct (map fst (em_clients (ap_eud s)))"

lemma relay_keeps:
  "keeps (\<lambda>s. ap_gateway s = g \<and> ap_eud s = e \<and> ap_node s = n) (server_relay R outs m)"
  "keeps (\<lambda>s. ap_gateway s = g) (eud_relay R outc m)"
proof -
  have "ap_gateway (state_of (on_servers x s)) = ap_gateway s" "ap_eud (state_of (on_servers x s)) = ap_eud s"
    "ap_node (state_of (on_servers x s)) = ap_node s" for x :: "unit server_act" and s by (simp_all add: on_servers_run)
  then show "keeps (\<lambda>s. ap_gateway s = g \<and> ap_eud s = e \<and> ap_node s = n) (server_relay R outs m)"
    unfolding server_relay_def by (intro keeps_bind) (auto simp: keeps_def bindA_parts act_defs)
  have "ap_gateway (state_of (on_eud x s)) = ap_gateway s" for x :: "unit eud_act" and s by (simp add: on_eud_run)
  then show "keeps (\<lambda>s. ap_gateway s = g) (eud_relay R outc m)"
    unfolding eud_relay_def by (intro keeps_bind) (auto simp: keeps_def bindA_parts act_defs)
qed

lemma relays_run:
  assumes "relaying s" and "originator_id (header m) \<noteq> own_id (gw_config (ap_gateway s))"
    and "message_to_cot (be_lib (rt_bridge R)) (sm_stale (ap_servers s)) m = Some ev"
    and "message_to_cot (be_lib (rt_bridge R)) (em_stale (ap_eud s)) m = Some ev'"
  shows "value_of (thenA (server_relay R outs m) (eud_relay R outc m) s) = Inr () \<and>
    calls_of (thenA (server_relay R outs m) (eud_relay R outc m) s) = server_calls s m ev @ client_calls outc s m ev' \<and>
    ap_gateway (state_of (thenA (server_relay R outs m) (eud_relay R outc m) s)) = ap_gateway s"
proof -
  let ?s = "state_of (server_relay R outs m s)"
  have r: "ap_node s \<in> sm_relays (ap_servers s)" "ap_node s \<in> em_relays (ap_eud s)"
    "originator_id (header m) \<noteq> sm_node_id (ap_servers s)" "originator_id (header m) \<noteq> eud_node_id (ap_eud s)"
    "distinct (map fst (em_clients (ap_eud s)))"
    using assms(1,2) by (simp_all add: relaying_def)
  have k: "ap_gateway ?s = ap_gateway s" "ap_eud ?s = ap_eud s" "ap_node ?s = ap_node s"
    using keepsD [OF relay_keeps(1), of s "ap_gateway s" "ap_eud s" "ap_node s" R outs m] by simp_all
  note sc = server_relay_calls [OF r(1,3) assms(3), of outs]
  note cc = eud_relay_calls [of ?s m R ev' outc, unfolded k, OF r(2,4) assms(4) r(5)]
  have g: "ap_gateway (state_of (eud_relay R outc m ?s)) = ap_gateway s"
    using keepsD [OF relay_keeps(2), of ?s "ap_gateway s" R outc m] k(1) by simp
  show ?thesis by (simp add: thenA_parts sc(1) cc(1) sc(2) cc(2) g server_calls_def client_calls_def)
qed

lemma then_ret: "thenA m (retA ()) = m"
  by (simp add: fun_eq_iff thenA_def bindA_def act_defs split: prod.split sum.split)

lemma web_frame_run:
  assumes "gw_on_frame (rt_world R) fr (ap_gateway s) = (Inr (), g, cs)"
  shows "handed_on cs = [] \<Longrightarrow> calls_of (web_frame R outs outc fr s) = []"
    and "handed_on cs = [m] \<Longrightarrow>
      calls_of (web_frame R outs outc fr s) = calls_of (thenA (server_relay R outs m) (eud_relay R outc m) (s\<lparr>ap_gateway := g\<rparr>)) \<and>
      state_of (web_frame R outs outc fr s) = state_of (thenA (server_relay R outs m) (eud_relay R outc m) (s\<lparr>ap_gateway := g\<rparr>))"
proof -
  let ?relay = "\<lambda>m. thenA (server_relay R outs m) (eud_relay R outc m)" and ?s = "s\<lparr>ap_gateway := g\<rparr>"
  have "liftA (Inr ()) = (retA () :: unit app_act)" by (simp add: fun_eq_iff act_defs)
  then have w: "web_frame R outs outc fr s = thenA (forA (handed_on cs) ?relay) (retA ()) ?s"
    by (simp add: web_frame_def assms)
  show "handed_on cs = [] \<Longrightarrow> calls_of (web_frame R outs outc fr s) = []"
    unfolding w by (simp add: thenA_parts act_defs)
  assume "handed_on cs = [m]"
  then show "calls_of (web_frame R outs outc fr s) = calls_of (?relay m ?s) \<and>
      state_of (web_frame R outs outc fr s) = state_of (?relay m ?s)"
    unfolding w then_ret by (simp add: then_ret)
qed

text \<open>The first copy of a published message crosses the application, every further copy ends in its engine.\<close>

lemma crossing:
  assumes pub: "gw_publish W mid b a = (Inr m, a', cs)" "gw_engine a = Some ea" "fr \<in> set (sent_frames cs)"
    and stack: "gw_codec a = xml_codec (w_env W)" "gw_security a = psk_security key"
      "gw_codec (ap_gateway s) = xml_codec (w_env W)" "gw_security (ap_gateway s) = psk_security key" "xml_ok (w_env W) m"
    and eng: "gw_engine (ap_gateway s) = Some e" "0 < window e" "handlers e = [collect_handler]" "msg_key m \<notin> seen e"
    and adm: "gw_allows (ap_gateway s) m" "can_receive (gw_caps (ap_gateway s)) (msg_type m)"
    and rel: "relaying s" "originator_id (header m) \<noteq> own_id (gw_config (ap_gateway s))"
    and cot: "message_to_cot (be_lib (rt_bridge R)) (sm_stale (ap_servers s)) m = Some ev"
      "message_to_cot (be_lib (rt_bridge R)) (em_stale (ap_eud s)) m = Some ev'"
  shows "calls_of (web_frame R outs outc fr s) = server_calls s m ev @ client_calls outc s m ev'"
    and "calls_of (web_frame R outs' outc' fr (state_of (web_frame R outs outc fr s))) = []"
proof -
  let ?W = "rt_world R" and ?g = "ap_gateway s" and ?e = "state_of (remember m e)"
  let ?cs = "[NodeSeen (originator_id (header m)), RecordReceived m, Handle (h_id collect_handler) m]"
  let ?g1 = "?g\<lparr>gw_engine := Some ?e, gw_metrics := sink_all (w_env ?W) (w_now ?W) ?cs (gw_metrics ?g)\<rparr>"
  have run: "on_frame (deps_of ?W g) fr t = receive_message (deps_of ?W g) m t"
    if "gw_codec g = gw_codec ?g" "gw_security g = gw_security ?g" for g t
    by (rule published_frame [OF pub stack(1,2) _ _ stack(5)]) (use that stack in simp_all)
  have "permits (deps_of ?W ?g) m" using adm by (simp add: gw_permits)
  from receive_first [OF this eng(4,2,3)] have "on_frame (deps_of ?W ?g) fr e = (Inr (), ?e, ?cs)"
    by (simp only: run [OF refl refl])
  then have first: "gw_on_frame ?W fr ?g = (Inr (), ?g1, ?cs)" by (rule gw_frame_run [OF eng(1)]) (simp add: data_call_def)
  let ?s = "s\<lparr>ap_gateway := ?g1\<rparr>"
  have "relaying ?s" "originator_id (header m) \<noteq> own_id (gw_config (ap_gateway ?s))"
    using rel by (simp_all add: relaying_def)
  from relays_run [OF this, of R ev ev' outs outc] cot
  have r: "value_of (thenA (server_relay R outs m) (eud_relay R outc m) ?s) = Inr ()"
    "calls_of (thenA (server_relay R outs m) (eud_relay R outc m) ?s) = server_calls ?s m ev @ client_calls outc ?s m ev'"
    "ap_gateway (state_of (thenA (server_relay R outs m) (eud_relay R outc m) ?s)) = ?g1" by simp_all
  note w = web_frame_run(2) [OF first handed_on_simps(1)]
  show "calls_of (web_frame R outs outc fr s) = server_calls s m ev @ client_calls outc s m ev'"
    using w r(2) by (simp add: server_calls_def client_calls_def)
  let ?s' = "state_of (web_frame R outs outc fr s)"
  have g': "ap_gateway ?s' = ?g1" using w r(3) by simp
  have "permits (deps_of ?W ?g1) m" using adm by (simp add: gw_permits gw_allows_def)
  then have "receive_message (deps_of ?W ?g1) m ?e = (Inr (), ?e, [RecordDropped ''duplicate'' (Some m)])"
    using remember_new(2) [OF eng(4,2)] by (rule receive_duplicate)
  then have "on_frame (deps_of ?W ?g1) fr ?e = (Inr (), ?e, [RecordDropped ''duplicate'' (Some m)])"
    by (subst run) simp_all
  then obtain g2 where "gw_on_frame ?W fr ?g1 = (Inr (), g2, [RecordDropped ''duplicate'' (Some m)])"
    using gw_frame_run [of ?g1 ?e ?W fr] by (auto simp: data_call_def)
  then show "calls_of (web_frame R outs' outc' fr ?s') = []"
    unfolding g' [symmetric] by (rule web_frame_run(1)) (simp add: handed_on_simps)
qed

section \<open>A concrete crossing\<close>

definition demo_chat :: body where
  "demo_chat = ChatMessage \<lparr> ch_text = ''hi'', ch_recipient = ''all'' \<rparr>"

definition demo_publisher :: gateway where
  "demo_publisher = (demo_started ''a'')\<lparr>gw_config := (demo_cfg ''a'')\<lparr>cfg_network := (cfg_network (demo_cfg ''a''))\<lparr>nc_network_id := ''net''\<rparr>\<rparr>\<rparr>"

lemma demo_publisher_fields:
  "gw_engine demo_publisher = Some (demo_engine ''a'')" "gw_security demo_publisher = psk_security ''jdss-coalition-key''"
  "gw_up demo_publisher" "gw_caps demo_publisher = capabilities_init [] []" "gw_codec demo_publisher = xml_codec Exchange.demo_env"
  "gw_header Gateway.demo_world ''m1'' demo_publisher = Inr ((header demo_msg)\<lparr>sequence := 0\<rparr>)"
  using demo_started_fields [of "''a''"]
  by (simp_all add: demo_publisher_def gw_header_def mk_header_def demo_cfg_def default_config_def own_id_def in_range_def
      default_classification_def default_network_def Gateway.demo_world_def demo_msg_def Let_def)

lemma demo_publish_crossing:
  "\<exists>a' cs fr. gw_publish Gateway.demo_world ''m1'' demo_chat demo_publisher = (Inr demo_msg, a', cs) \<and> fr \<in> set (sent_frames cs)"
proof -
  let ?D = "deps_of Gateway.demo_world demo_publisher" and ?m0 = "\<lparr> header = (header demo_msg)\<lparr>sequence := 0\<rparr>, body = demo_chat \<rparr>"
  note f = demo_publisher_fields
  have "frame_ok \<lparr> codec_name = ''xml'', security_name = ''psk'', payload = psk_protect (utf8_encode ''jdss-coalition-key'') [] \<rparr>"
    by (simp add: frame_ok_def is_ascii_def psk_protect_def TAG_LEN_def)
  then obtain fr where fr: "data_frame ?D [] = Inr fr"
    using f by (auto simp: data_frame_def to_bytes_iff deps_of_def xml_codec_def psk_security_def)
  have m: "set_sequence (seq (demo_engine ''a'') + 1) (set_originator (node_id (demo_engine ''a'')) ?m0) = demo_msg"
    by (simp add: set_sequence_def set_originator_def demo_msg_def demo_engine_def demo_chat_def)
  have e: "c_encode (d_codec ?D) demo_msg = Inr []"
    using f by (simp add: deps_of_def xml_codec_def xml_encode_def Exchange.demo_env_def demo_env0_def)
  obtain s' cs where p: "publish ?D ?m0 (demo_engine ''a'') = (Inr demo_msg, s', cs)"
    using publish_ok [of ?D "demo_engine ''a''" ?m0 "[]" fr] e fr f(3) unfolding m by (auto simp: deps_of_def demo_engine_def)
  have "can_emit (capabilities_init [] []) (msg_type ?m0)"
    by (simp add: demo_chat_def can_emit_def capabilities_init_def switch_def all_permitted_def MESSAGE_TYPES_def
        dict_update_def dict_get_def)
  then have g: "\<exists>a'. gw_publish Gateway.demo_world ''m1'' demo_chat demo_publisher = (Inr demo_msg, a', cs)"
    using f on_engine_run [OF f(1), where m = "\<lambda>D. publish D ?m0", OF p]
    by (simp add: gw_publish_def bindA_def act_defs Let_def)
  obtain fr' where "cs = replicate (repeat (demo_engine ''a'')) (Send fr') @ [RecordSent demo_msg]"
    using publish_Inr [OF p] by blast
  then have "fr' \<in> set (sent_frames cs)" by (simp only: sent_frames_publish) (simp add: demo_engine_def)
  then show ?thesis using g by blast
qed

definition demo_web :: app where
  "demo_web = \<lparr> ap_gateway = demo_collected, ap_node = 0,
     ap_servers = (snd (sm_attach 0 (demo_cfg ''n'') (servers_init 120)))
       \<lparr>sm_conns := [(''s1'', started (new_connector (Servers.demo_env demo_tree) demo_server))]\<rparr>,
     ap_eud = (snd (eud_attach 0 (demo_cfg ''n'') (eud_init 120)))\<lparr>em_clients := [(7, ''10.0.0.9:4242'')]\<rparr>,
     ap_store = None \<rparr>"

lemma demo_web_relays: "relaying demo_web" "originator_id (header demo_msg) \<noteq> own_id (gw_config (ap_gateway demo_web))"
  using demo_collected_fields
  by (simp_all add: relaying_def demo_web_def sm_attach_def eud_attach_def sm_node_id_def eud_node_id_def servers_init_def
      eud_init_def own_id_def demo_cfg_def demo_msg_def)

lemma demo_web_cot:
  "message_to_cot (be_lib (rt_bridge (demo_runtime cfg))) n demo_msg = Some []"
  by (simp add: message_to_cot_def event_of_def demo_msg_def demo_runtime_def Servers.demo_env_def demo_lib_def)

lemma demo_collected_policies:
  "gw_local demo_collected = build_policy (demo_cfg ''n'') \<and> gw_coalition demo_collected = build_coalition_policy (demo_cfg ''n'') \<and>
   gw_pairs demo_collected = pairs_init ''n'' []"
  by (simp add: demo_collected_def gw_start_def gw_join_def radio_join_def transport_factory_def demo_gw0_def
      demo_cfg_def default_config_def default_plugins_def default_network_def default_identity_def
      default_gossip_def default_connections_def thenA_def bindA_def act_defs start_engine_def start_gossip_def
      start_dist_def attach_def own_id_def opt_key_def Let_def cfg_is_authority_def Gateway.demo_world_def engine_init_def)

lemma demo_web_admits:
  "gw_allows (ap_gateway demo_web) demo_msg" "can_receive (gw_caps (ap_gateway demo_web)) (msg_type demo_msg)"
proof -
  show "gw_allows (ap_gateway demo_web) demo_msg"
    using demo_collected_policies
    by (simp add: demo_web_def gw_allows_def effective_allows_def composite_allows_def build_policy_def build_coalition_policy_def
        matrix_init_def overrides_of_def demo_cfg_def default_config_def default_connections_def matrix_allows_def
        matrix_allows_peer_def pairs_allows_def pairs_init_def dict_get_def Let_def cfg_is_authority_def own_id_def
        dict_update_def dict_map_def demo_msg_def default_identity_def)
  show "can_receive (gw_caps (ap_gateway demo_web)) (msg_type demo_msg)"
    using demo_collected_fields
    by (simp add: demo_web_def demo_msg_def can_receive_def capabilities_init_def switch_def all_permitted_def MESSAGE_TYPES_def
        dict_update_def dict_get_def)
qed

lemma demo_web_calls: "server_calls demo_web demo_msg [] = [SendTo ''s1'' []]"
  "client_calls (\<lambda>_. Inr ()) demo_web demo_msg [] = [WriteTo 7 [10]]"
  by (simp_all add: server_calls_def client_calls_def demo_web_def sm_attach_def eud_attach_def servers_init_def eud_init_def
      dict_get_def with_newline_def)

end
