(* ===== verification/Coalition.thy ===== *)
theory Coalition
  imports Distributor
begin

text \<open>
  The authority and a member over a network that loses, repeats, delays and reorders what is sent, and on which
  others send too: the periodic broadcast of \<open>connections/distributor.py\<close> (\<open>start\<close>, \<open>stop\<close>, \<open>_loop\<close>) together with
  the operators' changes and the member's handler, as a step relation, and what the member's version number
  then tells of its policies.
\<close>

section \<open>The authority's tasks\<close>

text \<open>A round of \<open>_loop\<close>: an exception ends the round only.\<close>

definition dist_round :: "ed25519 \<Rightarrow> floatlib \<Rightarrow> unit dact" where
  "dist_round ed F = catchA (broadcast ed F) (\<lambda>_. retA ())"

datatype policy_op =
    BlockPeer string | AllowPeer string | ResetPeer string | SetDefault string | BlockPair string string | AllowPair string string

fun policy_act :: "ed25519 \<Rightarrow> floatlib \<Rightarrow> policy_op \<Rightarrow> unit dact" where
  "policy_act ed F (BlockPeer p) = dist_block ed F p"
| "policy_act ed F (AllowPeer p) = dist_allow ed F p"
| "policy_act ed F (ResetPeer p) = dist_reset ed F p"
| "policy_act ed F (SetDefault a) = dist_set_default ed F a"
| "policy_act ed F (BlockPair n p) = dist_block_pair ed F n p"
| "policy_act ed F (AllowPair n p) = dist_allow_pair ed F n p"

section \<open>The coalition\<close>

record coalition =
  cn_authority :: distributor
  cn_member :: distributor
  cn_air :: "(string, json) dict list"
  cn_loop :: bool

definition dist_start :: "coalition \<Rightarrow> coalition" where
  "dist_start c = (if is_authority (cn_authority c) then c\<lparr>cn_loop := True\<rparr> else c)"

definition dist_stop :: "coalition \<Rightarrow> coalition" where
  "dist_stop c = c\<lparr>cn_loop := False\<rparr>"

text \<open>What is on the air is everything the authority ever sent.\<close>

definition on_air :: "string \<Rightarrow> dcall list \<Rightarrow> (string, json) dict list" where
  "on_air nid cs = map (\<lambda>c. case c of PublishControl k d \<Rightarrow> wire_data nid d) cs"

definition authority_acts :: "unit dact \<Rightarrow> coalition \<Rightarrow> coalition" where
  "authority_acts m c =
     (case m (cn_authority c) of
        (_, a, cs) \<Rightarrow> c\<lparr>cn_authority := a, cn_air := cn_air c @ on_air (ds_node_id a) cs\<rparr>)"

definition member_hears :: "ed25519 \<Rightarrow> floatlib \<Rightarrow> (string, json) dict \<Rightarrow> coalition \<Rightarrow> coalition" where
  "member_hears ed F d c = c\<lparr>cn_member := state_of (on_update ed F d (cn_member c))\<rparr>"

text \<open>A frame of anyone else: it does not name the authority, or its signature does not verify.\<close>

definition foreign :: "ed25519 \<Rightarrow> floatlib \<Rightarrow> distributor \<Rightarrow> (string, json) dict \<Rightarrow> bool" where
  "foreign ed F r d \<longleftrightarrow> \<not> sender_matches d (ds_authority r) \<or> (\<forall>v. check_signature ed F v d (ds_verifier r) \<noteq> Inr True)"

inductive coal_step :: "ed25519 \<Rightarrow> floatlib \<Rightarrow> coalition \<Rightarrow> coalition \<Rightarrow> bool" for ed F where
  changed: "coal_step ed F c (authority_acts (policy_act ed F op) c)"
| loop_started: "coal_step ed F c (dist_start c)"
| loop_stopped: "coal_step ed F c (dist_stop c)"
| rebroadcast: "cn_loop c \<Longrightarrow> coal_step ed F c (authority_acts (dist_round ed F) c)"
| arrived: "d \<in> set (cn_air c) \<Longrightarrow> coal_step ed F c (member_hears ed F d c)"
| intruded: "foreign ed F (cn_member c) d \<Longrightarrow> coal_step ed F c (member_hears ed F d c)"

inductive coal_run :: "ed25519 \<Rightarrow> floatlib \<Rightarrow> coalition \<Rightarrow> coalition \<Rightarrow> bool" for ed F c0 where
  init: "coal_run ed F c0 c0"
| step: "coal_run ed F c0 c \<Longrightarrow> coal_step ed F c c' \<Longrightarrow> coal_run ed F c0 c'"

section \<open>Equal versions mean equal policies\<close>

definition agrees :: "distributor \<Rightarrow> distributor \<Rightarrow> bool" where
  "agrees r a \<longleftrightarrow> (\<forall>local m. effective_allows local (ds_policy r) (ds_pairs r) m =
     effective_allows local (ds_policy a) ((ds_pairs a)\<lparr>pp_node_id := pp_node_id (ds_pairs r)\<rparr>) m)"

text \<open>A state \<open>a\<close> the authority \<open>s\<close> was in: what it has in common with \<open>s\<close>.\<close>

definition past :: "distributor \<Rightarrow> distributor \<Rightarrow> bool" where
  "past s a \<longleftrightarrow> ds_node_id a = ds_node_id s \<and> ds_authority a = ds_authority s \<and> ds_signer a = ds_signer s \<and>
     pairs_wf (ds_pairs a) \<and> ds_version a \<le> ds_version s \<and>
     (ds_version a = ds_version s \<longrightarrow> ds_policy a = ds_policy s \<and> ds_pairs a = ds_pairs s)"

definition coal_inv :: "ed25519 \<Rightarrow> floatlib \<Rightarrow> coalition \<Rightarrow> bool" where
  "coal_inv ed F c \<longleftrightarrow> trusts ed (cn_member c) (cn_authority c) \<and> pairs_wf (ds_pairs (cn_authority c)) \<and>
     0 < ds_version (cn_authority c) \<and>
     (\<forall>d \<in> set (cn_air c). \<exists>a. past (cn_authority c) a \<and> d = wire_data (ds_node_id a) (update_data ed F a)) \<and>
     (ds_version (cn_member c) = 0 \<or>
        (\<exists>a. past (cn_authority c) a \<and> ds_version (cn_member c) = ds_version a \<and> agrees (cn_member c) a))"

lemma past_self: "pairs_wf (ds_pairs s) \<Longrightarrow> past s s"
  by (simp add: past_def)

lemma trusts_same:
  assumes "trusts ed r s" and "ds_node_id s' = ds_node_id s" and "ds_authority s' = ds_authority s" and "ds_signer s' = ds_signer s"
  shows "trusts ed r s'"
  using assms by (cases "ds_verifier r") (auto simp: trusts_def is_authority_def)

lemma trusts_past: "trusts ed r s \<Longrightarrow> past s a \<Longrightarrow> trusts ed r a"
  by (rule trusts_same) (simp_all add: past_def)

lemma replaced_id: "pp_node_id (pairs_replace ps p) = pp_node_id p"
  by (simp add: pairs_replace_def)

lemma hears_past:
  assumes "trusts ed r s" and "past s a"
  shows "state_of (on_update ed F (wire_data (ds_node_id a) (update_data ed F a)) r) = r \<and> ds_version a \<le> ds_version r \<or>
    (let r' = state_of (on_update ed F (wire_data (ds_node_id a) (update_data ed F a)) r) in
       ds_version r' = ds_version a \<and> agrees r' a \<and> trusts ed r' s)"
proof -
  have "trusts ed (state_of (on_update ed F (wire_data (ds_node_id a) (update_data ed F a)) r)) s"
    using assms(1) by (auto simp: update_applied [OF trusts_past [OF assms]] trusts_def is_authority_def)
  moreover have "pairs_wf (ds_pairs a)" using assms(2) by (simp add: past_def)
  ultimately show ?thesis
    using snapshot_transfers [OF \<open>pairs_wf (ds_pairs a)\<close>]
    by (simp add: update_applied [OF trusts_past [OF assms]] Let_def agrees_def replaced_id)
qed

lemma policy_act_run:
  assumes "is_authority s" and "pairs_wf (ds_pairs s)"
  obtains s' where "policy_act ed F op s = (Inr (), s', [PublishControl KIND (update_data ed F s')])"
    and "ds_version s' = ds_version s + 1" and "ds_node_id s' = ds_node_id s" and "ds_authority s' = ds_authority s"
    and "ds_signer s' = ds_signer s" and "pairs_wf (ds_pairs s')"
proof -
  have "\<exists>change. policy_act ed F op = authority_op ed F change \<and>
      (\<exists>f. change = on_policy f) \<or> (\<exists>f. policy_act ed F op = authority_op ed F (on_pairs f) \<and> pairs_wf (f (ds_pairs s)))"
    using assms(2)
    by (cases op) (auto simp: dist_block_def dist_allow_def dist_reset_def dist_set_default_def dist_block_pair_def
        dist_allow_pair_def intro: pairs_wf_ops)
  then show ?thesis using that assms by (auto simp: authority_op_run Let_def on_policy_def on_pairs_def)
qed

lemma dist_round_run: "dist_round ed F s = (Inr (), s, [PublishControl KIND (update_data ed F s)])"
  by (simp add: dist_round_def broadcast_def catchA_def bindA_def act_defs)

lemma inv_air:
  assumes "coal_inv ed F c" and "past s (cn_authority c)" and "\<And>a. past (cn_authority c) a \<Longrightarrow> past s a"
    and "trusts ed (cn_member c) s" and "pairs_wf (ds_pairs s)" and "0 < ds_version s"
  shows "coal_inv ed F (c\<lparr>cn_authority := s, cn_air := cn_air c @ [wire_data (ds_node_id s) (update_data ed F s)]\<rparr>)"
  using assms past_self [OF assms(5)] unfolding coal_inv_def by simp blast

lemma past_step:
  assumes "past s a" and "ds_version s' = ds_version s + 1" and "ds_node_id s' = ds_node_id s"
    and "ds_authority s' = ds_authority s" and "ds_signer s' = ds_signer s"
  shows "past s' a"
  using assms by (simp add: past_def)

lemma hears_inv:
  assumes "coal_inv ed F c" and "past (cn_authority c) a"
  shows "coal_inv ed F (member_hears ed F (wire_data (ds_node_id a) (update_data ed F a)) c)"
proof -
  have t: "trusts ed (cn_member c) (cn_authority c)" using assms(1) by (simp add: coal_inv_def)
  show ?thesis
    using hears_past [OF t assms(2), of F] assms unfolding coal_inv_def member_hears_def Let_def by auto
qed

lemma foreign_ignored: "foreign ed F r d \<Longrightarrow> state_of (on_update ed F d r) = r"
  using on_update_guarded [of ed F d r] unfolding foreign_def by metis

lemma coal_step_inv:
  assumes "coal_step ed F c c'" and "coal_inv ed F c"
  shows "coal_inv ed F c'"
  using assms(1)
proof cases
  case (changed op)
  have a: "is_authority (cn_authority c)" "pairs_wf (ds_pairs (cn_authority c))" "trusts ed (cn_member c) (cn_authority c)"
      "0 < ds_version (cn_authority c)"
    using assms(2) by (simp_all add: coal_inv_def trusts_def)
  obtain s where s: "policy_act ed F op (cn_authority c) = (Inr (), s, [PublishControl KIND (update_data ed F s)])"
      "ds_version s = ds_version (cn_authority c) + 1" "ds_node_id s = ds_node_id (cn_authority c)"
      "ds_authority s = ds_authority (cn_authority c)" "ds_signer s = ds_signer (cn_authority c)" "pairs_wf (ds_pairs s)"
    by (rule policy_act_run [OF a(1,2)])
  have "c' = c\<lparr>cn_authority := s, cn_air := cn_air c @ [wire_data (ds_node_id s) (update_data ed F s)]\<rparr>"
    by (simp add: changed authority_acts_def s(1) on_air_def)
  then show ?thesis
    using inv_air [OF assms(2) past_step [OF past_self [OF a(2)] s(2-5)] past_step [OF _ s(2-5)] trusts_same [OF a(3) s(3-5)] s(6)]
      s(2) a(4) by simp
next
  case loop_started
  then show ?thesis using assms(2) by (simp add: coal_inv_def dist_start_def)
next
  case loop_stopped
  then show ?thesis using assms(2) by (simp add: coal_inv_def dist_stop_def)
next
  case rebroadcast
  have a: "pairs_wf (ds_pairs (cn_authority c))" "trusts ed (cn_member c) (cn_authority c)" "0 < ds_version (cn_authority c)"
    using assms(2) by (simp_all add: coal_inv_def)
  have "c' = c\<lparr>cn_authority := cn_authority c,
      cn_air := cn_air c @ [wire_data (ds_node_id (cn_authority c)) (update_data ed F (cn_authority c))]\<rparr>"
    by (simp add: rebroadcast authority_acts_def dist_round_run on_air_def)
  then show ?thesis using inv_air [OF assms(2) past_self [OF a(1)] _ a(2,1,3)] by simp
next
  case (arrived d)
  then obtain a where "past (cn_authority c) a" "d = wire_data (ds_node_id a) (update_data ed F a)"
    using assms(2) by (auto simp: coal_inv_def)
  then show ?thesis using hears_inv [OF assms(2)] arrived by simp
next
  case (intruded d)
  then have "c' = c" by (simp add: member_hears_def foreign_ignored)
  then show ?thesis using assms(2) by simp
qed

lemma coal_run_inv: "coal_run ed F c0 c \<Longrightarrow> coal_inv ed F c0 \<Longrightarrow> coal_inv ed F c"
  by (induction rule: coal_run.induct) (blast intro: coal_step_inv)+

lemma inv_agrees:
  assumes "coal_inv ed F c" and "ds_version (cn_member c) = ds_version (cn_authority c)"
  shows "agrees (cn_member c) (cn_authority c)"
proof -
  obtain a where "past (cn_authority c) a" "ds_version (cn_member c) = ds_version a" "agrees (cn_member c) a"
    using assms by (auto simp: coal_inv_def)
  then show ?thesis using assms(2) by (simp add: past_def agrees_def)
qed

lemma inv_versions: "coal_inv ed F c \<Longrightarrow> ds_version (cn_member c) \<le> ds_version (cn_authority c)"
  by (auto simp: coal_inv_def past_def)

text \<open>A round that reaches the member.\<close>

definition round_reaches :: "ed25519 \<Rightarrow> floatlib \<Rightarrow> coalition \<Rightarrow> coalition" where
  "round_reaches ed F c = (let c1 = authority_acts (dist_round ed F) c in member_hears ed F (last (cn_air c1)) c1)"

lemma round_catches_up:
  assumes "coal_inv ed F c"
  shows "coal_inv ed F (round_reaches ed F c)" "cn_authority (round_reaches ed F c) = cn_authority c"
    "ds_version (cn_member (round_reaches ed F c)) = ds_version (cn_authority c)"
proof -
  let ?s = "cn_authority c"
  let ?d = "wire_data (ds_node_id ?s) (update_data ed F ?s)"
  let ?c = "c\<lparr>cn_authority := ?s, cn_air := cn_air c @ [?d]\<rparr>"
  have a: "pairs_wf (ds_pairs ?s)" "trusts ed (cn_member c) ?s" "0 < ds_version ?s" using assms by (simp_all add: coal_inv_def)
  have i: "coal_inv ed F ?c" by (rule inv_air [OF assms past_self [OF a(1)] _ a(2,1,3)])
  have r: "round_reaches ed F c = member_hears ed F ?d ?c"
    by (simp add: round_reaches_def Let_def authority_acts_def dist_round_run on_air_def)
  show j: "coal_inv ed F (round_reaches ed F c)"
    unfolding r using hears_inv [OF i, of ?s] past_self [OF a(1)] by simp
  show s: "cn_authority (round_reaches ed F c) = cn_authority c" by (simp add: r member_hears_def)
  have "ds_version ?s \<le> ds_version (cn_member (round_reaches ed F c))"
    using hears_past [OF a(2) past_self [OF a(1)], of F] by (auto simp: r member_hears_def Let_def)
  then show "ds_version (cn_member (round_reaches ed F c)) = ds_version (cn_authority c)"
    using inv_versions [OF j] s by simp
qed

lemma fresh_inv:
  assumes "trusts ed (cn_member c) (cn_authority c)" and "pairs_wf (ds_pairs (cn_authority c))"
    and "ds_version (cn_authority c) = 1" and "ds_version (cn_member c) = 0" and "cn_air c = []"
  shows "coal_inv ed F c"
  using assms by (simp add: coal_inv_def)

text \<open>Property C11: a coalition settles whatever its network does. From a fresh start, after any operators' changes and
  rounds, with every frame lost, repeated, delayed or overtaken as often as you like, and frames of others in
  between, the member's version is never ahead of the authority's; when the two are equal the member admits, for
  every local policy of its own and every message, exactly what the authority's policies admit for it; and one round
  that reaches the member is enough to make them equal.\<close>

theorem coalition_settles:
  assumes "coal_run ed F c0 c"
    and "trusts ed (cn_member c0) (cn_authority c0)" and "pairs_wf (ds_pairs (cn_authority c0))"
    and "ds_version (cn_authority c0) = 1" and "ds_version (cn_member c0) = 0" and "cn_air c0 = []"
  shows "ds_version (cn_member c) \<le> ds_version (cn_authority c) \<and>
    (ds_version (cn_member c) = ds_version (cn_authority c) \<longrightarrow>
      (\<forall>local m. effective_allows local (ds_policy (cn_member c)) (ds_pairs (cn_member c)) m =
         effective_allows local (ds_policy (cn_authority c))
           ((ds_pairs (cn_authority c))\<lparr>pp_node_id := pp_node_id (ds_pairs (cn_member c))\<rparr>) m)) \<and>
    (let r = cn_member (round_reaches ed F c) in
      ds_version r = ds_version (cn_authority c) \<and>
      (\<forall>local m. effective_allows local (ds_policy r) (ds_pairs r) m =
         effective_allows local (ds_policy (cn_authority c)) ((ds_pairs (cn_authority c))\<lparr>pp_node_id := pp_node_id (ds_pairs r)\<rparr>) m))"
proof -
  have i: "coal_inv ed F c" by (rule coal_run_inv [OF assms(1) fresh_inv [OF assms(2-6)]])
  show ?thesis
    using inv_versions [OF i] inv_agrees [OF i] round_catches_up [OF i] inv_agrees [OF round_catches_up(1) [OF i]]
    by (simp add: Let_def agrees_def)
qed

section \<open>Witness\<close>

definition demo_coalition :: coalition where
  "demo_coalition = \<lparr> cn_authority = demo_authority, cn_member = demo_member, cn_air = [], cn_loop = False \<rparr>"

text \<open>A block while the member hears nothing; the next round brings it over.\<close>

definition demo_changed :: coalition where
  "demo_changed = authority_acts (policy_act demo_ed (e_floats demo_env) (BlockPeer ''b'')) demo_coalition"

theorem coalition_settles_witness:
  "ds_version (cn_member demo_changed) = 0 \<and> ds_version (cn_authority demo_changed) = 2 \<and>
   ds_version (cn_member (round_reaches demo_ed (e_floats demo_env) demo_changed)) = 2"
proof -
  have f: "trusts demo_ed (cn_member demo_coalition) (cn_authority demo_coalition)" "pairs_wf (ds_pairs (cn_authority demo_coalition))"
      "ds_version (cn_authority demo_coalition) = 1" "ds_version (cn_member demo_coalition) = 0" "cn_air demo_coalition = []"
    using demo_trusts demo_wf(2)
    by (simp_all add: demo_coalition_def demo_authority_def demo_member_def distributor_init_def)
  have r: "coal_run demo_ed (e_floats demo_env) demo_coalition demo_changed"
    unfolding demo_changed_def by (rule coal_run.step [OF coal_run.init coal_step.changed])
  have "is_authority demo_authority" using demo_trusts by (simp add: trusts_def)
  then have v: "ds_version (cn_member demo_changed) = 0" "ds_version (cn_authority demo_changed) = 2"
    using f(3,4) by (simp_all add: demo_changed_def demo_coalition_def authority_acts_def dist_block_def authority_op_run
        on_policy_def Let_def)
  then show ?thesis using coalition_settles [OF r f] by (simp add: Let_def)
qed

end
