(* ===== verification/Session.thy ===== *)
theory Session
  imports Users
begin

text \<open>
  The web login as a browser meets it (\<open>web/routers/auth.py\<close>): the cookie \<open>login\<close> sets, when the browser sends it
  back, and \<open>logout\<close>, which clears it. Credentials, tokens and the endpoints' answers are in \<open>Users\<close>; what a
  browser does with a cookie is the documented behaviour of cookies.
\<close>

section \<open>The cookie\<close>

record cookie =
  ck_value :: string
  ck_expires :: int
  ck_http_only :: bool
  ck_same_site :: string
  ck_secure :: bool
  ck_path :: string

text \<open>\<open>now\<close> is the clock in microseconds, \<open>https\<close> the scheme of the request.\<close>

definition set_session_cookie :: "bool \<Rightarrow> int \<Rightarrow> string \<Rightarrow> cookie" where
  "set_session_cookie https now token =
     \<lparr> ck_value = token, ck_expires = now + 12 * 60 * 60 * 1000000, ck_http_only = True, ck_same_site = ''lax'',
       ck_secure = https, ck_path = ''/'' \<rparr>"

text \<open>A browser keeps a cookie until it expires and sends one marked secure over https only.\<close>

definition sent_cookie :: "bool \<Rightarrow> int \<Rightarrow> cookie option \<Rightarrow> string option" where
  "sent_cookie https now c =
     (case c of None \<Rightarrow> None | Some k \<Rightarrow> if now < ck_expires k \<and> (ck_secure k \<longrightarrow> https) then Some (ck_value k) else None)"

section \<open>Requests\<close>

datatype web_op = Login string string | Me | Logout

record request =
  rq_time :: int
  rq_https :: bool
  rq_op :: web_op

definition login_endpoint :: "auth_env \<Rightarrow> credentials \<Rightarrow> bool \<Rightarrow> int \<Rightarrow> string \<Rightarrow> string \<Rightarrow> cookie option \<Rightarrow> string result \<times> cookie option" where
  "login_endpoint E data https now u p c =
     (case login E data now u p of
        Inl e \<Rightarrow> (Inl e, c)
      | Inr token \<Rightarrow> (Inr u, Some (set_session_cookie https now token)))"

definition logout_endpoint :: "cookie option \<Rightarrow> string result \<times> cookie option" where
  "logout_endpoint c = (Inr ''ok'', None)"

fun serve :: "auth_env \<Rightarrow> credentials \<Rightarrow> request \<Rightarrow> cookie option \<Rightarrow> string result \<times> cookie option" where
  "serve E data r c =
     (case rq_op r of
        Login u p \<Rightarrow> login_endpoint E data (rq_https r) (rq_time r) u p c
      | Me \<Rightarrow> (who_am_i E data (rq_time r) (sent_cookie (rq_https r) (rq_time r) c), c)
      | Logout \<Rightarrow> logout_endpoint c)"

definition browse :: "auth_env \<Rightarrow> credentials \<Rightarrow> request list \<Rightarrow> cookie option" where
  "browse E data rs = fold (\<lambda>r c. snd (serve E data r c)) rs None"

section \<open>Whose session it is\<close>

text \<open>The latest login that was granted and not followed by a logout.\<close>

definition granted :: "credentials \<Rightarrow> request \<Rightarrow> (string \<times> request) option \<Rightarrow> (string \<times> request) option" where
  "granted data r prev =
     (case rq_op r of
        Login u p \<Rightarrow> if verify_password data u p = Inr True then Some (u, r) else prev
      | Me \<Rightarrow> prev
      | Logout \<Rightarrow> None)"

definition signed_in :: "credentials \<Rightarrow> request list \<Rightarrow> (string \<times> request) option" where
  "signed_in data rs = fold (granted data) rs None"

lemma verified_user:
  assumes "users_of data = Inr us" and "verify_password data u p = Inr True"
  shows "map_of us u \<noteq> None"
  using assms by (cases "map_of us u") (simp_all add: verify_password_def)

definition sane :: "request \<Rightarrow> bool" where
  "sane r \<longleftrightarrow> 0 \<le> rq_time r \<and> rq_time r < 10 ^ 18"

lemma sane_length:
  assumes "sane r"
  shows "length (show_int (rq_time r div 1000000 + SESSION_TTL)) \<le> 4300"
proof -
  have "0 \<le> rq_time r div 1000000" "rq_time r div 1000000 < 10 ^ 12" using assms by (auto simp: sane_def)
  then have n: "0 \<le> rq_time r div 1000000 + SESSION_TTL" "nat (rq_time r div 1000000 + SESSION_TTL) < 10 ^ 13"
    by (auto simp: SESSION_TTL_def nat_less_iff)
  then show ?thesis using show_nat_width [OF n(2)] by (simp add: show_int_def)
qed

text \<open>The cookie a browser holds is that of its granted login.\<close>

definition holds_login :: "auth_env \<Rightarrow> credentials \<Rightarrow> (string \<times> request) option \<Rightarrow> cookie option \<Rightarrow> bool" where
  "holds_login E data prev c \<longleftrightarrow>
     (case prev of
        None \<Rightarrow> c = None
      | Some (u, r) \<Rightarrow> sane r \<and> (\<exists>p. verify_password data u p = Inr True) \<and>
          (\<exists>t. make_token E data (rq_time r) u SESSION_TTL = Inr t \<and> c = Some (set_session_cookie (rq_https r) (rq_time r) t)))"

lemma serve_holds:
  assumes "session_secret E data = Inr k" and "holds_login E data prev c" and "sane r"
  shows "holds_login E data (granted data r prev) (snd (serve E data r c))"
proof (cases "rq_op r")
  case (Login u p)
  show ?thesis
  proof (cases "verify_password data u p = Inr True")
    case True
    then show ?thesis using assms(1,3)
      by (auto simp: Login granted_def holds_login_def login_endpoint_def login_def make_token_def Let_def)
  next
    case False
    then have "\<exists>e. login E data (rq_time r) u p = Inl e"
      by (cases "verify_password data u p") (auto simp: login_def)
    then show ?thesis using assms(2) False by (auto simp: Login granted_def login_endpoint_def)
  qed
qed (use assms(2) in \<open>auto simp: granted_def holds_login_def logout_endpoint_def\<close>)

lemma browse_holds:
  assumes "session_secret E data = Inr k" and "list_all sane rs"
  shows "holds_login E data (signed_in data rs) (browse E data rs)"
  using assms(2)
proof (induction rs rule: rev_induct)
  case (snoc r rs)
  then show ?case using serve_holds [OF assms(1)] by (simp add: signed_in_def browse_def)
qed (simp add: signed_in_def browse_def holds_login_def)

text \<open>Until when a login counts: the token's expiry is in whole seconds, the cookie's to the microsecond.\<close>

definition still_valid :: "request \<Rightarrow> bool \<Rightarrow> int \<Rightarrow> bool" where
  "still_valid r https now \<longleftrightarrow> now < rq_time r + 12 * 60 * 60 * 1000000 \<and> now \<le> (rq_time r div 1000000 + 12 * 60 * 60) * 1000000 \<and>
     (rq_https r \<longrightarrow> https)"

text \<open>Property C19: who a browser is signed in as follows from its requests alone. However it logs in with right and wrong
  passwords, asks and logs out, the gateway answers with a user's name exactly when the latest login it granted, not
  followed by a logout, was that user's, is no more than twelve hours old, and the cookie may travel over the
  request's scheme; in every other case it answers 401.\<close>

theorem session_follows_logins:
  assumes "users_of data = Inr us" and "session_secret E data = Inr k" and "\<not> auth_disabled E"
    and "list_all sane rs"
  shows "fst (serve E data \<lparr>rq_time = now, rq_https = https, rq_op = Me\<rparr> (browse E data rs)) =
    (case signed_in data rs of
       Some (u, r) \<Rightarrow> if u \<noteq> [] \<and> still_valid r https now then Inr u else Inl (PyExn (HttpErr 401) ''not authenticated'')
     | None \<Rightarrow> Inl (PyExn (HttpErr 401) ''not authenticated''))"
proof (cases "signed_in data rs")
  case None
  then have "browse E data rs = None" using browse_holds [OF assms(2,4)] by (simp add: holds_login_def)
  then show ?thesis using assms(3) None by (simp add: sent_cookie_def who_am_i_def verify_token_def)
next
  case (Some x)
  obtain u r where x: "x = (u, r)" by (cases x)
  obtain t p where h: "sane r" "verify_password data u p = Inr True" "make_token E data (rq_time r) u SESSION_TTL = Inr t"
      "browse E data rs = Some (set_session_cookie (rq_https r) (rq_time r) t)"
    using browse_holds [OF assms(2,4)] by (auto simp: holds_login_def Some x)
  have v: "verify_token E data now (Some t) = Inr (if (rq_time r div 1000000 + SESSION_TTL) * 1000000 < now then None else Some u)"
    by (rule session_until_expiry [OF assms(1,2) verified_user [OF assms(1) h(2)] h(3) sane_length [OF h(1)]])
  have n: "verify_token E data now None = Inr None" by (simp add: verify_token_def)
  show ?thesis using assms(3) v n
    by (auto simp: Some x h(4) sent_cookie_def set_session_cookie_def who_am_i_def still_valid_def SESSION_TTL_def)
qed

section \<open>Witness\<close>

definition demo_record :: json where
  "demo_record = JDict [(''salt'', JStr ''00''), (''hash'', JStr (hex_of_bytes (pbkdf2_sha256 (utf8_encode ''hunter2'') [0] ITERATIONS)))]"

definition demo_login_data :: credentials where
  "demo_login_data = [(''secret'', JStr ''s''), (''users'', JDict [(''scout'', demo_record)])]"

definition demo_login :: request where
  "demo_login = \<lparr> rq_time = 0, rq_https = True, rq_op = Login ''scout'' ''hunter2'' \<rparr>"

definition demo_logout :: request where
  "demo_logout = \<lparr> rq_time = 5, rq_https = True, rq_op = Logout \<rparr>"

text \<open>Signed in over https at 60 s, not over http, not after the twelve hours, not after a logout.\<close>

theorem session_follows_logins_witness:
  "fst (serve demo_auth demo_login_data \<lparr>rq_time = 60000000, rq_https = True, rq_op = Me\<rparr> (browse demo_auth demo_login_data [demo_login])) = Inr ''scout'' \<and>
   fst (serve demo_auth demo_login_data \<lparr>rq_time = 60000000, rq_https = False, rq_op = Me\<rparr> (browse demo_auth demo_login_data [demo_login])) =
     Inl (PyExn (HttpErr 401) ''not authenticated'') \<and>
   fst (serve demo_auth demo_login_data \<lparr>rq_time = 43200000001, rq_https = True, rq_op = Me\<rparr> (browse demo_auth demo_login_data [demo_login])) =
     Inl (PyExn (HttpErr 401) ''not authenticated'') \<and>
   fst (serve demo_auth demo_login_data \<lparr>rq_time = 60000000, rq_https = True, rq_op = Me\<rparr> (browse demo_auth demo_login_data [demo_login, demo_logout])) =
     Inl (PyExn (HttpErr 401) ''not authenticated'')"
proof -
  have u: "users_of demo_login_data = Inr [(''scout'', demo_record)]" by (simp add: users_of_def demo_login_data_def)
  have k: "session_secret demo_auth demo_login_data = Inr (utf8_encode ''s'')"
    by (simp add: session_secret_def demo_login_data_def demo_auth_def)
  have d: "\<not> auth_disabled demo_auth" by (simp add: auth_disabled_def demo_auth_def py_strip_def py_lower_def)
  have "password_hash ''hunter2'' ''00'' = Inr (hex_of_bytes (pbkdf2_sha256 (utf8_encode ''hunter2'') [0] ITERATIONS))"
    by (simp add: password_hash_def hex_val_def ascii_space_def)
  then have p: "verify_password demo_login_data ''scout'' ''hunter2'' = Inr True"
    by (simp add: verify_password_def u demo_record_def compare_digest_def hex_of_bytes_ascii)
  have s: "signed_in demo_login_data [demo_login] = Some (''scout'', demo_login)" "signed_in demo_login_data [demo_login, demo_logout] = None"
    by (simp_all add: signed_in_def granted_def demo_login_def demo_logout_def p)
  have o: "list_all sane [demo_login]" "list_all sane [demo_login, demo_logout]"
    by (simp_all add: sane_def demo_login_def demo_logout_def)
  show ?thesis
    unfolding session_follows_logins [OF u k d o(1)] session_follows_logins [OF u k d o(2)] s
    by (simp add: still_valid_def demo_login_def)
qed

end
