(* ===== verification/Upkeep.thy ===== *)
theory Upkeep
  imports WebApp
begin

text \<open>
  Small services around the parts: installing the log handlers (\<open>audit.py\<close>), the address advertised to EUDs
  (\<open>web/eud_server.py\<close>), the TLS context of a server connection (\<open>bridges/takserver.py\<close>), the configuration endpoint
  (\<open>web/routers/config.py\<close>), the answer to a capability error and the dashboard's directory (\<open>web/app.py\<close>).
\<close>

section \<open>Log handlers\<close>

datatype log_handler = AppLog | Console string

record logging =
  lg_configured :: bool
  lg_level :: int
  lg_handlers :: "log_handler list"
  lg_propagate :: bool

definition setup_logging :: "int \<Rightarrow> logging \<Rightarrow> logging" where
  "setup_logging level l =
     (if lg_configured l then l
      else l\<lparr>lg_level := level,
        lg_handlers := lg_handlers l @ [AppLog, Console ''%(asctime)s %(levelname)s %(name)s: %(message)s''],
        lg_propagate := False, lg_configured := True\<rparr>)"

text \<open>However often it is called, records reach the buffer once, and the first level stays.\<close>

lemma setup_once: "setup_logging b (setup_logging a l) = setup_logging a l"
  by (simp add: setup_logging_def)

section \<open>The advertised address\<close>

text \<open>\<open>probe\<close> is the socket's own address after connecting it; the socket is closed in any case.\<close>

definition lan_ip :: "string result \<Rightarrow> string result" where
  "lan_ip probe =
     (case probe of
        Inr ip \<Rightarrow> Inr ip
      | Inl e \<Rightarrow> if exn_kind e = OsErr then Inr ''127.0.0.1'' else Inl e)"

section \<open>The TLS context\<close>

datatype tls_call = CreateContext "string option" | LoadChain string "string option" | NoHostnameCheck | NoVerification

definition ssl_context :: "connector \<Rightarrow> tls_call list" where
  "ssl_context c =
     (case tc_certs c of
        (cert, key, cacert) \<Rightarrow>
          CreateContext cacert # (case cert of None \<Rightarrow> [] | Some f \<Rightarrow> if f = [] then [] else [LoadChain f key]) @
          (if tc_verify c then [] else [NoHostnameCheck, NoVerification]))"

lemma verified_unless_asked: "NoVerification \<in> set (ssl_context c) \<longleftrightarrow> \<not> tc_verify c"
  by (cases "tc_certs c") (auto simp: ssl_context_def split: option.split)

section \<open>Endpoints\<close>

text \<open>A patch that does not validate is answered with 422 and touches nothing; other errors are the server's own.\<close>

definition update_config :: "runtime_env \<Rightarrow> (string, json) dict \<Rightarrow> gateway_config app_act" where
  "update_config R patch =
     catchA (reconfigure R patch) (\<lambda>e. raiseA (if exn_kind e = ValidationErr then PyExn (HttpErr 422) (exn_str e) else e))"

lemma invalid_patch_refused:
  assumes "ci_build (rt_io R) (deep_merge (ci_dump (rt_io R) (gw_config (ap_gateway s))) patch) = Inl e" and "exn_kind e = ValidationErr"
  shows "update_config R patch s = (Inl (PyExn (HttpErr 422) (exn_str e)), s, [])"
  using assms by (simp add: update_config_def catchA_def reconfigure_def bindA_def act_defs)

definition capability_denied :: "'a result \<Rightarrow> 'a result" where
  "capability_denied r =
     (case r of
        Inl e \<Rightarrow> if exn_kind e = CapabilityErr then Inl (PyExn (HttpErr 403) (exn_str e)) else Inl e
      | Inr x \<Rightarrow> Inr x)"

text \<open>\<open>isdir\<close> is what the file system says; \<open>default\<close> the directory beside the package.\<close>

definition web_ui_root :: "(string \<Rightarrow> bool) \<Rightarrow> string \<Rightarrow> string option \<Rightarrow> string option" where
  "web_ui_root isdir dflt configured =
     (let dist = (case configured of None \<Rightarrow> dflt | Some d \<Rightarrow> if d = [] then dflt else d)
      in if isdir dist then Some dist else None)"

end
