(* ===== verification/CommandLine.thy ===== *)
theory CommandLine
  imports BridgeNode ConfigFile
begin

text \<open>
  The command line (\<open>cli.py\<close>): the options of each command, which job the arguments select, the output of
  \<open>simulate\<close> with the plain-text report and matrix of \<open>simulator/scenario.py\<close>, and \<open>keygen\<close> with
  \<open>generate_keypair\<close> of \<open>connections/signing.py\<close>. What \<open>run\<close> and \<open>bridge\<close> build and do is in \<open>BridgeNode\<close>.
  The symbols outside the model's code points are in \<open>glyphs\<close>.
\<close>

section \<open>The report as text\<close>

record glyphs =
  gy_dash :: char
  gy_endash :: char
  gy_check :: char
  gy_cross :: char
  gy_arrow :: char
  gy_implies :: char
  gy_left :: char
  gy_dots :: char

definition join_with :: "string \<Rightarrow> string list \<Rightarrow> string" where
  "join_with sep xs = (case xs of [] \<Rightarrow> [] | y # ys \<Rightarrow> y @ concat (map (\<lambda>z. sep @ z) ys))"

definition join_lines :: "string list \<Rightarrow> string" where
  "join_lines = join_with [CHR 0x0A]"

definition py_bool :: "bool \<Rightarrow> string" where
  "py_bool b = (if b then ''True'' else ''False'')"

definition client_line :: "client_row \<Rightarrow> string" where
  "client_line c =
     (let by_type = join_with '', '' (map (\<lambda>(k, v). k @ ''='' @ show_nat v) (sort_key fst (cr_sent_by_type c)))
      in ''    '' @ ljust 12 (cr_callsign c) @ '' '' @ ljust 16 (cr_role c) @ '' '' @ cr_nation c @ ''  sent '' @
           ljust 3 (show_nat (cr_sent_total c)) @ '' ['' @ by_type @ '']'')"

definition rogue_line :: "glyphs \<Rightarrow> sim_report \<Rightarrow> string \<Rightarrow> string" where
  "rogue_line G R mode =
     ''  rogue client ('' @ quoted mode @ ''): '' @ show_nat (rp_rogue_frames_sent R) @ '' frames injected, '' @
       show_nat (rp_rogue_frames_rejected R) @ '' dropped by receivers, in COP='' @ py_bool (rp_rogue_observed R) @ '' '' @
       gy_arrow G # '' '' @ (if rogue_rejected R then ''REJECTED '' @ [gy_check G] else ''LEAKED '' @ [gy_cross G])"

definition report_lines :: "glyphs \<Rightarrow> sim_report \<Rightarrow> string list" where
  "report_lines G R =
     [''JDSS simulation '' @ gy_dash G # '' network '' @ quoted (rp_network_id R) @ '' ('' @ rp_codec R @ ''/'' @ rp_transport R @
        ''), '' @ show_nat (rp_ticks R) @ '' ticks'',
      ''  clients: '' @ show_nat (length (rp_clients R))] @
     map client_line (sort_key cr_role (rp_clients R)) @
     [''  message types observed network-wide: '' @ show_nat (length (rp_types_observed R)) @ ''/'' @ show_nat (length ALL_TYPES) @
        '' '' @ (if all_message_types R then gy_check G # '' ALL'' else [gy_cross G]) @ '' '' @ gy_dash G # '' '' @
        join_with '', '' (sort (rp_types_observed R)),
      ''  CASEVAC: '' @ show_nat (rp_casevac_requests R) @ '' requested / '' @ show_nat (rp_casevac_acks R) @ '' acknowledged by medic'',
      ''  peers seen at command post: '' @ show_nat (length (rp_peers R)) @ '' ('' @ join_with '', '' (sort (rp_peers R)) @ '')''] @
     (case rp_rogue_mode R of None \<Rightarrow> [] | Some mode \<Rightarrow> [rogue_line G R mode])"

definition report_text :: "glyphs \<Rightarrow> sim_report \<Rightarrow> string" where
  "report_text G R = join_lines (report_lines G R)"

section \<open>The connection matrix as text\<close>

definition COLUMN :: nat where
  "COLUMN = 11"

definition short :: "string \<Rightarrow> string" where
  "short n = take (COLUMN - 1) n"

definition matrix_cell :: "glyphs \<Rightarrow> sim_report \<Rightarrow> string \<Rightarrow> string \<Rightarrow> string" where
  "matrix_cell G R obs n =
     rjust COLUMN (if n = obs then [gy_endash G] else show_nat (dict_get (dict_get (rp_matrix R) obs []) n 0))"

definition matrix_row :: "glyphs \<Rightarrow> sim_report \<Rightarrow> string \<Rightarrow> string" where
  "matrix_row G R obs =
     ljust 16 (short obs) @ concat (map (matrix_cell G R obs) (rp_nodes R)) @
     (if Some obs = rp_rogue_node R then ''  <- rogue'' else [])"

definition matrix_lines :: "glyphs \<Rightarrow> sim_report \<Rightarrow> string list" where
  "matrix_lines G R =
     (ljust 16 (''observer '' @ CHR 0x5C # '' from'') @ concat (map (\<lambda>n. rjust COLUMN (short n)) (rp_nodes R))) #
     map (matrix_row G R) (rp_nodes R) @
     (case rp_rogue_node R of None \<Rightarrow> []
      | Some n \<Rightarrow> [''(rogue '' @ quoted n @ '' column is all-zero '' @ gy_implies G # '' nobody accepts it)''])"

definition matrix_text :: "glyphs \<Rightarrow> sim_report \<Rightarrow> string" where
  "matrix_text G R = (if rp_nodes R = [] then ''(no matrix)'' else join_lines (matrix_lines G R))"

section \<open>Arguments\<close>

text \<open>A value of the namespace, what an option takes, and one \<open>add_argument\<close> call.\<close>

datatype arg_value = ANone | AText string | AInt int | AFloat rat | ABool bool

datatype opt_kind = TextOpt | IntOpt | FloatOpt | OneOf "string list" | Flag

record opt =
  op_flags :: "string list"
  op_dest :: string
  op_kind :: opt_kind
  op_default :: arg_value

definition opt_of :: "string list \<Rightarrow> string \<Rightarrow> opt_kind \<Rightarrow> arg_value \<Rightarrow> opt" where
  "opt_of flags dest k d = \<lparr> op_flags = flags, op_dest = dest, op_kind = k, op_default = d \<rparr>"

definition CONFIG_OPT :: opt where
  "CONFIG_OPT = opt_of [''--config'', ''-c''] ''config'' TextOpt ANone"

definition RUN_OPTS :: "opt list" where
  "RUN_OPTS =
     [CONFIG_OPT,
      opt_of [''--interval''] ''interval'' FloatOpt (AFloat 5),
      opt_of [''--lat''] ''lat'' FloatOpt (AFloat (508503 / 10000)),
      opt_of [''--lon''] ''lon'' FloatOpt (AFloat (43517 / 10000)),
      opt_of [''--casevac''] ''casevac'' Flag (ABool False)]"

definition SIMULATE_OPTS :: "opt list" where
  "SIMULATE_OPTS =
     [opt_of [''--ticks''] ''ticks'' IntOpt (AInt 20),
      opt_of [''--interval''] ''interval'' FloatOpt (AFloat (5 / 100)),
      opt_of [''--transport''] ''transport'' (OneOf [''loopback'', ''udp'']) (AText ''loopback''),
      opt_of [''--codec''] ''codec'' (OneOf [''xml'', ''json'', ''arrow'']) (AText ''xml''),
      opt_of [''--network''] ''network'' TextOpt (AText ''exercise-jdss''),
      opt_of [''--rogue''] ''rogue'' (OneOf [''wrong_key'', ''garbage'', ''insider'']) ANone,
      opt_of [''--matrix''] ''matrix'' Flag (ABool False)]"

definition BRIDGE_KINDS :: "string list" where
  "BRIDGE_KINDS = [''atak'']"

definition BRIDGE_OPTS :: "opt list" where
  "BRIDGE_OPTS =
     [CONFIG_OPT,
      opt_of [''--cot-group''] ''cot_group'' TextOpt (AText ''239.2.3.1''),
      opt_of [''--cot-port''] ''cot_port'' IntOpt (AInt 6969),
      opt_of [''--cot-stale''] ''cot_stale'' IntOpt (AInt 60),
      opt_of [''--tak-server''] ''tak_server'' TextOpt ANone,
      opt_of [''--tak-tls''] ''tak_tls'' Flag (ABool False),
      opt_of [''--tak-cert''] ''tak_cert'' TextOpt ANone,
      opt_of [''--tak-key''] ''tak_key'' TextOpt ANone,
      opt_of [''--tak-cacert''] ''tak_cacert'' TextOpt ANone,
      opt_of [''--tak-insecure''] ''tak_insecure'' Flag (ABool False)]"

text \<open>The parser is the standard library's, taken at options written in full with their value as the next argument.
  \<open>fp\<close> is \<open>float(text)\<close>. A usage error, the left value here, ends the program with status 2.\<close>

type_synonym 'a usage = "string + 'a"

definition usage_error :: "string \<Rightarrow> 'a usage" where
  "usage_error what = Inl what"

definition bindU :: "'a usage \<Rightarrow> ('a \<Rightarrow> 'b usage) \<Rightarrow> 'b usage" where
  "bindU r f = (case r of Inl e \<Rightarrow> Inl e | Inr x \<Rightarrow> f x)"

fun convert :: "(string \<Rightarrow> rat option) \<Rightarrow> opt_kind \<Rightarrow> string \<Rightarrow> arg_value usage" where
  "convert fp TextOpt v = Inr (AText v)"
| "convert fp IntOpt v = (case int_of_text v of Inl e \<Rightarrow> usage_error ''invalid int value'' | Inr n \<Rightarrow> Inr (AInt n))"
| "convert fp FloatOpt v = (case fp v of None \<Rightarrow> usage_error ''invalid float value'' | Some x \<Rightarrow> Inr (AFloat x))"
| "convert fp (OneOf cs) v = (if v \<in> set cs then Inr (AText v) else usage_error ''invalid choice'')"
| "convert fp Flag v = Inr (ABool True)"

definition negative_number :: "string \<Rightarrow> bool" where
  "negative_number v \<longleftrightarrow> (case v of [] \<Rightarrow> False | c # cs \<Rightarrow>
     c = CHR ''-'' \<and>
     (case split_on (CHR ''.'') cs of
        [a] \<Rightarrow> a \<noteq> [] \<and> list_all is_digit a
      | [a, b] \<Rightarrow> list_all is_digit a \<and> b \<noteq> [] \<and> list_all is_digit b
      | _ \<Rightarrow> False))"

definition looks_like_option :: "string \<Rightarrow> bool" where
  "looks_like_option v \<longleftrightarrow> take 1 v = ''-'' \<and> v \<noteq> ''-'' \<and> \<not> negative_number v \<and> CHR '' '' \<notin> set v"

type_synonym namespace = "(string, arg_value) dict"

fun parse_opts :: "(string \<Rightarrow> rat option) \<Rightarrow> opt list \<Rightarrow> string list \<Rightarrow> namespace \<Rightarrow> namespace usage" where
  "parse_opts fp os [] ns = Inr ns"
| "parse_opts fp os (t # ts) ns =
     (case find (\<lambda>p. t \<in> set (op_flags p)) os of
        None \<Rightarrow> usage_error ''unrecognized arguments''
      | Some p \<Rightarrow>
          if op_kind p = Flag then parse_opts fp os ts (AList.update (op_dest p) (ABool True) ns)
          else (case ts of
                  [] \<Rightarrow> usage_error ''expected one argument''
                | v # rest \<Rightarrow>
                    if looks_like_option v then usage_error ''expected one argument''
                    else bindU (convert fp (op_kind p) v) (\<lambda>x. parse_opts fp os rest (AList.update (op_dest p) x ns))))"

definition defaults :: "opt list \<Rightarrow> namespace" where
  "defaults os = map (\<lambda>p. (op_dest p, op_default p)) os"

datatype job = RunNode namespace | SimulateExercise namespace | BridgeAtak namespace | Keygen

text \<open>The kind of bridge is the first argument after \<open>bridge\<close> here; the parser takes it at any place.\<close>

definition main_job :: "(string \<Rightarrow> rat option) \<Rightarrow> string list \<Rightarrow> job usage" where
  "main_job fp argv =
     (case argv of
        [] \<Rightarrow> usage_error ''the following arguments are required: command''
      | cmd # ts \<Rightarrow>
          if cmd = ''run'' then bindU (parse_opts fp RUN_OPTS ts (defaults RUN_OPTS)) (\<lambda>ns. Inr (RunNode ns))
          else if cmd = ''simulate'' then bindU (parse_opts fp SIMULATE_OPTS ts (defaults SIMULATE_OPTS)) (\<lambda>ns. Inr (SimulateExercise ns))
          else if cmd = ''bridge'' then
            (case ts of
               [] \<Rightarrow> usage_error ''the following arguments are required: kind''
             | k # rest \<Rightarrow>
                 if k \<in> set BRIDGE_KINDS then bindU (parse_opts fp BRIDGE_OPTS rest (defaults BRIDGE_OPTS)) (\<lambda>ns. Inr (BridgeAtak ns))
                 else usage_error ''invalid choice'')
          else if cmd = ''keygen'' then (if ts = [] then Inr Keygen else usage_error ''unrecognized arguments'')
          else usage_error ''invalid choice'')"

section \<open>The jobs\<close>

definition text_arg :: "namespace \<Rightarrow> string \<Rightarrow> string option" where
  "text_arg ns d = (case map_of ns d of Some (AText v) \<Rightarrow> Some v | _ \<Rightarrow> None)"

definition the_text :: "namespace \<Rightarrow> string \<Rightarrow> string" where
  "the_text ns d = (case text_arg ns d of None \<Rightarrow> [] | Some v \<Rightarrow> v)"

definition int_arg :: "namespace \<Rightarrow> string \<Rightarrow> int" where
  "int_arg ns d = (case map_of ns d of Some (AInt n) \<Rightarrow> n | _ \<Rightarrow> 0)"

definition flag_arg :: "namespace \<Rightarrow> string \<Rightarrow> bool" where
  "flag_arg ns d = (map_of ns d = Some (ABool True))"

definition bridge_args_of :: "namespace \<Rightarrow> bridge_args" where
  "bridge_args_of ns =
     \<lparr> ba_cot_group = the_text ns ''cot_group'', ba_cot_port = int_arg ns ''cot_port'', ba_cot_stale = int_arg ns ''cot_stale'',
       ba_tak_server = text_arg ns ''tak_server'', ba_tak_tls = flag_arg ns ''tak_tls'', ba_tak_cert = text_arg ns ''tak_cert'',
       ba_tak_key = text_arg ns ''tak_key'', ba_tak_cacert = text_arg ns ''tak_cacert'', ba_tak_insecure = flag_arg ns ''tak_insecure'' \<rparr>"

definition bridge_job :: "file_formats \<Rightarrow> config_io \<Rightarrow> disk \<Rightarrow> world \<Rightarrow> namespace \<Rightarrow> atak_node result" where
  "bridge_job F io D W ns =
     bindR (load_config F io D (text_arg ns ''config'')) (\<lambda>cfg. bridge_of_args W cfg (bridge_args_of ns))"

definition float_arg :: "namespace \<Rightarrow> string \<Rightarrow> rat" where
  "float_arg ns d = (case map_of ns d of Some (AFloat x) \<Rightarrow> x | _ \<Rightarrow> 0)"

text \<open>\<open>mid\<close>, \<open>cid\<close> and \<open>mids\<close> are the message ids of the identification, the request and the beacons.\<close>

definition run_job :: "file_formats \<Rightarrow> config_io \<Rightarrow> disk \<Rightarrow> world \<Rightarrow> namespace \<Rightarrow> string \<Rightarrow> string \<Rightarrow> string list \<Rightarrow> (unit result \<times> gateway) result" where
  "run_job F io D W ns mid cid mids =
     bindR (load_config F io D (text_arg ns ''config'')) (\<lambda>cfg.
     bindR (gateway_init W cfg) (\<lambda>g.
     case run_node W mid (if flag_arg ns ''casevac'' then Some cid else None) mids (float_arg ns ''lat'') (float_arg ns ''lon'') g of
       (r, g', _) \<Rightarrow> Inr (r, g')))"

text \<open>What the two jobs print: a message that arrives, that the node joined, what is bridged, and the bridge's counters.\<close>

definition bracketed :: "string \<Rightarrow> string" where
  "bracketed s = CHR ''['' # s @ ''] ''"

definition message_line :: "string \<Rightarrow> message \<Rightarrow> string" where
  "message_line nid m =
     bracketed nid @ ''<< '' @ msg_type m @ '' from '' @ originator_id (header m) @ '' (seq '' @ show_int (sequence (header m)) @ '')''"

definition joined_line :: "gateway \<Rightarrow> string" where
  "joined_line g =
     (let cfg = gw_config g in
      bracketed (own_id cfg) @ ni_callsign (cfg_identity cfg) @ '' joined '' @ quoted (nc_network_id (cfg_network cfg)) @ '' on '' @
      gw_group g @ '':'' @ show_int (gw_port g) @ '' (codec='' @ pl_codec (cfg_plugins cfg) @ '', transport='' @
      pl_transport (cfg_plugins cfg) @ '', security='' @ pl_security (cfg_plugins cfg) @ '')'')"

definition cot_description :: "bridge_args \<Rightarrow> string result" where
  "cot_description a =
     (let mesh = ''CoT mesh '' @ ba_cot_group a @ '':'' @ show_int (ba_cot_port a) in
      case ba_tak_server a of
        None \<Rightarrow> Inr mesh
      | Some target \<Rightarrow>
          if target = [] then Inr mesh
          else bindR (tak_address (ba_tak_tls a) target) (\<lambda>(host, port).
            Inr (''TAK Server '' @ host @ '':'' @ show_int port @ '' ('' @ (if ba_tak_tls a then ''TLS'' else ''TCP'') @ '')'')))"

definition bridging_line :: "glyphs \<Rightarrow> bridge_args \<Rightarrow> string \<Rightarrow> gateway \<Rightarrow> string" where
  "bridging_line G a desc g =
     ''[atak-bridge] JDSS '' @ quoted (nc_network_id (cfg_network (gw_config g))) @ '' '' @ gw_group g @ '':'' @ show_int (gw_port g) @
     '' <-> '' @ desc @ '' '' @ gy_dash G # '' bridging (stale '' @ show_int (ba_cot_stale a) @ ''s). Ctrl-C to stop.''"

definition counters_line :: "glyphs \<Rightarrow> atak \<Rightarrow> string" where
  "counters_line G s =
     (let dot = [CHR '' '', CHR 0xB7, CHR '' '']; pair = (\<lambda>x y. show_nat x @ ''/'' @ show_nat y) in
      ''[atak-bridge] CoT'' @ gy_arrow G # ''JDSS '' @ pair (ab_cot_in s) (ab_jdss_out s) @ dot @
      ''JDSS'' @ gy_arrow G # ''CoT '' @ pair (ab_jdss_in s) (ab_cot_out s) @ dot @
      ''stale-dropped '' @ show_nat (ab_stale_dropped s) @ dot @ ''deletes '' @ show_nat (ab_cot_deleted s))"

text \<open>The line names the window that was asked for; the bridge keeps at least five seconds.\<close>

lemma stale_as_asked: "ab_stale (atak_init cfg 2 True) = 5"
  by (simp add: atak_init_def)

text \<open>A job that prints: the calls are the lines.\<close>

type_synonym 'a print_act = "(unit, string, 'a) act"

definition print_line :: "string \<Rightarrow> unit print_act" where
  "print_line l = callA l"

definition simulate_params :: "namespace \<Rightarrow> sim_params" where
  "simulate_params ns =
     chosen_params (the_text ns ''network'') (the_text ns ''transport'') (the_text ns ''codec'') (text_arg ns ''rogue'')"

definition spawn_line :: "glyphs \<Rightarrow> namespace \<Rightarrow> nat \<Rightarrow> string" where
  "spawn_line G ns n =
     (let extra = (case text_arg ns ''rogue'' of None \<Rightarrow> []
        | Some r \<Rightarrow> if r = [] then [] else '' + 1 rogue ('' @ quoted r @ '')'')
      in ''Spawning '' @ show_nat n @ '' JDSS-compliant clients'' @ extra @ '' on '' @ quoted (the_text ns ''network'') @ '' ('' @
         the_text ns ''codec'' @ ''/'' @ the_text ns ''transport'' @ '')'' @ [gy_dots G])"

definition matrix_title :: "glyphs \<Rightarrow> string" where
  "matrix_title G = CHR 0x0A # ''Connection matrix (messages accepted, observer '' @ gy_left G # '' originator):''"

definition verdict_line :: "glyphs \<Rightarrow> namespace \<Rightarrow> sim_report \<Rightarrow> string" where
  "verdict_line G ns R =
     CHR 0x0A # ''COMPLIANCE: '' @ (if sim_compliant (text_arg ns ''rogue'') R then ''PASS '' @ [gy_check G] else ''CHECK'')"

text \<open>\<open>range\<close> of a negative number of ticks is empty; the report of such a run says 0 ticks here.\<close>

definition simulate :: "glyphs \<Rightarrow> sim_world \<Rightarrow> namespace \<Rightarrow> (nat \<Rightarrow> (nat \<times> bytes) list) \<Rightarrow> int \<Rightarrow> unit print_act" where
  "simulate G X ns arrivals now =
     bindA (liftA (exercise_init X (simulate_params ns))) (\<lambda>s.
     thenA (print_line (spawn_line G ns (length (xs_clients s))))
     (bindA (liftA (value_of (run_exercise X (nat (int_arg ns ''ticks'')) arrivals now s))) (\<lambda>R.
      thenA (print_line (report_text G R))
      (thenA (if flag_arg ns ''matrix'' then thenA (print_line (matrix_title G)) (print_line (matrix_text G R)) else retA ())
      (print_line (verdict_line G ns R))))))"

text \<open>A fresh Ed25519 key pair, private and public bytes, is the cryptography package's.\<close>

definition generate_keypair :: "bytes \<times> bytes \<Rightarrow> string \<times> string" where
  "generate_keypair kp = (hex_of_bytes (fst kp), hex_of_bytes (snd kp))"

definition keygen :: "bytes \<times> bytes \<Rightarrow> unit print_act" where
  "keygen kp =
     (case generate_keypair kp of (priv, pub) \<Rightarrow>
        forA [''# add to the AUTHORITY node config under connections:'', ''  authority_private_key: '' @ priv,
              ''# add to EVERY node config (incl. authority) under connections:'', ''  authority_public_key: '' @ pub] print_line)"

section \<open>Accepted arguments\<close>

text \<open>What an option's value is once the arguments are accepted.\<close>

definition fits :: "opt \<Rightarrow> arg_value \<Rightarrow> bool" where
  "fits p v \<longleftrightarrow> v = op_default p \<or>
     (case op_kind p of
        TextOpt \<Rightarrow> (\<exists>s. v = AText s) | IntOpt \<Rightarrow> (\<exists>n. v = AInt n) | FloatOpt \<Rightarrow> (\<exists>x. v = AFloat x)
      | OneOf cs \<Rightarrow> (\<exists>s \<in> set cs. v = AText s) | Flag \<Rightarrow> v = ABool True)"

definition typed :: "opt list \<Rightarrow> namespace \<Rightarrow> bool" where
  "typed os ns \<longleftrightarrow> (\<forall>p \<in> set os. \<exists>v. map_of ns (op_dest p) = Some v \<and> fits p v)"

lemma bindU_Inr: "bindU r f = Inr y \<longleftrightarrow> (\<exists>x. r = Inr x \<and> f x = Inr y)"
  by (simp add: bindU_def split: sum.split)

lemma convert_fits: "convert fp (op_kind p) v = Inr x \<Longrightarrow> op_kind p \<noteq> Flag \<Longrightarrow> fits p x"
  by (cases "op_kind p") (auto simp: fits_def usage_error_def split: sum.splits option.splits if_splits)

lemma same_dest: "distinct (map op_dest os) \<Longrightarrow> p \<in> set os \<Longrightarrow> q \<in> set os \<Longrightarrow> op_dest p = op_dest q \<Longrightarrow> p = q"
  by (auto simp: distinct_map dest: inj_onD)

lemma typed_update:
  assumes "typed os ns" and "distinct (map op_dest os)" and "p \<in> set os" and "fits p v"
  shows "typed os (AList.update (op_dest p) v ns)"
  using assms same_dest [OF assms(2)] by (auto simp: typed_def)

lemma typed_defaults: "distinct (map op_dest os) \<Longrightarrow> typed os (defaults os)"
  by (auto simp: typed_def defaults_def fits_def map_of_eq_Some_iff comp_def intro!: exI)

lemma parse_typed:
  "distinct (map op_dest os) \<Longrightarrow> typed os ns \<Longrightarrow> parse_opts fp os ts ns = Inr ns' \<Longrightarrow> typed os ns'"
proof (induction fp os ts ns arbitrary: ns' rule: parse_opts.induct)
  case (2 fp os t ts ns)
  then obtain p where f: "find (\<lambda>p. t \<in> set (op_flags p)) os = Some p"
    by (auto simp: usage_error_def split: option.splits)
  then have p: "p \<in> set os" by (auto simp: find_Some_iff)
  show ?case
  proof (cases "op_kind p = Flag")
    case True
    have "typed os (AList.update (op_dest p) (ABool True) ns)"
      by (rule typed_update [OF 2(4,3) p]) (simp add: fits_def True)
    then show ?thesis using 2(1) [OF f True 2(3)] 2(5) by (simp add: f True)
  next
    case False
    then obtain v rest x where v: "ts = v # rest" "\<not> looks_like_option v" and x: "convert fp (op_kind p) v = Inr x"
      and r: "parse_opts fp os rest (AList.update (op_dest p) x ns) = Inr ns'"
      using 2(5) by (auto simp: f usage_error_def bindU_Inr split: list.splits if_splits)
    have "typed os (AList.update (op_dest p) x ns)" by (rule typed_update [OF 2(4,3) p convert_fits [OF x False]])
    then show ?thesis using 2(2) [OF f False v 2(3) _ r] by blast
  qed
qed simp

lemma option_tables:
  "distinct (map op_dest RUN_OPTS)" "distinct (map op_dest SIMULATE_OPTS)" "distinct (map op_dest BRIDGE_OPTS)"
  by (simp_all add: RUN_OPTS_def SIMULATE_OPTS_def BRIDGE_OPTS_def CONFIG_OPT_def opt_of_def)

lemma job_typed:
  assumes "main_job fp argv = Inr j"
  shows "case j of RunNode ns \<Rightarrow> typed RUN_OPTS ns | SimulateExercise ns \<Rightarrow> typed SIMULATE_OPTS ns
    | BridgeAtak ns \<Rightarrow> typed BRIDGE_OPTS ns | Keygen \<Rightarrow> True"
  using assms option_tables [THEN parse_typed] option_tables [THEN typed_defaults]
  by (auto simp: main_job_def usage_error_def bindU_Inr simp del: parse_opts.simps split: list.splits if_splits)

lemma simulate_choices:
  assumes "typed SIMULATE_OPTS ns"
  shows "the_text ns ''codec'' \<in> {''xml'', ''json'', ''arrow''}" "the_text ns ''transport'' \<in> {''loopback'', ''udp''}"
    "text_arg ns ''rogue'' \<in> {None, Some ''wrong_key'', Some ''garbage'', Some ''insider''}"
proof -
  have t: "\<exists>v. map_of ns (op_dest p) = Some v \<and> fits p v" if "p \<in> set SIMULATE_OPTS" for p
    using assms that by (simp add: typed_def)
  show "the_text ns ''codec'' \<in> {''xml'', ''json'', ''arrow''}" "the_text ns ''transport'' \<in> {''loopback'', ''udp''}"
    "text_arg ns ''rogue'' \<in> {None, Some ''wrong_key'', Some ''garbage'', Some ''insider''}"
    using t [of "SIMULATE_OPTS ! 3"] t [of "SIMULATE_OPTS ! 2"] t [of "SIMULATE_OPTS ! 5"]
    by (auto simp: SIMULATE_OPTS_def opt_of_def fits_def the_text_def text_arg_def)
qed

lemma simulate_returns:
  assumes "exercise_init X (simulate_params ns) = Inr s" and "value_of (run_exercise X (nat (int_arg ns ''ticks'')) arrivals now s) = Inr R"
  shows "simulate G X ns arrivals now () =
    (Inr (), (), [spawn_line G ns (length (xs_clients s)), report_text G R] @
       (if flag_arg ns ''matrix'' then [matrix_title G, matrix_text G R] else []) @ [verdict_line G ns R])"
  using assms by (simp add: simulate_def thenA_def bindA_def act_defs print_line_def)

lemma simulate_fails:
  assumes "exercise_init X (simulate_params ns) = Inr s" and "value_of (run_exercise X (nat (int_arg ns ''ticks'')) arrivals now s) = Inl e"
  shows "simulate G X ns arrivals now () = (Inl e, (), [spawn_line G ns (length (xs_clients s))])"
  using assms by (simp add: simulate_def thenA_def bindA_def act_defs print_line_def)

text \<open>Property C29: arguments that \<open>simulate\<close> accepts always describe an exercise that can be built: every option has a value of
  its kind or its default, the codec, bearer and rogue are among those the program has, and whatever network is
  named the exercise has its ten clients and a rogue exactly when one was asked for. If its run returns, the last
  line printed is a PASS exactly when every message type was seen, the medic acknowledged as many requests as were
  made, and the rogue, if there was one, was kept out.\<close>

theorem accepted_simulation:
  assumes "main_job fp argv = Inr (SimulateExercise ns)"
  shows "typed SIMULATE_OPTS ns \<and>
    (\<exists>s. exercise_init X (simulate_params ns) = Inr s \<and> length (xs_clients s) = 10 \<and>
       (xs_rogue s \<noteq> None \<longleftrightarrow> text_arg ns ''rogue'' \<noteq> None) \<and>
       (case value_of (run_exercise X (nat (int_arg ns ''ticks'')) arrivals now s) of
          Inl e \<Rightarrow> simulate G X ns arrivals now () = (Inl e, (), [spawn_line G ns 10])
        | Inr R \<Rightarrow>
            value_of (simulate G X ns arrivals now ()) = Inr () \<and>
            last (calls_of (simulate G X ns arrivals now ())) = CHR 0x0A # ''COMPLIANCE: '' @
              (if set ALL_TYPES \<subseteq> set (rp_types_observed R) \<and> rp_casevac_requests R \<le> rp_casevac_acks R \<and>
                  (text_arg ns ''rogue'' = None \<or> rogue_rejected R)
               then ''PASS '' @ [gy_check G] else ''CHECK'')))"
proof -
  have t: "typed SIMULATE_OPTS ns" using job_typed [OF assms] by simp
  obtain s where s: "exercise_init X (simulate_params ns) = Inr s" "length (xs_clients s) = 10"
      "xs_rogue s \<noteq> None \<longleftrightarrow> text_arg ns ''rogue'' \<noteq> None"
    using chosen_exercise_builds [OF simulate_choices(1,3) [OF t], of X] unfolding simulate_params_def by blast
  have "case value_of (run_exercise X (nat (int_arg ns ''ticks'')) arrivals now s) of
          Inl e \<Rightarrow> simulate G X ns arrivals now () = (Inl e, (), [spawn_line G ns 10])
        | Inr R \<Rightarrow>
            value_of (simulate G X ns arrivals now ()) = Inr () \<and>
            last (calls_of (simulate G X ns arrivals now ())) = CHR 0x0A # ''COMPLIANCE: '' @
              (if set ALL_TYPES \<subseteq> set (rp_types_observed R) \<and> rp_casevac_requests R \<le> rp_casevac_acks R \<and>
                  (text_arg ns ''rogue'' = None \<or> rogue_rejected R)
               then ''PASS '' @ [gy_check G] else ''CHECK'')"
    using simulate_returns [OF s(1), where arrivals = arrivals and now = now and G = G]
      simulate_fails [OF s(1), where arrivals = arrivals and now = now and G = G]
    by (auto simp: s(2) verdict_line_def sim_compliant_def all_message_types_def split: sum.split)
  with t s show ?thesis by blast
qed

section \<open>The printed matrix can be read back\<close>

text \<open>The field of a line in the column of the node with index \<open>j\<close>.\<close>

definition field_of :: "nat \<Rightarrow> string \<Rightarrow> string" where
  "field_of j l = dropWhile (\<lambda>c. c = CHR '' '') (slice (16 + COLUMN * j) (16 + COLUMN * j + COLUMN) l)"

text \<open>A line of columns of the same width.\<close>

lemma column_slice:
  assumes "\<And>x. x \<in> set xs \<Longrightarrow> length (f x) = w" and "length h = k" and "j < length xs"
  shows "slice (k + w * j) (k + w * j + w) (h @ concat (map f xs) @ rest) = f (xs ! j)"
proof -
  have x: "concat (map f xs) = concat (map f (take j xs)) @ f (xs ! j) @ concat (map f (drop (Suc j) xs))"
    using id_take_nth_drop [OF assms(3)] by (metis append.assoc concat.simps(2) concat_append list.simps(9) map_append)
  have "length (concat (map f (take j xs))) = w * j"
    using assms(1,3) by (simp add: length_concat comp_def) (subst map_cong [where g = "\<lambda>x. w"], auto simp: sum_list_triv dest: in_set_takeD)
  then show ?thesis using assms(1) [OF nth_mem [OF assms(3)]] assms(2)
    by (simp add: x slice_def)
qed

lemma strip_rjust: "take 1 s \<noteq> '' '' \<Longrightarrow> dropWhile (\<lambda>c. c = CHR '' '') (rjust w s) = s"
  by (cases s) (auto simp: rjust_def dropWhile_append)

lemma digits_not_space: "take (Suc 0) (show_nat n) \<noteq> '' ''"
  using show_nat_digits [of n] by (cases "show_nat n") (auto simp: is_digit_def)

definition cell_fits :: "glyphs \<Rightarrow> sim_report \<Rightarrow> bool" where
  "cell_fits G R \<longleftrightarrow> gy_endash G \<noteq> CHR '' '' \<and>
     (\<forall>a \<in> set (rp_nodes R). \<forall>b \<in> set (rp_nodes R). dict_get (dict_get (rp_matrix R) a []) b 0 < 10 ^ COLUMN)"

lemma row_field:
  assumes "cell_fits G R" and "obs \<in> set (rp_nodes R)" and "j < length (rp_nodes R)"
  shows "field_of j (matrix_row G R obs) = (if rp_nodes R ! j = obs then [gy_endash G]
    else show_nat (dict_get (dict_get (rp_matrix R) obs []) (rp_nodes R ! j) 0))"
proof -
  have "length (matrix_cell G R obs n) = COLUMN" if "n \<in> set (rp_nodes R)" for n
    using assms(1,2) that show_nat_width [of "dict_get (dict_get (rp_matrix R) obs []) n 0" COLUMN]
    by (auto simp: matrix_cell_def cell_fits_def COLUMN_def)
  moreover have "length (ljust 16 (short obs)) = 16" by (simp add: short_def COLUMN_def)
  ultimately have s: "slice (16 + COLUMN * j) (16 + COLUMN * j + COLUMN) (matrix_row G R obs) = matrix_cell G R obs (rp_nodes R ! j)"
    unfolding matrix_row_def by (rule column_slice [OF _ _ assms(3)])
  show ?thesis unfolding field_of_def s matrix_cell_def using assms(1)
    by (subst strip_rjust) (auto simp: cell_fits_def digits_not_space)
qed

lemma split_joined:
  assumes "ls \<noteq> []" and "list_all (\<lambda>l. CHR 0x0A \<notin> set l) ls"
  shows "split_on (CHR 0x0A) (join_lines ls) = ls"
  using assms
proof (induction ls rule: list_nonempty_induct)
  case (single x)
  then show ?case by (simp add: join_lines_def join_with_def split_on_none)
next
  case (cons x xs)
  then obtain y ys where "xs = y # ys" by (cases xs) auto
  with cons show ?case using split_on_word [of "CHR 0x0A" x] by (simp add: join_lines_def join_with_def)
qed

text \<open>No name or symbol breaks a line.\<close>

definition names_ok :: "glyphs \<Rightarrow> sim_report \<Rightarrow> bool" where
  "names_ok G R \<longleftrightarrow> CHR 0x0A \<notin> {gy_endash G, gy_implies G} \<and> list_all (\<lambda>n. CHR 0x0A \<notin> set n) (rp_nodes R) \<and>
     (case rp_rogue_node R of None \<Rightarrow> True | Some n \<Rightarrow> CHR 0x0A \<notin> set n)"

lemma newline_free:
  "CHR 0x0A \<notin> set s \<Longrightarrow> CHR 0x0A \<notin> set (ljust n s)" "CHR 0x0A \<notin> set s \<Longrightarrow> CHR 0x0A \<notin> set (rjust n s)"
  "CHR 0x0A \<notin> set s \<Longrightarrow> CHR 0x0A \<notin> set (short s)" "CHR 0x0A \<notin> set (show_nat k)"
  using show_nat_digits [of k]
  by (auto simp: ljust_def rjust_def short_def list_all_iff is_digit_def dest: in_set_takeD)

lemma lines_free:
  assumes "names_ok G R"
  shows "list_all (\<lambda>l. CHR 0x0A \<notin> set l) (matrix_lines G R)"
proof -
  have n: "CHR 0x0A \<notin> set n" if "n \<in> set (rp_nodes R)" for n
    using assms that by (auto simp: names_ok_def list_all_iff)
  have e: "CHR 0x0A \<noteq> gy_endash G" "CHR 0x0A \<noteq> gy_implies G" using assms by (auto simp: names_ok_def)
  have c: "CHR 0x0A \<notin> set (matrix_cell G R a b)" for a b
    unfolding matrix_cell_def using e by (intro newline_free(2)) (simp add: newline_free(4))
  have "CHR 0x0A \<notin> set (matrix_row G R a)" if "a \<in> set (rp_nodes R)" for a
    using c newline_free(1) [OF newline_free(3) [OF n [OF that]]] by (auto simp: matrix_row_def)
  moreover have "CHR 0x0A \<notin> set (ljust 16 (''observer '' @ CHR 0x5C # '' from''))" by (rule newline_free(1)) simp
  moreover have "CHR 0x0A \<notin> set (rjust COLUMN (short m))" if "m \<in> set (rp_nodes R)" for m
    by (rule newline_free(2)) (rule newline_free(3) [OF n [OF that]])
  ultimately show ?thesis using assms e
    by (cases "rp_rogue_node R") (auto simp: matrix_lines_def list_all_iff names_ok_def quoted_def)
qed

lemma matrix_line:
  assumes "names_ok G R" and "i < length (rp_nodes R)"
  shows "split_on (CHR 0x0A) (matrix_text G R) ! Suc i = matrix_row G R (rp_nodes R ! i)"
proof -
  have "rp_nodes R \<noteq> []" using assms(2) by auto
  then have "split_on (CHR 0x0A) (matrix_text G R) = matrix_lines G R"
    using split_joined [OF _ lines_free [OF assms(1)]] by (simp add: matrix_text_def matrix_lines_def)
  then show ?thesis using assms(2) by (simp add: matrix_lines_def nth_append)
qed

text \<open>The connection matrix that is printed can be read back: as long as no count has more than eleven digits
  and no name contains a line break, the line of an observer has in the column of each other node exactly the
  number of that node's messages the observer accepted, and a dash in its own, however many nodes there are
  and however long their names.\<close>

theorem matrix_reads_back:
  assumes "cell_fits G R" and "names_ok G R" and "i < length (rp_nodes R)" and "j < length (rp_nodes R)"
  shows "field_of j (split_on (CHR 0x0A) (matrix_text G R) ! Suc i) =
    (if rp_nodes R ! j = rp_nodes R ! i then [gy_endash G]
     else show_nat (dict_get (dict_get (rp_matrix R) (rp_nodes R ! i) []) (rp_nodes R ! j) 0)) \<and>
    (rp_nodes R ! j \<noteq> rp_nodes R ! i \<longrightarrow>
      nat_of_digits (field_of j (split_on (CHR 0x0A) (matrix_text G R) ! Suc i)) =
        dict_get (dict_get (rp_matrix R) (rp_nodes R ! i) []) (rp_nodes R ! j) 0)"
  unfolding matrix_line [OF assms(2,3)] row_field [OF assms(1) nth_mem [OF assms(3)] assms(4)] by simp

section \<open>Keys\<close>

text \<open>The keys \<open>keygen\<close> prints are read by a node's start as the very bytes of the pair, so that what an authority signs
  with one is verified with the other.\<close>

lemma keys_usable:
  assumes "length (fst kp) = 32" and "length (snd kp) = 32" and "generate_keypair kp = (priv, pub)"
  shows "opt_key True (Some priv) = Inr (Some (fst kp))" "opt_key True (Some pub) = Inr (Some (snd kp))"
proof -
  have "hex_of_bytes b \<noteq> []" if "length b = 32" for b
    using from_hex_of_bytes [of b] that by (metis from_hex.simps(1) length_0_conv option.inject zero_neq_numeral)
  then show "opt_key True (Some priv) = Inr (Some (fst kp))" "opt_key True (Some pub) = Inr (Some (snd kp))"
    using assms by (auto simp: generate_keypair_def opt_key_def parse_key_def)
qed

lemma keys_verify:
  assumes "\<And>p. ed_verify ed (snd kp) (ed_sign ed (fst kp) p) p"
  shows "verifier_verify ed (snd kp) p (signer_sign ed (fst kp) p)"
  by (simp add: verifier_verify_def signer_sign_def assms)

section \<open>Witnesses\<close>

definition demo_glyphs :: glyphs where
  "demo_glyphs = \<lparr> gy_dash = CHR ''-'', gy_endash = CHR ''-'', gy_check = CHR ''+'', gy_cross = CHR ''x'', gy_arrow = CHR ''>'',
     gy_implies = CHR ''>'', gy_left = CHR ''<'', gy_dots = CHR ''.'' \<rparr>"

definition demo_argv :: "string list" where
  "demo_argv = [''simulate'', ''--rogue'', ''insider'', ''--matrix'', ''--ticks'', ''3'']"

lemma demo_parses:
  "main_job (\<lambda>_. None) demo_argv = Inr (SimulateExercise [(''ticks'', AInt 3), (''interval'', AFloat (1 / 20)),
     (''transport'', AText ''loopback''), (''codec'', AText ''xml''), (''network'', AText ''exercise-jdss''),
     (''rogue'', AText ''insider''), (''matrix'', ABool True)])"
proof -
  have "int_of_text ''3'' = Inr 3" by code_simp
  moreover have "\<not> looks_like_option ''3''" "\<not> looks_like_option ''insider''" by (simp_all add: looks_like_option_def)
  ultimately show ?thesis
    by (simp add: main_job_def demo_argv_def SIMULATE_OPTS_def opt_of_def defaults_def bindU_def)
qed

theorem accepted_simulation_witness:
  "\<forall>X. \<exists>s. exercise_init X (chosen_params ''exercise-jdss'' ''loopback'' ''xml'' (Some ''insider'')) = Inr s \<and>
     length (xs_clients s) = 10 \<and> xs_rogue s \<noteq> None"
proof
  fix X
  show "\<exists>s. exercise_init X (chosen_params ''exercise-jdss'' ''loopback'' ''xml'' (Some ''insider'')) = Inr s \<and>
     length (xs_clients s) = 10 \<and> xs_rogue s \<noteq> None"
    using accepted_simulation [OF demo_parses, where X = X and G = demo_glyphs and arrivals = "\<lambda>_. []" and now = 0]
    by (auto simp: simulate_params_def the_text_def text_arg_def)
qed

definition demo_report :: sim_report where
  "demo_report = \<lparr> rp_network_id = ''net'', rp_transport = ''loopback'', rp_codec = ''xml'', rp_ticks = 3, rp_clients = [],
     rp_types_observed = [''Chat''], rp_casevac_requests = 0, rp_casevac_acks = 0, rp_peers = [''rogue-1''],
     rp_rogue_mode = Some ''insider'', rp_rogue_frames_sent = 4, rp_rogue_frames_rejected = 0, rp_rogue_observed = True,
     rp_nodes = [''alpha'', ''rogue-1''], rp_matrix = [(''alpha'', [(''rogue-1'', 4)]), (''rogue-1'', [(''alpha'', 17)])],
     rp_rogue_node = Some ''rogue-1'' \<rparr>"

lemma demo_report_ok: "cell_fits demo_glyphs demo_report" "names_ok demo_glyphs demo_report"
  by (simp_all add: cell_fits_def names_ok_def demo_report_def demo_glyphs_def dict_get_def COLUMN_def)

theorem matrix_reads_back_witness:
  "field_of 1 (split_on (CHR 0x0A) (matrix_text demo_glyphs demo_report) ! 1) = ''4'' \<and>
   field_of 0 (split_on (CHR 0x0A) (matrix_text demo_glyphs demo_report) ! 2) = ''17''"
proof -
  have d: "show_nat 4 = ''4''" "show_nat 17 = ''17''" by code_simp+
  have f: "length (rp_nodes demo_report) = 2" "rp_nodes demo_report ! 0 = ''alpha''" "rp_nodes demo_report ! 1 = ''rogue-1''"
      "dict_get (dict_get (rp_matrix demo_report) ''alpha'' []) ''rogue-1'' 0 = 4"
      "dict_get (dict_get (rp_matrix demo_report) ''rogue-1'' []) ''alpha'' 0 = 17"
    by (simp_all add: demo_report_def dict_get_def)
  show ?thesis
    using matrix_reads_back [OF demo_report_ok, of 0 1] matrix_reads_back [OF demo_report_ok, of 1 0]
    by (simp add: f d numeral_2_eq_2 [symmetric] flip: One_nat_def)
qed

text \<open>The line about the rogue's column is printed of a report whose rogue was heard, and which \<open>report_text\<close> calls leaked.\<close>

lemma column_line_unchecked:
  "\<not> rogue_rejected demo_report \<and> dict_get (dict_get (rp_matrix demo_report) ''alpha'' []) ''rogue-1'' 0 = 4 \<and>
   last (matrix_lines demo_glyphs demo_report) = ''(rogue '' @ quoted ''rogue-1'' @ '' column is all-zero > nobody accepts it)''"
  by (simp add: rogue_rejected_def demo_report_def dict_get_def matrix_lines_def demo_glyphs_def)

end
