(* ===== verification/Window.thy ===== *)
theory Window
  imports SimEngine WebApp
begin

text \<open>
  The desktop window of the external simulator (\<open>simulator/gui.py\<close>): its input fields and which of them are
  enabled, the worker that runs the engine until it is asked to stop, the unit table and the two logs. A
  widget is the part of the toolkit's state the code reads or writes. Formatted numbers and times, and the
  symbols outside the model's code points, are parameters (\<open>win_env\<close>, \<open>event_note\<close>).
\<close>

section \<open>State\<close>

datatype widget =
    WScenario | WMode | WUrl | WSecure | WAck | WTransport | WCodec | WNetwork | WPsk | WClass | WInterval | WStress
  | WOperators | WStart | WStop

record inputs =
  ip_scenario :: string
  ip_mode :: string
  ip_url :: string
  ip_secure :: bool
  ip_ack :: bool
  ip_transport :: string
  ip_codec :: string
  ip_network :: string
  ip_psk :: string
  ip_class :: nat
  ip_interval :: rat
  ip_stress :: bool
  ip_operators :: nat

record worker =
  wk_scenario :: scenario
  wk_interval :: rat
  wk_options :: sim_options
  wk_stop :: bool

record window =
  wn_inputs :: inputs
  wn_enabled :: "widget set"
  wn_rows :: "(string, nat) dict"
  wn_table :: "string list list"
  wn_sent_log :: "string list"
  wn_recv_log :: "string list"
  wn_status :: string
  wn_worker :: "worker option"

record win_env =
  we_f :: fenv
  we_fixed :: "nat \<Rightarrow> rat \<Rightarrow> string"
  we_dash :: char
  we_up :: char
  we_down :: char

definition win_scenarios :: "win_env \<Rightarrow> (string, scenario) dict" where
  "win_scenarios V = SCENARIOS (we_f V) [we_dash V]"

definition STRESS_OPERATORS :: nat where
  "STRESS_OPERATORS = 500"

definition DEFAULT_URL :: string where
  "DEFAULT_URL = ''http://localhost:8000''"

section \<open>Enabling\<close>

definition set_enabled :: "widget set \<Rightarrow> bool \<Rightarrow> window \<Rightarrow> window" where
  "set_enabled ws on w = w\<lparr>wn_enabled := (if on then wn_enabled w \<union> ws else wn_enabled w - ws)\<rparr>"

definition mode_changed :: "window \<Rightarrow> window" where
  "mode_changed w =
     (let inject = (ip_mode (wn_inputs w) = ''inject'') in
      set_enabled {WSecure, WTransport, WNetwork, WPsk} (\<not> inject) (set_enabled {WUrl} inject w))"

definition stress_changed :: "bool \<Rightarrow> window \<Rightarrow> window" where
  "stress_changed on = set_enabled {WOperators} on"

definition input_widgets :: "widget set" where
  "input_widgets = {WScenario, WMode, WUrl, WSecure, WAck, WTransport, WCodec, WNetwork, WPsk, WClass, WInterval, WStress}"

definition set_inputs :: "bool \<Rightarrow> window \<Rightarrow> window" where
  "set_inputs on w = set_enabled {WOperators} (on \<and> ip_stress (wn_inputs w)) (set_enabled input_widgets on w)"

text \<open>The scenario box holds the keys of the catalogue only.\<close>

definition scenario_changed :: "win_env \<Rightarrow> window \<Rightarrow> window" where
  "scenario_changed V w =
     (case map_of (win_scenarios V) (ip_scenario (wn_inputs w)) of
        None \<Rightarrow> w
      | Some sc \<Rightarrow> w\<lparr>wn_inputs := (wn_inputs w)\<lparr>ip_network := sn_network_id sc\<rparr>, wn_status := sn_description sc\<rparr>)"

definition default_inputs :: inputs where
  "default_inputs = \<lparr> ip_scenario = ''eben_emael'', ip_mode = ''inject'', ip_url = DEFAULT_URL, ip_secure = True, ip_ack = True,
     ip_transport = ''udp'', ip_codec = ''xml'', ip_network = [], ip_psk = ''jdss-coalition-key'', ip_class = 1, ip_interval = 1,
     ip_stress = False, ip_operators = STRESS_OPERATORS \<rparr>"

definition window_init :: "win_env \<Rightarrow> window" where
  "window_init V =
     (mode_changed (scenario_changed V
       \<lparr> wn_inputs = default_inputs, wn_enabled = UNIV - {WOperators, WStop}, wn_rows = [], wn_table = [], wn_sent_log = [],
         wn_recv_log = [], wn_status = [], wn_worker = None \<rparr>))
     \<lparr>wn_status := ''Idle '' @ we_dash V # '' pick a scenario and Start.''\<rparr>"

section \<open>Control\<close>

definition worker_of :: "win_env \<Rightarrow> inputs \<Rightarrow> worker option" where
  "worker_of V i =
     map_option (\<lambda>sc. \<lparr> wk_scenario = sc, wk_interval = max (fl (we_f V) (1 / 10)) (ip_interval i),
       wk_options = \<lparr> so_secure = ip_secure i, so_transport = ip_transport i, so_codec = ip_codec i,
         so_network_id = (if py_strip (ip_network i) = [] then None else Some (py_strip (ip_network i))), so_psk = ip_psk i,
         so_classification = int (ip_class i), so_mode = ip_mode i, so_gateway_url = or_else (py_strip (ip_url i)) DEFAULT_URL,
         so_seed = 1337, so_stress = (if ip_stress i then ip_operators i else 0), so_auto_ack = ip_ack i \<rparr>,
       wk_stop = False \<rparr>) (map_of (win_scenarios V) (ip_scenario i))"

definition start_clicked :: "win_env \<Rightarrow> window \<Rightarrow> window" where
  "start_clicked V w =
     set_inputs False (set_enabled {WStop} True (set_enabled {WStart} False
       (w\<lparr>wn_table := [], wn_rows := [], wn_sent_log := [], wn_recv_log := [], wn_worker := worker_of V (wn_inputs w)\<rparr>)))"

definition stop_clicked :: "window \<Rightarrow> window" where
  "stop_clicked w =
     (case wn_worker w of
        None \<Rightarrow> w
      | Some k \<Rightarrow> set_enabled {WStop} False (w\<lparr>wn_worker := Some (k\<lparr>wk_stop := True\<rparr>)\<rparr>))"

definition on_finished :: "window \<Rightarrow> window" where
  "on_finished w = (mode_changed (set_inputs True (set_enabled {WStop} False (set_enabled {WStart} True w))))\<lparr>wn_worker := None\<rparr>"

section \<open>What the user does\<close>

datatype user_act =
    SetScenario string | SetMode string | SetUrl string | SetSecure bool | SetAck bool | SetTransport string | SetCodec string
  | SetNetwork string | SetPsk string | SetClass nat | SetInterval rat | SetStress bool | SetOperators nat
  | ClickStart | ClickStop

fun widget_of :: "user_act \<Rightarrow> widget" where
  "widget_of (SetScenario _) = WScenario"
| "widget_of (SetMode _) = WMode"
| "widget_of (SetUrl _) = WUrl"
| "widget_of (SetSecure _) = WSecure"
| "widget_of (SetAck _) = WAck"
| "widget_of (SetTransport _) = WTransport"
| "widget_of (SetCodec _) = WCodec"
| "widget_of (SetNetwork _) = WNetwork"
| "widget_of (SetPsk _) = WPsk"
| "widget_of (SetClass _) = WClass"
| "widget_of (SetInterval _) = WInterval"
| "widget_of (SetStress _) = WStress"
| "widget_of (SetOperators _) = WOperators"
| "widget_of ClickStart = WStart"
| "widget_of ClickStop = WStop"

definition on_inputs :: "(inputs \<Rightarrow> inputs) \<Rightarrow> window \<Rightarrow> window" where
  "on_inputs f w = w\<lparr>wn_inputs := f (wn_inputs w)\<rparr>"

text \<open>The boxes offer the catalogue's keys, two modes, two transports, three codecs, four classifications and
  bounded numbers.\<close>

fun offers :: "win_env \<Rightarrow> user_act \<Rightarrow> bool" where
  "offers V (SetScenario k) \<longleftrightarrow> k \<in> set (map fst (win_scenarios V))"
| "offers V (SetMode m) \<longleftrightarrow> m \<in> {''inject'', ''multicast''}"
| "offers V (SetTransport t) \<longleftrightarrow> t \<in> {''udp'', ''loopback''}"
| "offers V (SetCodec c) \<longleftrightarrow> c \<in> {''xml'', ''json'', ''arrow''}"
| "offers V (SetClass n) \<longleftrightarrow> n \<le> 3"
| "offers V (SetInterval x) \<longleftrightarrow> fl (we_f V) (1 / 10) \<le> x \<and> x \<le> 10"
| "offers V (SetOperators n) \<longleftrightarrow> 1 \<le> n \<and> n \<le> 5000"
| "offers V _ \<longleftrightarrow> True"

fun act_on :: "win_env \<Rightarrow> user_act \<Rightarrow> window \<Rightarrow> window" where
  "act_on V (SetScenario k) w =
     (if k = ip_scenario (wn_inputs w) then w else scenario_changed V (on_inputs (ip_scenario_update (\<lambda>_. k)) w))"
| "act_on V (SetMode m) w = mode_changed (on_inputs (ip_mode_update (\<lambda>_. m)) w)"
| "act_on V (SetUrl u) w = on_inputs (ip_url_update (\<lambda>_. u)) w"
| "act_on V (SetSecure b) w = on_inputs (ip_secure_update (\<lambda>_. b)) w"
| "act_on V (SetAck b) w = on_inputs (ip_ack_update (\<lambda>_. b)) w"
| "act_on V (SetTransport t) w = on_inputs (ip_transport_update (\<lambda>_. t)) w"
| "act_on V (SetCodec c) w = on_inputs (ip_codec_update (\<lambda>_. c)) w"
| "act_on V (SetNetwork n) w = on_inputs (ip_network_update (\<lambda>_. n)) w"
| "act_on V (SetPsk p) w = on_inputs (ip_psk_update (\<lambda>_. p)) w"
| "act_on V (SetClass n) w = on_inputs (ip_class_update (\<lambda>_. n)) w"
| "act_on V (SetInterval x) w = on_inputs (ip_interval_update (\<lambda>_. x)) w"
| "act_on V (SetStress b) w = stress_changed b (on_inputs (ip_stress_update (\<lambda>_. b)) w)"
| "act_on V (SetOperators n) w = on_inputs (ip_operators_update (\<lambda>_. n)) w"
| "act_on V ClickStart w = start_clicked V w"
| "act_on V ClickStop w = stop_clicked w"

text \<open>The toolkit delivers what the user does to an enabled widget only, and no change to the item that is chosen already.\<close>

definition user :: "win_env \<Rightarrow> user_act \<Rightarrow> window \<Rightarrow> window" where
  "user V a w = (if widget_of a \<in> wn_enabled w \<and> offers V a then act_on V a w else w)"

section \<open>Events of the engine\<close>

text \<open>What an event carries besides the values of \<open>sim_event\<close>: its time and detail, and the rate and duration of a tick.\<close>

record event_note =
  en_time :: string
  en_detail :: string
  en_rate :: rat
  en_elapsed :: int

definition LOG_BLOCKS :: nat where
  "LOG_BLOCKS = 2000"

text \<open>A log takes one block per line of the text and keeps the newest \<open>LOG_BLOCKS\<close>.\<close>

definition sent_block :: "string \<Rightarrow> window \<Rightarrow> window" where
  "sent_block b w = w\<lparr>wn_sent_log := deque_append LOG_BLOCKS b (wn_sent_log w)\<rparr>"

definition recv_block :: "string \<Rightarrow> window \<Rightarrow> window" where
  "recv_block b w = w\<lparr>wn_recv_log := deque_append LOG_BLOCKS b (wn_recv_log w)\<rparr>"

definition blocks :: "string \<Rightarrow> string list" where
  "blocks text = split_on (CHR 0x0A) text"

definition show_status :: "win_env \<Rightarrow> string \<Rightarrow> window \<Rightarrow> window" where
  "show_status V text w = fold sent_block (blocks (we_dash V # '' '' @ text)) (w\<lparr>wn_status := text\<rparr>)"

definition row_cells :: "win_env \<Rightarrow> string \<Rightarrow> string \<Rightarrow> string \<Rightarrow> rat \<Rightarrow> rat \<Rightarrow> rat \<Rightarrow> rat \<Rightarrow> nat \<Rightarrow> string list" where
  "row_cells V callsign nation role lat lon course speed sent =
     [callsign, nation, role, we_fixed V 4 lat, we_fixed V 4 lon, we_fixed V 0 course, we_fixed V 1 speed, show_nat sent]"

definition update_unit :: "string \<Rightarrow> string list \<Rightarrow> window \<Rightarrow> window" where
  "update_unit nid cells w =
     (let w1 = (if nid \<in> set (map fst (wn_rows w)) then w
                else w\<lparr>wn_table := wn_table w @ [replicate 8 []], wn_rows := AList.update nid (length (wn_table w)) (wn_rows w)\<rparr>)
      in w1\<lparr>wn_table := (wn_table w1)[dict_get (wn_rows w1) nid 0 := cells]\<rparr>)"

definition append_sent :: "win_env \<Rightarrow> event_note \<Rightarrow> string \<Rightarrow> string \<Rightarrow> window \<Rightarrow> window" where
  "append_sent V n callsign ty =
     fold sent_block (blocks (en_time n @ ''  '' @ we_up V # '' '' @ ljust 12 callsign @ '' '' @ ljust 15 ty @ '' '' @ en_detail n))"

definition append_recv :: "win_env \<Rightarrow> event_note \<Rightarrow> string \<Rightarrow> string option \<Rightarrow> string option \<Rightarrow> window \<Rightarrow> window" where
  "append_recv V n origin callsign ty =
     (let cs = (if SimEngine.truthy callsign then '' ('' @ the callsign @ '')'' else []) in
      fold recv_block (blocks (en_time n @ ''  '' @ we_down V # '' '' @ origin @ ljust 12 cs @ '' '' @
        (case ty of None \<Rightarrow> ''None'' | Some x \<Rightarrow> x))))"

definition stats_text :: "win_env \<Rightarrow> event_note \<Rightarrow> nat \<Rightarrow> nat \<Rightarrow> nat \<Rightarrow> nat \<Rightarrow> nat \<Rightarrow> string" where
  "stats_text V n nodes sent received tick_no stress =
     (let dot = [CHR '' '', CHR 0xB7, CHR '' ''] in
      ''tick '' @ show_nat tick_no @ dot @ show_nat nodes @ '' units'' @ dot @ show_nat sent @ '' sent'' @ dot @
        show_nat received @ '' received'' @
        (if stress = 0 then []
         else dot @ we_fixed V 0 (en_rate n) @ '' msg/s'' @ dot @ ''tick '' @ show_int (en_elapsed n) @ '' ms''))"

fun show_event :: "win_env \<Rightarrow> event_note \<Rightarrow> sim_event \<Rightarrow> window \<Rightarrow> window" where
  "show_event V n (UnitRow nid callsign nation role lat lon course speed sent cycles) w =
     update_unit nid (row_cells V callsign nation role lat lon course speed sent) w"
| "show_event V n (SentMessage nid callsign ty place) w = append_sent V n callsign ty w"
| "show_event V n (GotMessage origin callsign ty) w = append_recv V n origin callsign ty w"
| "show_event V n (Stats nodes sent received tick_no stress) w =
     w\<lparr>wn_status := stats_text V n nodes sent received tick_no stress\<rparr>"
| "show_event V n (Status text) w = show_status V text w"

definition show_events :: "win_env \<Rightarrow> (event_note \<times> sim_event) list \<Rightarrow> window \<Rightarrow> window" where
  "show_events V = fold (\<lambda>(n, e). show_event V n e)"

section \<open>The worker\<close>

text \<open>One turn of the worker's loop: a tick, and what the feed's listener meets while the worker sleeps.\<close>

definition worker_turn :: "sim_env \<Rightarrow> rat \<Rightarrow> nat \<times> feed_turn list \<Rightarrow> unit sim_act" where
  "worker_turn E dt t =
     thenA (sim_tick E dt (fst t))
     (forA (snd t) (\<lambda>x. bindA (getA sx_listening) (\<lambda>on. if on then listen E x else retA ())))"

text \<open>\<open>turns\<close> has one entry for every tick before the stop flag is seen.\<close>

definition worker_main :: "sim_env \<Rightarrow> rat \<Rightarrow> feed_turn list list \<Rightarrow> unit sim_act" where
  "worker_main E dt turns =
     finallyA (thenA (sim_start E) (forA (enumerate 0 turns) (worker_turn E dt))) sim_stop"

definition worker_run :: "sim_env \<Rightarrow> rat \<Rightarrow> feed_turn list list \<Rightarrow> unit sim_act" where
  "worker_run E dt turns = catchA (worker_main E dt turns) (\<lambda>e. status (''fatal: '' @ exn_str e))"

definition worker_engine :: "sim_env \<Rightarrow> worker \<Rightarrow> sim" where
  "worker_engine E k = sim_init E (wk_scenario k) (wk_options k)"

section \<open>The window in every state it reaches\<close>

text \<open>What is enabled while no worker runs, and the invariant of the controls, the table and the logs.\<close>

definition idle_widgets :: "inputs \<Rightarrow> widget set" where
  "idle_widgets i =
     {WScenario, WMode, WAck, WCodec, WClass, WInterval, WStress, WStart} \<union>
     (if ip_mode i = ''inject'' then {WUrl} else {WSecure, WTransport, WNetwork, WPsk}) \<union> (if ip_stress i then {WOperators} else {})"

definition controls_ok :: "win_env \<Rightarrow> window \<Rightarrow> bool" where
  "controls_ok V w \<longleftrightarrow>
     map_of (win_scenarios V) (ip_scenario (wn_inputs w)) \<noteq> None \<and>
     (case wn_worker w of
        None \<Rightarrow> wn_enabled w = idle_widgets (wn_inputs w)
      | Some k \<Rightarrow> wn_enabled w = (if wk_stop k then {} else {WStop}) \<and> worker_of V (wn_inputs w) = Some (k\<lparr>wk_stop := False\<rparr>))"

definition table_ok :: "window \<Rightarrow> bool" where
  "table_ok w \<longleftrightarrow> distinct (map fst (wn_rows w)) \<and> map snd (wn_rows w) = [0..<length (wn_table w)] \<and>
     list_all (\<lambda>r. length r = 8) (wn_table w)"

definition logs_ok :: "window \<Rightarrow> bool" where
  "logs_ok w \<longleftrightarrow> length (wn_sent_log w) \<le> LOG_BLOCKS \<and> length (wn_recv_log w) \<le> LOG_BLOCKS"

text \<open>The user acts at any time; a worker's events arrive while it is there, and at last it finishes.\<close>

inductive win_step :: "win_env \<Rightarrow> window \<Rightarrow> window \<Rightarrow> bool" for V where
  acted: "win_step V w (user V a w)"
| shown: "wn_worker w \<noteq> None \<Longrightarrow> win_step V w (show_event V n e w)"
| finished: "wn_worker w \<noteq> None \<Longrightarrow> win_step V w (on_finished w)"

inductive win_reach :: "win_env \<Rightarrow> window \<Rightarrow> bool" for V where
  opened: "win_reach V (window_init V)"
| moved: "win_reach V w \<Longrightarrow> win_step V w w' \<Longrightarrow> win_reach V w'"

interpretation sent_view: bounded_log sent_block wn_sent_log "\<lambda>w. LOG_BLOCKS"
  by unfold_locales (simp_all add: sent_block_def)

interpretation recv_view: bounded_log recv_block wn_recv_log "\<lambda>w. LOG_BLOCKS"
  by unfold_locales (simp_all add: recv_block_def)

text \<open>What each operation leaves alone.\<close>

lemma block_folds [simp]:
  "wn_recv_log (fold sent_block bs w) = wn_recv_log w" "wn_sent_log (fold recv_block bs w) = wn_sent_log w"
  "wn_table (fold sent_block bs w) = wn_table w" "wn_table (fold recv_block bs w) = wn_table w"
  "wn_rows (fold sent_block bs w) = wn_rows w" "wn_rows (fold recv_block bs w) = wn_rows w"
  "wn_inputs (fold sent_block bs w) = wn_inputs w" "wn_inputs (fold recv_block bs w) = wn_inputs w"
  "wn_enabled (fold sent_block bs w) = wn_enabled w" "wn_enabled (fold recv_block bs w) = wn_enabled w"
  "wn_worker (fold sent_block bs w) = wn_worker w" "wn_worker (fold recv_block bs w) = wn_worker w"
  "wn_status (fold sent_block bs w) = wn_status w" "wn_status (fold recv_block bs w) = wn_status w"
  by (induction bs arbitrary: w) (simp_all add: sent_block_def recv_block_def)

lemmas show_defs = show_status_def append_sent_def append_recv_def update_unit_def Let_def

lemma show_event_controls [simp]:
  "wn_inputs (show_event V n e w) = wn_inputs w" "wn_enabled (show_event V n e w) = wn_enabled w"
  "wn_worker (show_event V n e w) = wn_worker w"
  by (cases e; simp add: show_defs)+

lemma fold_length:
  "length (wn_sent_log w) \<le> LOG_BLOCKS \<Longrightarrow> length (wn_sent_log (fold sent_block bs w)) \<le> LOG_BLOCKS"
  "length (wn_recv_log w) \<le> LOG_BLOCKS \<Longrightarrow> length (wn_recv_log (fold recv_block bs w)) \<le> LOG_BLOCKS"
  using sent_view.bounded_step recv_view.bounded_step by (induction bs arbitrary: w) auto

lemma show_event_logs: "logs_ok w \<Longrightarrow> logs_ok (show_event V n e w)"
  by (cases e) (auto simp: logs_ok_def show_defs intro!: fold_length)

lemma row_index:
  assumes "table_ok w" and "nid \<in> set (map fst (wn_rows w))"
  shows "dict_get (wn_rows w) nid 0 < length (wn_table w)"
proof -
  obtain r where r: "(nid, r) \<in> set (wn_rows w)" using assms(2) by auto
  from r have "map_of (wn_rows w) nid = Some r" using assms(1) by (simp add: table_ok_def map_of_eq_Some_iff)
  moreover have "r \<in> set (map snd (wn_rows w))" using imageI [OF r, of snd] by simp
  ultimately show ?thesis using assms(1) by (simp add: table_ok_def dict_get_def del: set_map)
qed

lemma update_new: "k \<notin> set (map fst d) \<Longrightarrow> AList.update k v d = d @ [(k, v)]"
  by (induction d) auto

lemma update_unit_table:
  assumes "table_ok w" and "length cells = 8"
  shows "table_ok (update_unit nid cells w)"
proof (cases "nid \<in> set (map fst (wn_rows w))")
  case True
  then show ?thesis using assms set_update_subset_insert [of "wn_table w" "dict_get (wn_rows w) nid 0" cells]
    by (auto simp: update_unit_def table_ok_def list_all_iff)
next
  case False
  then have "AList.update nid (length (wn_table w)) (wn_rows w) = wn_rows w @ [(nid, length (wn_table w))]"
    by (rule update_new)
  then show ?thesis using assms False set_update_subset_insert [of "wn_table w @ [replicate 8 []]"]
    by (fastforce simp: update_unit_def table_ok_def list_all_iff Let_def)
qed

lemma show_event_table: "table_ok w \<Longrightarrow> table_ok (show_event V n e w)"
  by (cases e; simp add: show_defs update_unit_table [unfolded Let_def] row_cells_def flip: update_unit_def) (simp_all add: table_ok_def)

lemma mode_rest [simp]:
  "wn_inputs (mode_changed w) = wn_inputs w" "wn_worker (mode_changed w) = wn_worker w" "wn_table (mode_changed w) = wn_table w"
  "wn_rows (mode_changed w) = wn_rows w" "wn_sent_log (mode_changed w) = wn_sent_log w"
  "wn_recv_log (mode_changed w) = wn_recv_log w" "wn_status (mode_changed w) = wn_status w"
  by (simp_all add: mode_changed_def set_enabled_def Let_def)

lemma set_enabled_rest [simp]:
  "wn_inputs (set_enabled ws b w) = wn_inputs w" "wn_worker (set_enabled ws b w) = wn_worker w"
  "wn_table (set_enabled ws b w) = wn_table w" "wn_rows (set_enabled ws b w) = wn_rows w"
  "wn_sent_log (set_enabled ws b w) = wn_sent_log w" "wn_recv_log (set_enabled ws b w) = wn_recv_log w"
  "wn_status (set_enabled ws b w) = wn_status w"
  "wn_enabled (set_enabled ws b w) = (if b then wn_enabled w \<union> ws else wn_enabled w - ws)"
  by (simp_all add: set_enabled_def)

lemma set_inputs_rest [simp]:
  "wn_inputs (set_inputs b w) = wn_inputs w" "wn_worker (set_inputs b w) = wn_worker w"
  "wn_table (set_inputs b w) = wn_table w" "wn_rows (set_inputs b w) = wn_rows w"
  "wn_sent_log (set_inputs b w) = wn_sent_log w" "wn_recv_log (set_inputs b w) = wn_recv_log w"
  "wn_status (set_inputs b w) = wn_status w"
  by (simp_all add: set_inputs_def)

text \<open>Starting leaves only the stop button enabled; when the worker is gone the window is as it was before. Each
  is decided for every widget.\<close>

lemma running_enabled: "wn_enabled (start_clicked V w) = {WStop}"
  by (rule set_eqI, rename_tac x, case_tac x) (simp_all add: start_clicked_def set_inputs_def input_widgets_def)

lemma finished_enabled: "wn_enabled (on_finished w) = idle_widgets (wn_inputs w)"
  by (rule set_eqI, rename_tac x, case_tac x)
    (simp_all add: on_finished_def set_inputs_def input_widgets_def mode_changed_def idle_widgets_def Let_def)

lemma mode_enabled:
  "wn_enabled w = idle_widgets i \<Longrightarrow> wn_inputs w = i\<lparr>ip_mode := m\<rparr> \<Longrightarrow> wn_enabled (mode_changed w) = idle_widgets (i\<lparr>ip_mode := m\<rparr>)"
  by (rule set_eqI, rename_tac x, case_tac x) (simp_all add: mode_changed_def idle_widgets_def Let_def)

lemma stress_enabled:
  "wn_enabled w = idle_widgets i \<Longrightarrow> wn_enabled (stress_changed b w) = idle_widgets (i\<lparr>ip_stress := b\<rparr>)"
  by (rule set_eqI, rename_tac x, case_tac x) (simp_all add: stress_changed_def idle_widgets_def)

lemma init_enabled: "wn_enabled (window_init V) = idle_widgets (wn_inputs (window_init V))"
  by (rule set_eqI, rename_tac x, case_tac x)
    (simp_all add: window_init_def scenario_changed_def win_scenarios_def SCENARIOS_def default_inputs_def mode_changed_def
      idle_widgets_def Let_def)

lemma scenario_rest:
  assumes "map_of (win_scenarios V) (ip_scenario (wn_inputs w)) = Some sc"
  shows "scenario_changed V w = w\<lparr>wn_inputs := (wn_inputs w)\<lparr>ip_network := sn_network_id sc\<rparr>, wn_status := sn_description sc\<rparr>"
  by (simp add: scenario_changed_def assms)

lemma start_works:
  assumes "map_of (win_scenarios V) (ip_scenario (wn_inputs w)) \<noteq> None"
  shows "controls_ok V (start_clicked V w)"
proof -
  obtain sc where sc: "map_of (win_scenarios V) (ip_scenario (wn_inputs w)) = Some sc" using assms by blast
  have i: "wn_inputs (start_clicked V w) = wn_inputs w" by (simp add: start_clicked_def)
  obtain k where k: "worker_of V (wn_inputs w) = Some k" "\<not> wk_stop k" by (simp add: worker_of_def sc)
  then have "wn_worker (start_clicked V w) = Some k" by (simp add: start_clicked_def)
  with k i sc show ?thesis by (simp add: controls_ok_def running_enabled)
qed

lemma act_idle:
  assumes "controls_ok V w" and "wn_worker w = None" and "offers V a" and "a \<noteq> ClickStart"
  shows "controls_ok V (act_on V a w)"
proof -
  have e: "wn_enabled w = idle_widgets (wn_inputs w)" and s: "map_of (win_scenarios V) (ip_scenario (wn_inputs w)) \<noteq> None"
    using assms(1,2) by (simp_all add: controls_ok_def)
  show ?thesis
  proof (cases a)
    case (SetScenario k)
    then have "map_of (win_scenarios V) k \<noteq> None" using assms(3) by (simp add: map_of_eq_None_iff)
    then obtain sc where "map_of (win_scenarios V) k = Some sc" by blast
    then show ?thesis using SetScenario assms(1,2) e
      by (simp add: scenario_rest on_inputs_def controls_ok_def idle_widgets_def)
  next
    case (SetMode m)
    have "wn_enabled (mode_changed (on_inputs (ip_mode_update (\<lambda>_. m)) w)) = idle_widgets ((wn_inputs w)\<lparr>ip_mode := m\<rparr>)"
      by (rule mode_enabled) (simp_all add: on_inputs_def e)
    then show ?thesis using SetMode assms(2) s by (simp add: controls_ok_def on_inputs_def)
  next
    case (SetStress b)
    have "wn_enabled (stress_changed b (on_inputs (ip_stress_update (\<lambda>_. b)) w)) = idle_widgets ((wn_inputs w)\<lparr>ip_stress := b\<rparr>)"
      by (rule stress_enabled) (simp add: on_inputs_def e)
    then show ?thesis using SetStress assms(2) s by (simp add: controls_ok_def on_inputs_def stress_changed_def)
  next
    case ClickStop
    then show ?thesis using assms(1,2) by (simp add: stop_clicked_def)
  qed (use assms e s in \<open>simp_all add: on_inputs_def controls_ok_def idle_widgets_def\<close>)
qed

lemma user_controls:
  assumes "controls_ok V w"
  shows "controls_ok V (user V a w)"
proof (cases "widget_of a \<in> wn_enabled w \<and> offers V a")
  case True
  then have u: "user V a w = act_on V a w" by (simp add: user_def)
  show ?thesis
  proof (cases "wn_worker w")
    case None
    then show ?thesis
    proof (cases "a = ClickStart")
      case True
      then show ?thesis using assms start_works unfolding u by (simp add: controls_ok_def)
    next
      case False
      then show ?thesis using act_idle assms None True unfolding u by blast
    qed
  next
    case (Some k)
    then have "wn_enabled w = (if wk_stop k then {} else {WStop})" using assms by (simp add: controls_ok_def)
    then have "widget_of a = WStop" and "\<not> wk_stop k" and e: "wn_enabled w = {WStop}" using True by (simp_all split: if_splits)
    then have "a = ClickStop" by (cases a) simp_all
    then show ?thesis using assms Some e \<open>\<not> wk_stop k\<close> unfolding u by (simp add: stop_clicked_def controls_ok_def)
  qed
qed (use assms in \<open>auto simp: user_def\<close>)

lemma finished_controls: "controls_ok V w \<Longrightarrow> controls_ok V (on_finished w)"
  using finished_enabled [of w] by (simp add: controls_ok_def on_finished_def)

text \<open>The table and the logs are touched by a start, which empties them, and by events.\<close>

definition view_ok :: "window \<Rightarrow> bool" where
  "view_ok w \<longleftrightarrow> table_ok w \<and> logs_ok w"

lemma view_cong:
  "wn_table w' = wn_table w \<Longrightarrow> wn_rows w' = wn_rows w \<Longrightarrow> wn_sent_log w' = wn_sent_log w \<Longrightarrow> wn_recv_log w' = wn_recv_log w \<Longrightarrow>
   view_ok w' = view_ok w"
  by (simp add: view_ok_def table_ok_def logs_ok_def)

lemma start_cleared [simp]:
  "wn_table (start_clicked V w) = []" "wn_rows (start_clicked V w) = []" "wn_sent_log (start_clicked V w) = []"
  "wn_recv_log (start_clicked V w) = []" "wn_inputs (start_clicked V w) = wn_inputs w"
  "wn_worker (start_clicked V w) = worker_of V (wn_inputs w)"
  by (simp_all add: start_clicked_def)

lemma act_fields:
  assumes "a \<noteq> ClickStart"
  shows "wn_table (act_on V a w) = wn_table w" "wn_rows (act_on V a w) = wn_rows w"
    "wn_sent_log (act_on V a w) = wn_sent_log w" "wn_recv_log (act_on V a w) = wn_recv_log w"
  using assms
  by (cases a; simp add: on_inputs_def scenario_changed_def stress_changed_def stop_clicked_def split: option.split)+

lemma user_view: "view_ok w \<Longrightarrow> view_ok (user V a w)"
  using act_fields [of a V w] view_cong [of "act_on V a w" w]
  by (cases "a = ClickStart") (simp_all add: user_def view_ok_def table_ok_def logs_ok_def)

lemma event_view: "view_ok w \<Longrightarrow> view_ok (show_event V n e w)"
  by (simp add: view_ok_def show_event_table show_event_logs)

lemma finished_view: "view_ok (on_finished w) = view_ok w"
  by (rule view_cong) (simp_all add: on_finished_def)

lemma init_ok: "controls_ok V (window_init V) \<and> view_ok (window_init V)"
proof -
  have "map_of (win_scenarios V) ''eben_emael'' \<noteq> None" by (simp add: win_scenarios_def SCENARIOS_def)
  then obtain sc where "map_of (win_scenarios V) ''eben_emael'' = Some sc" by blast
  then show ?thesis using init_enabled [of V]
    by (simp add: window_init_def scenario_rest default_inputs_def controls_ok_def view_ok_def table_ok_def logs_ok_def)
qed

lemma event_controls: "controls_ok V (show_event V n e w) = controls_ok V w"
  unfolding controls_ok_def show_event_controls ..

lemma step_ok: "win_step V w w' \<Longrightarrow> controls_ok V w \<Longrightarrow> view_ok w \<Longrightarrow> controls_ok V w' \<and> view_ok w'"
  by (induction rule: win_step.induct)
    (simp_all add: user_controls user_view finished_controls finished_view event_view event_controls)

lemma reach_ok: "win_reach V w \<Longrightarrow> controls_ok V w \<and> view_ok w"
  by (induction rule: win_reach.induct) (use init_ok step_ok in blast)+

text \<open>Property C37: in every state the window reaches, the controls tell the truth: without a worker exactly the
  inputs that matter for the chosen mode and load are enabled, together with Start; with one only Stop
  is, until it is pressed, and the worker runs with just the options the window shows. The unit
  table has eight cells in each row and one row per unit, and neither log grows past its bound.\<close>

theorem window_consistent:
  assumes "win_reach V w"
  shows "map_of (win_scenarios V) (ip_scenario (wn_inputs w)) \<noteq> None \<and>
    (case wn_worker w of
       None \<Rightarrow> wn_enabled w = idle_widgets (wn_inputs w)
     | Some k \<Rightarrow> wn_enabled w = (if wk_stop k then {} else {WStop}) \<and> worker_of V (wn_inputs w) = Some (k\<lparr>wk_stop := False\<rparr>)) \<and>
    distinct (map fst (wn_rows w)) \<and> map snd (wn_rows w) = [0..<length (wn_table w)] \<and>
    list_all (\<lambda>r. length r = 8) (wn_table w) \<and>
    length (wn_sent_log w) \<le> LOG_BLOCKS \<and> length (wn_recv_log w) \<le> LOG_BLOCKS"
  using reach_ok [OF assms] by (simp add: controls_ok_def view_ok_def table_ok_def logs_ok_def)

section \<open>The table is the latest row of each unit\<close>

text \<open>The rows a run showed, and what each log got.\<close>

definition shown_rows :: "win_env \<Rightarrow> (event_note \<times> sim_event) list \<Rightarrow> (string \<times> string list) list" where
  "shown_rows V evs = concat (map (\<lambda>(n, e). case e of
     UnitRow nid callsign nation role lat lon course speed sent cycles \<Rightarrow>
       [(nid, row_cells V callsign nation role lat lon course speed sent)]
   | _ \<Rightarrow> []) evs)"

definition first_seen :: "'a list \<Rightarrow> 'a list" where
  "first_seen xs = rev (remdups (rev xs))"

text \<open>One row per unit in the order the units first appeared, holding the last row of that unit.\<close>

definition latest_rows :: "(string \<times> string list) list \<Rightarrow> string list list" where
  "latest_rows rs = map (\<lambda>nid. the (map_of (rev rs) nid)) (first_seen (map fst rs))"

lemma first_seen_simps [simp]:
  "first_seen [] = []" "first_seen (xs @ [x]) = (if x \<in> set xs then first_seen xs else first_seen xs @ [x])"
  "set (first_seen xs) = set xs" "distinct (first_seen xs)"
  by (simp_all add: first_seen_def)

lemma latest_snoc:
  "latest_rows (rs @ [(nid, c)]) =
     map (\<lambda>x. if x = nid then c else the (map_of (rev rs) x)) (first_seen (map fst rs @ [nid]))"
  by (auto simp: latest_rows_def)

text \<open>The table after the rows \<open>rs\<close>: the index maps each unit to its place in the order of appearance.\<close>

definition follows :: "(string \<times> string list) list \<Rightarrow> window \<Rightarrow> bool" where
  "follows rs w \<longleftrightarrow> wn_table w = latest_rows rs \<and>
     wn_rows w = zip (first_seen (map fst rs)) [0..<length (first_seen (map fst rs))]"

lemma index_lookup:
  assumes "distinct xs" and "i < length xs"
  shows "dict_get (zip xs [0..<length xs]) (xs ! i) 0 = i"
  using assms by (simp add: dict_get_def map_of_zip_nth)

lemma update_at_index:
  assumes "distinct xs" and "i < length xs"
  shows "(map f xs)[i := c] = map (\<lambda>x. if x = xs ! i then c else f x) xs"
  using assms by (auto intro!: nth_equalityI simp: nth_list_update nth_eq_iff_index_eq)

lemma follows_update:
  assumes "follows rs w"
  shows "follows (rs @ [(nid, cells)]) (update_unit nid cells w)"
proof -
  let ?xs = "first_seen (map fst rs)"
  have t: "wn_table w = map (\<lambda>x. the (map_of (rev rs) x)) ?xs" and r: "wn_rows w = zip ?xs [0..<length ?xs]"
    using assms by (simp_all add: follows_def latest_rows_def)
  have k: "map fst (wn_rows w) = ?xs" by (simp add: r)
  show ?thesis
  proof (cases "nid \<in> set (map fst rs)")
    case True
    then obtain i where i: "i < length ?xs" "nid = ?xs ! i"
      using in_set_conv_nth [of nid ?xs] by (auto simp del: set_map)
    have u: "update_unit nid cells w = w\<lparr>wn_table := (wn_table w)[i := cells]\<rparr>"
      using True index_lookup [of ?xs i] i by (simp add: update_unit_def k r del: set_map)
    have "(wn_table w)[i := cells] = map (\<lambda>x. if x = nid then cells else the (map_of (rev rs) x)) ?xs"
      unfolding t i(2) by (rule update_at_index) (simp_all add: i(1))
    then show ?thesis unfolding follows_def u latest_snoc using True by (simp add: r del: set_map)
  next
    case False
    then have n: "nid \<notin> set (map fst (wn_rows w))" by (simp only: k first_seen_simps) simp
    have g: "dict_get (wn_rows w @ [(nid, m)]) nid 0 = m" for m
      using n map_of_eq_None_iff [of "wn_rows w" nid] by (simp add: dict_get_def map_add_def)
    have u: "update_unit nid cells w = w\<lparr>wn_table := wn_table w @ [cells], wn_rows := wn_rows w @ [(nid, length (wn_table w))]\<rparr>"
      using n g unfolding update_unit_def update_new [OF n] by (simp add: Let_def del: set_map)
    show ?thesis using False
      by (auto simp: follows_def u t r latest_snoc)
  qed
qed

lemma shown_rows_simps [simp]:
  "shown_rows V [] = []" "shown_rows V (evs @ [x]) = shown_rows V evs @ shown_rows V [x]"
  by (simp_all add: shown_rows_def)

lemma follows_event: "follows rs w \<Longrightarrow> follows (rs @ shown_rows V [(n, e)]) (show_event V n e w)"
  by (cases e) (simp_all add: shown_rows_def follows_update, simp_all add: follows_def show_status_def append_sent_def append_recv_def Let_def)

lemma show_events_simps [simp]:
  "show_events V [] w = w" "show_events V (evs @ [(n, e)]) w = show_event V n e (show_events V evs w)"
  by (simp_all add: show_events_def)

lemma follows_events: "follows (shown_rows V evs) (show_events V evs (start_clicked V w))"
proof (induction evs rule: rev_induct)
  case (snoc x evs)
  obtain n e where "x = (n, e)" by (cases x)
  then show ?case using follows_event [OF snoc.IH, of V n e] by simp
qed (simp add: follows_def latest_rows_def)

text \<open>What the logs got, block by block.\<close>

definition sent_blocks :: "win_env \<Rightarrow> (event_note \<times> sim_event) list \<Rightarrow> string list" where
  "sent_blocks V evs = concat (map (\<lambda>(n, e). case e of
     Status text \<Rightarrow> blocks (we_dash V # '' '' @ text)
   | SentMessage nid callsign ty place \<Rightarrow>
       blocks (en_time n @ ''  '' @ we_up V # '' '' @ ljust 12 callsign @ '' '' @ ljust 15 ty @ '' '' @ en_detail n)
   | _ \<Rightarrow> []) evs)"

lemma sent_blocks_event:
  "wn_sent_log (show_event V n e w) = wn_sent_log (fold sent_block (sent_blocks V [(n, e)]) w)"
proof (cases e)
  case (Status t)
  have "wn_sent_log (fold sent_block bs (w\<lparr>wn_status := t\<rparr>)) = wn_sent_log (fold sent_block bs w)" for bs
    by (induction bs rule: rev_induct) (simp_all add: sent_block_def)
  then show ?thesis by (simp add: Status show_status_def sent_blocks_def)
qed (simp_all add: sent_blocks_def append_sent_def append_recv_def update_unit_def Let_def)

lemma log_snoc: "wn_sent_log w = last_n LOG_BLOCKS hs \<Longrightarrow> wn_sent_log (fold sent_block bs w) = last_n LOG_BLOCKS (hs @ bs)"
  by (rule sent_view.history) (simp_all add: LOG_BLOCKS_def)

lemma sent_log_events: "wn_sent_log (show_events V evs (start_clicked V w)) = last_n LOG_BLOCKS (sent_blocks V evs)"
proof (induction evs rule: rev_induct)
  case (snoc x evs)
  obtain n e where x: "x = (n, e)" by (cases x)
  have "sent_blocks V (evs @ [x]) = sent_blocks V evs @ sent_blocks V [x]" by (simp add: sent_blocks_def)
  then show ?case using log_snoc [OF snoc.IH, of "sent_blocks V [x]"] by (simp add: x sent_blocks_event)
qed (simp add: sent_blocks_def last_n_def)

text \<open>Property C36: whatever events a run sends, in any number and order, the unit table holds exactly one row per unit,
  in the order the units first appeared, with the values of the unit's latest row, and the outgoing log
  the newest lines: as if table and log were computed from the whole history at once.\<close>

theorem table_is_latest:
  "wn_table (show_events V evs (start_clicked V w)) = latest_rows (shown_rows V evs) \<and>
   map fst (wn_rows (show_events V evs (start_clicked V w))) = first_seen (map fst (shown_rows V evs)) \<and>
   wn_sent_log (show_events V evs (start_clicked V w)) = last_n LOG_BLOCKS (sent_blocks V evs)"
  using follows_events [of V evs w] sent_log_events [of V evs w] by (simp add: follows_def)

section \<open>A worker's run is a run of the engine\<close>

text \<open>An operation made of the engine's steps.\<close>

definition steps :: "fenv \<Rightarrow> rng \<Rightarrow> unit sim_act \<Rightarrow> bool" where
  "steps F G m \<longleftrightarrow> (\<forall>s0 cs s. sim_run F G s0 cs s \<longrightarrow> sim_run F G s0 (cs @ calls_of (m s)) (state_of (m s)))"

lemma stepsI: "(\<And>s. sim_step F G s (calls_of (m s)) (state_of (m s))) \<Longrightarrow> steps F G m"
  unfolding steps_def by (blast intro: sim_run.step)

lemma steps_then: "steps F G m \<Longrightarrow> steps F G n \<Longrightarrow> steps F G (thenA m n)"
  unfolding steps_def
proof (intro allI impI)
  fix s0 cs s
  assume m: "\<forall>s0 cs s. sim_run F G s0 cs s \<longrightarrow> sim_run F G s0 (cs @ calls_of (m s)) (state_of (m s))"
    and n: "\<forall>s0 cs s. sim_run F G s0 cs s \<longrightarrow> sim_run F G s0 (cs @ calls_of (n s)) (state_of (n s))" and r: "sim_run F G s0 cs s"
  then have "sim_run F G s0 (cs @ calls_of (m s)) (state_of (m s))" by blast
  moreover from this n have "sim_run F G s0 ((cs @ calls_of (m s)) @ calls_of (n (state_of (m s)))) (state_of (n (state_of (m s))))" by blast
  ultimately show "sim_run F G s0 (cs @ calls_of (thenA m n s)) (state_of (thenA m n s))"
    by (simp add: thenA_parts split: sum.split)
qed

lemma steps_ret: "steps F G (retA ())"
  by (simp add: steps_def retA_def)

lemma steps_if: "steps F G m \<Longrightarrow> steps F G (bindA (getA g) (\<lambda>on. if on then m else retA ()))"
  by (auto simp: steps_def bindA_parts act_defs)

lemma steps_for: "(\<And>x. steps F G (f x)) \<Longrightarrow> steps F G (forA xs f)"
  by (induction xs) (simp_all add: steps_ret steps_then)

lemma steps_finally: "steps F G m \<Longrightarrow> steps F G f \<Longrightarrow> steps F G (finallyA m f)"
  unfolding steps_def
proof (intro allI impI)
  fix s0 cs s
  assume m: "\<forall>s0 cs s. sim_run F G s0 cs s \<longrightarrow> sim_run F G s0 (cs @ calls_of (m s)) (state_of (m s))"
    and f: "\<forall>s0 cs s. sim_run F G s0 cs s \<longrightarrow> sim_run F G s0 (cs @ calls_of (f s)) (state_of (f s))" and r: "sim_run F G s0 cs s"
  from r m have "sim_run F G s0 (cs @ calls_of (m s)) (state_of (m s))" by blast
  with f have "sim_run F G s0 ((cs @ calls_of (m s)) @ calls_of (f (state_of (m s)))) (state_of (f (state_of (m s))))" by blast
  then show "sim_run F G s0 (cs @ calls_of (finallyA m f s)) (state_of (finallyA m f s))"
    by (simp add: finallyA_def state_of_def calls_of_def case_prod_unfold)
qed

lemma main_steps: "steps (xe_f E) (xe_g E) (worker_main E dt turns)"
proof -
  have "steps (xe_f E) (xe_g E) (sim_start E)" by (rule stepsI) (rule sim_step.started [OF refl refl refl])
  moreover have "steps (xe_f E) (xe_g E) sim_stop" by (rule stepsI) (rule sim_step.stopped [OF refl])
  moreover have "steps (xe_f E) (xe_g E) (worker_turn E dt t)" for t
    unfolding worker_turn_def
    by (intro steps_then steps_for steps_if stepsI) (rule sim_step.ticked [OF refl refl refl] sim_step.listened [OF refl refl refl])+
  ultimately show ?thesis unfolding worker_main_def by (intro steps_finally steps_then steps_for)
qed

text \<open>What the worker's run leaves, and the status that is its last call.\<close>

definition at_rest :: "sim \<Rightarrow> bool" where
  "at_rest s \<longleftrightarrow> sx_stopping s \<and> sx_units s = [] \<and> sx_ack_unit s = None \<and> \<not> sx_http s \<and> \<not> sx_listening s"

lemma sim_stop_run:
  "sim_stop s = (Inr (), s\<lparr>sx_stopping := True, sx_listening := False, sx_http := False, sx_units := [], sx_ack_unit := None\<rparr>,
     [Event (Status ''stopped'')])"
  by (simp add: sim_stop_def thenA_def bindA_def status_def act_defs)

lemma main_parts:
  "at_rest (state_of (worker_main E dt turns s))"
  "\<exists>cs. calls_of (worker_main E dt turns s) = cs @ [Event (Status ''stopped'')]"
  by (simp_all add: worker_main_def finallyA_def sim_stop_run at_rest_def state_of_def calls_of_def split: prod.split)

lemma run_parts:
  obtains cs last where "calls_of (worker_run E dt turns s) = cs @ [Event (Status last)]"
    and "cs @ [Event (Status last)] = calls_of (worker_main E dt turns s) \<and> last = ''stopped'' \<or>
      cs = calls_of (worker_main E dt turns s) \<and> (\<exists>e. last = ''fatal: '' @ exn_str e)"
    and "state_of (worker_run E dt turns s) = state_of (worker_main E dt turns s)"
proof (cases "value_of (worker_main E dt turns s)")
  case (Inl e)
  have "calls_of (worker_run E dt turns s) = calls_of (worker_main E dt turns s) @ [Event (Status (''fatal: '' @ exn_str e))]"
    "state_of (worker_run E dt turns s) = state_of (worker_main E dt turns s)"
    by (simp_all add: worker_run_def catchA_parts Inl status_def callA_def)
  then show ?thesis using that by blast
next
  case (Inr x)
  have "calls_of (worker_run E dt turns s) = calls_of (worker_main E dt turns s)"
    "state_of (worker_run E dt turns s) = state_of (worker_main E dt turns s)"
    by (simp_all add: worker_run_def catchA_parts Inr)
  then show ?thesis using that main_parts(2) by metis
qed

section \<open>A run as the window shows it\<close>

definition events_of :: "sim_call list \<Rightarrow> sim_event list" where
  "events_of cs = concat (map (\<lambda>c. case c of Event e \<Rightarrow> [e] | _ \<Rightarrow> []) cs)"

lemma events_snoc: "events_of (cs @ [Event e]) = events_of cs @ [e]"
  by (simp add: events_of_def)

lemma events_mem: "e \<in> set (events_of cs) \<Longrightarrow> Event e \<in> set cs"
  by (auto simp: events_of_def split: sim_call.splits)

lemma center_fits:
  assumes "fenv_ok F" and "(k, S) \<in> set (SCENARIOS F dash)"
  shows "in_range (-88) 88 (fst (sn_center S)) \<and> in_range (-178) 178 (snd (sn_center S))"
proof -
  have f: "-88 \<le> x \<Longrightarrow> x \<le> 88 \<Longrightarrow> in_range (-88) 88 (fl F x)" "-178 \<le> x \<Longrightarrow> x \<le> 178 \<Longrightarrow> in_range (-178) 178 (fl F x)" for x
    using fl_between [OF assms(1), of "-88" x 88] fl_between [OF assms(1), of "-178" x 178] by (simp_all add: in_range_def)
  from assms(2) consider "S = eben_emael F dash" | "S = narvik F dash" | "S = luxembourg F dash"
    by (auto simp: SCENARIOS_def)
  then show ?thesis
    by cases (simp_all add: eben_emael_def narvik_def luxembourg_def point_def f)
qed

lemma worker_fits:
  assumes "fenv_ok (we_f V)" and "worker_of V i = Some k"
  shows "scenario_fits (wk_options k) (wk_scenario k)"
proof -
  obtain S where "map_of (win_scenarios V) (ip_scenario i) = Some S" and k: "wk_scenario k = S"
    using assms(2) by (auto simp: worker_of_def)
  then have "(ip_scenario i, S) \<in> set (SCENARIOS (we_f V) [we_dash V])" by (auto simp: win_scenarios_def dest: map_of_SomeD)
  then show ?thesis using shipped_ok center_fits assms(1) k by (metis scenario_fits_def)
qed

lemma main_sent_ok:
  assumes "fenv_ok (xe_f E)" and "rng_ok (xe_g E)" and "scenario_fits o' sc"
  shows "list_all (sent_ok (sx_own_ids (sim_init E sc o'))) (calls_of (worker_main E dt turns (sim_init E sc o')))"
proof -
  have "sim_run (xe_f E) (xe_g E) (sim_init E sc o') ([] @ calls_of (worker_main E dt turns (sim_init E sc o')))
      (state_of (worker_main E dt turns (sim_init E sc o')))"
    using main_steps sim_run.start unfolding steps_def by blast
  from sim_run_ok [OF this assms(1) sim_init_ok [OF assms]] show ?thesis by simp
qed

lemma shown_row_event:
  assumes "nid \<in> set (map fst (shown_rows V evs))"
  obtains e where "e \<in> set (map snd evs)" and "row_of e = Some nid"
proof -
  obtain n e where e: "(n, e) \<in> set evs" "nid \<in> set (map fst (shown_rows V [(n, e)]))"
    using assms by (force simp: shown_rows_def)
  then have "row_of e = Some nid" by (cases e) (simp_all add: shown_rows_def)
  then show ?thesis using that [of e] e(1) by force
qed

lemma show_events_controls [simp]:
  "wn_inputs (show_events V evs w) = wn_inputs w" "wn_worker (show_events V evs w) = wn_worker w"
  by (induction evs rule: rev_induct) auto

lemma finished_fields:
  "wn_inputs (on_finished w) = wn_inputs w" "wn_worker (on_finished w) = None" "wn_rows (on_finished w) = wn_rows w"
  "wn_table (on_finished w) = wn_table w" "wn_status (on_finished w) = wn_status w"
  by (simp_all add: on_finished_def)

lemma run_rows:
  assumes "fenv_ok (xe_f E)" and "rng_ok (xe_g E)" and "scenario_fits o' sc"
    and "map snd evs = events_of (calls_of (worker_run E dt turns (sim_init E sc o')))"
  shows "set (map fst (shown_rows V evs)) \<subseteq> set (sx_own_ids (sim_init E sc o'))"
proof
  fix nid assume "nid \<in> set (map fst (shown_rows V evs))"
  then obtain e where e: "e \<in> set (map snd evs)" "row_of e = Some nid" by (rule shown_row_event)
  then have c: "Event e \<in> set (calls_of (worker_run E dt turns (sim_init E sc o')))"
    unfolding assms(4) by (blast dest: events_mem)
  obtain cs last where r: "calls_of (worker_run E dt turns (sim_init E sc o')) = cs @ [Event (Status last)]"
    and m: "cs @ [Event (Status last)] = calls_of (worker_main E dt turns (sim_init E sc o')) \<or>
      cs = calls_of (worker_main E dt turns (sim_init E sc o'))"
    by (rule run_parts [of E dt turns "sim_init E sc o'"]) blast
  have "set cs \<subseteq> set (calls_of (worker_main E dt turns (sim_init E sc o')))"
    using m by (metis Un_upper1 order_refl set_append)
  moreover have "Event e \<in> set cs" using c e(2) by (auto simp: r)
  ultimately have "Event e \<in> set (calls_of (worker_main E dt turns (sim_init E sc o')))" by blast
  then have "sent_ok (sx_own_ids (sim_init E sc o')) (Event e)"
    using main_sent_ok [OF assms(1-3), of dt turns] by (simp add: list_all_iff)
  then show "nid \<in> set (sx_own_ids (sim_init E sc o'))" by (simp add: sent_ok_def e(2))
qed

lemma run_status:
  assumes "map snd evs = events_of (calls_of (worker_run E dt turns s))"
  shows "wn_status (show_events V evs w) = ''stopped'' \<or> (\<exists>t. wn_status (show_events V evs w) = ''fatal: '' @ t)"
proof -
  obtain cs last where r: "calls_of (worker_run E dt turns s) = cs @ [Event (Status last)]"
    and l: "last = ''stopped'' \<or> (\<exists>e. last = ''fatal: '' @ exn_str e)"
    by (rule run_parts [of E dt turns s]) blast
  have "map snd evs = events_of cs @ [Status last]" using assms unfolding r events_snoc .
  then obtain evs' n where "evs = evs' @ [(n, Status last)]" by (cases evs rule: rev_cases) auto
  then have "wn_status (show_events V evs w) = last" by (simp add: show_status_def)
  then show ?thesis using l by blast
qed

lemma finished_run:
  assumes "fenv_ok (xe_f E)" and "rng_ok (xe_g E)" and "we_f V = xe_f E" and k: "worker_of V (wn_inputs w) = Some k"
    and evs: "map snd evs = events_of (calls_of (worker_run E (wk_interval k) turns (worker_engine E k)))"
    and w': "w' = on_finished (show_events V evs (start_clicked V w))"
  shows "wn_worker w' = None \<and> wn_inputs w' = wn_inputs w \<and> wn_enabled w' = idle_widgets (wn_inputs w) \<and>
    (wn_status w' = ''stopped'' \<or> (\<exists>t. wn_status w' = ''fatal: '' @ t)) \<and>
    set (map fst (wn_rows w')) \<subseteq> set (sx_own_ids (worker_engine E k)) \<and>
    length (wn_table w') \<le> length (sx_own_ids (worker_engine E k))"
proof -
  let ?v = "show_events V evs (start_clicked V w)"
  have f: "follows (shown_rows V evs) ?v" by (rule follows_events)
  have ids: "set (map fst (shown_rows V evs)) \<subseteq> set (sx_own_ids (worker_engine E k))"
    using run_rows [OF assms(1,2) worker_fits [OF _ k]] assms(1,3) evs unfolding worker_engine_def by simp
  have "map fst (wn_rows w') = first_seen (map fst (shown_rows V evs))" using f by (simp add: w' finished_fields follows_def)
  then have s: "set (map fst (wn_rows w')) = set (map fst (shown_rows V evs))" by (simp only: first_seen_simps)
  have "length (wn_table w') = length (first_seen (map fst (shown_rows V evs)))"
    using f by (simp add: w' finished_fields follows_def latest_rows_def)
  also have "\<dots> = card (set (map fst (shown_rows V evs)))" using distinct_card [of "first_seen (map fst (shown_rows V evs))"] by simp
  also have "\<dots> \<le> card (set (sx_own_ids (worker_engine E k)))" using ids by (intro card_mono) simp_all
  also have "\<dots> \<le> length (sx_own_ids (worker_engine E k))" by (rule card_length)
  finally have l: "length (wn_table w') \<le> length (sx_own_ids (worker_engine E k))" .
  show ?thesis
    using run_status [OF evs, where w = "start_clicked V w" and V = V] ids l s
    by (simp add: w' finished_fields finished_enabled)
qed

lemma idle_start:
  assumes "controls_ok V w" and "WStart \<in> wn_enabled w"
  obtains k where "worker_of V (wn_inputs w) = Some k" and "user V ClickStart w = start_clicked V w"
proof -
  obtain sc where "map_of (win_scenarios V) (ip_scenario (wn_inputs w)) = Some sc" using assms(1) by (auto simp: controls_ok_def)
  then obtain k where "worker_of V (wn_inputs w) = Some k" by (auto simp: worker_of_def)
  with that show ?thesis using assms(2) by (simp add: user_def)
qed


section \<open>Witnesses\<close>

definition demo_win_env :: win_env where
  "demo_win_env = \<lparr> we_f = demo_fenv, we_fixed = (\<lambda>n x. rat_text x), we_dash = CHR ''-'', we_up = CHR ''^'', we_down = CHR ''v'' \<rparr>"

definition demo_mode :: window where
  "demo_mode = user demo_win_env (SetMode ''multicast'') (window_init demo_win_env)"

definition demo_window :: window where
  "demo_window = user demo_win_env (SetStress True) demo_mode"

lemma demo_reach: "win_reach demo_win_env demo_mode" "win_reach demo_win_env demo_window"
proof -
  show m: "win_reach demo_win_env demo_mode"
    unfolding demo_mode_def by (rule win_reach.moved [OF win_reach.opened win_step.acted])
  show "win_reach demo_win_env demo_window" unfolding demo_window_def by (rule win_reach.moved [OF m win_step.acted])
qed

lemma idle_enabled: "win_reach V w \<Longrightarrow> wn_worker w = None \<Longrightarrow> wn_enabled w = idle_widgets (wn_inputs w)"
  using reach_ok [of V w] by (simp add: controls_ok_def)

lemma demo_fields:
  "wn_worker demo_mode = None" "ip_mode (wn_inputs demo_mode) = ''multicast''"
  "wn_worker demo_window = None" "ip_mode (wn_inputs demo_window) = ''multicast''" "ip_stress (wn_inputs demo_window)"
proof -
  have "wn_worker (window_init V) = None" for V
    by (simp add: window_init_def scenario_changed_def split: option.split)
  moreover have "WMode \<in> wn_enabled (window_init V)" for V unfolding init_enabled by (simp add: idle_widgets_def)
  ultimately show m: "wn_worker demo_mode = None" "ip_mode (wn_inputs demo_mode) = ''multicast''"
    by (simp_all add: demo_mode_def user_def on_inputs_def)
  have "WStress \<in> wn_enabled demo_mode" unfolding idle_enabled [OF demo_reach(1) m(1)] by (simp add: idle_widgets_def)
  then show "wn_worker demo_window = None" "ip_mode (wn_inputs demo_window) = ''multicast''" "ip_stress (wn_inputs demo_window)"
    by (simp_all add: demo_window_def user_def on_inputs_def stress_changed_def m)
qed

theorem window_consistent_witness:
  "wn_worker demo_window = None \<and> WOperators \<in> wn_enabled demo_window \<and> WUrl \<notin> wn_enabled demo_window \<and>
   map snd (wn_rows demo_window) = [0..<length (wn_table demo_window)]"
  using window_consistent [OF demo_reach(2)] demo_fields by (simp add: idle_widgets_def)

definition demo_note :: event_note where
  "demo_note = \<lparr> en_time = ''12:00:00'', en_detail = ''contact'', en_rate = 0, en_elapsed = 0 \<rparr>"


end
