(* ===== verification/Spec2Isabelle.thy ===== *)
theory Spec2Isabelle
  imports Prelude PyText Act Symbology Json Messages Codec Sha256 Security Policy Capability Framing
    Exchange Distributor AuditLog Metrics Gossip Access Config Gateway Cot EventStream TakServer CotLog
    Servers Eud Atak Users Runtime Inject Geo Scenarios Patrol
    Relay SimEngine Profiles Exercise Muster SimManager WebApp Udp Pkcs12 ConfigFile BridgeNode Crossing
    Coalition Session Upkeep CommandLine Window
begin

text \<open>
  Verification library of JDSSArrow, a gateway for the Joint Dismounted Soldier System: nodes of a coalition
  exchange JDSSDM messages over a shared bearer, and bridges carry them to and from Cursor-on-Target (CoT)
  clients and TAK servers. The code is Python; paths below are relative to \<open>src/src/jdssarrow\<close>, and
  \<open>simulator2/\<close> stands for \<open>src/simulator\<close>.

  \<^bold>\<open>How the program works.\<close> A node is a \<open>JdssGateway\<close>, built from a configuration: a codec, a security
  provider, a transport from a loaned radio, the connection policies, the capability matrix and a metrics sink,
  around an exchange engine. Publishing stamps a message with the node's identity and marking, encodes and
  protects it, and sends a frame in a configured number of copies. A frame that arrives is unframed, verified,
  decoded, checked against policy and capabilities, deduplicated, counted and handed to the handlers. Control
  frames carry the coalition authority's policy and the digests from which each node assembles the connection
  matrix. Handlers of a node include the relays of the server manager, the EUD server and the ATAK bridge; what
  these read from CoT streams goes back into the engine under a name of its own. The web application brings a
  node and the managers up, reconfigures them and takes them down. Two simulators generate traffic: a built-in
  exercise with a rogue, and an external one that injects over HTTP or runs nodes of its own.

  \<^bold>\<open>How it is modelled.\<close> An object is a record with a field per attribute; a method is an operation
  \<open>('s, 'e, 'a) act\<close> of \<open>Act\<close>, which maps the state to a result (a value, or the exception), the state it
  leaves and the calls it makes on collaborators, in order; what ran before a raise stays done. A coroutine
  is one operation where nothing it depends on can change while it awaits, and several operations or a step
  relation where it can: \<open>tak_step\<close> (connector), \<open>servers_step\<close> and \<open>bridging\<close>, \<open>eud_step\<close>, \<open>atak_step\<close>,
  \<open>app_step\<close>, \<open>managed\<close>, \<open>sim_step\<close>, \<open>win_step\<close> (the simulator's window), \<open>coal_step\<close> (an authority and a member
  over a bad network); histories are their reflexive transitive closures, and operation lists
  (\<open>engine_op\<close>, \<open>gateway_op\<close>, \<open>sim_op\<close>, \<open>client_op\<close>) where every step is a function.

  \<^bold>\<open>Theories, in the order of the code.\<close>

  \<^item> Foundations. \<open>Prelude\<close>: exceptions, bytes, UTF-8, dictionaries, bounded deques, the locale \<open>bounded_log\<close>.
    \<open>PyText\<close>: string methods. \<open>Act\<close>: operations, with the rule families \<open>keeps\<close> (invariants), \<open>ensures\<close>
    (what is called), \<open>leads\<close> and \<open>returns\<close> (what is reached). \<open>Json\<close>: the \<open>json\<close> module on the texts the
    program signs. \<open>Sha256\<close>: SHA-256, HMAC, PBKDF2, executable.
  \<^item> Data model. \<open>Symbology\<close> (\<open>datamodel/symbology.py\<close>), \<open>Messages\<close> (\<open>datamodel/messages.py\<close>), \<open>Codec\<close>
    (\<open>datamodel/codec\<close>; locale \<open>codec_law\<close>).
  \<^item> Exchange. \<open>Framing\<close> and \<open>Exchange\<close> (\<open>iem/exchange.py\<close>; locale \<open>engine_stack\<close> of \<open>security_law\<close> and
    \<open>codec_law\<close>), \<open>Security\<close> (\<open>security/provider.py\<close>, \<open>classification.py\<close>; locale \<open>security_law\<close>), \<open>Policy\<close>
    (\<open>connections/policy.py\<close>; locale \<open>connection_policy\<close>), \<open>Capability\<close> (\<open>capabilities.py\<close>), \<open>Access\<close>
    (allocator, bearer, plugin registry, loopback transport), \<open>Udp\<close> (\<open>iem/transport_udp.py\<close>; locale
    \<open>transport_contract\<close>, kept by both transports).
  \<^item> Coalition. \<open>Distributor\<close> (\<open>connections/signing.py\<close>, \<open>distributor.py\<close>), \<open>Coalition\<close> (the rebroadcast loop and
    what a member makes of a network that loses, repeats and reorders), \<open>Gossip\<close> (\<open>monitor/gossip.py\<close>).
  \<^item> Observation. \<open>AuditLog\<close> (\<open>audit.py\<close>, \<open>monitor/telemetry_arrow.py\<close>; three interpretations of
    \<open>bounded_log\<close>), \<open>Metrics\<close> (\<open>monitor/metrics.py\<close>).
  \<^item> Node. \<open>Config\<close> (\<open>config/models.py\<close>), \<open>ConfigFile\<close> (\<open>config/loader.py\<close> and the start from a file),
    \<open>Gateway\<close> (\<open>gateway/gateway.py\<close>, \<open>node.py\<close>).
  \<^item> Bridges. \<open>Cot\<close> (\<open>bridges/cot.py\<close>), \<open>EventStream\<close> and \<open>TakServer\<close> (\<open>bridges/takserver.py\<close>), \<open>CotLog\<close>
    (\<open>web/cotlog.py\<close>; locale \<open>cot_bridge\<close>), \<open>Servers\<close> (\<open>web/servers.py\<close>), \<open>Eud\<close> (\<open>web/eud_server.py\<close>;
    locale \<open>client_inv\<close>), \<open>Atak\<close> and \<open>BridgeNode\<close> (\<open>bridges/atak.py\<close>, \<open>cli.py\<close>, the connection test and
    \<open>web/routers/ws.py\<close>), \<open>Crossing\<close> (the relays behind a gateway).
  \<^item> Web. \<open>Users\<close> (\<open>auth/users.py\<close>, \<open>web/routers/auth.py\<close>), \<open>Session\<close> (the cookie and a browser's requests), \<open>Inject\<close> (\<open>web/routers/monitor.py\<close>), \<open>Runtime\<close>
    (\<open>web/runtime.py\<close> and the endpoints that change a node), \<open>Pkcs12\<close> (\<open>security/pkcs12.py\<close>), \<open>WebApp\<close>
    (\<open>web/app.py\<close> and the endpoints that read), \<open>Upkeep\<close> (log handlers, the LAN address, TLS contexts, the
    configuration endpoint, the dashboard's directory).
  \<^item> Exercise. \<open>Profiles\<close> (\<open>simulator/profiles.py\<close>), \<open>Exercise\<close> (\<open>simulator/scenario.py\<close>, \<open>rogue.py\<close>), \<open>Muster\<close>
    (that one starts), \<open>SimManager\<close> (\<open>simulator/manager.py\<close>, \<open>web/routers/simcontrol.py\<close>), \<open>CommandLine\<close> (\<open>cli.py\<close> and
    the plain text of report and matrix).
  \<^item> External simulator. \<open>Geo\<close>, \<open>Scenarios\<close>, \<open>Patrol\<close>, \<open>Relay\<close>, \<open>SimEngine\<close>, \<open>Window\<close> (\<open>simulator2/geo.py\<close>,
    \<open>scenarios.py\<close>, \<open>engine.py\<close>, \<open>gui.py\<close>).

  \<^bold>\<open>Interfaces.\<close> \<open>codec_law\<close> is kept by the three codecs, \<open>security_law\<close> by both providers, \<open>engine_stack\<close> by the
  default stack (\<open>psk_xml\<close>) and the open one (\<open>null_json\<close>), \<open>connection_policy\<close> by every policy and their
  conjunction, \<open>bounded_log\<close> by the four logs and the window's two, \<open>transport_contract\<close> by UDP and loopback, \<open>cot_bridge\<close> (what
  comes from a peer never goes back to it) by the server manager, the EUD server and the ATAK bridge,
  \<open>client_inv\<close> by three invariants of the EUD server. Each interpretation is on the model's own definitions,
  in the theory that provides them.

  \<^bold>\<open>What is shown.\<close> Of messages: what a publisher sends is received once and counted exactly; a frame outside
  the key is silent; nothing is delivered twice within the window; blocked peers stay out; what is published is
  marked. Of state: the invariants of the cache, the gateway, the connectors' queues, the exercise, the
  manager, the credentials file. Of the authority: only signed, newer policies are taken over, a change
  reaches every trusting member, and whatever the network does equal versions mean equal admission and one round
  that arrives is enough. Of the bridges: reconciling refines the configuration, no
  echo, frames are accounted for, reading does not depend on chunking, what CoT keeps of a message. Of the web:
  who a browser is signed in as, reconfiguration, free ids, injection, coming up and going down. Of the
  simulators: positions stay on the globe, messages are valid, nothing is acknowledged twice, the rogue is unheard,
  reports tell what was sent and print so that they can be read back, accepted arguments describe an exercise that
  builds, and the window tells the truth about the run it shows and comes to rest with it. Errors are results: what each operation raises, and what it leaves when it does, is part of its lemmas.

  \<^bold>\<open>Bounds and fuel.\<close> The deduplication window is \<open>AUTO_WINDOW\<close> (4096), event queues hold \<open>QUEUE_SIZE\<close> (256), a
  connector's queue \<open>queue_max\<close> frames, the logs their capacities; all are the code's. \<open>Json.loads\<close> recurses
  with the length of the text as fuel (\<open>loads_dumps\<close>: enough for every printed value). \<open>free_id\<close> and
  \<open>deep_merge\<close> terminate by measure. A patrol tick has the code's own guard of two rounds of the route, which
  is also its fuel. \<open>Sha256\<close> cuts its input with its length as fuel. Machine integers occur as the 32-bit words of the hash
  and as the bytes of frames; Python's own integers are unbounded.

  \<^bold>\<open>Parameters.\<close> What is not in the repository is an argument: pydantic, lxml and pyarrow (\<open>codec_env\<close>, with
  each codec's \<open>_ok\<close> predicate stating where they read back what they wrote), Ed25519 (\<open>ed25519\<close>), XML, float
  and date parsing of the bridge (\<open>cot_lib\<close>), floating point rounding and \<open>math\<close> (\<open>fenv\<close>), the random generator (\<open>rng\<close>),
  YAML and TOML (\<open>file_formats\<close>), the cryptography package (\<open>pkcs12_lib\<close>), the operating system's answers, clocks and
  fresh ids. Hypotheses about them are named and have witnesses on concrete functions.

  \<^bold>\<open>Not modelled.\<close> The generator of the manual (\<open>src/docs/generate_docs.py\<close>), which writes fixed text with a
  document library; layout, colours and tool tips of the desktop window; abbreviated options and \<open>--option=value\<close>
  of the argument parser, and signals, which end a run where its list of beacons or turns ends; route
  registration and static files of \<open>web/app.py\<close>; sockets and tasks of asyncio beyond what a step says of them;
  the Prometheus text format; code points from 256 up (a text that has them is outside the model, and the literals
  that do are arguments). That a receiver's
  handler raises into the sender over the loopback transport (\<open>asyncio.gather\<close> in \<open>iem/transport_loopback.py\<close>)
  is not part of a send here: deliveries are operations of their own.
\<close>

section \<open>From one node's operator to another node's clients\<close>



end
